(* ===== verification/Prelude.thy ===== *)
theory Prelude
  imports Complex_Main "HOL-Library.Char_ord" "HOL-Library.List_Lexorder" "HOL-Library.Product_Lexorder"
begin

text \<open>
  Shared vocabulary of the development: the error type of \<^verbatim>\<open>error.rs\<close>, the text
  functions of the Rust standard library that the program calls on names and
  identifiers, JSON values, and generic lemmas on lists.

  A Rust \<^verbatim>\<open>String\<close> is its UTF-8 byte sequence, here a \<^typ>\<open>string\<close> (a list of
  8-bit characters), so equality, prefixes and the ordering of strings are those of the
  code. Seconds since the epoch (\<^verbatim>\<open>f64\<close> in the code) are \<^typ>\<open>real\<close>: the model
  idealises float rounding and excludes NaN and infinities.
\<close>

named_theorems table_laws \<open>lookup after update, insert and delete on keyed tables\<close>
named_theorems store_simps \<open>what each store write does to each table\<close>

type_synonym time = real

section \<open>Errors\<close>

text \<open>
  The texts the code formats into a refusal. Each constructor is one format string of the
  source with its arguments; \<open>Text\<close> is a refusal without arguments.
\<close>

datatype message =
    Text string
  | NoTask string
  | TaskFinished string string
  | BlockFinished string string
  | TaskChanged string string
  | NotOneOf string "string list" string
  | BadScope string
  | BadPr string
  | NoLease string string
  | HasChildren string nat
  | HasDependents string "string list"
  | LiveReview string int string "string option"
  | NoHandoff string string
  | NotOwner string string "string list"
  | AuthorizationChanged string "string list"
  | UnknownChoice string
  | NoMessage string
  | NotInMailbox string string
  | NoSuchFile string
  | AttachmentTooBig string int
  | NoAttachment string
  | AttachmentMissing string

datatype dunk_error =
    Refused message
  | Retryable message
  | Ambiguous message
  | Identity message
  | Unavailable message
  | Busy

definition exit_code :: "dunk_error \<Rightarrow> int" where
  "exit_code e = (case e of
      Refused _ \<Rightarrow> 2 | Ambiguous _ \<Rightarrow> 2 | Identity _ \<Rightarrow> 2
    | Unavailable _ \<Rightarrow> 1
    | Retryable _ \<Rightarrow> 1 | Busy \<Rightarrow> 1)"

definition retryable :: "dunk_error \<Rightarrow> bool" where
  "retryable e = (case e of Retryable _ \<Rightarrow> True | Busy \<Rightarrow> True | _ \<Rightarrow> False)"

type_synonym 'a result = "dunk_error + 'a"

abbreviation ok :: "'a \<Rightarrow> 'a result" where
  "ok x \<equiv> Inr x"

abbreviation refused :: "message \<Rightarrow> 'a result" where
  "refused m \<equiv> Inl (Refused m)"

abbreviation is_ok :: "'a result \<Rightarrow> bool" where
  "is_ok r \<equiv> \<not> isl r"

text \<open>Rust's \<^verbatim>\<open>?\<close> operator.\<close>

definition try_bind :: "'a result \<Rightarrow> ('a \<Rightarrow> 'b result) \<Rightarrow> 'b result" where
  "try_bind r f = (case r of Inl e \<Rightarrow> Inl e | Inr x \<Rightarrow> f x)"

lemma try_bind_simps [simp]:
  "try_bind (Inl e) f = Inl e"
  "try_bind (Inr x) f = f x"
  by (simp_all add: try_bind_def)

lemma try_bind_Inr: "try_bind r f = Inr y \<longleftrightarrow> (\<exists>x. r = Inr x \<and> f x = Inr y)"
  by (cases r) auto

lemma retryable_exit_code: "retryable e \<Longrightarrow> exit_code e = 1"
  by (cases e) (auto simp: retryable_def exit_code_def)

section \<open>Text\<close>

text \<open>
  The UTF-8 encodings of the code points with Unicode's \<^verbatim>\<open>White_Space\<close> property, which
  \<^verbatim>\<open>str::trim\<close> removes at both ends.
\<close>

definition white_space :: "string list" where
  "white_space =
    [[CHR 0x20], [CHR 0x09], [CHR 0x0A], [CHR 0x0B], [CHR 0x0C], [CHR 0x0D],
     [CHR 0xC2, CHR 0x85], [CHR 0xC2, CHR 0xA0], [CHR 0xE1, CHR 0x9A, CHR 0x80],
     [CHR 0xE2, CHR 0x80, CHR 0x80], [CHR 0xE2, CHR 0x80, CHR 0x81],
     [CHR 0xE2, CHR 0x80, CHR 0x82], [CHR 0xE2, CHR 0x80, CHR 0x83],
     [CHR 0xE2, CHR 0x80, CHR 0x84], [CHR 0xE2, CHR 0x80, CHR 0x85],
     [CHR 0xE2, CHR 0x80, CHR 0x86], [CHR 0xE2, CHR 0x80, CHR 0x87],
     [CHR 0xE2, CHR 0x80, CHR 0x88], [CHR 0xE2, CHR 0x80, CHR 0x89],
     [CHR 0xE2, CHR 0x80, CHR 0x8A], [CHR 0xE2, CHR 0x80, CHR 0xA8],
     [CHR 0xE2, CHR 0x80, CHR 0xA9], [CHR 0xE2, CHR 0x80, CHR 0xAF],
     [CHR 0xE2, CHR 0x81, CHR 0x9F], [CHR 0xE3, CHR 0x80, CHR 0x80]]"

text \<open>The number of bytes at the front of \<open>s\<close> that one of the words \<open>ws\<close> takes.\<close>

fun front_width :: "string list \<Rightarrow> string \<Rightarrow> nat" where
  "front_width [] s = 0"
| "front_width (w # ws) s =
     (if w \<noteq> [] \<and> take (length w) s = w then length w else front_width ws s)"

function strip_front :: "string list \<Rightarrow> string \<Rightarrow> string" where
  "strip_front ws s =
     (let n = front_width ws s in
      if n = 0 \<or> s = [] then s else strip_front ws (drop n s))"
  by pat_completeness auto
termination
  by (relation "measure (\<lambda>(ws, s). length s)") auto

declare strip_front.simps [simp del]

definition trim_start :: "string \<Rightarrow> string" where
  "trim_start s = strip_front white_space s"

definition trim_end :: "string \<Rightarrow> string" where
  "trim_end s = rev (strip_front (map rev white_space) (rev s))"

definition trim :: "string \<Rightarrow> string" where
  "trim s = trim_end (trim_start s)"

lemma strip_front_Nil [simp]: "strip_front ws [] = []"
  by (simp add: strip_front.simps)

lemma strip_front_idem: "strip_front ws (strip_front ws s) = strip_front ws s"
proof (induction ws s rule: strip_front.induct)
  case (1 ws s)
  show ?case
  proof (cases "front_width ws s = 0 \<or> s = []")
    case True
    then have "strip_front ws s = s" by (auto simp: strip_front.simps)
    then show ?thesis by simp
  next
    case False
    then have "strip_front ws s = strip_front ws (drop (front_width ws s) s)"
      by (simp add: strip_front.simps [of ws s] Let_def)
    with 1 False show ?thesis by simp
  qed
qed

lemma length_strip_front: "length (strip_front ws s) \<le> length s"
proof (induction ws s rule: strip_front.induct)
  case (1 ws s)
  then show ?case
    by (subst strip_front.simps) (fastforce simp: Let_def)
qed

lemma trim_Nil [simp]: "trim [] = []"
  by (simp add: trim_def trim_start_def trim_end_def)

lemma length_trim: "length (trim s) \<le> length s"
  using length_strip_front [of "map rev white_space" "rev (strip_front white_space s)"]
    length_strip_front [of white_space s]
  by (simp add: trim_def trim_start_def trim_end_def)

text \<open>
  \<^verbatim>\<open>str::to_lowercase\<close>, where the result is compared with ASCII words only: ASCII
  capitals become small letters, and the Kelvin sign (U+212A, bytes E2 84 AA) becomes
  \<^verbatim>\<open>k\<close>, the one non-ASCII code point whose lower case is a plain ASCII letter. Every other
  non-ASCII character has a lower case with a non-ASCII byte, so it can never complete an
  ASCII word and is left as it is.
\<close>

definition lower_char :: "char \<Rightarrow> char" where
  "lower_char c =
     (if 65 \<le> (of_char c :: nat) \<and> (of_char c :: nat) \<le> 90
      then char_of ((of_char c :: nat) + 32) else c)"

fun to_lowercase :: "string \<Rightarrow> string" where
  "to_lowercase [] = []"
| "to_lowercase (c # s) =
     (if c = CHR 0xE2 \<and> take 2 s = [CHR 0x84, CHR 0xAA]
      then CHR ''k'' # to_lowercase (drop 2 s)
      else lower_char c # to_lowercase s)"

definition starts_with :: "string \<Rightarrow> string \<Rightarrow> bool" where
  "starts_with s p = (take (length p) s = p)"

lemma starts_with_append [simp]: "starts_with (p @ s) p"
  by (simp add: starts_with_def)

text \<open>Decimal digits of a non-negative number, as \<^verbatim>\<open>format!("{n}")\<close> prints it.\<close>

fun digits :: "nat \<Rightarrow> string" where
  "digits n = (if n < 10 then [char_of (48 + n)] else digits (n div 10) @ [char_of (48 + n mod 10)])"

definition undigits :: "string \<Rightarrow> nat" where
  "undigits s = foldl (\<lambda>n c. n * 10 + (of_char c - 48)) 0 s"

definition digit_char :: "char \<Rightarrow> bool" where
  "digit_char c \<longleftrightarrow> 48 \<le> (of_char c :: nat) \<and> (of_char c :: nat) \<le> 57"

text \<open>\<^verbatim>\<open>str::parse\<close> of a signed integer type: an optional sign and decimal digits, within the range.\<close>

definition parse_signed :: "int \<Rightarrow> string \<Rightarrow> int option" where
  "parse_signed bound s =
     (let neg = (s \<noteq> [] \<and> hd s = CHR ''-'');
          ds = (if s \<noteq> [] \<and> (hd s = CHR ''-'' \<or> hd s = CHR ''+'') then tl s else s);
          n = (if neg then - int (undigits ds) else int (undigits ds))
      in if ds \<noteq> [] \<and> list_all digit_char ds \<and> - bound \<le> n \<and> n < bound then Some n else None)"

declare digits.simps [simp del]

section \<open>Numbers\<close>

text \<open>Rust's \<^verbatim>\<open>as i64\<close> on a float: truncation towards zero, saturating at the bounds.\<close>

definition as_i64 :: "real \<Rightarrow> int" where
  "as_i64 r =
     (let t = (if 0 \<le> r then \<lfloor>r\<rfloor> else \<lceil>r\<rceil>)
      in max (- (2 ^ 63)) (min (2 ^ 63 - 1) t))"

lemma as_i64_bounds: "- (2 ^ 63) \<le> as_i64 r" "as_i64 r \<le> 2 ^ 63 - 1"
  by (simp_all add: as_i64_def Let_def)

section \<open>JSON values\<close>

text \<open>
  \<^verbatim>\<open>serde_json::Value\<close> with the crate feature \<^verbatim>\<open>preserve_order\<close>: an object is an
  insertion-ordered list of distinct keys, and inserting an existing key replaces its value
  in place.
\<close>

datatype json =
    JNull
  | JBool bool
  | JInt int
  | JReal real
  | JStr string
  | JArr "json list"
  | JObj "(string \<times> json) list"

type_synonym json_map = "(string \<times> json) list"

fun jinsert :: "string \<Rightarrow> json \<Rightarrow> json_map \<Rightarrow> json_map" where
  "jinsert k v [] = [(k, v)]"
| "jinsert k v ((k', v') # m) = (if k' = k then (k, v) # m else (k', v') # jinsert k v m)"

definition jextend :: "json_map \<Rightarrow> json_map \<Rightarrow> json_map" where
  "jextend m kvs = fold (\<lambda>(k, v). jinsert k v) kvs m"

definition jget :: "json_map \<Rightarrow> string \<Rightarrow> json option" where
  "jget m k = map_of m k"

definition as_str :: "json option \<Rightarrow> string option" where
  "as_str v = (case v of Some (JStr s) \<Rightarrow> Some s | _ \<Rightarrow> None)"

definition as_int :: "json option \<Rightarrow> int option" where
  "as_int v = (case v of Some (JInt i) \<Rightarrow> Some i | _ \<Rightarrow> None)"

text \<open>\<^verbatim>\<open>Value::as_i64\<close>: integers outside the range of \<^verbatim>\<open>i64\<close> are not one.\<close>

definition json_i64 :: "json option \<Rightarrow> int option" where
  "json_i64 v = (case v of
       Some (JInt i) \<Rightarrow> if - (2 ^ 63) \<le> i \<and> i \<le> 2 ^ 63 - 1 then Some i else None
     | _ \<Rightarrow> None)"

definition json_opt_str :: "string option \<Rightarrow> json" where
  "json_opt_str v = (case v of None \<Rightarrow> JNull | Some s \<Rightarrow> JStr s)"

definition json_opt_int :: "int option \<Rightarrow> json" where
  "json_opt_int v = (case v of None \<Rightarrow> JNull | Some i \<Rightarrow> JInt i)"

definition json_strs :: "string list \<Rightarrow> json" where
  "json_strs xs = JArr (map JStr xs)"

lemma jget_jinsert [simp]: "jget (jinsert k v m) k' = (if k' = k then Some v else jget m k')"
  by (induction m) (auto simp: jget_def)

lemma dom_jinsert: "fst ` set (jinsert k v m) = insert k (fst ` set m)"
  by (induction k v m rule: jinsert.induct) auto

lemma distinct_jinsert: "distinct (map fst m) \<Longrightarrow> distinct (map fst (jinsert k v m))"
proof (induction m)
  case (Cons p m)
  obtain k' v' where p: "p = (k', v')" by (cases p)
  have "fst ` set (jinsert k v m) = insert k (fst ` set m)" by (rule dom_jinsert)
  with Cons show ?case by (auto simp: p)
qed simp

section \<open>Lists\<close>

definition non_empty_str :: "string option \<Rightarrow> string option" where
  "non_empty_str v = (case v of Some s \<Rightarrow> if s = [] then None else Some s | None \<Rightarrow> None)"

lemma find_filter_hd: "find P xs = (case filter P xs of [] \<Rightarrow> None | x # _ \<Rightarrow> Some x)"
  by (induction xs) auto

lemma find_map_cong:
  "(\<And>x. x \<in> set xs \<Longrightarrow> P (f x) = P x) \<Longrightarrow> find P (map f xs) = map_option f (find P xs)"
  by (induction xs) auto

lemma find_append: "find P (xs @ ys) = (case find P xs of None \<Rightarrow> find P ys | Some x \<Rightarrow> Some x)"
  by (induction xs) auto

lemma find_None_filter: "find P (filter (\<lambda>x. \<not> P x) xs) = None"
  by (induction xs) auto

lemma find_filter_other:
  "(\<And>x. P x \<Longrightarrow> Q x) \<Longrightarrow> find P (filter Q xs) = find P xs"
  by (induction xs) auto

lemma find_SomeD: "find P xs = Some x \<Longrightarrow> x \<in> set xs \<and> P x"
  by (induction xs) (auto split: if_splits)

lemma find_eq_None_iff: "find P xs = None \<longleftrightarrow> (\<forall>x \<in> set xs. \<not> P x)"
  by (induction xs) auto

lemma distinct_find_unique:
  "distinct (map f xs) \<Longrightarrow> x \<in> set xs \<Longrightarrow> find (\<lambda>y. f y = f x) xs = Some x"
  by (induction xs) (auto simp: image_iff)

text \<open>The first minimum of a list by a key: what \<^verbatim>\<open>sort_by_key\<close> then \<^verbatim>\<open>find\<close> yields.\<close>

lemma find_sort_key_min:
  fixes f :: "'a \<Rightarrow> 'b :: linorder"
  assumes "find P (sort_key f xs) = Some x"
  shows "x \<in> set xs" "P x" "\<And>y. y \<in> set xs \<Longrightarrow> P y \<Longrightarrow> f x \<le> f y"
proof -
  from assms find_SomeD [of P "sort_key f xs" x] show "x \<in> set xs" "P x" by auto
next
  fix y assume y: "y \<in> set xs" "P y"
  have gen: "sorted (map f zs) \<Longrightarrow> find P zs = Some x \<Longrightarrow> y \<in> set zs \<Longrightarrow> P y \<Longrightarrow> f x \<le> f y" for zs
    by (induction zs) (auto split: if_splits)
  from gen [of "sort_key f xs"] assms y show "f x \<le> f y" by simp
qed

end
