(* ===== verification/Tables.thy ===== *)
theory Tables
  imports Prelude
begin

text \<open>
  The SQL tables of the program as lists of rows in insertion order, with the statements the
  code runs on them. A \<^verbatim>\<open>SELECT\<close> without \<^verbatim>\<open>ORDER BY\<close> returns rows in an order SQL leaves
  open; the model uses insertion order, and no property of the development depends on it.
  The locale \<open>keyed_table\<close> is the contract every table with a primary key meets;
  each component interprets it on its own rows.
\<close>

section \<open>Statements\<close>

definition row_get :: "('r \<Rightarrow> 'k) \<Rightarrow> 'k \<Rightarrow> 'r list \<Rightarrow> 'r option" where
  "row_get key k rows = find (\<lambda>r. key r = k) rows"

definition row_update :: "('r \<Rightarrow> bool) \<Rightarrow> ('r \<Rightarrow> 'r) \<Rightarrow> 'r list \<Rightarrow> 'r list" where
  "row_update P f rows = map (\<lambda>r. if P r then f r else r) rows"

definition row_delete :: "('r \<Rightarrow> bool) \<Rightarrow> 'r list \<Rightarrow> 'r list" where
  "row_delete P rows = filter (\<lambda>r. \<not> P r) rows"

definition row_replace :: "('r \<Rightarrow> 'k) \<Rightarrow> 'r \<Rightarrow> 'r list \<Rightarrow> 'r list" where
  "row_replace key r rows = filter (\<lambda>x. key x \<noteq> key r) rows @ [r]"

text \<open>\<^verbatim>\<open>INSERT .. ON CONFLICT(key) DO UPDATE\<close>: the row stays at its place.\<close>

definition row_upsert :: "('r \<Rightarrow> 'k) \<Rightarrow> ('r \<Rightarrow> 'r) \<Rightarrow> 'r \<Rightarrow> 'r list \<Rightarrow> 'r list" where
  "row_upsert key merge r rows =
     (if row_get key (key r) rows = None then rows @ [r]
      else row_update (\<lambda>x. key x = key r) merge rows)"

definition row_count :: "('r \<Rightarrow> bool) \<Rightarrow> 'r list \<Rightarrow> nat" where
  "row_count P rows = length (filter P rows)"

section \<open>The contract of a table with a primary key\<close>

locale keyed_table =
  fixes key :: "'r \<Rightarrow> 'k"
    and get :: "'k \<Rightarrow> 't \<Rightarrow> 'r option"
    and rows :: "'t \<Rightarrow> 'r set"
    and put :: "'r \<Rightarrow> 't \<Rightarrow> 't"
    and upd :: "'k \<Rightarrow> ('r \<Rightarrow> 'r) \<Rightarrow> 't \<Rightarrow> 't"
    and del :: "'k \<Rightarrow> 't \<Rightarrow> 't"
    and ok_table :: "'t \<Rightarrow> bool"
  assumes get_rows: "get k t = Some r \<Longrightarrow> r \<in> rows t \<and> key r = k"
    and rows_get: "ok_table t \<Longrightarrow> r \<in> rows t \<Longrightarrow> get (key r) t = Some r"
    and get_put: "get k (put r t) = (if k = key r then Some r else get k t)"
    and get_upd: "(\<And>r. key (f r) = key r) \<Longrightarrow>
      get k' (upd k f t) = (if k' = k then map_option f (get k t) else get k' t)"
    and get_del: "get k' (del k t) = (if k' = k then None else get k' t)"
    and ok_put: "ok_table t \<Longrightarrow> ok_table (put r t)"
    and ok_upd: "(\<And>r. key (f r) = key r) \<Longrightarrow> ok_table t \<Longrightarrow> ok_table (upd k f t)"
    and ok_del: "ok_table t \<Longrightarrow> ok_table (del k t)"
begin

lemma get_None_rows: "ok_table t \<Longrightarrow> get k t = None \<longleftrightarrow> (\<forall>r \<in> rows t. key r \<noteq> k)"
  using get_rows rows_get by (metis not_None_eq)

lemma get_Some_rows: "ok_table t \<Longrightarrow> get k t = Some r \<longleftrightarrow> r \<in> rows t \<and> key r = k"
  using get_rows rows_get by metis

lemma upd_other: "(\<And>r. key (f r) = key r) \<Longrightarrow> k' \<noteq> k \<Longrightarrow> get k' (upd k f t) = get k' t"
  by (simp add: get_upd)

lemma upd_defined: "(\<And>r. key (f r) = key r) \<Longrightarrow> get k' (upd k f t) = None \<longleftrightarrow> get k' t = None"
  by (simp add: get_upd)

lemma rows_put:
  assumes "ok_table t" "x \<in> rows (put r t)"
  shows "x = r \<or> x \<in> rows t \<and> key x \<noteq> key r"
proof -
  have "get (key x) (put r t) = Some x" using assms by (intro rows_get ok_put)
  then show ?thesis by (auto simp: get_put dest: get_rows split: if_splits)
qed

lemma rows_del:
  assumes "ok_table t" "x \<in> rows (del k t)"
  shows "x \<in> rows t \<and> key x \<noteq> k"
proof -
  have "get (key x) (del k t) = Some x" using assms by (intro rows_get ok_del)
  then show ?thesis by (auto simp: get_del dest: get_rows split: if_splits)
qed

lemma rows_upd:
  assumes f: "\<And>r. key (f r) = key r" and "ok_table t" "r' \<in> rows (upd k f t)"
  shows "\<exists>r \<in> rows t. r' = (if key r = k then f r else r)"
proof -
  have "get (key r') (upd k f t) = Some r'" using assms by (intro rows_get ok_upd)
  then have *: "(if key r' = k then map_option f (get k t) else get (key r') t) = Some r'"
    by (simp add: get_upd [OF f])
  show ?thesis
  proof (cases "key r' = k")
    case True
    with * obtain r where "get k t = Some r" "r' = f r" by auto
    then show ?thesis using get_rows [of k t r] by auto
  next
    case False
    with * have "get (key r') t = Some r'" by simp
    then have "r' \<in> rows t" using get_rows [of "key r'" t r'] by simp
    with False show ?thesis by auto
  qed
qed

end

section \<open>Rows meet the contract\<close>

lemma row_get_update:
  "(\<And>r. key (f r) = key r) \<Longrightarrow>
   row_get key k' (row_update (\<lambda>r. key r = k) f rows) =
     (if k' = k then map_option f (row_get key k rows) else row_get key k' rows)"
  by (induction rows) (auto simp: row_get_def row_update_def)

lemma row_get_replace:
  "row_get key k (row_replace key r rows) = (if k = key r then Some r else row_get key k rows)"
proof (cases "k = key r")
  case True
  then show ?thesis
    using find_None_filter [of "\<lambda>x. key x = key r" rows]
    by (simp add: row_get_def row_replace_def find_append)
next
  case False
  then have "find (\<lambda>x. key x = k) (filter (\<lambda>x. key x \<noteq> key r) rows) = find (\<lambda>x. key x = k) rows"
    by (intro find_filter_other) auto
  with False show ?thesis
    by (auto simp: row_get_def row_replace_def find_append split: option.splits)
qed

lemma row_get_delete:
  "row_get key k' (row_delete (\<lambda>r. key r = k) rows) = (if k' = k then None else row_get key k' rows)"
  by (induction rows) (auto simp: row_get_def row_delete_def)

lemma distinct_row_update:
  "(\<And>r. key (f r) = key r) \<Longrightarrow> map key (row_update P f rows) = map key rows"
  by (induction rows) (auto simp: row_update_def)

lemma row_update_rows:
  assumes "\<And>r. key (f r) = key r"
  shows "set (row_update P f rows) = (\<lambda>r. if P r then f r else r) ` set rows"
  by (simp add: row_update_def)

lemma row_table:
  "keyed_table key (row_get key) set (row_replace key) (\<lambda>k. row_update (\<lambda>r. key r = k))
     (\<lambda>k. row_delete (\<lambda>r. key r = k)) (\<lambda>rows. distinct (map key rows))"
proof (unfold_locales, goal_cases)
  case (1 k t r)
  then show ?case by (auto simp: row_get_def dest: find_SomeD)
next
  case (2 t r)
  then show ?case by (simp add: row_get_def distinct_find_unique)
next
  case (3 k r t)
  then show ?case by (rule row_get_replace)
next
  case (4 f k' k t)
  then show ?case by (rule row_get_update)
next
  case (5 k' k t)
  then show ?case by (rule row_get_delete)
next
  case (6 t r)
  then show ?case by (auto simp: row_replace_def distinct_map inj_on_def)
next
  case (7 f t k)
  then show ?case using distinct_row_update [of key f] by metis
next
  case (8 t k)
  then show ?case by (auto simp: row_delete_def distinct_map inj_on_def)
qed

end
