(* ===== verification/Task_Store.thy ===== *)
theory Task_Store
  imports Tables
begin

text \<open>
  The data model of the task store (\<^verbatim>\<open>tasks/mod.rs\<close>): the rows of its tables, the
  validators of the names it accepts, the order in which tasks are offered, and the reads
  and writes every operation is built from. The store is one SQLite file with one writer
  actor, so every operation is a function from the store before to the store after.

  Columns that hold a JSON list (\<^verbatim>\<open>assignees\<close>, \<^verbatim>\<open>depends_on\<close>, the tags of an
  offer) are the decoded list, and \<^verbatim>\<open>meta\<close> is the JSON value whose text the row keeps.
\<close>

section \<open>The environment of an operation\<close>

text \<open>
  What an operation reads from outside the store: the clock (\<^verbatim>\<open>clock::now_s\<close>), the
  default lease (\<^verbatim>\<open>default_lease_s\<close>, from the process environment), and whether a
  text is one or more decimal digits in the sense of the regex crate's \<^verbatim>\<open>\d+\<close>.
\<close>

record env =
  now_s :: time
  default_lease_s :: time
  is_digits :: "string \<Rightarrow> bool"

section \<open>Rows\<close>

record task_row =
  t_id :: string
  t_scope :: string
  t_title :: string
  t_body :: string
  t_status :: string
  t_priority :: string
  t_parent_id :: "string option"
  t_multi_assignee :: bool
  t_attempts :: int
  t_assignees :: "string list"
  t_depends_on :: "string list"
  t_created_at :: time
  t_updated_at :: time
  t_created_by :: "string option"
  t_completed_by :: "string option"
  t_completed_at :: "time option"
  t_cancelled_at :: "time option"
  t_block_reason :: "string option"
  t_kind :: string
  t_author :: "string option"
  t_repo :: "string option"
  t_pr :: "int option"
  t_head :: "string option"
  t_verdict :: "string option"
  t_accounting_pr :: "int option"
  t_landed :: bool

record lease_row =
  l_task_id :: string
  l_pane_id :: string
  l_claimed_at :: time
  l_heartbeat_at :: time
  l_expires_at :: time
  l_caller_pid :: "int option"
  l_caller_start :: "string option"
  l_caller_name :: "string option"
  l_assignee_added :: bool

record event_row =
  e_task_id :: string
  e_event :: string
  e_at :: time
  e_actor :: "string option"
  e_scope :: "string option"
  e_priority :: "string option"
  e_status_from :: "string option"
  e_status_to :: "string option"
  e_duration_ms :: "int option"
  e_meta :: "json option"

record offer_row =
  o_task_id :: string
  o_pool :: string
  o_role :: string
  o_requires :: "string list"
  o_excluded :: "string list"
  o_owners :: "string list"
  o_offered_by :: string
  o_state :: string

text \<open>
  \<open>st_counter\<close> is the row \<^verbatim>\<open>'task'\<close> of \<^verbatim>\<open>counters\<close>, absent before the first task.
  \<open>st_offers\<close> is \<^verbatim>\<open>None\<close> while the allocation tables have not been created.
\<close>

record store =
  st_tasks :: "task_row list"
  st_leases :: "lease_row list"
  st_events :: "event_row list"
  st_counter :: "nat option"
  st_offers :: "offer_row list option"

definition empty_store :: store where
  "empty_store = \<lparr>st_tasks = [], st_leases = [], st_events = [], st_counter = None, st_offers = None\<rparr>"

abbreviation lease_key :: "lease_row \<Rightarrow> string \<times> string" where
  "lease_key l \<equiv> (l_task_id l, l_pane_id l)"

text \<open>A pane and the process behind it: \<^verbatim>\<open>(pid, start, name)\<close>.\<close>

type_synonym caller = "int \<times> string option \<times> string option"

section \<open>Defaults, statuses and validators\<close>

definition DEFAULT_STATUS :: string where "DEFAULT_STATUS = ''open''"
definition DEFAULT_PRIORITY :: string where "DEFAULT_PRIORITY = ''low''"
definition DEFAULT_KIND :: string where "DEFAULT_KIND = ''work''"

definition STATUSES :: "string list" where
  "STATUSES = [''open'', ''in_progress'', ''blocked'', ''done'', ''cancelled'']"

definition PRIORITIES :: "string list" where
  "PRIORITIES = [''low'', ''medium'', ''high'', ''urgent'']"

definition KINDS :: "string list" where
  "KINDS = [''work'', ''review'', ''verify'', ''report'']"

definition VERDICTS :: "string list" where
  "VERDICTS = [''accept'', ''needs-fix'']"

definition validate_status :: "string \<Rightarrow> string result" where
  "validate_status status =
     (let status = trim status in
      if status \<in> set STATUSES then ok status
      else refused (NotOneOf ''status'' STATUSES []))"

definition validate_priority :: "string \<Rightarrow> string result" where
  "validate_priority priority =
     (let priority = trim priority in
      if priority \<in> set PRIORITIES then ok priority
      else refused (NotOneOf ''priority'' PRIORITIES []))"

definition validate_kind :: "string \<Rightarrow> string result" where
  "validate_kind kind =
     (let kind = (if trim kind = [] then DEFAULT_KIND else to_lowercase (trim kind)) in
      if kind \<in> set KINDS then ok kind
      else refused (NotOneOf ''kind'' KINDS kind))"

definition validate_verdict :: "string \<Rightarrow> string result" where
  "validate_verdict verdict =
     (let verdict = to_lowercase (trim verdict) in
      if verdict \<in> set VERDICTS then ok verdict
      else refused (NotOneOf ''verdict'' VERDICTS verdict))"

text \<open>\<^verbatim>\<open>^(?:[A-Za-z0-9_.-]+:[A-Za-z0-9_.-]+|%\d+)$\<close>: a backend pane id or a tmux pane id.\<close>

definition word_char :: "char \<Rightarrow> bool" where
  "word_char c \<longleftrightarrow> (let n = (of_char c :: nat) in
     (48 \<le> n \<and> n \<le> 57) \<or> (65 \<le> n \<and> n \<le> 90) \<or> (97 \<le> n \<and> n \<le> 122)
     \<or> c = CHR ''_'' \<or> c = CHR ''.'' \<or> c = CHR ''-'')"

definition pane_pattern :: "(string \<Rightarrow> bool) \<Rightarrow> string \<Rightarrow> bool" where
  "pane_pattern is_nd s =
     (let window = takeWhile word_char s; rest = dropWhile word_char s in
      (window \<noteq> [] \<and> rest \<noteq> [] \<and> hd rest = CHR '':'' \<and> tl rest \<noteq> [] \<and> list_all word_char (tl rest))
      \<or> (s \<noteq> [] \<and> hd s = CHR ''%'' \<and> is_nd (tl s)))"

definition validate_scope :: "env \<Rightarrow> string \<Rightarrow> string result" where
  "validate_scope env scope =
     (let scope = trim scope in
      if scope = ''global'' \<or> pane_pattern (is_digits env) scope then ok scope
      else refused (BadScope scope))"

definition is_terminal :: "string \<Rightarrow> bool" where
  "is_terminal status \<longleftrightarrow> status = ''done'' \<or> status = ''cancelled''"

definition ends_claim :: "string \<Rightarrow> bool" where
  "ends_claim status \<longleftrightarrow> status = ''done'' \<or> status = ''cancelled'' \<or> status = ''blocked''"

lemma is_terminal_ends_claim: "is_terminal status \<Longrightarrow> ends_claim status"
  by (auto simp: is_terminal_def ends_claim_def)

text \<open>\<^verbatim>\<open>_visible_scopes\<close>: which queues a caller may list.\<close>

definition visible_scopes :: "env \<Rightarrow> string option \<Rightarrow> string option \<Rightarrow> string list result" where
  "visible_scopes env scope pane_id =
     (let pane = (case pane_id of Some p \<Rightarrow> if p = [] \<or> p = ''global'' then None else Some p | None \<Rightarrow> None);
          scope = map_option trim scope
      in if scope = None \<or> scope = Some [] \<or> scope = Some ''all''
         then ok (''global'' # (case pane of None \<Rightarrow> [] | Some p \<Rightarrow> [p]))
         else if scope = Some ''self''
         then (case pane of Some p \<Rightarrow> ok [''global'', p]
               | None \<Rightarrow> refused (Text ''scope 'self' requires a known pane tid''))
         else if scope = Some ''global'' then ok [''global'']
         else try_bind (validate_scope env (the scope)) (\<lambda>other. ok [''global'', other]))"

section \<open>The order tasks are offered in\<close>

text \<open>
  \<^verbatim>\<open>order_key\<close>: priority rank, then age, then id. The code orders ages by the bits of
  \<^verbatim>\<open>created_at.max(0.0)\<close>, which on non-negative floats is their numeric order.
\<close>

datatype order_key = Order_Key (rank_of: nat) (age_of: real) (ident_of: string)

instantiation order_key :: linorder
begin

definition less_eq_order_key :: "order_key \<Rightarrow> order_key \<Rightarrow> bool" where
  "less_eq_order_key a b \<longleftrightarrow>
     (rank_of a, age_of a, ident_of a) \<le> (rank_of b, age_of b, ident_of b)"

definition less_order_key :: "order_key \<Rightarrow> order_key \<Rightarrow> bool" where
  "less_order_key a b \<longleftrightarrow>
     (rank_of a, age_of a, ident_of a) < (rank_of b, age_of b, ident_of b)"

instance
proof
  fix a b c :: order_key
  show "(a < b) = (a \<le> b \<and> \<not> b \<le> a)"
    unfolding less_eq_order_key_def less_order_key_def by (rule less_le_not_le)
  show "a \<le> a" by (simp add: less_eq_order_key_def)
  show "a \<le> b \<Longrightarrow> b \<le> c \<Longrightarrow> a \<le> c"
    unfolding less_eq_order_key_def by (rule order_trans)
  show "a \<le> b \<Longrightarrow> b \<le> a \<Longrightarrow> a = b"
    unfolding less_eq_order_key_def by (drule (1) antisym) (simp add: order_key.expand)
  show "a \<le> b \<or> b \<le> a"
    unfolding less_eq_order_key_def by (rule linear)
qed

end

definition priority_rank :: "string \<Rightarrow> nat" where
  "priority_rank priority =
     (if priority = ''urgent'' then 0 else if priority = ''high'' then 1
      else if priority = ''medium'' then 2 else if priority = ''low'' then 3 else 99)"

definition order_key :: "string \<Rightarrow> time \<Rightarrow> string \<Rightarrow> order_key" where
  "order_key priority created_at tid = Order_Key (priority_rank priority) (max 0 created_at) tid"

definition task_order :: "task_row \<Rightarrow> order_key" where
  "task_order t = order_key (t_priority t) (t_created_at t) (t_id t)"

lemma task_order_inj: "task_order t = task_order u \<Longrightarrow> t_id t = t_id u"
  by (simp add: task_order_def order_key_def)

lemma task_order_le:
  "task_order t \<le> task_order u \<longleftrightarrow>
     priority_rank (t_priority t) < priority_rank (t_priority u)
     \<or> priority_rank (t_priority t) = priority_rank (t_priority u)
       \<and> (max 0 (t_created_at t) < max 0 (t_created_at u)
          \<or> max 0 (t_created_at t) = max 0 (t_created_at u) \<and> t_id t \<le> t_id u)"
  by (auto simp: task_order_def order_key_def less_eq_order_key_def less_eq_prod_def)

section \<open>Reads and writes\<close>

definition get_task :: "string \<Rightarrow> store \<Rightarrow> task_row option" where
  "get_task tid s = row_get t_id tid (st_tasks s)"

definition upd_task :: "string \<Rightarrow> (task_row \<Rightarrow> task_row) \<Rightarrow> store \<Rightarrow> store" where
  "upd_task tid f s = s\<lparr>st_tasks := row_update (\<lambda>r. t_id r = tid) f (st_tasks s)\<rparr>"

definition get_lease :: "string \<Rightarrow> string \<Rightarrow> store \<Rightarrow> lease_row option" where
  "get_lease tid pane s = row_get lease_key (tid, pane) (st_leases s)"

definition put_lease :: "lease_row \<Rightarrow> store \<Rightarrow> store" where
  "put_lease l s = s\<lparr>st_leases := row_replace lease_key l (st_leases s)\<rparr>"

definition upd_lease :: "string \<Rightarrow> string \<Rightarrow> (lease_row \<Rightarrow> lease_row) \<Rightarrow> store \<Rightarrow> store" where
  "upd_lease tid pane f s = s\<lparr>st_leases := row_update (\<lambda>r. lease_key r = (tid, pane)) f (st_leases s)\<rparr>"

definition del_lease :: "string \<Rightarrow> string \<Rightarrow> store \<Rightarrow> store" where
  "del_lease tid pane s = s\<lparr>st_leases := row_delete (\<lambda>r. lease_key r = (tid, pane)) (st_leases s)\<rparr>"

text \<open>\<^verbatim>\<open>DELETE FROM task_leases WHERE task_id = ?\<close>, and the number of rows it removes.\<close>

definition end_claims :: "string \<Rightarrow> store \<Rightarrow> store" where
  "end_claims tid s = s\<lparr>st_leases := row_delete (\<lambda>r. l_task_id r = tid) (st_leases s)\<rparr>"

definition claim_count :: "string \<Rightarrow> store \<Rightarrow> nat" where
  "claim_count tid s = row_count (\<lambda>r. l_task_id r = tid) (st_leases s)"

definition new_event :: "string \<Rightarrow> string \<Rightarrow> time \<Rightarrow> event_row" where
  "new_event tid event when_at =
     \<lparr>e_task_id = tid, e_event = event, e_at = when_at, e_actor = None, e_scope = None, e_priority = None,
      e_status_from = None, e_status_to = None, e_duration_ms = None, e_meta = None\<rparr>"

definition log_event :: "event_row \<Rightarrow> store \<Rightarrow> store" where
  "log_event e s = s\<lparr>st_events := st_events s @ [e]\<rparr>"

definition duration_ms :: "time \<Rightarrow> time \<Rightarrow> int" where
  "duration_ms now created = as_i64 ((now - created) * 1000)"

text \<open>\<^verbatim>\<open>Tasks::get\<close> and the reads every operation makes of a task that must exist.\<close>

definition task_get :: "string \<Rightarrow> store \<Rightarrow> task_row result" where
  "task_get tid s = (case get_task tid s of Some t \<Rightarrow> ok t | None \<Rightarrow> refused (NoTask tid))"

text \<open>\<^verbatim>\<open>Tasks::list\<close>: the tasks of one scope, oldest first, then by id.\<close>

definition task_list :: "string \<Rightarrow> store \<Rightarrow> task_row list" where
  "task_list scope s =
     sort_key (\<lambda>t. (t_created_at t, t_id t)) (filter (\<lambda>t. t_scope t = scope) (st_tasks s))"

text \<open>\<^verbatim>\<open>leases_for\<close> and \<^verbatim>\<open>leases_for_pane\<close>: the leases that have not expired.\<close>

definition live :: "time \<Rightarrow> lease_row \<Rightarrow> bool" where
  "live now l \<longleftrightarrow> now < l_expires_at l"

definition leases_for :: "string \<Rightarrow> time \<Rightarrow> store \<Rightarrow> lease_row list" where
  "leases_for tid now s = filter (live now) (filter (\<lambda>l. l_task_id l = tid) (st_leases s))"

definition leases_for_pane :: "string \<Rightarrow> time \<Rightarrow> store \<Rightarrow> lease_row list" where
  "leases_for_pane pane now s = filter (\<lambda>l. l_pane_id l = pane \<and> live now l) (st_leases s)"

section \<open>The tables meet the contract\<close>

interpretation task_table:
  keyed_table t_id "row_get t_id" set "row_replace t_id" "\<lambda>k. row_update (\<lambda>r. t_id r = k)"
    "\<lambda>k. row_delete (\<lambda>r. t_id r = k)" "\<lambda>rows. distinct (map t_id rows)"
  by (rule row_table)

interpretation lease_table:
  keyed_table lease_key "row_get lease_key" set "row_replace lease_key"
    "\<lambda>k. row_update (\<lambda>r. lease_key r = k)"
    "\<lambda>k. row_delete (\<lambda>r. lease_key r = k)" "\<lambda>rows. distinct (map lease_key rows)"
  by (rule row_table)

interpretation offer_table:
  keyed_table o_task_id "row_get o_task_id" set "row_replace o_task_id"
    "\<lambda>k. row_update (\<lambda>r. o_task_id r = k)"
    "\<lambda>k. row_delete (\<lambda>r. o_task_id r = k)" "\<lambda>rows. distinct (map o_task_id rows)"
  by (rule row_table)

lemma get_task_upd:
  assumes "\<And>r. t_id (f r) = t_id r"
  shows "get_task tid' (upd_task tid f s) = (if tid' = tid then map_option f (get_task tid s) else get_task tid' s)"
  unfolding get_task_def upd_task_def using task_table.get_upd [OF assms] by simp

lemma get_task_id: "get_task tid s = Some t \<Longrightarrow> t_id t = tid"
  unfolding get_task_def using task_table.get_rows by blast

lemma get_task_mem: "get_task tid s = Some t \<Longrightarrow> t \<in> set (st_tasks s)"
  unfolding get_task_def using task_table.get_rows by blast

lemma get_task_rows:
  "distinct (map t_id (st_tasks s)) \<Longrightarrow> t \<in> set (st_tasks s) \<Longrightarrow> get_task (t_id t) s = Some t"
  unfolding get_task_def by (rule task_table.rows_get)

lemma get_lease_put:
  "get_lease tid pane (put_lease l s) = (if lease_key l = (tid, pane) then Some l else get_lease tid pane s)"
  unfolding get_lease_def put_lease_def using lease_table.get_put by auto

lemma get_lease_mem:
  "get_lease tid pane s = Some l \<Longrightarrow> l \<in> set (st_leases s) \<and> l_task_id l = tid \<and> l_pane_id l = pane"
  using lease_table.get_rows [of "(tid, pane)" "st_leases s" l] by (auto simp: get_lease_def)

lemma get_lease_del:
  "get_lease tid' pane' (del_lease tid pane s) =
     (if tid' = tid \<and> pane' = pane then None else get_lease tid' pane' s)"
  unfolding get_lease_def del_lease_def using lease_table.get_del by auto

text \<open>Which table each write leaves alone.\<close>

lemma write_frames [store_simps, simp]:
  "st_leases (upd_task tid f s) = st_leases s" "st_events (upd_task tid f s) = st_events s"
  "st_counter (upd_task tid f s) = st_counter s" "st_offers (upd_task tid f s) = st_offers s"
  "st_tasks (put_lease l s) = st_tasks s" "st_events (put_lease l s) = st_events s"
  "st_counter (put_lease l s) = st_counter s" "st_offers (put_lease l s) = st_offers s"
  "st_tasks (upd_lease tid pane g s) = st_tasks s" "st_events (upd_lease tid pane g s) = st_events s"
  "st_counter (upd_lease tid pane g s) = st_counter s" "st_offers (upd_lease tid pane g s) = st_offers s"
  "st_tasks (del_lease tid pane s) = st_tasks s" "st_events (del_lease tid pane s) = st_events s"
  "st_counter (del_lease tid pane s) = st_counter s" "st_offers (del_lease tid pane s) = st_offers s"
  "st_tasks (end_claims tid s) = st_tasks s" "st_events (end_claims tid s) = st_events s"
  "st_counter (end_claims tid s) = st_counter s" "st_offers (end_claims tid s) = st_offers s"
  "st_tasks (log_event e s) = st_tasks s" "st_leases (log_event e s) = st_leases s"
  "st_counter (log_event e s) = st_counter s" "st_offers (log_event e s) = st_offers s"
  by (simp_all add: upd_task_def put_lease_def upd_lease_def del_lease_def end_claims_def log_event_def)

lemma get_task_frames [store_simps, simp]:
  "get_task tid' (put_lease l s) = get_task tid' s"
  "get_task tid' (upd_lease tid pane g s) = get_task tid' s"
  "get_task tid' (del_lease tid pane s) = get_task tid' s"
  "get_task tid' (end_claims tid s) = get_task tid' s"
  "get_task tid' (log_event e s) = get_task tid' s"
  by (simp_all add: get_task_def)

lemma get_lease_frames [store_simps, simp]:
  "get_lease tid' pane' (upd_task tid f s) = get_lease tid' pane' s"
  "get_lease tid' pane' (log_event e s) = get_lease tid' pane' s"
  by (simp_all add: get_lease_def)

lemma st_events_log [store_simps, simp]: "st_events (log_event e s) = st_events s @ [e]"
  by (simp add: log_event_def)

lemma leases_end_claims [store_simps]:
  "st_leases (end_claims tid s) = filter (\<lambda>l. l_task_id l \<noteq> tid) (st_leases s)"
  by (simp add: end_claims_def row_delete_def)

lemma st_tasks_upd_ids [simp]:
  "(\<And>r. t_id (f r) = t_id r) \<Longrightarrow> map t_id (st_tasks (upd_task tid f s)) = map t_id (st_tasks s)"
  by (simp add: upd_task_def distinct_row_update)

lemma upd_task_mem:
  assumes "\<And>r. t_id (f r) = t_id r" "t \<in> set (st_tasks (upd_task tid f s))"
  shows "\<exists>r \<in> set (st_tasks s). t = (if t_id r = tid then f r else r)"
  using assms(2) by (auto simp: upd_task_def row_update_def)

text \<open>Fresh ids: the decimal print of a counter value determines it.\<close>

lemma undigits_digits: "undigits (digits n) = n"
proof (induction n rule: digits.induct)
  case (1 n)
  show ?case
  proof (cases "n < 10")
    case True
    then show ?thesis by (subst digits.simps) (simp add: undigits_def)
  next
    case False
    with 1 have "undigits (digits (n div 10)) = n div 10" by simp
    with False show ?thesis
      by (subst digits.simps) (simp add: undigits_def)
  qed
qed

lemma digits_inject: "digits m = digits n \<longleftrightarrow> m = n"
  by (metis undigits_digits)

end
