(* ===== verification/Dependencies.thy ===== *)
theory Dependencies
  imports Task_Store
begin

text \<open>
  What a task waits for (\<^verbatim>\<open>dependency_state_conn\<close>), the view of a task a reader gets
  (\<^verbatim>\<open>decorate_conn\<close>), and the automatic unblocking of tasks whose dependencies are done
  and landed (\<^verbatim>\<open>auto_unblock\<close>, all in \<^verbatim>\<open>tasks/mod.rs\<close>). The lemmas give the loops
  their closed forms: what each list of a dependency state holds, and exactly which rows
  and events one pass of the unblocking loop produces.
\<close>

section \<open>The state of a task's dependencies\<close>

text \<open>The two sentences \<^verbatim>\<open>dependency_note\<close> can carry, with the ids they name.\<close>

datatype dependency_note =
    Cancelled_Counts "string list"
  | All_Satisfied "string list"

record dependency_state =
  blocked_by :: "string list"
  unlanded_dependencies :: "string list"
  dead_dependencies :: "string list"
  missing_dependencies :: "string list"
  unblock_needed :: bool
  dep_note :: "dependency_note option"
  dependencies_clear :: bool

definition no_dependencies :: dependency_state where
  "no_dependencies =
     \<lparr>blocked_by = [], unlanded_dependencies = [], dead_dependencies = [], missing_dependencies = [],
      unblock_needed = False, dep_note = None, dependencies_clear = False\<rparr>"

text \<open>One round of the loop over the task's dependencies.\<close>

definition read_dependency :: "store \<Rightarrow> string \<Rightarrow> dependency_state \<Rightarrow> dependency_state" where
  "read_dependency s dep st =
     (case get_task dep s of
        None \<Rightarrow> st\<lparr>missing_dependencies := missing_dependencies st @ [dep],
                   blocked_by := blocked_by st @ [dep]\<rparr>
      | Some t \<Rightarrow>
          if t_status t = ''cancelled''
          then st\<lparr>dead_dependencies := dead_dependencies st @ [dep]\<rparr>
          else if t_status t = ''done'' \<and> \<not> t_landed t
          then st\<lparr>unlanded_dependencies := unlanded_dependencies st @ [dep],
                  blocked_by := blocked_by st @ [dep]\<rparr>
          else if t_status t \<noteq> ''done''
          then st\<lparr>blocked_by := blocked_by st @ [dep]\<rparr>
          else st)"

definition dependency_state_of :: "store \<Rightarrow> task_row \<Rightarrow> dependency_state" where
  "dependency_state_of s t =
     (let st = fold (read_dependency s) (t_depends_on t) no_dependencies;
          st = st\<lparr>dependencies_clear :=
                 (t_status t = ''open'' \<or> t_status t = ''in_progress'') \<and> blocked_by st = []\<rparr>
      in if t_status t = ''blocked'' \<and> t_depends_on t \<noteq> [] \<and> blocked_by st = []
         then st\<lparr>unblock_needed := True,
                 dep_note := Some (if dead_dependencies st \<noteq> []
                                   then Cancelled_Counts (dead_dependencies st)
                                   else All_Satisfied (t_depends_on t))\<rparr>
         else st)"

definition dependency_state :: "string \<Rightarrow> store \<Rightarrow> dependency_state result" where
  "dependency_state tid s =
     try_bind (task_get (trim tid) s) (\<lambda>t. ok (dependency_state_of s t))"

text \<open>A dependency that still holds its task back.\<close>

definition outstanding :: "store \<Rightarrow> string \<Rightarrow> bool" where
  "outstanding s dep \<longleftrightarrow>
     (case get_task dep s of
        None \<Rightarrow> True
      | Some t \<Rightarrow> t_status t \<noteq> ''cancelled'' \<and> (t_status t = ''done'' \<longrightarrow> \<not> t_landed t))"

lemma read_dependencies:
  "blocked_by (fold (read_dependency s) deps st) = blocked_by st @ filter (outstanding s) deps"
  "missing_dependencies (fold (read_dependency s) deps st) =
     missing_dependencies st @ filter (\<lambda>d. get_task d s = None) deps"
  "dead_dependencies (fold (read_dependency s) deps st) =
     dead_dependencies st @ filter (\<lambda>d. \<exists>t. get_task d s = Some t \<and> t_status t = ''cancelled'') deps"
  "unlanded_dependencies (fold (read_dependency s) deps st) =
     unlanded_dependencies st
     @ filter (\<lambda>d. \<exists>t. get_task d s = Some t \<and> t_status t = ''done'' \<and> \<not> t_landed t) deps"
  by (induction deps arbitrary: st)
     (auto simp: read_dependency_def outstanding_def split: option.splits)

lemma blocked_by_state: "blocked_by (dependency_state_of s t) = filter (outstanding s) (t_depends_on t)"
  by (simp add: dependency_state_of_def Let_def read_dependencies no_dependencies_def)

lemma unblock_needed_state:
  "unblock_needed (dependency_state_of s t) \<longleftrightarrow>
     t_status t = ''blocked'' \<and> t_depends_on t \<noteq> [] \<and> (\<forall>d \<in> set (t_depends_on t). \<not> outstanding s d)"
proof -
  have "unblock_needed (fold (read_dependency s) deps st) = unblock_needed st" for deps st
    by (induction deps arbitrary: st) (auto simp: read_dependency_def split: option.splits)
  then show ?thesis
    by (simp add: dependency_state_of_def Let_def read_dependencies no_dependencies_def filter_empty_conv)
qed

lemma dependencies_clear_state:
  "dependencies_clear (dependency_state_of s t) \<longleftrightarrow>
     (t_status t = ''open'' \<or> t_status t = ''in_progress'') \<and> blocked_by (dependency_state_of s t) = []"
  by (simp add: dependency_state_of_def Let_def)

section \<open>The decorated task\<close>

record decorated =
  d_task :: task_row
  d_assignees :: "string list"
  d_depends_on :: "string list"
  d_allocation_waiting :: bool
  d_multi_assignee :: bool
  d_is_global :: bool
  d_leases :: "lease_row list"
  d_claimed_by :: "string list"
  d_lease_expires_at :: "time option"
  d_deps :: dependency_state
  d_claimable :: bool
  d_eligible :: bool

text \<open>
  The owners of a ready allocation offer for the task, and whether the task still waits on
  exactly those owners. Without the allocation tables there is no offer.
\<close>

definition ready_owners :: "string \<Rightarrow> store \<Rightarrow> string list option" where
  "ready_owners tid s =
     (case st_offers s of
        None \<Rightarrow> None
      | Some offers \<Rightarrow> map_option o_owners (find (\<lambda>r. o_task_id r = tid \<and> o_state r = ''ready'') offers))"

definition allocation_waiting :: "string \<Rightarrow> string list \<Rightarrow> store \<Rightarrow> bool" where
  "allocation_waiting tid assignees s =
     (case ready_owners tid s of None \<Rightarrow> False | Some owners \<Rightarrow> sort assignees = owners)"

definition claimable_for :: "decorated \<Rightarrow> string \<Rightarrow> bool" where
  "claimable_for d pane_id =
     (if d_allocation_waiting d then False
      else if pane_id \<noteq> [] \<and> (\<exists>l \<in> set (d_leases d). l_pane_id l = pane_id) then False
      else if d_leases d \<noteq> [] then d_multi_assignee d
      else let mine = (pane_id \<noteq> [] \<and> pane_id \<in> set (d_assignees d)) in
           if t_status (d_task d) = ''open'' then d_assignees d = [] \<or> d_multi_assignee d \<or> mine
           else if t_status (d_task d) = ''in_progress'' then d_multi_assignee d \<or> mine
           else False)"

definition min_expiry :: "lease_row list \<Rightarrow> time option" where
  "min_expiry ls =
     (case map l_expires_at ls of [] \<Rightarrow> None | e # es \<Rightarrow> Some (fold min es e))"

definition decorate_row :: "time \<Rightarrow> store \<Rightarrow> string option \<Rightarrow> task_row \<Rightarrow> decorated" where
  "decorate_row now s pane_id t =
     (let leases = leases_for (t_id t) now s;
          d = \<lparr>d_task = t, d_assignees = t_assignees t, d_depends_on = t_depends_on t,
               d_allocation_waiting = allocation_waiting (t_id t) (t_assignees t) s,
               d_multi_assignee = t_multi_assignee t, d_is_global = (t_scope t = ''global''),
               d_leases = leases, d_claimed_by = map l_pane_id leases,
               d_lease_expires_at = min_expiry leases, d_deps = dependency_state_of s t,
               d_claimable = False, d_eligible = False\<rparr>;
          d = d\<lparr>d_claimable :=
                (case non_empty_str pane_id of
                   Some pane \<Rightarrow> claimable_for d pane
                 | None \<Rightarrow> d_assignees d = [] \<or> d_multi_assignee d)\<rparr>
      in d\<lparr>d_eligible :=
             (t_status t = ''open'' \<or> t_status t = ''in_progress'')
             \<and> blocked_by (d_deps d) = [] \<and> d_claimable d\<rparr>)"

definition decorate :: "time \<Rightarrow> string \<Rightarrow> string option \<Rightarrow> store \<Rightarrow> decorated result" where
  "decorate now tid pane_id s =
     try_bind (task_get (trim tid) s) (\<lambda>t. ok (decorate_row now s pane_id t))"

text \<open>\<^verbatim>\<open>Tasks::list_visible\<close>.\<close>

record list_options =
  lo_scope :: "string option"
  lo_status :: "string option"
  lo_assignee :: "string option"
  lo_include_done :: bool
  lo_limit :: nat
  lo_pane_id :: "string option"
  lo_kind :: "string option"
  lo_needs_owner :: bool

definition validate_filter :: "(string \<Rightarrow> string result) \<Rightarrow> string option \<Rightarrow> string option result" where
  "validate_filter v x =
     (case non_empty_str x of None \<Rightarrow> ok None | Some y \<Rightarrow> try_bind (v y) (\<lambda>z. ok (Some z)))"

definition list_visible :: "env \<Rightarrow> list_options \<Rightarrow> store \<Rightarrow> decorated list result" where
  "list_visible env opts s =
     try_bind (visible_scopes env (lo_scope opts) (lo_pane_id opts)) (\<lambda>scopes.
     try_bind (validate_filter validate_status (lo_status opts)) (\<lambda>status.
     try_bind (validate_filter validate_kind (lo_kind opts)) (\<lambda>kind.
       let assignee = non_empty_str (map_option trim (lo_assignee opts));
           row_ok = (\<lambda>t. t_scope t \<in> set scopes
              \<and> (case status of Some st \<Rightarrow> t_status t = st
                 | None \<Rightarrow> lo_include_done opts \<or> \<not> is_terminal (t_status t))
              \<and> (case kind of Some k \<Rightarrow> t_kind t = k | None \<Rightarrow> True)
              \<and> (lo_needs_owner opts \<longrightarrow> t_status t = ''blocked''
                  \<and> (case t_block_reason t of
                       Some r \<Rightarrow> starts_with (map lower_char r) ''needs-owner:'' | None \<Rightarrow> False)));
           found = map (decorate_row (now_s env) s (lo_pane_id opts)) (filter row_ok (st_tasks s));
           kept = filter (\<lambda>d. case assignee of None \<Rightarrow> True | Some a \<Rightarrow> a \<in> set (d_assignees d)) found
       in ok (take (lo_limit opts) (sort_key (\<lambda>d. task_order (d_task d)) kept)))))"

section \<open>Automatic unblocking\<close>

text \<open>
  A dependency block is an empty reason or \<^verbatim>\<open>blocked-by:*\<close>; every other reason belongs to
  the owner.
\<close>

definition dependency_block :: "string option \<Rightarrow> bool" where
  "dependency_block reason =
     (let txt = trim (case reason of None \<Rightarrow> [] | Some r \<Rightarrow> r)
      in txt = [] \<or> starts_with txt ''blocked-by:'')"

definition dep_satisfied :: "store \<Rightarrow> string \<Rightarrow> bool" where
  "dep_satisfied s dep =
     (case get_task dep s of Some t \<Rightarrow> t_status t = ''done'' \<and> t_landed t | None \<Rightarrow> False)"

definition unblockable :: "store \<Rightarrow> string option \<Rightarrow> task_row \<Rightarrow> bool" where
  "unblockable s completed t \<longleftrightarrow>
     dependency_block (t_block_reason t)
     \<and> \<not> (t_depends_on t = [] \<or> (case completed of None \<Rightarrow> False | Some c \<Rightarrow> c \<notin> set (t_depends_on t)))
     \<and> list_all (dep_satisfied s) (t_depends_on t)"

definition open_row :: "time \<Rightarrow> task_row \<Rightarrow> task_row" where
  "open_row now t = t\<lparr>t_status := ''open'', t_block_reason := None, t_updated_at := now\<rparr>"

definition unblock_reason :: "string option \<Rightarrow> string" where
  "unblock_reason completed =
     (case completed of
        Some c \<Rightarrow> ''auto: '' @ c @ '' completed''
      | None \<Rightarrow> ''auto: dependencies satisfied (sweep)'')"

definition unblocked_event :: "time \<Rightarrow> string option \<Rightarrow> task_row \<Rightarrow> event_row" where
  "unblocked_event now completed t =
     (new_event (t_id t) ''unblocked'' now)
       \<lparr>e_actor := Some ''system'', e_scope := Some (t_scope t), e_priority := Some (t_priority t),
        e_status_from := Some ''blocked'', e_status_to := Some ''open'',
        e_meta := Some (JObj [(''reason'', JStr (unblock_reason completed))])\<rparr>"

text \<open>One candidate of the loop: the rows are read again, the update is guarded by the status.\<close>

definition unblock_one ::
  "time \<Rightarrow> string option \<Rightarrow> task_row \<Rightarrow> store \<times> string list \<Rightarrow> store \<times> string list" where
  "unblock_one now completed t acc =
     (case acc of (s, opened) \<Rightarrow>
        if \<not> unblockable s completed t then (s, opened)
        else let here = (\<lambda>r. t_id r = t_id t \<and> t_status r = ''blocked'') in
          if row_count here (st_tasks s) = 0 then (s, opened)
          else (log_event (unblocked_event now completed t)
                  (s\<lparr>st_tasks := row_update here (open_row now) (st_tasks s)\<rparr>),
                opened @ [t_id t]))"

definition blocked_rows :: "store \<Rightarrow> task_row list" where
  "blocked_rows s =
     sort_key (\<lambda>t. (t_created_at t, t_id t)) (filter (\<lambda>t. t_status t = ''blocked'') (st_tasks s))"

definition auto_unblock :: "time \<Rightarrow> string option \<Rightarrow> store \<Rightarrow> store \<times> string list" where
  "auto_unblock now completed s = fold (unblock_one now completed) (blocked_rows s) (s, [])"

text \<open>\<^verbatim>\<open>sweep_auto_unblock\<close>: the daemon tick's backstop.\<close>

definition sweep_auto_unblock :: "env \<Rightarrow> store \<Rightarrow> store \<times> string list" where
  "sweep_auto_unblock env s = auto_unblock (now_s env) None s"

subsection \<open>The closed form of the loop\<close>

lemma open_row_id [simp]: "t_id (open_row now t) = t_id t"
  by (simp add: open_row_def)

text \<open>
  Opening blocked tasks changes neither which tasks are done nor which have landed, so what
  is satisfied before the loop is satisfied in every round of it.
\<close>

definition open_where :: "(task_row \<Rightarrow> bool) \<Rightarrow> time \<Rightarrow> store \<Rightarrow> store" where
  "open_where P now s = s\<lparr>st_tasks := map (\<lambda>t. if P t \<and> t_status t = ''blocked'' then open_row now t else t) (st_tasks s)\<rparr>"

lemma get_task_open_where:
  assumes "distinct (map t_id (st_tasks s))"
  shows "get_task i (open_where P now s) =
     map_option (\<lambda>t. if P t \<and> t_status t = ''blocked'' then open_row now t else t) (get_task i s)"
  unfolding get_task_def row_get_def open_where_def
  by (simp, rule find_map_cong, simp)

lemma dep_satisfied_open_where:
  assumes "distinct (map t_id (st_tasks s))"
  shows "dep_satisfied (open_where P now s) d = dep_satisfied s d"
  by (auto simp: dep_satisfied_def get_task_open_where [OF assms] open_row_def split: option.splits)

lemma unblockable_cong:
  "(\<And>d. dep_satisfied s' d = dep_satisfied s d) \<Longrightarrow> unblockable s' completed t = unblockable s completed t"
  by (simp add: unblockable_def list_all_iff)

lemma dep_satisfied_log_event [simp]: "dep_satisfied (log_event e s) d = dep_satisfied s d"
  by (simp add: dep_satisfied_def)

lemma unblockable_log_event [simp]: "unblockable (log_event e s) completed = unblockable s completed"
  by (rule ext, rule unblockable_cong) simp

lemma unblock_one_step:
  assumes "get_task (t_id t) s = Some t" "t_status t = ''blocked''" "unblockable s completed t"
  shows "unblock_one now completed t (s, opened) =
    (log_event (unblocked_event now completed t) (open_where (\<lambda>r. t_id r = t_id t) now s), opened @ [t_id t])"
proof -
  have "t \<in> set (st_tasks s)" using assms(1) by (rule get_task_mem)
  with assms(2) have "row_count (\<lambda>r. t_id r = t_id t \<and> t_status r = ''blocked'') (st_tasks s) \<noteq> 0"
    by (auto simp: row_count_def filter_empty_conv)
  with assms(3) show ?thesis
    by (simp add: unblock_one_def open_where_def row_update_def)
qed

lemma open_where_open_where:
  "open_where Q now (open_where P now s) = open_where (\<lambda>t. P t \<or> Q t) now s"
proof -
  have "(\<lambda>t. if Q t \<and> t_status t = ''blocked'' then open_row now t else t)
      \<circ> (\<lambda>t. if P t \<and> t_status t = ''blocked'' then open_row now t else t) =
    (\<lambda>t. if (P t \<or> Q t) \<and> t_status t = ''blocked'' then open_row now t else t)"
    by (auto simp: fun_eq_iff open_row_def)
  then show ?thesis by (simp add: open_where_def)
qed

lemma open_where_log_event [simp]: "open_where P now (log_event e s) = log_event e (open_where P now s)"
  by (simp add: open_where_def log_event_def)

lemma open_where_simps [simp]:
  "st_leases (open_where P now s) = st_leases s" "st_events (open_where P now s) = st_events s"
  "st_counter (open_where P now s) = st_counter s" "st_offers (open_where P now s) = st_offers s"
  by (simp_all add: open_where_def)

lemma open_where_ids [simp]: "map t_id (st_tasks (open_where P now s)) = map t_id (st_tasks s)"
  by (simp add: open_where_def comp_def if_distrib cong: if_cong)

definition log_events :: "event_row list \<Rightarrow> store \<Rightarrow> store" where
  "log_events es s = s\<lparr>st_events := st_events s @ es\<rparr>"

lemma log_events_simps [simp]:
  "st_tasks (log_events es s) = st_tasks s" "st_leases (log_events es s) = st_leases s"
  "st_counter (log_events es s) = st_counter s" "st_offers (log_events es s) = st_offers s"
  "st_events (log_events es s) = st_events s @ es" "get_task i (log_events es s) = get_task i s"
  by (simp_all add: log_events_def get_task_def)

lemma log_events_log_event: "log_events es (log_event e s) = log_events (e # es) s"
  by (simp add: log_events_def log_event_def)

lemma open_where_False: "(\<And>t. t \<in> set (st_tasks s) \<Longrightarrow> \<not> P t) \<Longrightarrow> open_where P now s = s"
  by (simp add: open_where_def map_idI)

lemma fold_unblock:
  assumes "distinct (map t_id (st_tasks s))" "distinct (map t_id cs)"
    "\<forall>c \<in> set cs. get_task (t_id c) s = Some c \<and> t_status c = ''blocked''"
  shows "fold (unblock_one now completed) cs (s, opened) =
    (let hits = filter (unblockable s completed) cs in
     (log_events (map (unblocked_event now completed) hits)
        (open_where (\<lambda>t. t_id t \<in> t_id ` set hits) now s),
      opened @ map t_id hits))"
  using assms
proof (induction cs arbitrary: s opened)
  case Nil
  then show ?case by (simp add: log_events_def open_where_False)
next
  case (Cons c cs)
  show ?case
  proof (cases "unblockable s completed c")
    case False
    then have "unblock_one now completed c (s, opened) = (s, opened)"
      by (simp add: unblock_one_def)
    with Cons False show ?thesis by (simp add: Let_def)
  next
    case True
    let ?s1 = "log_event (unblocked_event now completed c) (open_where (\<lambda>r. t_id r = t_id c) now s)"
    have step: "unblock_one now completed c (s, opened) = (?s1, opened @ [t_id c])"
      using Cons.prems True by (intro unblock_one_step) auto
    have same: "unblockable (open_where (\<lambda>r. t_id r = t_id c) now s) completed = unblockable s completed"
      using dep_satisfied_open_where [OF Cons.prems(1)] by (intro ext unblockable_cong) simp
    have rest: "\<forall>d \<in> set cs. get_task (t_id d) ?s1 = Some d \<and> t_status d = ''blocked''"
    proof
      fix d assume d: "d \<in> set cs"
      with Cons.prems(2) have "t_id d \<noteq> t_id c" by (metis distinct.simps(2) image_eqI list.simps(9) set_map)
      moreover from d Cons.prems(3) have "get_task (t_id d) s = Some d" "t_status d = ''blocked''" by auto
      ultimately show "get_task (t_id d) ?s1 = Some d \<and> t_status d = ''blocked''"
        by (simp add: get_task_open_where [OF Cons.prems(1)])
    qed
    have "fold (unblock_one now completed) cs (?s1, opened @ [t_id c]) =
      (let hits = filter (unblockable s completed) cs in
       (log_events (map (unblocked_event now completed) hits)
          (open_where (\<lambda>t. t_id t \<in> t_id ` set hits) now ?s1),
        (opened @ [t_id c]) @ map t_id hits))"
      using Cons.IH [of ?s1 "opened @ [t_id c]"] Cons.prems rest same by (simp add: same)
    then show ?thesis
      using True by (simp add: step Let_def open_where_open_where log_events_log_event)
  qed
qed

lemma blocked_rows_rows:
  assumes "distinct (map t_id (st_tasks s))"
  shows "distinct (map t_id (blocked_rows s))"
    "\<forall>c \<in> set (blocked_rows s). get_task (t_id c) s = Some c \<and> t_status c = ''blocked''"
    "set (blocked_rows s) = {t \<in> set (st_tasks s). t_status t = ''blocked''}"
proof -
  show "set (blocked_rows s) = {t \<in> set (st_tasks s). t_status t = ''blocked''}"
    by (auto simp: blocked_rows_def)
  then show "\<forall>c \<in> set (blocked_rows s). get_task (t_id c) s = Some c \<and> t_status c = ''blocked''"
    using get_task_rows [OF assms] by auto
  have "distinct (map t_id (filter (\<lambda>t. t_status t = ''blocked'') (st_tasks s)))"
    using assms by (simp add: distinct_map_filter)
  then show "distinct (map t_id (blocked_rows s))"
    by (simp add: blocked_rows_def distinct_map inj_on_def)
qed

text \<open>The tasks one pass opens, oldest first, and the whole effect of the pass.\<close>

definition unblock_hits :: "string option \<Rightarrow> store \<Rightarrow> task_row list" where
  "unblock_hits completed s = filter (unblockable s completed) (blocked_rows s)"

lemma auto_unblock_closed:
  assumes "distinct (map t_id (st_tasks s))"
  shows "auto_unblock now completed s =
    (log_events (map (unblocked_event now completed) (unblock_hits completed s))
       (open_where (\<lambda>t. t_id t \<in> t_id ` set (unblock_hits completed s)) now s),
     map t_id (unblock_hits completed s))"
  unfolding auto_unblock_def unblock_hits_def
  using fold_unblock [OF assms blocked_rows_rows(1,2) [OF assms], of now completed "[]"]
  by (simp add: Let_def)

lemma unblock_hits_iff:
  assumes "distinct (map t_id (st_tasks s))"
  shows "t \<in> set (unblock_hits completed s) \<longleftrightarrow>
    t \<in> set (st_tasks s) \<and> t_status t = ''blocked'' \<and> unblockable s completed t"
  using blocked_rows_rows(3) [OF assms] by (auto simp: unblock_hits_def)

lemma hit_id_iff:
  assumes d: "distinct (map t_id (st_tasks s))" and t: "t \<in> set (st_tasks s)"
  shows "t_id t \<in> t_id ` set (unblock_hits completed s) \<longleftrightarrow>
    t_status t = ''blocked'' \<and> unblockable s completed t"
proof
  assume "t_id t \<in> t_id ` set (unblock_hits completed s)"
  then obtain u where u: "u \<in> set (unblock_hits completed s)" "t_id u = t_id t" by auto
  then have "u \<in> set (st_tasks s)" using unblock_hits_iff [OF d] by blast
  with u(2) t d have "u = t" by (auto simp: distinct_map inj_on_def)
  with u show "t_status t = ''blocked'' \<and> unblockable s completed t"
    using unblock_hits_iff [OF d] by blast
next
  assume "t_status t = ''blocked'' \<and> unblockable s completed t"
  with t show "t_id t \<in> t_id ` set (unblock_hits completed s)"
    using unblock_hits_iff [OF d] by blast
qed

lemma auto_unblock_frames [simp]:
  assumes "distinct (map t_id (st_tasks s))"
  shows "st_leases (fst (auto_unblock now completed s)) = st_leases s"
    "st_counter (fst (auto_unblock now completed s)) = st_counter s"
    "st_offers (fst (auto_unblock now completed s)) = st_offers s"
    "map t_id (st_tasks (fst (auto_unblock now completed s))) = map t_id (st_tasks s)"
  by (simp_all add: auto_unblock_closed [OF assms])

lemma auto_unblock_get_task:
  assumes "distinct (map t_id (st_tasks s))"
  shows "get_task i (fst (auto_unblock now completed s)) =
    map_option (\<lambda>t. if t_status t = ''blocked'' \<and> unblockable s completed t then open_row now t else t)
      (get_task i s)"
proof (cases "get_task i s")
  case None
  then show ?thesis by (simp add: auto_unblock_closed [OF assms] get_task_open_where [OF assms])
next
  case (Some t)
  then show ?thesis
    using hit_id_iff [OF assms get_task_mem [OF Some], of completed]
    by (auto simp: auto_unblock_closed [OF assms] get_task_open_where [OF assms])
qed

end
