(* ===== verification/Lifecycle.thy ===== *)
theory Lifecycle
  imports Dependencies
begin

text \<open>
  The life of a task after it is filed (\<^verbatim>\<open>tasks/mod.rs\<close>): status transitions with the
  columns, the event and the end of the claim that go with them, blocking on another task,
  completion with its notices, the landed flag, verdicts and notes. Every operation is a
  function from the store to its result and the store after; an operation that is refused
  returns the store it was given, except where the code itself commits before it fails.
\<close>

type_synonym 'a op = "store \<Rightarrow> 'a result \<times> store"

text \<open>What an operation ends with: \<^verbatim>\<open>self.get(&id)\<close> on the store it wrote.\<close>

definition done_with :: "string \<Rightarrow> task_row op" where
  "done_with tid s = (task_get tid s, s)"

section \<open>Status transitions\<close>

text \<open>
  The columns a transition writes with its status: \<^verbatim>\<open>completed_by\<close>, \<^verbatim>\<open>completed_at\<close>,
  \<^verbatim>\<open>cancelled_at\<close> and \<^verbatim>\<open>block_reason\<close>.
\<close>

definition transition_row ::
  "time \<Rightarrow> string \<Rightarrow> string option \<Rightarrow> string option \<Rightarrow> task_row \<Rightarrow> task_row" where
  "transition_row now status reason actor t =
     t\<lparr>t_status := status, t_updated_at := now,
       t_completed_by := (if status = ''done'' then actor else None),
       t_completed_at := (if status = ''done'' then Some now else None),
       t_cancelled_at := (if status = ''cancelled'' then Some now else None),
       t_block_reason := (if status = ''cancelled'' \<or> status = ''blocked'' then reason else None)\<rparr>"

definition transition_event :: "string \<Rightarrow> string \<Rightarrow> string" where
  "transition_event current status =
     (if status = ''done'' then ''completed''
      else if status = ''cancelled'' then ''cancelled''
      else if status = ''blocked'' then ''blocked''
      else if current = ''blocked'' \<and> status = ''open'' then ''unblocked''
      else ''status'')"

definition reason_meta :: "string option \<Rightarrow> json option" where
  "reason_meta reason = map_option (\<lambda>r. JObj [(''reason'', JStr r)]) reason"

definition status_event ::
  "time \<Rightarrow> string \<Rightarrow> string option \<Rightarrow> string option \<Rightarrow> task_row \<Rightarrow> event_row" where
  "status_event now status reason actor t =
     (new_event (t_id t) (transition_event (t_status t) status) now)
       \<lparr>e_actor := actor, e_scope := Some (t_scope t), e_priority := Some (t_priority t),
        e_status_from := Some (t_status t), e_status_to := Some status,
        e_duration_ms := (if status = ''done'' then Some (duration_ms now (t_created_at t)) else None),
        e_meta := reason_meta reason\<rparr>"

text \<open>
  \<^verbatim>\<open>set_status_with_reason\<close> for a text reason. The update is guarded by the status that
  was read; the guard cannot fail while one writer runs the whole call, and the branch for
  it is kept as the code has it.
\<close>

definition set_status ::
  "env \<Rightarrow> string \<Rightarrow> string \<Rightarrow> string option \<Rightarrow> string option \<Rightarrow> task_row op" where
  "set_status env tid status reason actor s =
     (case get_task tid s of
        None \<Rightarrow> (refused (NoTask tid), s)
      | Some t \<Rightarrow>
          let current = t_status t; now = now_s env;
              here = (\<lambda>r. t_id r = tid \<and> t_status r = current)
          in if is_terminal current \<and> current \<noteq> status
             then (refused (TaskFinished tid current), s)
             else if row_count here (st_tasks s) = 0
             then ((if is_terminal current then refused (TaskFinished tid current)
                    else Inl (Retryable (TaskChanged tid current))), s)
             else
               let s = s\<lparr>st_tasks := row_update here (transition_row now status reason actor) (st_tasks s)\<rparr>;
                   s = log_event (status_event now status reason actor t) s;
                   s = (if ends_claim status then end_claims tid s else s);
                   s = (if status = ''done'' \<and> current \<noteq> ''done''
                        then fst (auto_unblock now (Some tid) s) else s)
               in done_with tid s)"

definition block_task :: "env \<Rightarrow> string \<Rightarrow> string \<Rightarrow> task_row op" where
  "block_task env tid reason = set_status env tid ''blocked'' (Some reason) None"

definition unblock_task :: "env \<Rightarrow> string \<Rightarrow> task_row op" where
  "unblock_task env tid = set_status env tid ''open'' None None"

definition cancel_task :: "env \<Rightarrow> string \<Rightarrow> string \<Rightarrow> task_row op" where
  "cancel_task env tid reason = set_status env tid ''cancelled'' (Some reason) None"

text \<open>\<^verbatim>\<open>block_by\<close>: blocked on another task, with the dependency recorded.\<close>

definition block_by :: "env \<Rightarrow> string \<Rightarrow> string \<Rightarrow> task_row op" where
  "block_by env tid blocker s =
     (let tid = trim tid; blocker = trim blocker; now = now_s env in
      if tid = blocker then (refused (Text ''a task cannot depend on itself''), s)
      else case get_task tid s of
        None \<Rightarrow> (refused (NoTask tid), s)
      | Some t \<Rightarrow>
          if get_task blocker s = None then (refused (NoTask blocker), s)
          else if is_terminal (t_status t) then (refused (BlockFinished tid (t_status t)), s)
          else
            let deps = (if blocker \<in> set (t_depends_on t) then t_depends_on t
                        else t_depends_on t @ [blocker]);
                reason = ''blocked-by:'' @ blocker;
                s = upd_task tid (\<lambda>r. r\<lparr>t_status := ''blocked'', t_block_reason := Some reason,
                                       t_depends_on := deps, t_updated_at := now\<rparr>) s;
                s = log_event ((new_event tid ''blocked'' now)
                      \<lparr>e_scope := Some (t_scope t), e_priority := Some (t_priority t),
                       e_status_from := Some (t_status t), e_status_to := Some ''blocked'',
                       e_meta := Some (JObj [(''reason'', JStr reason)])\<rparr>) s
            in done_with tid (end_claims tid s))"

section \<open>Landed work\<close>

definition landed_meta :: "string option \<Rightarrow> int option \<Rightarrow> json" where
  "landed_meta repo pr = JObj [(''repo'', json_opt_str repo), (''pr'', json_opt_int pr)]"

definition set_landed ::
  "env \<Rightarrow> string \<Rightarrow> bool \<Rightarrow> string option \<Rightarrow> string option \<Rightarrow> int option \<Rightarrow> task_row op" where
  "set_landed env tid landed who repo pr s =
     (case get_task tid s of
        None \<Rightarrow> (refused (NoTask tid), s)
      | Some t \<Rightarrow>
          let now = now_s env;
              s = upd_task tid (\<lambda>r. r\<lparr>t_landed := landed, t_updated_at := now\<rparr>) s;
              s = log_event ((new_event tid (if landed then ''landed'' else ''unlanded'') now)
                    \<lparr>e_actor := who, e_scope := Some (t_scope t), e_priority := Some (t_priority t),
                     e_meta := Some (landed_meta repo pr)\<rparr>) s
          in done_with tid s)"

definition land_one ::
  "time \<Rightarrow> string \<Rightarrow> int \<Rightarrow> string option \<Rightarrow> task_row \<Rightarrow> store \<times> string list \<Rightarrow> store \<times> string list" where
  "land_one now repo pr who t acc =
     (case acc of (s, flipped) \<Rightarrow>
        if t_status t = ''done'' \<and> \<not> t_landed t
        then (log_event ((new_event (t_id t) ''landed'' now)
                \<lparr>e_actor := who, e_scope := Some ''global'',
                 e_meta := Some (JObj [(''repo'', JStr repo), (''pr'', JInt pr),
                                       (''reason'', JStr ''the PR merged'')])\<rparr>)
                (upd_task (t_id t) (\<lambda>r. r\<lparr>t_landed := True, t_updated_at := now\<rparr>) s),
              flipped @ [t_id t])
        else (s, flipped))"

definition mark_landed_for_pr :: "env \<Rightarrow> string \<Rightarrow> int \<Rightarrow> string option \<Rightarrow> string list op" where
  "mark_landed_for_pr env repo pr who s =
     (if repo = [] \<or> pr = 0 then (ok [], s)
      else let (s', flipped) =
             fold (land_one (now_s env) repo pr who)
               (filter (\<lambda>t. t_repo t = Some repo \<and> t_pr t = Some pr) (st_tasks s)) (s, [])
           in (ok flipped, s'))"

section \<open>Completion\<close>

text \<open>
  What the observers registered with \<^verbatim>\<open>on_event\<close> are called with after the commit:
  the task, the event, the actor and the kind.
\<close>

type_synonym notice = "string \<times> string \<times> string option \<times> string option"

text \<open>
  \<^verbatim>\<open>unblocked_by\<close>: the newest 200 automatic \<^verbatim>\<open>unblocked\<close> events, and of those the ones
  whose recorded reason names the completed task.
\<close>

definition meta_reason :: "json option \<Rightarrow> string option" where
  "meta_reason meta = (case meta of Some (JObj m) \<Rightarrow> as_str (jget m ''reason'') | _ \<Rightarrow> None)"

definition unblocked_by :: "string \<Rightarrow> store \<Rightarrow> string list" where
  "unblocked_by completed s =
     map e_task_id
       (filter (\<lambda>e. meta_reason (e_meta e) = Some (unblock_reason (Some completed)))
         (take 200 (rev (filter (\<lambda>e. e_event e = ''unblocked'' \<and> e_actor e = Some ''system'') (st_events s)))))"

definition unblocked_notices :: "string list \<Rightarrow> notice list" where
  "unblocked_notices ids = map (\<lambda>i. (i, ''unblocked'', Some ''system'', None)) ids"

definition complete_by ::
  "env \<Rightarrow> string \<Rightarrow> string option \<Rightarrow> store \<Rightarrow> (task_row \<times> notice list) result \<times> store" where
  "complete_by env tid who s =
     (case task_get tid s of
        Inl e \<Rightarrow> (Inl e, s)
      | Inr before \<Rightarrow>
          if t_status before = ''done'' then (ok (before, []), s)
          else case set_status env tid ''done'' None who s of
            (Inl e, s) \<Rightarrow> (Inl e, s)
          | (Inr finished, s) \<Rightarrow>
              (ok (finished, (t_id finished, ''completed'', who, Some (t_kind before))
                             # unblocked_notices (unblocked_by (t_id finished) s)), s))"

text \<open>
  \<^verbatim>\<open>task_complete\<close>: work that is not on main is recorded as unlanded before the
  completion, so the tasks that depend on it see it; a completion that fails sets the flag
  back.
\<close>

definition task_complete ::
  "env \<Rightarrow> string \<Rightarrow> string option \<Rightarrow> bool \<Rightarrow> store \<Rightarrow> (task_row \<times> notice list) result \<times> store" where
  "task_complete env tid who landed s =
     (if landed then complete_by env tid who s
      else case task_get tid s of
        Inl e \<Rightarrow> (Inl e, s)
      | Inr before \<Rightarrow>
          if t_status before = ''done'' then (ok (before, []), s)
          else case set_landed env tid False who None None s of
            (Inl e, s) \<Rightarrow> (Inl e, s)
          | (Inr _, s) \<Rightarrow>
              (case complete_by env tid who s of
                 (Inr r, s) \<Rightarrow> (ok r, s)
               | (Inl e, s) \<Rightarrow> (Inl e, snd (set_landed env tid True who None None s))))"

text \<open>\<^verbatim>\<open>h_task_complete\<close>: an omitted flag means landed.\<close>

definition h_task_complete ::
  "env \<Rightarrow> string \<Rightarrow> string option \<Rightarrow> bool option \<Rightarrow> store \<Rightarrow> (task_row \<times> notice list) result \<times> store" where
  "h_task_complete env tid who landed =
     task_complete env tid who (case landed of None \<Rightarrow> True | Some b \<Rightarrow> b)"

section \<open>Verdicts, notes and who worked on a change\<close>

definition set_verdict :: "env \<Rightarrow> string \<Rightarrow> string \<Rightarrow> string option \<Rightarrow> task_row op" where
  "set_verdict env tid verdict who s =
     (let verdict = to_lowercase (trim verdict); now = now_s env in
      if verdict \<noteq> ''accept'' \<and> verdict \<noteq> ''needs-fix''
      then (refused (NotOneOf ''verdict'' VERDICTS verdict), s)
      else if row_count (\<lambda>r. t_id r = tid) (st_tasks s) = 0 then (refused (NoTask tid), s)
      else
        let s = upd_task tid (\<lambda>r. r\<lparr>t_verdict := Some verdict, t_updated_at := now\<rparr>) s;
            s = log_event ((new_event tid ''verdict'' now)
                  \<lparr>e_actor := who, e_meta := Some (JObj [(''verdict'', JStr verdict)])\<rparr>) s
        in done_with tid s)"

definition verdict_of :: "string \<Rightarrow> store \<Rightarrow> string option" where
  "verdict_of tid s = Option.bind (get_task tid s) t_verdict"

definition set_accounting_pr :: "env \<Rightarrow> string \<Rightarrow> int \<Rightarrow> int op" where
  "set_accounting_pr env tid number s =
     (case get_task tid s of
        None \<Rightarrow> (refused (NoTask tid), s)
      | Some t \<Rightarrow>
          let now = now_s env;
              s = upd_task tid (\<lambda>r. r\<lparr>t_accounting_pr := Some number, t_updated_at := now\<rparr>) s;
              s = log_event ((new_event tid ''accounting'' now)
                    \<lparr>e_scope := Some (t_scope t), e_priority := Some (t_priority t),
                     e_meta := Some (JObj [(''accounting_pr'', JInt number),
                                           (''body_pr'', json_opt_int (t_pr t))])\<rparr>) s
          in (ok number, s))"

definition note_with_meta ::
  "env \<Rightarrow> string \<Rightarrow> string \<Rightarrow> string \<Rightarrow> string option \<Rightarrow> json \<Rightarrow> store \<Rightarrow> store" where
  "note_with_meta env tid event actor reason extra s =
     (let meta = (case extra of JObj m \<Rightarrow> m | _ \<Rightarrow> []);
          meta = (case reason of None \<Rightarrow> meta | Some r \<Rightarrow> jinsert ''reason'' (JStr r) meta)
      in log_event ((new_event tid event (now_s env))\<lparr>e_actor := Some actor, e_meta := Some (JObj meta)\<rparr>) s)"

definition task_note :: "env \<Rightarrow> string \<Rightarrow> string \<Rightarrow> string \<Rightarrow> string option \<Rightarrow> store \<Rightarrow> store" where
  "task_note env tid event actor reason = note_with_meta env tid event actor reason (JObj [])"

record recent_note =
  rn_event :: string
  rn_at :: time
  rn_actor :: "string option"
  rn_reason :: string

definition recent_note_of :: "event_row \<Rightarrow> recent_note option" where
  "recent_note_of e =
     (let reason = (case meta_reason (e_meta e) of Some r \<Rightarrow> trim r | None \<Rightarrow> [])
      in if reason = [] then None
         else Some \<lparr>rn_event = e_event e, rn_at = e_at e, rn_actor = e_actor e, rn_reason = reason\<rparr>)"

text \<open>\<^verbatim>\<open>recent_notes\<close>: of the newest \<^verbatim>\<open>4 * limit\<close> events with metadata, the newest
  \<^verbatim>\<open>limit\<close> that carry a reason, oldest first.\<close>

definition recent_notes :: "string \<Rightarrow> nat \<Rightarrow> store \<Rightarrow> recent_note list" where
  "recent_notes tid limit s =
     (if limit = 0 then []
      else let tid = trim tid;
             newest = take (limit * 4) (rev (filter (\<lambda>e. e_task_id e = tid \<and> e_meta e \<noteq> None) (st_events s)))
           in rev (take limit (List.map_filter recent_note_of newest)))"

definition authors_of :: "string \<Rightarrow> int \<Rightarrow> store \<Rightarrow> string list" where
  "authors_of repo pr s =
     (if repo = [] \<or> pr \<le> 0 then []
      else sort (remdups (filter (\<lambda>p. p \<noteq> [])
             (concat (map (\<lambda>t. t_assignees t
                        @ (case t_completed_by t of None \<Rightarrow> [] | Some p \<Rightarrow> [p])
                        @ (case t_author t of None \<Rightarrow> [] | Some p \<Rightarrow> [p]))
               (filter (\<lambda>t. t_repo t = Some repo \<and> t_pr t = Some pr \<and> t_kind t \<noteq> ''review'') (st_tasks s)))))))"

definition blocked_dependents :: "string \<Rightarrow> store \<Rightarrow> string list" where
  "blocked_dependents tid s =
     sort (map t_id (filter (\<lambda>t. t_status t \<in> {''open'', ''in_progress'', ''blocked''}
                              \<and> tid \<in> set (t_depends_on t)) (st_tasks s)))"

end
