(* ===== verification/Task_Edit.thy ===== *)
theory Task_Edit
  imports Lifecycle
begin

text \<open>
  Filing, assigning, editing and deleting tasks (\<^verbatim>\<open>tasks/mod.rs\<close>: \<^verbatim>\<open>add_with\<close>,
  \<^verbatim>\<open>add_review_with_verdict_guard\<close>, \<^verbatim>\<open>assign\<close>, \<^verbatim>\<open>delete\<close>,
  \<^verbatim>\<open>update_with_status\<close>). Each is one immediate transaction: a refusal is a rollback, so
  it returns the store it was given.
\<close>

section \<open>Filing a task\<close>

record add_options =
  ao_status :: "string option"
  ao_priority :: "string option"
  ao_assignees :: "string list"
  ao_parent_id :: "string option"
  ao_depends_on :: "string list"
  ao_created_by :: "string option"
  ao_multi_assignee :: bool
  ao_kind :: "string option"
  ao_author :: "string option"
  ao_repo :: "string option"
  ao_pr :: "string option"
  ao_head :: "string option"

definition default_add_options :: add_options where
  "default_add_options =
     \<lparr>ao_status = None, ao_priority = None, ao_assignees = [], ao_parent_id = None, ao_depends_on = [],
      ao_created_by = None, ao_multi_assignee = False, ao_kind = None, ao_author = None,
      ao_repo = None, ao_pr = None, ao_head = None\<rparr>"

definition clean :: "string option \<Rightarrow> string option" where
  "clean v = non_empty_str (map_option trim v)"

text \<open>Strip the items, drop the blank ones, keep the first of each.\<close>

definition dedupe :: "string list \<Rightarrow> string list" where
  "dedupe xs =
     fold (\<lambda>item seen. if item \<in> set seen then seen else seen @ [item])
       (filter (\<lambda>d. d \<noteq> []) (map trim xs)) []"

definition live_status :: "string \<Rightarrow> bool" where
  "live_status status \<longleftrightarrow> status = ''open'' \<or> status = ''in_progress'' \<or> status = ''blocked''"

text \<open>
  The partial unique index \<^verbatim>\<open>tasks_one_review_per_head\<close>: the live reviews of one exact
  head, which a new live review would collide with.
\<close>

definition same_review :: "string option \<Rightarrow> int option \<Rightarrow> string option \<Rightarrow> task_row \<Rightarrow> bool" where
  "same_review repo pr head t \<longleftrightarrow>
     t_kind t = ''review'' \<and> t_repo t = repo \<and> t_pr t = pr \<and> t_head t = head
     \<and> repo \<noteq> None \<and> pr \<noteq> None \<and> head \<noteq> None"

definition live_review :: "string option \<Rightarrow> int option \<Rightarrow> string option \<Rightarrow> task_row \<Rightarrow> bool" where
  "live_review repo pr head t \<longleftrightarrow> same_review repo pr head t \<and> live_status (t_status t)"

text \<open>The reviews of a head that carry a verdict.\<close>

definition verdict_ids :: "string option \<Rightarrow> int option \<Rightarrow> string option \<Rightarrow> store \<Rightarrow> string set" where
  "verdict_ids repo pr head s =
     set (map t_id (filter (\<lambda>t. t_scope t = ''global'' \<and> same_review repo pr head t
                              \<and> t_status t = ''done'' \<and> non_empty_str (t_verdict t) \<noteq> None) (st_tasks s)))"

definition parse_pr :: "string option \<Rightarrow> int option result" where
  "parse_pr raw =
     (case non_empty_str raw of
        None \<Rightarrow> ok None
      | Some r \<Rightarrow> (case parse_signed (2 ^ 63) (trim r) of Some n \<Rightarrow> ok (Some n) | None \<Rightarrow> refused (BadPr r)))"

text \<open>The row to insert, with everything but the id: the checks made before the transaction.\<close>

definition new_task_row ::
  "env \<Rightarrow> string \<Rightarrow> string \<Rightarrow> string \<Rightarrow> add_options \<Rightarrow> task_row result" where
  "new_task_row env scope title body opts =
     try_bind (validate_scope env scope) (\<lambda>scope.
     if trim title = [] then refused (Text ''a task needs a title'')
     else
     try_bind (validate_status (case non_empty_str (ao_status opts) of Some x \<Rightarrow> x | None \<Rightarrow> DEFAULT_STATUS)) (\<lambda>status.
     try_bind (validate_priority (case non_empty_str (ao_priority opts) of Some x \<Rightarrow> x | None \<Rightarrow> DEFAULT_PRIORITY)) (\<lambda>priority.
     try_bind (validate_kind (case ao_kind opts of Some x \<Rightarrow> x | None \<Rightarrow> [])) (\<lambda>kind.
     try_bind (parse_pr (ao_pr opts)) (\<lambda>pr.
     let repo = clean (ao_repo opts); head = clean (ao_head opts) in
     if kind = ''review'' \<and> \<not> (repo \<noteq> None \<and> (case pr of Some n \<Rightarrow> n \<noteq> 0 | None \<Rightarrow> False) \<and> head \<noteq> None)
     then refused (Text ''a review task needs repo, pr and head'')
     else ok
       \<lparr>t_id = [], t_scope = scope, t_title = trim title, t_body = body, t_status = status,
        t_priority = priority, t_parent_id = clean (ao_parent_id opts),
        t_multi_assignee = ao_multi_assignee opts, t_attempts = 0,
        t_assignees = dedupe (ao_assignees opts), t_depends_on = dedupe (ao_depends_on opts),
        t_created_at = now_s env, t_updated_at = now_s env, t_created_by = ao_created_by opts,
        t_completed_by = None, t_completed_at = None, t_cancelled_at = None, t_block_reason = None,
        t_kind = kind, t_author = clean (ao_author opts), t_repo = repo, t_pr = pr, t_head = head,
        t_verdict = None, t_accounting_pr = None, t_landed = True\<rparr>)))))"

text \<open>The parent and every dependency must exist, and the parent is not a dependency.\<close>

fun check_deps :: "store \<Rightarrow> string option \<Rightarrow> string list \<Rightarrow> unit result" where
  "check_deps s parent [] = ok ()"
| "check_deps s parent (dep # deps) =
     (if Some dep = parent then refused (Text ''a task cannot depend on its parent'')
      else if get_task dep s = None then refused (NoTask dep)
      else check_deps s parent deps)"

definition next_number :: "store \<Rightarrow> nat" where
  "next_number s = (case st_counter s of None \<Rightarrow> 1 | Some n \<Rightarrow> n + 1)"

definition task_id_of :: "nat \<Rightarrow> string" where
  "task_id_of n = ''t'' @ digits n"

definition created_event :: "task_row \<Rightarrow> event_row" where
  "created_event t =
     (new_event (t_id t) ''created'' (t_created_at t))
       \<lparr>e_actor := t_created_by t, e_scope := Some (t_scope t), e_priority := Some (t_priority t),
        e_status_to := Some (t_status t),
        e_meta := (if t_kind t \<noteq> ''work'' \<or> t_author t \<noteq> None
                   then Some (JObj [(''kind'', JStr (t_kind t)), (''author'', json_opt_str (t_author t))])
                   else None)\<rparr>"

definition insert_task :: "task_row \<Rightarrow> store \<Rightarrow> string result \<times> store" where
  "insert_task row s =
     (let n = next_number s; row = row\<lparr>t_id := task_id_of n\<rparr>;
          clash = find (live_review (t_repo row) (t_pr row) (t_head row)) (st_tasks s)
      in if t_kind row = ''review'' \<and> live_status (t_status row) \<and> clash \<noteq> None
         then (refused (LiveReview (the (t_repo row)) (the (t_pr row)) (the (t_head row)) (map_option t_id clash)), s)
         else (ok (t_id row),
               log_event (created_event row)
                 (s\<lparr>st_counter := Some n, st_tasks := st_tasks s @ [row]\<rparr>)))"

definition add_with_verdict_guard ::
  "env \<Rightarrow> string \<Rightarrow> string \<Rightarrow> string \<Rightarrow> add_options \<Rightarrow> string list option \<Rightarrow> task_row option op" where
  "add_with_verdict_guard env scope title body opts expected s =
     (case new_task_row env scope title body opts of
        Inl e \<Rightarrow> (Inl e, s)
      | Inr row \<Rightarrow>
          if (case expected of None \<Rightarrow> False | Some ids \<Rightarrow> verdict_ids (t_repo row) (t_pr row) (t_head row) s \<noteq> set ids)
          then (ok None, s)
          else if (case t_parent_id row of None \<Rightarrow> False | Some p \<Rightarrow> get_task p s = None)
          then (refused (NoTask (the (t_parent_id row))), s)
          else case check_deps s (t_parent_id row) (t_depends_on row) of
            Inl e \<Rightarrow> (Inl e, s)
          | Inr _ \<Rightarrow>
              (case insert_task row s of
                 (Inl e, s) \<Rightarrow> (Inl e, s)
               | (Inr tid, s) \<Rightarrow> (try_bind (task_get tid s) (\<lambda>t. ok (Some t)), s)))"

definition add_with :: "env \<Rightarrow> string \<Rightarrow> string \<Rightarrow> string \<Rightarrow> add_options \<Rightarrow> task_row op" where
  "add_with env scope title body opts s =
     (case add_with_verdict_guard env scope title body opts None s of
        (Inl e, s) \<Rightarrow> (Inl e, s)
      | (Inr (Some t), s) \<Rightarrow> (ok t, s)
      | (Inr None, s) \<Rightarrow> (refused (Text ''unconditional task insertion was refused''), s))"

definition add_task :: "env \<Rightarrow> string \<Rightarrow> string \<Rightarrow> string \<Rightarrow> task_row op" where
  "add_task env scope title body = add_with env scope title body default_add_options"

definition add_review_with_verdict_guard ::
  "env \<Rightarrow> string \<Rightarrow> string \<Rightarrow> string \<Rightarrow> add_options \<Rightarrow> string list \<Rightarrow> task_row option op" where
  "add_review_with_verdict_guard env scope title body opts expected s =
     (if scope \<noteq> ''global'' \<or> ao_kind opts \<noteq> Some ''review''
      then (refused (Text ''review verdict expectations require a global review''), s)
      else add_with_verdict_guard env scope title body opts (Some expected) s)"

section \<open>Assigning\<close>

definition assign_mode :: "string \<Rightarrow> string option" where
  "assign_mode mode =
     (let m = to_lowercase (trim mode) in
      if m = [] \<or> m = ''add'' \<or> m = ''append'' then Some ''add''
      else if m = ''remove'' \<or> m = ''rm'' then Some ''remove''
      else if m = ''set'' \<or> m = ''replace'' then Some ''set''
      else None)"

definition merge_assignees :: "string \<Rightarrow> string list \<Rightarrow> string list \<Rightarrow> string list" where
  "merge_assignees mode current incoming =
     (if mode = ''add''
      then fold (\<lambda>item out. if item \<in> set out then out else out @ [item]) incoming current
      else if mode = ''remove'' then filter (\<lambda>item. item \<notin> set incoming) current
      else incoming)"

definition strip_items :: "string list \<Rightarrow> string list" where
  "strip_items xs = filter (\<lambda>item. item \<noteq> []) (map trim xs)"

definition assign :: "env \<Rightarrow> string \<Rightarrow> string list \<Rightarrow> string \<Rightarrow> task_row op" where
  "assign env tid assignees mode s =
     (let incoming = strip_items assignees; tid = trim tid; now = now_s env in
      if incoming = [] then (refused (Text ''at least one assignee is required''), s)
      else case assign_mode mode of
        None \<Rightarrow> (refused (Text ''assign mode must be add, remove or set''), s)
      | Some mode \<Rightarrow>
          (case get_task tid s of
             None \<Rightarrow> (refused (NoTask tid), s)
           | Some t \<Rightarrow>
               let merged = merge_assignees mode (t_assignees t) incoming;
                   s = upd_task tid (\<lambda>r. r\<lparr>t_assignees := merged, t_updated_at := now\<rparr>) s;
                   s = log_event ((new_event tid ''assigned'' now)
                         \<lparr>e_scope := Some (t_scope t), e_priority := Some (t_priority t),
                          e_meta := Some (JObj [(''assignees'', json_strs merged)])\<rparr>) s
               in done_with tid s))"

section \<open>Deleting\<close>

definition delete_task :: "env \<Rightarrow> string \<Rightarrow> string op" where
  "delete_task env tid s =
     (let tid = trim tid; now = now_s env in
      case get_task tid s of
        None \<Rightarrow> (refused (NoTask tid), s)
      | Some t \<Rightarrow>
          let children = row_count (\<lambda>r. t_parent_id r = Some tid) (st_tasks s);
              dependents = map t_id (filter (\<lambda>r. tid \<in> set (t_depends_on r)) (st_tasks s))
          in if children > 0 then (refused (HasChildren tid children), s)
             else if dependents \<noteq> [] then (refused (HasDependents tid dependents), s)
             else
               let s = log_event ((new_event tid ''deleted'' now)
                         \<lparr>e_scope := Some (t_scope t), e_priority := Some (t_priority t),
                          e_status_from := Some (t_status t)\<rparr>) s
               in (ok tid, s\<lparr>st_tasks := row_delete (\<lambda>r. t_id r = tid) (st_tasks s)\<rparr>))"

section \<open>Editing\<close>

text \<open>
  \<^verbatim>\<open>FieldEdit\<close>: for the parent and the block reason, \<^verbatim>\<open>Some(None)\<close> clears and
  \<^verbatim>\<open>None\<close> leaves alone.
\<close>

record field_edit =
  fe_title :: "string option"
  fe_body :: "string option"
  fe_priority :: "string option"
  fe_depends_on :: "string list option"
  fe_parent_id :: "string option option"
  fe_assignees :: "string list option"
  fe_multi_assignee :: "bool option"
  fe_block_reason :: "string option option"

definition no_edit :: field_edit where
  "no_edit = \<lparr>fe_title = None, fe_body = None, fe_priority = None, fe_depends_on = None,
     fe_parent_id = None, fe_assignees = None, fe_multi_assignee = None, fe_block_reason = None\<rparr>"

definition opt_map :: "('a \<Rightarrow> 'b result) \<Rightarrow> 'a option \<Rightarrow> 'b option result" where
  "opt_map f x = (case x of None \<Rightarrow> ok None | Some y \<Rightarrow> try_bind (f y) (\<lambda>z. ok (Some z)))"

definition edit_parent :: "string \<Rightarrow> string option option \<Rightarrow> store \<Rightarrow> string option option result" where
  "edit_parent tid edit s =
     opt_map (\<lambda>p. case clean p of
         None \<Rightarrow> ok None
       | Some parent \<Rightarrow>
           if parent = tid then refused (Text ''a task cannot be its own parent'')
           else if get_task parent s = None then refused (NoTask parent)
           else ok (Some parent)) edit"

definition edit_deps :: "string \<Rightarrow> string list option \<Rightarrow> store \<Rightarrow> string list option result" where
  "edit_deps tid edit s =
     opt_map (\<lambda>ds. let deps = strip_items ds in
         if tid \<in> set deps then refused (Text ''a task cannot depend on itself'')
         else case find (\<lambda>d. get_task d s = None) deps of
           Some d \<Rightarrow> refused (NoTask d)
         | None \<Rightarrow> ok deps) edit"

definition edit_status :: "string \<Rightarrow> string \<Rightarrow> string option \<Rightarrow> string option result" where
  "edit_status tid current requested =
     opt_map (\<lambda>r. try_bind (validate_status r) (\<lambda>status.
         if is_terminal current \<and> status \<noteq> current then refused (TaskFinished tid current)
         else ok status)) requested"

text \<open>The columns the status part of an edit writes.\<close>

definition edit_status_row ::
  "time \<Rightarrow> string option \<Rightarrow> string \<Rightarrow> task_row \<Rightarrow> task_row" where
  "edit_status_row now actor status t =
     (if status = ''done''
      then t\<lparr>t_status := status, t_completed_by := actor, t_completed_at := Some now,
             t_cancelled_at := None, t_block_reason := None\<rparr>
      else if status = ''cancelled''
      then t\<lparr>t_status := status, t_cancelled_at := Some now, t_block_reason := None\<rparr>
      else if status = ''blocked''
      then t\<lparr>t_status := status, t_completed_by := None, t_completed_at := None, t_cancelled_at := None\<rparr>
      else t\<lparr>t_status := status, t_completed_by := None, t_completed_at := None,
             t_cancelled_at := None, t_block_reason := None\<rparr>)"

definition set_opt :: "'a option \<Rightarrow> ('a \<Rightarrow> 'r \<Rightarrow> 'r) \<Rightarrow> 'r \<Rightarrow> 'r" where
  "set_opt x f r = (case x of None \<Rightarrow> r | Some v \<Rightarrow> f v r)"

text \<open>The edited row: the updates of the transaction, in its order.\<close>

definition edit_row ::
  "env \<Rightarrow> string option \<Rightarrow> field_edit \<Rightarrow> string option \<Rightarrow> string option option
   \<Rightarrow> string list option \<Rightarrow> string option \<Rightarrow> task_row \<Rightarrow> task_row" where
  "edit_row env actor edit priority parent deps status t =
     (let t' = set_opt parent (\<lambda>p r. r\<lparr>t_parent_id := p\<rparr>) t;
          t' = set_opt (fe_multi_assignee edit) (\<lambda>b r. r\<lparr>t_multi_assignee := b\<rparr>) t';
          t' = set_opt (fe_assignees edit) (\<lambda>a r. r\<lparr>t_assignees := strip_items a\<rparr>) t';
          t' = set_opt (fe_title edit) (\<lambda>x r. r\<lparr>t_title := trim x\<rparr>) t';
          t' = set_opt (fe_body edit) (\<lambda>x r. r\<lparr>t_body := x\<rparr>) t';
          t' = set_opt priority (\<lambda>p r. r\<lparr>t_priority := p\<rparr>) t';
          t' = set_opt deps (\<lambda>d r. r\<lparr>t_depends_on := d\<rparr>) t';
          t' = set_opt status (edit_status_row (now_s env) actor) t';
          t' = set_opt (fe_block_reason edit) (\<lambda>b r. r\<lparr>t_block_reason := b\<rparr>) t';
          changed = (parent \<noteq> None \<or> fe_multi_assignee edit \<noteq> None \<or> fe_assignees edit \<noteq> None
            \<or> fe_title edit \<noteq> None \<or> fe_body edit \<noteq> None \<or> priority \<noteq> None \<or> deps \<noteq> None
            \<or> status \<noteq> None \<or> fe_block_reason edit \<noteq> None)
      in if changed then t'\<lparr>t_updated_at := now_s env\<rparr> else t')"

text \<open>
  The events of the edit, in the order they are written: those of the status part
  (\<open>removed\<close> counts the leases it ended), then those of the other columns.
\<close>

definition edit_event :: "env \<Rightarrow> string option \<Rightarrow> string \<Rightarrow> task_row \<Rightarrow> event_row" where
  "edit_event env actor event t =
     (new_event (t_id t) event (now_s env))\<lparr>e_actor := actor, e_scope := Some (t_scope t)\<rparr>"

definition status_edit_events ::
  "env \<Rightarrow> string option \<Rightarrow> string option \<Rightarrow> string option \<Rightarrow> nat \<Rightarrow> task_row \<Rightarrow> event_row list" where
  "status_edit_events env actor priority status removed t =
     (let new_priority = (case priority of Some p \<Rightarrow> p | None \<Rightarrow> t_priority t) in
      case status of
        Some st \<Rightarrow>
          if st = t_status t then []
          else (if ends_claim st \<and> removed > 0
                then [(edit_event env actor ''lease_released'' t)
                        \<lparr>e_priority := Some new_priority, e_status_to := Some st,
                         e_meta := Some (JObj [(''reason'', JStr (''status became '' @ st)),
                                               (''leases_removed'', JInt (int removed))])\<rparr>]
                else [])
             @ [(edit_event env actor (transition_event (t_status t) st) t)
                  \<lparr>e_priority := Some new_priority, e_status_from := Some (t_status t),
                   e_status_to := Some st,
                   e_duration_ms := (if st = ''done'' then Some (duration_ms (now_s env) (t_created_at t)) else None)\<rparr>]
      | None \<Rightarrow> [])"

definition field_edit_events ::
  "env \<Rightarrow> string option \<Rightarrow> field_edit \<Rightarrow> string option \<Rightarrow> string list option \<Rightarrow> task_row \<Rightarrow> event_row list" where
  "field_edit_events env actor edit priority deps t =
     (case priority of
        Some p \<Rightarrow> if p = t_priority t then []
          else [(edit_event env actor ''priority'' t)
                  \<lparr>e_priority := Some p,
                   e_meta := Some (JObj [(''from'', JStr (t_priority t)), (''to'', JStr p)])\<rparr>]
      | None \<Rightarrow> [])
     @ (case deps of
          Some ds \<Rightarrow> if ds = t_depends_on t then []
            else [(edit_event env actor ''depends'' t)
                    \<lparr>e_priority := Some (t_priority t),
                     e_meta := Some (JObj
                       [(''removed'', json_strs (filter (\<lambda>d. d \<notin> set ds) (t_depends_on t))),
                        (''added'', json_strs (filter (\<lambda>d. d \<notin> set (t_depends_on t)) ds)),
                        (''depends_on'', json_strs ds)])\<rparr>]
        | None \<Rightarrow> [])
     @ (case fe_assignees edit of
          Some a \<Rightarrow> if strip_items a = t_assignees t then []
            else [(edit_event env actor ''assigned'' t)
                    \<lparr>e_priority := Some (t_priority t),
                     e_meta := Some (JObj [(''assignees'', json_strs (strip_items a))])\<rparr>]
        | None \<Rightarrow> [])"

definition edit_events ::
  "env \<Rightarrow> string option \<Rightarrow> field_edit \<Rightarrow> string option \<Rightarrow> string list option \<Rightarrow> string option
   \<Rightarrow> nat \<Rightarrow> task_row \<Rightarrow> event_row list" where
  "edit_events env actor edit priority deps status removed t =
     status_edit_events env actor priority status removed t @ field_edit_events env actor edit priority deps t"

definition update_with_status ::
  "env \<Rightarrow> string \<Rightarrow> field_edit \<Rightarrow> string option \<Rightarrow> string option \<Rightarrow> task_row op" where
  "update_with_status env tid edit status actor s =
     (if (case fe_title edit of Some t \<Rightarrow> trim t = [] | None \<Rightarrow> False)
      then (refused (Text ''a task needs a title''), s)
      else case opt_map validate_priority (fe_priority edit) of
        Inl e \<Rightarrow> (Inl e, s)
      | Inr priority \<Rightarrow>
          let tid = trim tid in
          (case get_task tid s of
             None \<Rightarrow> (refused (NoTask tid), s)
           | Some t \<Rightarrow>
               (case try_bind (edit_parent tid (fe_parent_id edit) s) (\<lambda>parent.
                     try_bind (edit_deps tid (fe_depends_on edit) s) (\<lambda>deps.
                     try_bind (edit_status tid (t_status t) status) (\<lambda>st. ok (parent, deps, st)))) of
                  Inl e \<Rightarrow> (Inl e, s)
                | Inr (parent, deps, st) \<Rightarrow>
                    let ends = (case st of Some x \<Rightarrow> x \<noteq> t_status t \<and> ends_claim x | None \<Rightarrow> False);
                        removed = (if ends then claim_count tid s else 0);
                        events = edit_events env actor edit priority deps st removed t;
                        s = upd_task tid (edit_row env actor edit priority parent deps st) s;
                        s = (if ends then end_claims tid s else s)
                    in done_with tid (log_events events s))))"

definition update_task :: "env \<Rightarrow> string \<Rightarrow> field_edit \<Rightarrow> string option \<Rightarrow> task_row op" where
  "update_task env tid edit actor = update_with_status env tid edit None actor"

end
