(* ===== verification/Claims.thy ===== *)
theory Claims
  imports Task_Edit
begin

text \<open>
  Claiming (\<^verbatim>\<open>tasks/claim.rs\<close>): the rule for who may take a task, the reason a
  refusal carries, the atomic claim of the next task, heartbeats, giving a claim back, and
  the reaper that returns expired and orphaned claims to the queue.
\<close>

section \<open>Who may take a task\<close>

record candidate =
  c_id :: string
  c_status :: string
  c_assignees :: "string list"
  c_multi_assignee :: bool
  c_allocation_waiting :: bool
  c_leased_by :: "string list"
  c_blocked_by :: "string list"

definition claimable :: "candidate \<Rightarrow> string option \<Rightarrow> bool" where
  "claimable task pane_id =
     (if c_allocation_waiting task then False
      else if (case pane_id of None \<Rightarrow> False | Some pane \<Rightarrow> pane \<in> set (c_leased_by task)) then False
      else if c_leased_by task \<noteq> [] then c_multi_assignee task
      else let assigned_to_me = (case pane_id of None \<Rightarrow> False | Some pane \<Rightarrow> pane \<in> set (c_assignees task)) in
           if c_status task = ''open'' then c_assignees task = [] \<or> c_multi_assignee task \<or> assigned_to_me
           else if c_status task = ''in_progress'' then c_multi_assignee task \<or> assigned_to_me
           else False)"

record refusal =
  r_reason :: string
  r_task_ids :: "string list"
  r_owned_by :: "string list option"

definition plain :: "string \<Rightarrow> string list \<Rightarrow> refusal" where
  "plain reason task_ids = \<lparr>r_reason = reason, r_task_ids = task_ids, r_owned_by = None\<rparr>"

definition owned_elsewhere :: "string option \<Rightarrow> candidate \<Rightarrow> bool" where
  "owned_elsewhere pane_id t \<longleftrightarrow>
     c_assignees t \<noteq> [] \<and> \<not> c_multi_assignee t
     \<and> \<not> (case pane_id of None \<Rightarrow> False | Some pane \<Rightarrow> pane \<in> set (c_assignees t))"

definition refusal_of :: "candidate list \<Rightarrow> string option \<Rightarrow> refusal" where
  "refusal_of candidates pane_id =
     (if candidates = [] then plain ''empty'' []
      else let blocked = filter (\<lambda>t. c_blocked_by t \<noteq> []) candidates in
        if length blocked = length candidates then plain ''blocked'' (map c_id blocked)
        else let owned = filter (owned_elsewhere pane_id) candidates in
          if owned \<noteq> []
          then \<lparr>r_reason = ''owned_elsewhere'', r_task_ids = map c_id owned,
                r_owned_by = Some (sort (remdups (concat (map c_assignees owned))))\<rparr>
          else let leased = filter (\<lambda>t. c_leased_by t \<noteq> []) candidates in
            if leased \<noteq> [] then plain ''leased'' (map c_id leased)
            else plain ''not_claimable'' (map c_id candidates))"

section \<open>Claiming the next task\<close>

record claim_options =
  co_lease_seconds :: "time option"
  co_caller :: "caller option"
  co_allow_busy :: bool
  co_kinds :: "string list option"
  co_exclude_author :: "string option"

definition default_claim_options :: claim_options where
  "default_claim_options =
     \<lparr>co_lease_seconds = None, co_caller = None, co_allow_busy = False, co_kinds = None, co_exclude_author = None\<rparr>"

datatype claim_outcome =
    Claimed task_row string time time
  | Claim_Refused string refusal

text \<open>A row of the queue with what the claim rule reads of it.\<close>

record queue_row =
  q_candidate :: candidate
  q_scope :: string
  q_priority :: string
  q_created_at :: time
  q_kind :: string
  q_author :: "string option"

definition queue_row_of :: "time \<Rightarrow> store \<Rightarrow> task_row \<Rightarrow> queue_row" where
  "queue_row_of now s t =
     \<lparr>q_candidate =
        \<lparr>c_id = t_id t, c_status = t_status t, c_assignees = t_assignees t,
         c_multi_assignee = t_multi_assignee t,
         c_allocation_waiting = allocation_waiting (t_id t) (t_assignees t) s,
         c_leased_by = map l_pane_id (leases_for (t_id t) now s),
         c_blocked_by = blocked_by (dependency_state_of s t)\<rparr>,
      q_scope = t_scope t, q_priority = t_priority t, q_created_at = t_created_at t,
      q_kind = t_kind t, q_author = t_author t\<rparr>"

definition queue_key :: "queue_row \<Rightarrow> order_key" where
  "queue_key r = order_key (q_priority r) (q_created_at r) (c_id (q_candidate r))"

text \<open>The lease length a caller gets: an absent or zero wish is the default.\<close>

definition lease_length :: "env \<Rightarrow> time option \<Rightarrow> time" where
  "lease_length env wish =
     (case wish of Some x \<Rightarrow> if x = 0 then default_lease_s env else x | None \<Rightarrow> default_lease_s env)"

text \<open>\<^verbatim>\<open>_busy_task_ids\<close>: in-progress tasks the pane holds a live lease on.\<close>

definition busy_task_ids :: "string \<Rightarrow> time \<Rightarrow> store \<Rightarrow> string list" where
  "busy_task_ids pane now s =
     sort (remdups (map l_task_id
       (filter (\<lambda>l. case get_task (l_task_id l) s of
                      Some t \<Rightarrow> t_status t = ''in_progress'' | None \<Rightarrow> False)
         (leases_for_pane pane now s))))"

definition claim_queue :: "env \<Rightarrow> bool \<Rightarrow> string \<Rightarrow> string \<Rightarrow> store \<Rightarrow> queue_row list" where
  "claim_queue env mine_only target pane s =
     (let found = filter (\<lambda>t. (if mine_only then t_scope t = ''global'' \<or> t_scope t = pane
                               else t_scope t = target)
                      \<and> (t_status t = ''open'' \<or> t_status t = ''in_progress'')) (st_tasks s);
          found = (if mine_only then filter (\<lambda>t. pane \<in> set (t_assignees t)) found else found)
      in sort_key queue_key (map (queue_row_of (now_s env) s) found))"

definition chosen_ok :: "claim_options \<Rightarrow> string \<Rightarrow> queue_row \<Rightarrow> bool" where
  "chosen_ok opts pane r \<longleftrightarrow>
     c_blocked_by (q_candidate r) = []
     \<and> (case co_kinds opts of None \<Rightarrow> True | Some kinds \<Rightarrow> kinds = [] \<or> q_kind r \<in> set kinds)
     \<and> \<not> (case co_exclude_author opts of None \<Rightarrow> False | Some who \<Rightarrow> q_author r = Some who)
     \<and> claimable (q_candidate r) (Some pane)"

text \<open>
  \<^verbatim>\<open>_claim_locked\<close>: the lease, the status, the attempt and the event of one claim.
  \<open>lease_assignees\<close> is the list after the claim: the pane is appended when it is not
  already there, and the lease records whether it was.
\<close>

definition lease_assignees :: "string list \<Rightarrow> string \<Rightarrow> string list" where
  "lease_assignees assignees pane = (if pane \<in> set assignees then assignees else assignees @ [pane])"

definition new_lease ::
  "string \<Rightarrow> string \<Rightarrow> time \<Rightarrow> time \<Rightarrow> caller option \<Rightarrow> bool \<Rightarrow> lease_row" where
  "new_lease tid pane now lease_s caller added =
     \<lparr>l_task_id = tid, l_pane_id = pane, l_claimed_at = now, l_heartbeat_at = now,
      l_expires_at = now + lease_s, l_caller_pid = map_option fst caller,
      l_caller_start = Option.bind caller (\<lambda>(p, st, n). st),
      l_caller_name = Option.bind caller (\<lambda>(p, st, n). n), l_assignee_added = added\<rparr>"

definition write_claim ::
  "queue_row \<Rightarrow> string \<Rightarrow> time \<Rightarrow> caller option \<Rightarrow> time \<Rightarrow> store \<Rightarrow> store" where
  "write_claim r pane lease_s caller now s =
     (let c = q_candidate r; tid = c_id c;
          assignees = lease_assignees (c_assignees c) pane;
          lease = new_lease tid pane now lease_s caller (pane \<notin> set (c_assignees c));
          s = put_lease lease s;
          s = upd_task tid (\<lambda>t. t\<lparr>t_status := ''in_progress'', t_assignees := assignees,
                                 t_attempts := t_attempts t + 1, t_updated_at := now,
                                 t_block_reason := None\<rparr>) s
      in log_event ((new_event tid ''claimed'' now)
           \<lparr>e_actor := Some pane, e_scope := Some (q_scope r), e_priority := Some (q_priority r),
            e_status_from := Some (c_status c), e_status_to := Some ''in_progress'',
            e_duration_ms := Some (duration_ms now (q_created_at r)),
            e_meta := Some (JObj [(''lease_seconds'', JReal lease_s),
                                  (''caller_pid'', json_opt_int (l_caller_pid lease)),
                                  (''caller_name'', json_opt_str (l_caller_name lease))])\<rparr>) s)"

definition claim_next ::
  "env \<Rightarrow> string \<Rightarrow> string \<Rightarrow> claim_options \<Rightarrow> claim_outcome op" where
  "claim_next env scope pane_id opts s =
     (let mine_only = (trim scope = ''mine''); now = now_s env in
      if pane_id = []
      then (refused (Text (if mine_only then ''scope 'mine' requires a known caller pane''
                           else ''claiming a task requires a caller pane id'')), s)
      else case (if mine_only then ok ''mine'' else validate_scope env scope) of
        Inl e \<Rightarrow> (Inl e, s)
      | Inr target \<Rightarrow>
          let lease_s = lease_length env (co_lease_seconds opts) in
          if lease_s \<le> 0 then (refused (Text ''lease_seconds must be positive''), s)
          else
            let rows = claim_queue env mine_only target pane_id s;
                busy = (if co_allow_busy opts then [] else busy_task_ids pane_id now s)
            in if busy \<noteq> [] then (ok (Claim_Refused target (plain ''busy'' busy)), s)
               else case find (chosen_ok opts pane_id) rows of
                 None \<Rightarrow>
                   (ok (Claim_Refused target (refusal_of (map q_candidate rows) (Some pane_id))), s)
               | Some r \<Rightarrow>
                   let s = write_claim r pane_id lease_s (co_caller opts) now s
                   in (try_bind (task_get (c_id (q_candidate r)) s)
                         (\<lambda>t. ok (Claimed t target lease_s (now + lease_s))), s))"

section \<open>Heartbeat and release\<close>

text \<open>
  \<^verbatim>\<open>heartbeat\<close>: the update is keyed by task and pane alone, as the SQL is, so it also
  reaches a lease whose deadline has passed.
\<close>

definition heartbeat ::
  "env \<Rightarrow> string \<Rightarrow> string \<Rightarrow> time option \<Rightarrow> caller option \<Rightarrow> (time \<times> time) op" where
  "heartbeat env tid pane lease_seconds caller s =
     (let lease_s = lease_length env lease_seconds; now = now_s env;
          beat = (\<lambda>l. l\<lparr>l_heartbeat_at := now, l_expires_at := now + lease_s\<rparr>);
          refresh = (\<lambda>l. case caller of
             None \<Rightarrow> l
           | Some (pid, st, name) \<Rightarrow>
               l\<lparr>l_caller_pid := Some pid, l_caller_start := st, l_caller_name := name\<rparr>)
      in if row_count (\<lambda>l. lease_key l = (tid, pane)) (st_leases s) = 0
         then (refused (NoLease pane tid), s)
         else (ok (now + lease_s, lease_s), upd_lease tid pane (\<lambda>l. refresh (beat l)) s))"

text \<open>
  \<^verbatim>\<open>_after_lease_change\<close>: reopen a task that was being worked when its last lease goes,
  keeping the assignees it is given. Returns the resulting status.
\<close>

definition status_after_lease :: "string \<Rightarrow> store \<Rightarrow> task_row \<Rightarrow> string" where
  "status_after_lease tid s t =
     (if t_status t = ''in_progress'' \<and> claim_count tid s = 0 then ''open'' else t_status t)"

definition after_lease_change ::
  "string \<Rightarrow> string list \<Rightarrow> time \<Rightarrow> task_row \<Rightarrow> store \<Rightarrow> store" where
  "after_lease_change tid assignees now t s =
     upd_task tid (\<lambda>r. r\<lparr>t_assignees := assignees, t_status := status_after_lease tid s t,
                        t_attempts := t_attempts r + 1, t_updated_at := now\<rparr>) s"

definition release :: "env \<Rightarrow> string \<Rightarrow> string \<Rightarrow> task_row op" where
  "release env tid pane s =
     (let tid = trim tid; now = now_s env in
      case get_task tid s of
        None \<Rightarrow> (refused (NoTask tid), s)
      | Some t \<Rightarrow>
          let added = (case get_lease tid pane s of Some l \<Rightarrow> l_assignee_added l | None \<Rightarrow> False);
              s = del_lease tid pane s;
              assignees = (if added then filter (\<lambda>a. a \<noteq> pane) (t_assignees t) else t_assignees t);
              resulting = status_after_lease tid s t;
              s = after_lease_change tid assignees now t s;
              s = log_event ((new_event tid ''released'' now)
                    \<lparr>e_actor := Some pane, e_scope := Some (t_scope t), e_priority := Some (t_priority t),
                     e_status_from := Some (t_status t), e_status_to := Some resulting\<rparr>) s
          in done_with tid s)"

section \<open>The reaper\<close>

record requeued =
  rq_task_id :: string
  rq_pane_id :: string
  rq_reason :: string

type_synonym caller_alive = "int \<Rightarrow> string option \<Rightarrow> bool"

definition dead_caller :: "caller_alive option \<Rightarrow> lease_row \<Rightarrow> bool" where
  "dead_caller alive l =
     (case (alive, l_caller_pid l) of
        (Some f, Some pid) \<Rightarrow> pid \<noteq> 0 \<and> \<not> f pid (l_caller_start l)
      | _ \<Rightarrow> False)"

definition reapable :: "time \<Rightarrow> caller_alive option \<Rightarrow> lease_row \<Rightarrow> bool" where
  "reapable now alive l \<longleftrightarrow> l_expires_at l \<le> now \<or> dead_caller alive l"

definition reap_reason :: "caller_alive option \<Rightarrow> lease_row \<Rightarrow> string" where
  "reap_reason alive l = (if dead_caller alive l then ''caller_dead'' else ''expired'')"

definition reap_one ::
  "time \<Rightarrow> string list option \<Rightarrow> caller_alive option \<Rightarrow> lease_row
   \<Rightarrow> store \<times> requeued list \<Rightarrow> store \<times> requeued list" where
  "reap_one now alive_panes alive l acc =
     (case acc of (s, out) \<Rightarrow>
        if \<not> reapable now alive l then (s, out)
        else
          let tid = l_task_id l; pane = l_pane_id l; reason = reap_reason alive l;
              gone = (case alive_panes of Some ps \<Rightarrow> pane \<notin> set ps | None \<Rightarrow> False);
              s = del_lease tid pane s
          in case get_task tid s of
               None \<Rightarrow> (s, out)
             | Some t \<Rightarrow>
                 let resulting = status_after_lease tid s t;
                     s = after_lease_change tid (t_assignees t) now t s;
                     event = (if resulting = ''open'' then ''requeued'' else ''released'');
                     s = log_event ((new_event tid event now)
                           \<lparr>e_actor := Some pane, e_scope := Some (t_scope t),
                            e_priority := Some (t_priority t), e_status_from := Some (t_status t),
                            e_status_to := Some resulting,
                            e_meta := Some (JObj [(''reason'', JStr reason), (''pane_gone'', JBool gone),
                              (''caller_pid'', json_opt_int (l_caller_pid l)),
                              (''caller_name'', json_opt_str (l_caller_name l))])\<rparr>) s
                 in (s, if resulting = ''open''
                        then out @ [\<lparr>rq_task_id = tid, rq_pane_id = pane, rq_reason = reason\<rparr>]
                        else out))"

definition reap ::
  "env \<Rightarrow> string list option \<Rightarrow> caller_alive option \<Rightarrow> time option \<Rightarrow> string option \<Rightarrow> requeued list op" where
  "reap env alive_panes alive at_time alive_source s =
     (if alive_panes \<noteq> None \<and> alive_source \<noteq> Some ''live''
      then (refused (Text ''alive_panes must be tagged alive_source='live'; a fixture pane list must never move real work''), s)
      else let now = (case at_time of Some t \<Rightarrow> t | None \<Rightarrow> now_s env);
               (s', out) = fold (reap_one now alive_panes alive) (st_leases s) (s, [])
           in (ok out, s'))"

end
