(* ===== verification/Store_Invariant.thy ===== *)
theory Store_Invariant
  imports Claims
begin

text \<open>
  The well-formedness of the task store: what holds of its tables between any two
  operations of the program, and the lemmas that carry it through the writes the
  operations are made of. The operations themselves are in \<^verbatim>\<open>Task_Machine\<close>.
\<close>

section \<open>The invariant\<close>

text \<open>An id is issued when the counter has reached its number.\<close>

definition issued :: "store \<Rightarrow> string \<Rightarrow> bool" where
  "issued s tid \<longleftrightarrow> (\<exists>n. st_counter s = Some n \<and> (\<exists>k \<in> {1..n}. tid = task_id_of k))"

definition row_ok :: "task_row \<Rightarrow> bool" where
  "row_ok t \<longleftrightarrow> t_status t \<in> set STATUSES \<and> t_priority t \<in> set PRIORITIES \<and> t_kind t \<in> set KINDS
     \<and> t_title t \<noteq> []"

text \<open>The tasks a row points to: every parent and dependency exists, none is the task itself.\<close>

definition task_ids :: "store \<Rightarrow> string set" where
  "task_ids s = t_id ` set (st_tasks s)"

definition refs_ok :: "string set \<Rightarrow> task_row \<Rightarrow> bool" where
  "refs_ok ids t \<longleftrightarrow> set (t_depends_on t) \<subseteq> ids - {t_id t} \<and> set_option (t_parent_id t) \<subseteq> ids - {t_id t}"

text \<open>The status of a task as its events tell it.\<close>

definition log_step :: "string \<Rightarrow> event_row \<Rightarrow> string option \<Rightarrow> string option" where
  "log_step tid e st = (if e_task_id e = tid \<and> e_status_to e \<noteq> None then e_status_to e else st)"

definition logged_status :: "string \<Rightarrow> event_row list \<Rightarrow> string option" where
  "logged_status tid es = fold (log_step tid) es None"

text \<open>Every live review of a head is the only one.\<close>

definition one_review :: "task_row list \<Rightarrow> bool" where
  "one_review ts \<longleftrightarrow>
     (\<forall>t \<in> set ts. \<forall>u \<in> set ts.
        live_review (t_repo t) (t_pr t) (t_head t) t \<and> live_review (t_repo t) (t_pr t) (t_head t) u
        \<longrightarrow> t_id t = t_id u)"

definition store_inv :: "store \<Rightarrow> bool" where
  "store_inv s \<longleftrightarrow>
     distinct (map t_id (st_tasks s)) \<and> distinct (map lease_key (st_leases s))
     \<and> (\<forall>t \<in> set (st_tasks s). issued s (t_id t) \<and> row_ok t \<and> refs_ok (task_ids s) t
          \<and> logged_status (t_id t) (st_events s) = Some (t_status t))
     \<and> (\<forall>l \<in> set (st_leases s). issued s (l_task_id l))
     \<and> (\<forall>l \<in> set (st_leases s). \<forall>t \<in> set (st_tasks s). l_task_id l = t_id t \<longrightarrow> \<not> ends_claim (t_status t))
     \<and> one_review (st_tasks s)"

lemma store_inv_empty: "store_inv empty_store"
  by (simp add: store_inv_def empty_store_def one_review_def)

named_theorems inv_dests \<open>what the invariant gives for one row\<close>

lemma store_inv_distinct [inv_dests]: "store_inv s \<Longrightarrow> distinct (map t_id (st_tasks s))"
  and store_inv_lease_keys [inv_dests]: "store_inv s \<Longrightarrow> distinct (map lease_key (st_leases s))"
  by (simp_all add: store_inv_def)

lemma store_inv_task:
  assumes "store_inv s" "get_task tid s = Some t"
  shows "issued s tid" "row_ok t" "refs_ok (task_ids s) t"
    "logged_status tid (st_events s) = Some (t_status t)" "t_id t = tid" "t \<in> set (st_tasks s)"
  using assms get_task_mem [OF assms(2)] get_task_id [OF assms(2)] by (auto simp: store_inv_def)

lemma store_inv_lease:
  assumes "store_inv s" "l \<in> set (st_leases s)" "get_task (l_task_id l) s = Some t"
  shows "\<not> ends_claim (t_status t)"
  using assms get_task_mem [OF assms(3)] get_task_id [OF assms(3)] by (auto simp: store_inv_def)

lemma task_ids_get: "tid \<in> task_ids s \<longleftrightarrow> get_task tid s \<noteq> None"
  by (auto simp: task_ids_def get_task_def row_get_def find_eq_None_iff)

lemma issued_frame: "st_counter s' = st_counter s \<Longrightarrow> issued s' = issued s"
  by (simp add: fun_eq_iff issued_def)

lemma logged_status_fold:
  "fold (log_step tid) es st = (case logged_status tid es of None \<Rightarrow> st | Some x \<Rightarrow> Some x)"
proof (induction es rule: rev_induct)
  case (snoc e es)
  then show ?case by (auto simp: logged_status_def log_step_def)
qed (simp add: logged_status_def)

lemma logged_status_append:
  "logged_status tid (es @ fs) =
     (case logged_status tid fs of None \<Rightarrow> logged_status tid es | Some st \<Rightarrow> Some st)"
  unfolding logged_status_def [of tid "es @ fs"] fold_append comp_apply logged_status_fold [of tid fs]
  by (simp add: logged_status_def split: option.splits)

lemma logged_status_Nil [simp]: "logged_status tid [] = None"
  by (simp add: logged_status_def)

lemma logged_status_Cons:
  "logged_status tid (e # es) =
     (case logged_status tid es of
        None \<Rightarrow> if e_task_id e = tid then e_status_to e else None
      | Some st \<Rightarrow> Some st)"
proof -
  have "logged_status tid [e] = (if e_task_id e = tid then e_status_to e else None)"
    by (simp add: logged_status_def log_step_def)
  with logged_status_append [of tid "[e]" es] show ?thesis by (simp split: option.splits)
qed

lemma logged_status_other: "\<forall>e \<in> set es. e_task_id e \<noteq> tid \<Longrightarrow> logged_status tid es = None"
  by (induction es) (simp_all add: logged_status_Cons)

section \<open>Writes that keep the invariant\<close>

lemma log_event_events: "log_event e s = log_events [e] s"
  by (simp add: log_event_def log_events_def)

lemma write_order [simp]:
  "end_claims i (log_event e s) = log_event e (end_claims i s)"
  "end_claims i (upd_task tid f s) = upd_task tid f (end_claims i s)"
  "end_claims i (log_events es s) = log_events es (end_claims i s)"
  by (simp_all add: end_claims_def log_event_def log_events_def upd_task_def)

lemma store_inv_fewer_leases:
  assumes "store_inv s"
  shows "store_inv (s\<lparr>st_leases := filter P (st_leases s)\<rparr>)"
  using assms by (auto simp: store_inv_def issued_def task_ids_def distinct_map_filter)

lemma store_inv_end_claims: "store_inv s \<Longrightarrow> store_inv (end_claims tid s)"
  unfolding end_claims_def row_delete_def by (rule store_inv_fewer_leases)

lemma store_inv_del_lease: "store_inv s \<Longrightarrow> store_inv (del_lease tid pane s)"
  unfolding del_lease_def row_delete_def by (rule store_inv_fewer_leases)

lemma store_inv_upd_lease:
  assumes "store_inv s" "\<And>l. lease_key (f l) = lease_key l"
  shows "store_inv (upd_lease tid pane f s)"
proof -
  have "map lease_key (st_leases (upd_lease tid pane f s)) = map lease_key (st_leases s)"
    unfolding upd_lease_def using distinct_row_update [of lease_key f, OF assms(2)] by simp
  then have "distinct (map lease_key (st_leases (upd_lease tid pane f s)))"
    using store_inv_lease_keys [OF assms(1)] by simp
  moreover have old: "\<exists>k \<in> set (st_leases s). l_task_id l = l_task_id k"
    if "l \<in> set (st_leases (upd_lease tid pane f s))" for l
    using that assms(2) by (auto simp: upd_lease_def row_update_def)
  have "issued (upd_lease tid pane f s) = issued s" by (rule issued_frame) simp
  moreover have "\<forall>l \<in> set (st_leases (upd_lease tid pane f s)). issued s (l_task_id l)"
    using old assms(1) unfolding store_inv_def by metis
  moreover have "\<forall>l \<in> set (st_leases (upd_lease tid pane f s)). \<forall>t \<in> set (st_tasks s).
      l_task_id l = t_id t \<longrightarrow> \<not> ends_claim (t_status t)"
    using old assms(1) unfolding store_inv_def by metis
  ultimately show ?thesis
    using assms(1) by (simp add: store_inv_def task_ids_def)
qed

lemma store_inv_put_lease:
  assumes "store_inv s" "get_task (l_task_id l) s = Some t" "\<not> ends_claim (t_status t)"
  shows "store_inv (put_lease l s)"
proof -
  have "distinct (map lease_key (st_leases (put_lease l s)))"
    unfolding put_lease_def using lease_table.ok_put [OF store_inv_lease_keys [OF assms(1)]] by simp
  moreover have mem: "k = l \<or> k \<in> set (st_leases s)" if "k \<in> set (st_leases (put_lease l s))" for k
    using that by (auto simp: put_lease_def row_replace_def)
  moreover have "u = t" if "u \<in> set (st_tasks s)" "l_task_id l = t_id u" for u
    using get_task_rows [OF store_inv_distinct [OF assms(1)] that(1)] that(2) assms(2) by simp
  moreover have iss: "issued (put_lease l s) = issued s" by (rule issued_frame) simp
  moreover have "\<forall>k \<in> set (st_leases (put_lease l s)). issued s (l_task_id k)"
    using mem assms(1) store_inv_task(1) [OF assms(1,2)] by (auto simp: store_inv_def)
  moreover have "\<forall>k \<in> set (st_leases (put_lease l s)). \<forall>u \<in> set (st_tasks s).
      l_task_id k = t_id u \<longrightarrow> \<not> ends_claim (t_status u)"
    using calculation(2,3) assms(1,3) unfolding store_inv_def by blast
  ultimately show ?thesis
    using assms(1) by (simp add: store_inv_def task_ids_def)
qed

text \<open>
  The write every operation on one task makes: its row changes and its events are appended.
  The events tell the new status, a live review stays one only if it was one, and no lease
  is left behind on a status that ends claims.
\<close>

definition same_identity :: "task_row \<Rightarrow> task_row \<Rightarrow> bool" where
  "same_identity t u \<longleftrightarrow> t_id u = t_id t \<and> t_kind u = t_kind t \<and> t_repo u = t_repo t \<and> t_pr u = t_pr t
     \<and> t_head u = t_head t \<and> t_scope u = t_scope t \<and> t_created_at u = t_created_at t"

lemma upd_task_cong:
  assumes "distinct (map t_id (st_tasks s))" "get_task tid s = Some t" "f t = g t"
  shows "upd_task tid f s = upd_task tid g s"
proof -
  have "(if t_id r = tid then f r else r) = (if t_id r = tid then g r else r)"
    if "r \<in> set (st_tasks s)" for r
    using get_task_rows [OF assms(1) that] assms(2,3) by auto
  then show ?thesis by (simp add: upd_task_def row_update_def cong: map_cong)
qed

lemma st_tasks_upd_task:
  assumes "distinct (map t_id (st_tasks s))" "get_task tid s = Some t"
  shows "st_tasks (upd_task tid f s) = map (\<lambda>r. if t_id r = tid then f t else r) (st_tasks s)"
proof -
  have "(if t_id r = tid then f r else r) = (if t_id r = tid then f t else r)"
    if "r \<in> set (st_tasks s)" for r
    using get_task_rows [OF assms(1) that] assms(2) by auto
  then show ?thesis by (simp add: upd_task_def row_update_def cong: map_cong)
qed

lemma live_review_identity:
  "same_identity t u \<Longrightarrow> live_status (t_status u) \<longrightarrow> live_status (t_status t) \<Longrightarrow>
   live_review repo pr head u \<Longrightarrow> live_review repo pr head t"
  by (auto simp: live_review_def same_review_def same_identity_def)

lemma store_inv_write:
  assumes inv: "store_inv s" and t: "get_task tid s = Some t"
    and same: "same_identity t (f t)" and row: "row_ok (f t)"
    and refs: "refs_ok (task_ids s) (f t)"
    and live: "live_status (t_status (f t)) \<longrightarrow> live_status (t_status t)"
    and log: "(case logged_status tid es of None \<Rightarrow> t_status t | Some st \<Rightarrow> st) = t_status (f t)"
    and mine: "\<forall>e \<in> set es. e_task_id e = tid"
    and held: "ends_claim (t_status (f t)) \<longrightarrow> (\<forall>l \<in> set (st_leases s). l_task_id l \<noteq> tid)"
  shows "store_inv (log_events es (upd_task tid f s))"
proof -
  note d = store_inv_distinct [OF inv]
  let ?s = "log_events es (upd_task tid f s)"
  have rows: "st_tasks ?s = map (\<lambda>r. if t_id r = tid then f t else r) (st_tasks s)"
    using st_tasks_upd_task [OF d t] by simp
  have id: "t_id (f t) = tid" using same store_inv_task(5) [OF inv t] by (simp add: same_identity_def)
  have ids: "map t_id (st_tasks ?s) = map t_id (st_tasks s)"
    unfolding rows by (auto simp: id)
  then have tids: "task_ids ?s = task_ids s"
    unfolding task_ids_def by (metis list.set_map)
  have mem: "u \<in> set (st_tasks ?s) \<Longrightarrow> u = f t \<or> u \<in> set (st_tasks s) \<and> t_id u \<noteq> tid" for u
    unfolding rows by auto
  have logged: "logged_status (t_id u) (st_events ?s) = Some (t_status u)" if "u \<in> set (st_tasks ?s)" for u
  proof (cases "u = f t")
    case True
    then show ?thesis
      using log store_inv_task(4) [OF inv t] by (auto simp: id logged_status_append split: option.splits)
  next
    case False
    with mem [OF that] have u: "u \<in> set (st_tasks s)" "t_id u \<noteq> tid" by auto
    with mine have "logged_status (t_id u) es = None" by (intro logged_status_other) auto
    with u inv show ?thesis by (simp add: logged_status_append store_inv_def)
  qed
  have old: "\<exists>r \<in> set (st_tasks s). t_id r = t_id u \<and> (live_review a b c u \<longrightarrow> live_review a b c r)
      \<and> t_repo r = t_repo u \<and> t_pr r = t_pr u \<and> t_head r = t_head u"
    if "u \<in> set (st_tasks ?s)" for u a b c
    using mem [OF that] live_review_identity [OF same live, of a b c] same store_inv_task(5,6) [OF inv t]
    by (auto simp: same_identity_def)
  have "one_review (st_tasks ?s)"
    unfolding one_review_def
  proof (intro ballI impI)
    fix u v
    assume u: "u \<in> set (st_tasks ?s)" and v: "v \<in> set (st_tasks ?s)"
      and l: "live_review (t_repo u) (t_pr u) (t_head u) u \<and> live_review (t_repo u) (t_pr u) (t_head u) v"
    from old [OF u, of "t_repo u" "t_pr u" "t_head u"] l obtain u' where
      u': "u' \<in> set (st_tasks s)" "t_id u' = t_id u" "live_review (t_repo u) (t_pr u) (t_head u) u'"
        "t_repo u' = t_repo u" "t_pr u' = t_pr u" "t_head u' = t_head u" by blast
    from old [OF v, of "t_repo u" "t_pr u" "t_head u"] l obtain v' where
      v': "v' \<in> set (st_tasks s)" "t_id v' = t_id v" "live_review (t_repo u) (t_pr u) (t_head u) v'" by blast
    from inv have one: "one_review (st_tasks s)" by (simp add: store_inv_def)
    have "t_id u' = t_id v'"
      using one u' v' unfolding one_review_def by metis
    with u' v' show "t_id u = t_id v" by simp
  qed
  moreover have "\<not> ends_claim (t_status u)"
    if "l \<in> set (st_leases ?s)" "u \<in> set (st_tasks ?s)" "l_task_id l = t_id u" for l u
    using mem [OF that(2)] that held inv id by (auto simp: store_inv_def)
  moreover have "issued ?s (t_id u) \<and> row_ok u \<and> refs_ok (task_ids ?s) u" if "u \<in> set (st_tasks ?s)" for u
    unfolding tids using mem [OF that] inv row refs id store_inv_task(1) [OF inv t]
    by (auto simp: store_inv_def issued_def)
  ultimately show ?thesis
    using inv logged ids unfolding store_inv_def by (auto simp: issued_def)
qed

section \<open>How a store may evolve\<close>

text \<open>
  What every operation guarantees of the store after it, whatever it does: the event log only
  grows, ids stay issued, a task that is gone stays gone, a task that stays keeps its
  identity columns and never loses an attempt, and a finished task keeps its status.
\<close>

definition row_evolves :: "task_row \<Rightarrow> task_row \<Rightarrow> bool" where
  "row_evolves t u \<longleftrightarrow> same_identity t u \<and> t_attempts t \<le> t_attempts u
     \<and> (is_terminal (t_status t) \<longrightarrow> t_status u = t_status t)"

definition evolves :: "store \<Rightarrow> store \<Rightarrow> bool" where
  "evolves s s' \<longleftrightarrow>
     (\<exists>es. st_events s' = st_events s @ es)
     \<and> (\<forall>tid. issued s tid \<longrightarrow> issued s' tid)
     \<and> (\<forall>tid t u. get_task tid s = Some t \<longrightarrow> get_task tid s' = Some u \<longrightarrow> row_evolves t u)
     \<and> (\<forall>tid. issued s tid \<longrightarrow> get_task tid s = None \<longrightarrow> get_task tid s' = None)"

text \<open>One well-behaved change: the invariant holds after it and the store evolved.\<close>

definition advances :: "store \<Rightarrow> store \<Rightarrow> bool" where
  "advances s s' \<longleftrightarrow> store_inv s' \<and> evolves s s'"

lemma row_evolves_refl [simp]: "row_evolves t t"
  by (simp add: row_evolves_def same_identity_def)

lemma row_evolves_trans: "row_evolves t u \<Longrightarrow> row_evolves u v \<Longrightarrow> row_evolves t v"
  by (auto simp: row_evolves_def same_identity_def)

lemma evolves_refl [simp]: "evolves s s"
  by (simp add: evolves_def)

lemma evolvesD:
  assumes "evolves s s'"
  shows "\<exists>es. st_events s' = st_events s @ es" "issued s tid \<Longrightarrow> issued s' tid"
    "get_task tid s = Some t \<Longrightarrow> get_task tid s' = Some u \<Longrightarrow> row_evolves t u"
    "issued s tid \<Longrightarrow> get_task tid s = None \<Longrightarrow> get_task tid s' = None"
  using assms unfolding evolves_def by blast+

lemma evolves_trans:
  assumes "store_inv s" "evolves s s'" "evolves s' s''"
  shows "evolves s s''"
  unfolding evolves_def
proof (intro conjI allI impI)
  show "\<exists>es. st_events s'' = st_events s @ es"
    using evolvesD(1) [OF assms(2)] evolvesD(1) [OF assms(3)] by auto
  show "issued s'' tid" if "issued s tid" for tid
    using that evolvesD(2) [OF assms(2)] evolvesD(2) [OF assms(3)] by blast
  show "get_task tid s'' = None" if "issued s tid" "get_task tid s = None" for tid
    using that evolvesD(2,4) [OF assms(2)] evolvesD(4) [OF assms(3)] by blast
  fix tid t u assume t: "get_task tid s = Some t" and u: "get_task tid s'' = Some u"
  have "issued s' tid" using store_inv_task(1) [OF assms(1) t] evolvesD(2) [OF assms(2)] by blast
  with u evolvesD(4) [OF assms(3)] obtain v where v: "get_task tid s' = Some v" by fastforce
  show "row_evolves t u"
    using evolvesD(3) [OF assms(2) t v] evolvesD(3) [OF assms(3) v u] by (rule row_evolves_trans)
qed

lemma evolves_frame:
  assumes "evolves s s'" "st_tasks s'' = st_tasks s'" "st_events s'' = st_events s'" "st_counter s'' = st_counter s'"
  shows "evolves s s''"
  using assms issued_frame [OF assms(4)] by (simp add: evolves_def get_task_def)

lemma advances_refl: "store_inv s \<Longrightarrow> advances s s"
  by (simp add: advances_def)

lemma advances_trans: "store_inv s \<Longrightarrow> advances s s' \<Longrightarrow> advances s' s'' \<Longrightarrow> advances s s''"
  using evolves_trans by (auto simp: advances_def)

lemma advances_inv: "advances s s' \<Longrightarrow> store_inv s'"
  by (simp add: advances_def)

lemma advances_end_claims: "store_inv s \<Longrightarrow> advances s (end_claims tid s)"
  using evolves_frame [OF evolves_refl, of "end_claims tid s" s] by (simp add: advances_def store_inv_end_claims)

lemma advances_del_lease: "store_inv s \<Longrightarrow> advances s (del_lease tid pane s)"
  using evolves_frame [OF evolves_refl, of "del_lease tid pane s" s] by (simp add: advances_def store_inv_del_lease)

lemma advances_upd_lease:
  "store_inv s \<Longrightarrow> (\<And>l. lease_key (f l) = lease_key l) \<Longrightarrow> advances s (upd_lease tid pane f s)"
  using evolves_frame [OF evolves_refl, of "upd_lease tid pane f s" s] store_inv_upd_lease [of s f tid pane]
  by (simp add: advances_def)

lemma advances_put_lease:
  "store_inv s \<Longrightarrow> get_task (l_task_id l) s = Some t \<Longrightarrow> \<not> ends_claim (t_status t) \<Longrightarrow> advances s (put_lease l s)"
  using evolves_frame [OF evolves_refl, of "put_lease l s" s] by (simp add: advances_def store_inv_put_lease)

lemma advances_write:
  assumes inv: "store_inv s" and t: "get_task tid s = Some t"
    and row: "row_evolves t (f t)" "row_ok (f t)" "refs_ok (task_ids s) (f t)"
    and es: "(case logged_status tid es of None \<Rightarrow> t_status t | Some st \<Rightarrow> st) = t_status (f t)"
      "\<forall>e \<in> set es. e_task_id e = tid"
    and held: "ends_claim (t_status (f t)) \<longrightarrow> (\<forall>l \<in> set (st_leases s). l_task_id l \<noteq> tid)"
  shows "advances s (log_events es (upd_task tid f s))"
proof -
  note d = store_inv_distinct [OF inv]
  have same: "same_identity t (f t)" using row(1) by (simp add: row_evolves_def)
  have "t_status t \<in> set STATUSES" using store_inv_task(2) [OF inv t] by (simp add: row_ok_def)
  then have "live_status (t_status (f t)) \<longrightarrow> live_status (t_status t)"
    using row(1) by (auto simp: STATUSES_def live_status_def row_evolves_def is_terminal_def)
  then have "store_inv (log_events es (upd_task tid f s))"
    using assms same by (intro store_inv_write) auto
  moreover have "evolves s (log_events es (upd_task tid f s))"
  proof -
    have "get_task i (upd_task tid f s) = (if i = tid then Some (f t) else get_task i s)" for i
    proof -
      have f: "t_id (f t) = tid" using same store_inv_task(5) [OF inv t] by (simp add: same_identity_def)
      have "get_task i (upd_task tid f s) = find (\<lambda>r. t_id r = i) (map (\<lambda>r. if t_id r = tid then f t else r) (st_tasks s))"
        by (simp add: get_task_def row_get_def st_tasks_upd_task [OF d t])
      also have "\<dots> = map_option (\<lambda>r. if t_id r = tid then f t else r) (find (\<lambda>r. t_id r = i) (st_tasks s))"
        by (rule find_map_cong) (simp add: f)
      finally have *: "get_task i (upd_task tid f s) = map_option (\<lambda>r. if t_id r = tid then f t else r) (get_task i s)"
        by (simp add: get_task_def row_get_def)
      show ?thesis
      proof (cases "get_task i s")
        case None
        with * t show ?thesis by auto
      next
        case (Some r)
        with * get_task_id [OF Some] t show ?thesis by simp
      qed
    qed
    moreover have "issued (log_events es (upd_task tid f s)) = issued s" by (rule issued_frame) simp
    ultimately show ?thesis using row(1) t by (auto simp: evolves_def)
  qed
  ultimately show ?thesis by (simp add: advances_def)
qed

text \<open>A write that changes no status needs only the row to stay well formed.\<close>

lemma advances_log:
  assumes "store_inv s" "\<forall>e \<in> set es. e_status_to e = None"
  shows "advances s (log_events es s)"
proof -
  have "logged_status tid es = None" for tid
    using assms(2) by (induction es) (auto simp: logged_status_Cons)
  then have "logged_status tid (st_events s @ es) = logged_status tid (st_events s)" for tid
    by (simp add: logged_status_append)
  then show ?thesis
    using assms(1) by (auto simp: advances_def evolves_def store_inv_def issued_def task_ids_def)
qed

end
