(* ===== verification/Claim_Batch.thy ===== *)
theory Claim_Batch
  imports Claims
begin

text \<open>
  The all-or-nothing batch claim (\<^verbatim>\<open>tasks/claim_batch.rs\<close>): an ordered list of task ids is
  validated as a whole and then claimed member by member in one transaction. Members are read
  into the rows \<^verbatim>\<open>claim_next\<close> uses; the difference is that a dependency on another member
  does not hold a member back.
\<close>

datatype claim_batch_outcome =
    Batch_Claimed "task_row list" time time
  | Batch_Refused refusal

text \<open>The ids that occur more than once, in the order their repetition is met.\<close>

fun repeated_ids :: "string list \<Rightarrow> string list \<Rightarrow> string list \<Rightarrow> string list" where
  "repeated_ids seen repeated [] = repeated"
| "repeated_ids seen repeated (tid # ids) =
     (if tid \<in> set seen
      then repeated_ids seen (if tid \<in> set repeated then repeated else repeated @ [tid]) ids
      else repeated_ids (tid # seen) repeated ids)"

definition member_row :: "time \<Rightarrow> string list \<Rightarrow> store \<Rightarrow> task_row \<Rightarrow> queue_row" where
  "member_row now wanted s t =
     (let r = queue_row_of now s t; c = q_candidate r
      in r\<lparr>q_candidate := c\<lparr>c_blocked_by := filter (\<lambda>dep. dep \<notin> set wanted) (c_blocked_by c)\<rparr>\<rparr>)"

text \<open>\<^verbatim>\<open>validate\<close>: every check that can refuse the batch, in the code's order.\<close>

definition batch_validate ::
  "env \<Rightarrow> string list \<Rightarrow> string \<Rightarrow> claim_options \<Rightarrow> store \<Rightarrow> refusal + queue_row list" where
  "batch_validate env wanted pane opts s =
     (if wanted = [] then Inl (plain ''empty'' [])
      else let repeated = repeated_ids [] [] wanted in
        if repeated \<noteq> [] then Inl (plain ''duplicate'' repeated)
        else let missing = filter (\<lambda>tid. get_task tid s = None) wanted;
                 tasks = List.map_filter (\<lambda>tid. get_task tid s) wanted in
          if missing \<noteq> [] then Inl (plain ''missing'' missing)
          else let foreign = filter (\<lambda>t. t_scope t \<noteq> ''global'' \<and> t_scope t \<noteq> pane) tasks in
            if foreign \<noteq> [] then Inl (plain ''scope'' (map t_id foreign))
            else let busy = (if co_allow_busy opts then [] else busy_task_ids pane (now_s env) s) in
              if busy \<noteq> [] then Inl (plain ''busy'' busy)
              else let members = map (member_row (now_s env) wanted s) tasks;
                       failing = filter (\<lambda>m. \<not> chosen_ok opts pane m) members in
                if failing \<noteq> [] then Inl (refusal_of (map q_candidate failing) (Some pane))
                else Inr members)"

fun get_all :: "string list \<Rightarrow> store \<Rightarrow> task_row list result" where
  "get_all [] s = ok []"
| "get_all (tid # ids) s = try_bind (task_get tid s) (\<lambda>t. try_bind (get_all ids s) (\<lambda>ts. ok (t # ts)))"

definition claim_batch ::
  "env \<Rightarrow> string list \<Rightarrow> string \<Rightarrow> claim_options \<Rightarrow> claim_batch_outcome op" where
  "claim_batch env ids pane opts s =
     (let lease_s = lease_length env (co_lease_seconds opts); now = now_s env in
      if pane = [] then (refused (Text ''claiming a task requires a caller pane id''), s)
      else if lease_s \<le> 0 then (refused (Text ''lease_seconds must be positive''), s)
      else case batch_validate env ids pane opts s of
        Inl why \<Rightarrow> (ok (Batch_Refused why), s)
      | Inr members \<Rightarrow>
          let s = fold (\<lambda>m. write_claim m pane lease_s (co_caller opts) now) members s
          in (try_bind (get_all (map (\<lambda>m. c_id (q_candidate m)) members) s)
                (\<lambda>ts. ok (Batch_Claimed ts lease_s (now + lease_s))), s))"

section \<open>What the validation passes\<close>

lemma repeated_ids_mono: "set repeated \<subseteq> set (repeated_ids seen repeated ids)"
  by (induction seen repeated ids rule: repeated_ids.induct) auto

lemma repeated_ids_Nil:
  "repeated_ids seen [] ids = [] \<longleftrightarrow> distinct ids \<and> set ids \<inter> set seen = {}"
proof (induction ids arbitrary: seen)
  case (Cons tid ids)
  show ?case
  proof (cases "tid \<in> set seen")
    case True
    then have "tid \<in> set (repeated_ids seen [] (tid # ids))"
      using repeated_ids_mono [of "[tid]" seen ids] by simp
    then have "repeated_ids seen [] (tid # ids) \<noteq> []" by force
    with True show ?thesis by simp
  next
    case False
    then show ?thesis using Cons.IH [of "tid # seen"] by auto
  qed
qed simp

lemma member_row_simps [simp]:
  "c_id (q_candidate (member_row now wanted s t)) = t_id t"
  "c_assignees (q_candidate (member_row now wanted s t)) = t_assignees t"
  "c_status (q_candidate (member_row now wanted s t)) = t_status t"
  "c_multi_assignee (q_candidate (member_row now wanted s t)) = t_multi_assignee t"
  "c_leased_by (q_candidate (member_row now wanted s t)) = map l_pane_id (leases_for (t_id t) now s)"
  "c_blocked_by (q_candidate (member_row now wanted s t)) =
     filter (\<lambda>d. outstanding s d \<and> d \<notin> set wanted) (t_depends_on t)"
  by (simp_all add: member_row_def queue_row_of_def Let_def blocked_by_state)

lemma map_filter_all_Some:
  "\<forall>x \<in> set xs. f x \<noteq> None \<Longrightarrow> map g (List.map_filter f xs) = map (\<lambda>x. g (the (f x))) xs"
  by (induction xs) (auto simp: map_filter_simps)

lemma batch_validate_members:
  assumes "batch_validate env wanted pane opts s = Inr ms"
  shows "wanted \<noteq> []" "distinct wanted" "\<forall>tid \<in> set wanted. get_task tid s \<noteq> None"
    "ms = map (\<lambda>tid. member_row (now_s env) wanted s (the (get_task tid s))) wanted"
    "\<forall>m \<in> set ms. chosen_ok opts pane m"
    "co_allow_busy opts \<or> busy_task_ids pane (now_s env) s = []"
proof -
  let ?tasks = "List.map_filter (\<lambda>tid. get_task tid s) wanted"
  let ?ms = "map (member_row (now_s env) wanted s) ?tasks"
  have *: "wanted \<noteq> [] \<and> repeated_ids [] [] wanted = [] \<and> filter (\<lambda>tid. get_task tid s = None) wanted = []
    \<and> (co_allow_busy opts \<or> busy_task_ids pane (now_s env) s = [])
    \<and> filter (\<lambda>m. \<not> chosen_ok opts pane m) ?ms = [] \<and> ms = ?ms"
    using assms unfolding batch_validate_def Let_def by (simp split: if_splits)
  then show "wanted \<noteq> []" "distinct wanted" "co_allow_busy opts \<or> busy_task_ids pane (now_s env) s = []"
    using repeated_ids_Nil [of "[]" wanted] by simp_all
  show some: "\<forall>tid \<in> set wanted. get_task tid s \<noteq> None"
    using * unfolding filter_empty_conv by blast
  show "\<forall>m \<in> set ms. chosen_ok opts pane m"
    using * unfolding filter_empty_conv by blast
  show "ms = map (\<lambda>tid. member_row (now_s env) wanted s (the (get_task tid s))) wanted"
    using * map_filter_all_Some [OF some] by simp
qed

end
