(* ===== verification/Next_Job.thy ===== *)
theory Next_Job
  imports Lifecycle "HOL-Library.AList"
begin

text \<open>
  The durable handoff records (\<^verbatim>\<open>tasks/next_job.rs\<close>): a pane that finished a task is handed
  the next one, and the handoff lives as the newest \<^verbatim>\<open>next_job_handoff\<close> event with its message
  id. Progress is appended as a further event, under a compare-and-swap on the handoff's
  fields. The abstract view is a keyed list, message id to handoff.
\<close>

section \<open>The operations\<close>

type_synonym handoff = json_map

definition NEXT_JOB_EVENT :: string where
  "NEXT_JOB_EVENT = ''next_job_handoff''"

definition NON_BLOCKING_HANDOFF_STATES :: "string list" where
  "NON_BLOCKING_HANDOFF_STATES = [''cancelled'']"

record handoff_record =
  hr_task_id :: string
  hr_pane_id :: string
  hr_from_task :: "string option"
  hr_message_id :: "string option"
  hr_attempt :: int
  hr_reason :: "string option"
  hr_at :: time

record record_input =
  ri_task_id :: string
  ri_pane_id :: string
  ri_from_task :: "string option"
  ri_message_id :: "string option"
  ri_attempt :: int
  ri_reason :: "string option"
  ri_now :: time
  ri_details :: json_map

definition handoff_meta :: "record_input \<Rightarrow> json_map" where
  "handoff_meta i =
     jextend
       (jinsert ''reason'' (json_opt_str (ri_reason i))
         (jinsert ''attempt'' (JInt (ri_attempt i))
           (jinsert ''message_id'' (json_opt_str (non_empty_str (ri_message_id i)))
             (jinsert ''from_task'' (json_opt_str (non_empty_str (ri_from_task i))) []))))
       (ri_details i)"

definition handoff_event :: "record_input \<Rightarrow> task_row \<Rightarrow> event_row" where
  "handoff_event i t = (new_event (ri_task_id i) NEXT_JOB_EVENT (ri_now i))
     \<lparr>e_actor := Some (ri_pane_id i), e_scope := Some (t_scope t), e_priority := Some (t_priority t),
      e_status_from := None, e_status_to := Some (t_status t), e_meta := Some (JObj (handoff_meta i))\<rparr>"

definition record_in :: "record_input \<Rightarrow> store \<Rightarrow> handoff_record result \<times> store" where
  "record_in i s = (case get_task (ri_task_id i) s of
       None \<Rightarrow> (refused (NoTask (ri_task_id i)), s)
     | Some t \<Rightarrow>
         (ok \<lparr>hr_task_id = ri_task_id i, hr_pane_id = ri_pane_id i,
              hr_from_task = non_empty_str (ri_from_task i), hr_message_id = non_empty_str (ri_message_id i),
              hr_attempt = ri_attempt i, hr_reason = ri_reason i, hr_at = ri_now i\<rparr>,
          log_event (handoff_event i t) s))"

definition record_next_job_handoff ::
    "env \<Rightarrow> string \<Rightarrow> string \<Rightarrow> string option \<Rightarrow> string option \<Rightarrow> int \<Rightarrow> string option \<Rightarrow> time option
     \<Rightarrow> json_map option \<Rightarrow> store \<Rightarrow> handoff_record result \<times> store" where
  "record_next_job_handoff env tid pane from_task message_id attempt reason now details s =
     record_in
       \<lparr>ri_task_id = tid, ri_pane_id = pane, ri_from_task = from_task, ri_message_id = message_id,
        ri_attempt = attempt, ri_reason = reason,
        ri_now = (case now of Some n \<Rightarrow> n | None \<Rightarrow> now_s env),
        ri_details = (case details of Some d \<Rightarrow> d | None \<Rightarrow> [])\<rparr> s"

text \<open>
  One row of the query of \<^verbatim>\<open>handoffs_in\<close>: its message id and the handoff it tells, unless the
  row is skipped. \<^verbatim>\<open>wanted\<close> is the pane asked for.
\<close>

definition meta_map :: "event_row \<Rightarrow> json_map" where
  "meta_map e = (case e_meta e of Some (JObj m) \<Rightarrow> m | _ \<Rightarrow> [])"

definition handoff_entry :: "string option \<Rightarrow> event_row \<Rightarrow> (string \<times> handoff) option" where
  "handoff_entry wanted e =
     (let meta = meta_map e in
      case non_empty_str (as_str (jget meta ''message_id'')) of
        None \<Rightarrow> None
      | Some mid \<Rightarrow>
          if jget meta ''state'' = None then None
          else if wanted \<noteq> None \<and> e_actor e \<noteq> wanted then None
          else Some (mid, jinsert ''at'' (JReal (e_at e))
                 (jinsert ''pane_id'' (json_opt_str (e_actor e))
                   (jinsert ''task_id'' (JStr (e_task_id e)) meta))))"

fun handoff_step ::
    "string option \<Rightarrow> event_row \<Rightarrow> string list \<times> (string \<rightharpoonup> handoff) \<Rightarrow> string list \<times> (string \<rightharpoonup> handoff)" where
  "handoff_step wanted e (order, latest) = (case handoff_entry wanted e of
       None \<Rightarrow> (order, latest)
     | Some (mid, h) \<Rightarrow> (if latest mid = None then order @ [mid] else order, latest(mid \<mapsto> h)))"

fun drain :: "string list \<Rightarrow> (string \<rightharpoonup> handoff) \<Rightarrow> handoff list" where
  "drain [] latest = []"
| "drain (mid # order) latest = (case latest mid of
       None \<Rightarrow> drain order latest
     | Some h \<Rightarrow> h # drain order (latest(mid := None)))"

definition next_job_events :: "store \<Rightarrow> event_row list" where
  "next_job_events s = filter (\<lambda>e. e_event e = NEXT_JOB_EVENT) (st_events s)"

definition handoffs_in :: "string option \<Rightarrow> store \<Rightarrow> handoff list" where
  "handoffs_in wanted s =
     (let (order, latest) = fold (handoff_step wanted) (next_job_events s) ([], \<lambda>_. None)
      in drain order latest)"

text \<open>
  \<^verbatim>\<open>next_job_decisions\<close>: the latest decision per actor, in the order of the actors' first
  decisions. Metadata that is no JSON text cannot be represented here; missing metadata is.
\<close>

fun decisions_from :: "event_row list \<Rightarrow> (string \<times> json) list \<Rightarrow> (string \<times> json) list result" where
  "decisions_from [] ds = ok ds"
| "decisions_from (e # es) ds = (case non_empty_str (e_actor e) of
       None \<Rightarrow> decisions_from es ds
     | Some actor \<Rightarrow> (case e_meta e of
           None \<Rightarrow> refused (Text ''next-job decision metadata is missing'')
         | Some value \<Rightarrow> decisions_from es (AList.update actor value ds)))"

definition next_job_decisions :: "store \<Rightarrow> (string \<times> json) list result" where
  "next_job_decisions s =
     decisions_from (filter (\<lambda>e. e_event e = ''next_job_decision'') (st_events s)) []"

definition or_empty :: "string option \<Rightarrow> string" where
  "or_empty v = (case v of Some s \<Rightarrow> s | None \<Rightarrow> [])"

definition active_handoffs :: "string \<Rightarrow> string list \<Rightarrow> store \<Rightarrow> handoff list" where
  "active_handoffs pane owned s =
     filter (\<lambda>h. or_empty (as_str (jget h ''task_id'')) \<in> set owned
        \<and> (case as_str (jget h ''state'') of
             Some state \<Rightarrow> state \<notin> set NON_BLOCKING_HANDOFF_STATES
           | None \<Rightarrow> True))
       (handoffs_in (Some pane) s)"

definition progress_input :: "env \<Rightarrow> handoff \<Rightarrow> record_input" where
  "progress_input env latest =
     \<lparr>ri_task_id = or_empty (as_str (jget latest ''task_id'')),
      ri_pane_id = or_empty (as_str (jget latest ''pane_id'')),
      ri_from_task = as_str (jget latest ''from_task''),
      ri_message_id = as_str (jget latest ''message_id''),
      ri_attempt = (case json_i64 (jget latest ''attempt'') of Some i \<Rightarrow> i | None \<Rightarrow> 0),
      ri_reason = as_str (jget latest ''reason''),
      ri_now = now_s env,
      ri_details = filter (\<lambda>(k, v). k \<noteq> ''task_id'' \<and> k \<noteq> ''pane_id'' \<and> k \<noteq> ''at'') latest\<rparr>"

definition update_next_job ::
    "env \<Rightarrow> handoff \<Rightarrow> json_map option \<Rightarrow> json_map \<Rightarrow> store \<Rightarrow> handoff option result \<times> store" where
  "update_next_job env handoff expected changes s =
     (let pane = or_empty (as_str (jget handoff ''pane_id''));
          mid = or_empty (as_str (jget handoff ''message_id''))
      in case find (\<lambda>h. as_str (jget h ''message_id'') = Some mid) (handoffs_in (Some pane) s) of
           None \<Rightarrow> (refused (NoHandoff mid pane), s)
         | Some latest \<Rightarrow>
             if (case expected of None \<Rightarrow> False
                 | Some wish \<Rightarrow> list_ex (\<lambda>(k, v). jget latest k \<noteq> Some v) wish)
             then (ok None, s)
             else (let latest = jextend latest changes in
                   case record_in (progress_input env latest) s of
                     (Inl e, s') \<Rightarrow> (Inl e, s)
                   | (Inr r, s') \<Rightarrow> (ok (Some latest), s')))"

section \<open>The handoffs as a keyed list\<close>

text \<open>
  What the event log says about handoffs, abstractly: a list of distinct message ids in order
  of first appearance, each with its latest handoff.
\<close>

definition learn :: "(string \<times> handoff) option \<Rightarrow> (string \<times> handoff) list \<Rightarrow> (string \<times> handoff) list" where
  "learn entry table = (case entry of None \<Rightarrow> table | Some (mid, h) \<Rightarrow> AList.update mid h table)"

definition handoff_table :: "string option \<Rightarrow> store \<Rightarrow> (string \<times> handoff) list" where
  "handoff_table wanted s = fold (\<lambda>e. learn (handoff_entry wanted e)) (next_job_events s) []"

lemma map_fst_update: "map fst (AList.update k v t) = (if k \<in> fst ` set t then map fst t else map fst t @ [k])"
  by (induction t) auto

lemma learn_keys: "distinct (map fst table) \<Longrightarrow> distinct (map fst (learn entry table))"
  by (auto simp: learn_def distinct_update split: option.splits)

lemma handoff_sim:
  "distinct (map fst table) \<Longrightarrow>
   fold (handoff_step wanted) es (map fst table, map_of table) =
     (let t = fold (\<lambda>e. learn (handoff_entry wanted e)) es table in (map fst t, map_of t))"
proof (induction es arbitrary: table)
  case (Cons e es)
  have step: "handoff_step wanted e (map fst table, map_of table) =
      (map fst (learn (handoff_entry wanted e) table), map_of (learn (handoff_entry wanted e) table))"
    by (auto simp: learn_def map_fst_update update_conv' map_of_eq_None_iff split: option.splits)
  show ?case using Cons.IH [OF learn_keys [OF Cons.prems]] step by simp
qed simp

lemma drain_table: "distinct (map fst t) \<Longrightarrow> (\<forall>(k, h) \<in> set t. m k = Some h) \<Longrightarrow> drain (map fst t) m = map snd t"
proof (induction t arbitrary: m)
  case (Cons p t)
  obtain k h where p: "p = (k, h)" by (cases p)
  have "k' \<noteq> k" "m k' = Some h'" if "(k', h') \<in> set t" for k' h'
    using Cons.prems that by (force simp: p)+
  then have "\<forall>(k', h') \<in> set t. (m(k := None)) k' = Some h'" by auto
  with Cons show ?case by (simp add: p)
qed simp

lemma distinct_handoff_table: "distinct (map fst (handoff_table wanted s))"
  unfolding handoff_table_def
  by (rule fold_invariant [where Q = "\<lambda>_. True"]) (simp_all add: learn_keys)

lemma handoffs_in_table: "handoffs_in wanted s = map snd (handoff_table wanted s)"
proof -
  have "fold (handoff_step wanted) (next_job_events s) ([], \<lambda>_. None) =
      (map fst (handoff_table wanted s), map_of (handoff_table wanted s))"
    using handoff_sim [of "[]" wanted "next_job_events s"] by (simp add: handoff_table_def Let_def)
  then show ?thesis
    using drain_table [OF distinct_handoff_table, of wanted s "map_of (handoff_table wanted s)"]
      distinct_handoff_table [of wanted s]
    by (auto simp: handoffs_in_def)
qed

lemma update_mem: "x \<in> set (AList.update k v t) \<Longrightarrow> x = (k, v) \<or> x \<in> set t"
  by (induction t) (auto split: if_splits)

lemma table_entry:
  assumes "(mid, h) \<in> set (handoff_table wanted s)"
  shows "\<exists>e \<in> set (next_job_events s). handoff_entry wanted e = Some (mid, h)"
proof -
  have "x \<in> set (fold (\<lambda>e. learn (handoff_entry wanted e)) es t) \<Longrightarrow>
      x \<in> set t \<or> (\<exists>e \<in> set es. handoff_entry wanted e = Some x)" for x es t
  proof (induction es arbitrary: t)
    case (Cons e es)
    then show ?case
      using Cons.IH [of "learn (handoff_entry wanted e) t"]
      by (auto simp: learn_def split: option.splits dest: update_mem)
  qed simp
  from this [of "(mid, h)" "next_job_events s" "[]"] assms show ?thesis by (simp add: handoff_table_def)
qed

lemma handoff_entry_Some:
  "handoff_entry wanted e = Some (mid, h) \<longleftrightarrow>
     as_str (jget (meta_map e) ''message_id'') = Some mid \<and> mid \<noteq> [] \<and> jget (meta_map e) ''state'' \<noteq> None
     \<and> (wanted = None \<or> e_actor e = wanted)
     \<and> h = jinsert ''at'' (JReal (e_at e)) (jinsert ''pane_id'' (json_opt_str (e_actor e))
             (jinsert ''task_id'' (JStr (e_task_id e)) (meta_map e)))"
  by (auto simp: handoff_entry_def Let_def non_empty_str_def split: option.splits if_splits)

lemma table_message: "(mid, h) \<in> set (handoff_table wanted s) \<Longrightarrow> as_str (jget h ''message_id'') = Some mid"
  by (auto dest!: table_entry simp: handoff_entry_Some)

lemma find_handoff:
  "find (\<lambda>h. as_str (jget h ''message_id'') = Some mid) (handoffs_in wanted s) = map_of (handoff_table wanted s) mid"
proof -
  have "find (\<lambda>h. as_str (jget h ''message_id'') = Some mid) (map snd t) = map_of t mid"
    if "\<forall>(m, h) \<in> set t. as_str (jget h ''message_id'') = Some m" for t :: "(string \<times> handoff) list"
    using that by (induction t) auto
  then show ?thesis unfolding handoffs_in_table using table_message by blast
qed

lemma handoff_table_log:
  "handoff_table wanted (log_event e s) =
     (if e_event e = NEXT_JOB_EVENT then learn (handoff_entry wanted e) (handoff_table wanted s)
      else handoff_table wanted s)"
  by (simp add: handoff_table_def next_job_events_def)

lemma table_row:
  assumes "map_of (handoff_table (Some pane) s) mid = Some h"
  obtains e where "e \<in> set (st_events s)" "handoff_entry (Some pane) e = Some (mid, h)"
    "jget h ''pane_id'' = Some (JStr pane)" "jget h ''task_id'' = Some (JStr (e_task_id e))"
    "jget h ''message_id'' = Some (JStr mid)" "mid \<noteq> []" "jget h ''state'' \<noteq> None"
proof -
  from table_entry [OF map_of_SomeD [OF assms]] obtain e where
    e: "e \<in> set (st_events s)" "handoff_entry (Some pane) e = Some (mid, h)"
    by (auto simp: next_job_events_def)
  moreover have "jget h ''message_id'' = Some (JStr mid)"
    using e(2) by (auto simp: handoff_entry_Some as_str_def split: option.splits json.splits)
  ultimately show ?thesis by (intro that [of e]) (auto simp: handoff_entry_Some json_opt_str_def)
qed

end
