(* ===== verification/Task_Machine.thy ===== *)
theory Task_Machine
  imports Store_Invariant Claim_Batch Next_Job
begin

text \<open>
  The task store as a machine: every operation of the previous theories is shown to keep the
  store well formed and to evolve it as \<^const>\<open>evolves\<close> says, and the commands of
  the daemon are put together into one transition relation.
\<close>

section \<open>The contract of an operation\<close>

text \<open>
  What the machine needs of an operation. An \<open>atomic_op\<close> is one immediate transaction: a
  refusal rolls it back.
\<close>

locale store_op =
  fixes run :: "store \<Rightarrow> 'a result \<times> store"
  assumes advance: "store_inv s \<Longrightarrow> advances s (snd (run s))"
begin

lemma keeps_inv: "store_inv s \<Longrightarrow> store_inv (snd (run s))"
  using advance advances_inv by blast

lemma keeps_events: "store_inv s \<Longrightarrow> \<exists>es. st_events (snd (run s)) = st_events s @ es"
  using advance [of s] evolvesD(1) by (auto simp: advances_def)

lemma keeps_terminal:
  assumes "store_inv s" "get_task tid s = Some t" "is_terminal (t_status t)" "get_task tid (snd (run s)) = Some u"
  shows "t_status u = t_status t"
  using advance [OF assms(1)] evolvesD(3) [OF _ assms(2,4)] assms(3)
  by (auto simp: advances_def row_evolves_def)

end

locale atomic_op = store_op +
  assumes rollback: "store_inv s \<Longrightarrow> fst (run s) = Inl e \<Longrightarrow> snd (run s) = s"
begin

lemma changed_ok: "store_inv s \<Longrightarrow> snd (run s) \<noteq> s \<Longrightarrow> is_ok (fst (run s))"
  using rollback by (cases "fst (run s)") auto

end

section \<open>Single writes\<close>

lemma done_with_simps [simp]: "snd (done_with tid s) = s" "fst (done_with tid s) = task_get tid s"
  by (simp_all add: done_with_def)

lemma upd_one_row:
  assumes "distinct (map t_id (st_tasks s))" "get_task tid s = Some t"
  shows "row_count (\<lambda>r. t_id r = tid \<and> t_status r = t_status t) (st_tasks s) \<noteq> 0"
    "s\<lparr>st_tasks := row_update (\<lambda>r. t_id r = tid \<and> t_status r = t_status t) f (st_tasks s)\<rparr> = upd_task tid f s"
proof -
  show "row_count (\<lambda>r. t_id r = tid \<and> t_status r = t_status t) (st_tasks s) \<noteq> 0"
    using get_task_mem [OF assms(2)] get_task_id [OF assms(2)] by (auto simp: row_count_def filter_empty_conv)
  have "r = t" if "r \<in> set (st_tasks s)" "t_id r = tid" for r
    using get_task_rows [OF assms(1) that(1)] that(2) assms(2) by simp
  then show "s\<lparr>st_tasks := row_update (\<lambda>r. t_id r = tid \<and> t_status r = t_status t) f (st_tasks s)\<rparr> = upd_task tid f s"
    by (auto simp: upd_task_def row_update_def)
qed

lemma end_claims_frame [simp]: "task_ids (end_claims tid s) = task_ids s"
  by (simp add: task_ids_def)

lemma no_claims_left: "l \<in> set (st_leases (end_claims tid s)) \<Longrightarrow> l_task_id l \<noteq> tid"
  by (simp add: leases_end_claims)

text \<open>Ending the claims of a task and then writing it.\<close>

lemma advances_write_end:
  assumes "store_inv s" "get_task tid s = Some t"
    and "row_evolves t (f t)" "row_ok (f t)" "refs_ok (task_ids s) (f t)"
    and "(case logged_status tid es of None \<Rightarrow> t_status t | Some st \<Rightarrow> st) = t_status (f t)"
      "\<forall>e \<in> set es. e_task_id e = tid"
  shows "advances s (log_events es (upd_task tid f (end_claims tid s)))"
proof (rule advances_trans [OF assms(1) advances_end_claims [OF assms(1)]],
    rule advances_write [where f = f, OF store_inv_end_claims [OF assms(1)]])
  show "get_task tid (end_claims tid s) = Some t" "refs_ok (task_ids (end_claims tid s)) (f t)"
    using assms(2,5) by simp_all
  show "ends_claim (t_status (f t)) \<longrightarrow> (\<forall>l\<in>set (st_leases (end_claims tid s)). l_task_id l \<noteq> tid)"
    using no_claims_left by blast
qed fact+

text \<open>A write that keeps the status of its row.\<close>

lemma advances_note:
  assumes inv: "store_inv s" and t: "get_task tid s = Some t"
    and row: "row_evolves t (f t)" "row_ok (f t)" "refs_ok (task_ids s) (f t)"
    and es: "t_status (f t) = t_status t" "\<forall>e \<in> set es. e_task_id e = tid \<and> e_status_to e \<in> {None, Some (t_status t)}"
  shows "advances s (log_events es (upd_task tid f s))"
proof (rule advances_write [where f = f, OF inv t row])
  have "logged_status tid es \<in> {None, Some (t_status t)}"
    using es(2) by (induction es) (auto simp: logged_status_Cons split: option.splits)
  then show "(case logged_status tid es of None \<Rightarrow> t_status t | Some st \<Rightarrow> st) = t_status (f t)"
    using es(1) by auto
  show "ends_claim (t_status (f t)) \<longrightarrow> (\<forall>l \<in> set (st_leases s). l_task_id l \<noteq> tid)"
    using store_inv_lease [OF inv] t es(1) by auto
qed (use es in auto)

lemmas row_facts = row_evolves_def same_identity_def row_ok_def refs_ok_def

section \<open>Lifecycle operations\<close>

lemma advances_unblock_one:
  assumes "store_inv s"
  shows "advances s (fst (unblock_one now completed t (s, opened)))"
proof (cases "unblockable s completed t \<and> row_count (\<lambda>r. t_id r = t_id t \<and> t_status r = ''blocked'') (st_tasks s) \<noteq> 0")
  case False
  then show ?thesis by (auto simp: unblock_one_def advances_refl [OF assms])
next
  case True
  then obtain u where u: "u \<in> set (st_tasks s)" "t_id u = t_id t" "t_status u = ''blocked''"
    by (auto simp: row_count_def filter_empty_conv)
  have g: "get_task (t_id t) s = Some u"
    using get_task_rows [OF store_inv_distinct [OF assms] u(1)] u(2) by simp
  have "fst (unblock_one now completed t (s, opened)) =
      log_events [unblocked_event now completed t] (upd_task (t_id t) (open_row now) s)"
    using True upd_one_row(2) [OF store_inv_distinct [OF assms] g] u(3)
    by (simp add: unblock_one_def log_event_events)
  moreover have "advances s \<dots>"
    by (rule advances_write [OF assms g])
       (use store_inv_task(2,3) [OF assms g] u(3) in
         \<open>auto simp: row_facts open_row_def is_terminal_def ends_claim_def STATUSES_def
            logged_status_Cons unblocked_event_def new_event_def\<close>)
  ultimately show ?thesis by simp
qed

lemma advances_fold:
  assumes "\<And>x s acc. store_inv s \<Longrightarrow> advances s (fst (f x (s, acc)))" "store_inv s"
  shows "advances s (fst (fold f xs (s, acc)))"
  using assms(2)
proof (induction xs arbitrary: s acc)
  case Nil
  then show ?case by (simp add: advances_refl)
next
  case (Cons x xs)
  obtain s' acc' where f: "f x (s, acc) = (s', acc')" by fastforce
  with assms(1) [OF Cons.prems, of x acc] have "advances s s'" by simp
  with Cons.IH [of s' acc'] Cons.prems advances_inv f show ?case
    by (auto intro: advances_trans)
qed

lemma advances_auto_unblock: "store_inv s \<Longrightarrow> advances s (fst (auto_unblock now completed s))"
  unfolding auto_unblock_def by (rule advances_fold [OF advances_unblock_one])

lemma set_status_closed:
  assumes "distinct (map t_id (st_tasks s))" "get_task tid s = Some t" "is_terminal (t_status t) \<longrightarrow> t_status t = status"
  shows "set_status env tid status reason actor s =
    (let s1 = log_event (status_event (now_s env) status reason actor t)
                (upd_task tid (transition_row (now_s env) status reason actor)
                   (if ends_claim status then end_claims tid s else s));
         s2 = (if status = ''done'' \<and> t_status t \<noteq> ''done''
               then fst (auto_unblock (now_s env) (Some tid) s1) else s1)
     in done_with tid s2)"
proof -
  have "\<not> (is_terminal (t_status t) \<and> t_status t \<noteq> status)" using assms(3) by blast
  then show ?thesis
    using upd_one_row(1) [OF assms(1,2)]
    by (cases "ends_claim status")
       (simp_all only: set_status_def Let_def assms(2) option.case upd_one_row(2) [OF assms(1,2)]
          if_True if_False simp_thms write_order)
qed

lemma set_status_refused:
  assumes "get_task tid s = Some t" "is_terminal (t_status t)" "t_status t \<noteq> status"
  shows "set_status env tid status reason actor s = (refused (TaskFinished tid (t_status t)), s)"
  using assms by (simp add: set_status_def Let_def)

lemma advances_set_status:
  assumes inv: "store_inv s" and st: "status \<in> set STATUSES"
  shows "advances s (snd (set_status env tid status reason actor s))"
proof (cases "get_task tid s")
  case None
  then show ?thesis by (simp add: set_status_def advances_refl [OF inv])
next
  case (Some t)
  show ?thesis
  proof (cases "is_terminal (t_status t) \<longrightarrow> t_status t = status")
    case False
    with Some show ?thesis by (auto simp: set_status_refused advances_refl [OF inv])
  next
    case True
    let ?f = "transition_row (now_s env) status reason actor"
    let ?e = "status_event (now_s env) status reason actor t"
    let ?s1 = "log_event ?e (upd_task tid ?f (if ends_claim status then end_claims tid s else s))"
    have row: "row_evolves t (?f t)" "row_ok (?f t)" "refs_ok (task_ids s) (?f t)"
      "(case logged_status tid [?e] of None \<Rightarrow> t_status t | Some st \<Rightarrow> st) = t_status (?f t)"
      "\<forall>e \<in> set [?e]. e_task_id e = tid" "t_status (?f t) = status"
      using store_inv_task(2,3,5) [OF inv Some] True st
      by (auto simp: row_facts transition_row_def logged_status_Cons status_event_def new_event_def)
    have "advances s ?s1"
      using advances_write [where f = ?f, OF inv Some row(1-5)] advances_write_end [where f = ?f, OF inv Some row(1-5)] row(6)
      by (auto simp: log_event_events)
    then have "advances s (if status = ''done'' \<and> t_status t \<noteq> ''done''
        then fst (auto_unblock (now_s env) (Some tid) ?s1) else ?s1)"
      using advances_trans [OF inv _ advances_auto_unblock] advances_inv by auto
    then show ?thesis
      by (simp add: set_status_closed [OF store_inv_distinct [OF inv] Some True] Let_def)
  qed
qed


lemma note_event_step:
  assumes "e_task_id e = tid" "e_status_to e = None"
  shows "\<forall>e \<in> set [e]. e_task_id e = tid \<and> e_status_to e \<in> {None, Some st}"
  using assms by simp

text \<open>A write that touches none of the columns the invariant reads.\<close>

lemma advances_touch:
  assumes inv: "store_inv s" and t: "get_task tid s = Some t"
    and f: "row_evolves t (f t)" "t_status (f t) = t_status t" "t_priority (f t) = t_priority t"
      "t_title (f t) = t_title t" "t_depends_on (f t) = t_depends_on t" "t_parent_id (f t) = t_parent_id t"
    and e: "e_task_id e = tid" "e_status_to e = None"
  shows "advances s (log_event e (upd_task tid f s))"
  unfolding log_event_events
proof (rule advances_note [where f = f, OF inv t f(1) _ _ f(2) note_event_step [OF e]])
  show "row_ok (f t)" "refs_ok (task_ids s) (f t)"
    using store_inv_task(2,3) [OF inv t] f by (auto simp: row_facts)
qed

lemma advances_set_landed:
  assumes "store_inv s"
  shows "advances s (snd (set_landed env tid landed who repo pr s))"
proof (cases "get_task tid s")
  case None
  then show ?thesis by (simp add: set_landed_def advances_refl [OF assms])
next
  case (Some t)
  then show ?thesis
    by (simp only: set_landed_def Let_def option.case snd_conv done_with_simps)
       (rule advances_touch [OF assms Some]; simp add: row_facts new_event_def)
qed

lemma advances_land_one:
  assumes "store_inv s"
  shows "advances s (fst (land_one now repo pr who t (s, flipped)))"
proof (cases "get_task (t_id t) s")
  case None
  have "map (\<lambda>r. if t_id r = t_id t then f r else r) (st_tasks s) = st_tasks s" for f
    using None by (auto simp: get_task_def row_get_def find_eq_None_iff intro!: map_idI)
  then have "upd_task (t_id t) f s = s" for f
    by (simp add: upd_task_def row_update_def)
  then show ?thesis
    using advances_log [OF assms] advances_refl [OF assms]
    by (simp add: land_one_def log_event_events new_event_def)
next
  case (Some u)
  then show ?thesis
    using advances_refl [OF assms]
    by (auto simp: land_one_def intro!: advances_touch [OF assms Some] simp: row_facts new_event_def)
qed

lemma advances_mark_landed:
  assumes "store_inv s"
  shows "advances s (snd (mark_landed_for_pr env repo pr who s))"
  using advances_fold [of "land_one (now_s env) repo pr who", OF advances_land_one assms] advances_refl [OF assms]
  by (auto simp: mark_landed_for_pr_def Let_def split_beta)

lemma done_in_STATUSES: "''done'' \<in> set STATUSES" "''blocked'' \<in> set STATUSES" "''open'' \<in> set STATUSES"
  "''cancelled'' \<in> set STATUSES" "''in_progress'' \<in> set STATUSES"
  by (simp_all add: STATUSES_def)

lemma advances_complete_by:
  assumes "store_inv s"
  shows "advances s (snd (complete_by env tid who s))"
  using advances_set_status [OF assms done_in_STATUSES(1), of env tid None who] advances_refl [OF assms]
  by (auto simp: complete_by_def split: sum.splits prod.splits)

lemma advances_task_complete:
  assumes "store_inv s"
  shows "advances s (snd (task_complete env tid who landed s))"
proof -
  obtain r1 s1 where 1: "set_landed env tid False who None None s = (r1, s1)" by fastforce
  obtain r2 s2 where 2: "complete_by env tid who s1 = (r2, s2)" by fastforce
  have a1: "advances s s1" using advances_set_landed [OF assms, of env tid False who None None] 1 by simp
  then have a2: "advances s s2"
    using advances_complete_by [of s1 env tid who] 2 advances_trans [OF assms a1] advances_inv by auto
  then have "advances s (snd (set_landed env tid True who None None s2))"
    using advances_trans [OF assms a2] advances_set_landed advances_inv by blast
  with 1 2 a1 a2 show ?thesis
    using advances_complete_by [OF assms, of env tid who] advances_refl [OF assms]
    by (auto simp: task_complete_def split: sum.splits)
qed

lemma advances_block_by:
  assumes inv: "store_inv s"
  shows "advances s (snd (block_by env tid blocker s))"
proof -
  let ?tid = "trim tid" and ?b = "trim blocker"
  consider "?tid = ?b \<or> get_task ?tid s = None \<or> get_task ?b s = None
      \<or> (\<exists>t. get_task ?tid s = Some t \<and> is_terminal (t_status t))"
    | t where "?tid \<noteq> ?b" "get_task ?tid s = Some t" "get_task ?b s \<noteq> None" "\<not> is_terminal (t_status t)"
    by (meson not_None_eq)
  then show ?thesis
  proof cases
    case 1
    then show ?thesis by (auto simp: block_by_def Let_def advances_refl [OF inv] split: option.splits)
  next
    case (2 t)
    let ?deps = "if ?b \<in> set (t_depends_on t) then t_depends_on t else t_depends_on t @ [?b]"
    let ?f = "\<lambda>r. r\<lparr>t_status := ''blocked'', t_block_reason := Some (''blocked-by:'' @ ?b),
                t_depends_on := ?deps, t_updated_at := now_s env\<rparr>"
    let ?e = "(new_event ?tid ''blocked'' (now_s env))
                \<lparr>e_scope := Some (t_scope t), e_priority := Some (t_priority t),
                 e_status_from := Some (t_status t), e_status_to := Some ''blocked'',
                 e_meta := Some (JObj [(''reason'', JStr (''blocked-by:'' @ ?b))])\<rparr>"
    have "advances s (log_events [?e] (upd_task ?tid ?f (end_claims ?tid s)))"
    proof (rule advances_write_end [where f = ?f, OF inv 2(2)])
      show "row_evolves t (?f t)" "row_ok (?f t)"
        using 2(4) store_inv_task(2) [OF inv 2(2)] by (simp_all add: row_facts STATUSES_def)
      show "refs_ok (task_ids s) (?f t)"
        using store_inv_task(3,5) [OF inv 2(2)] 2(1,3) by (auto simp: refs_ok_def task_ids_get)
    qed (simp_all add: logged_status_Cons new_event_def)
    moreover obtain b where "get_task ?b s = Some b" using 2(3) by blast
    ultimately show ?thesis using 2 by (simp add: block_by_def Let_def log_event_events split del: if_split)
  qed
qed

lemma advances_set_verdict:
  assumes inv: "store_inv s"
  shows "advances s (snd (set_verdict env tid verdict who s))"
proof (cases "get_task tid s")
  case None
  then have "row_count (\<lambda>r. t_id r = tid) (st_tasks s) = 0"
    by (auto simp: row_count_def get_task_def row_get_def find_eq_None_iff filter_empty_conv)
  then show ?thesis by (simp add: set_verdict_def Let_def advances_refl [OF inv])
next
  case (Some t)
  then show ?thesis
    using advances_refl [OF inv]
    by (auto simp: set_verdict_def Let_def intro!: advances_touch [OF inv Some] simp: row_facts new_event_def)
qed

lemma advances_set_accounting_pr:
  assumes inv: "store_inv s"
  shows "advances s (snd (set_accounting_pr env tid number s))"
proof (cases "get_task tid s")
  case None
  then show ?thesis by (simp add: set_accounting_pr_def advances_refl [OF inv])
next
  case (Some t)
  then show ?thesis
    by (simp add: set_accounting_pr_def Let_def)
       (rule advances_touch [OF inv Some]; simp add: row_facts new_event_def)
qed

lemma advances_note_with_meta:
  "store_inv s \<Longrightarrow> advances s (note_with_meta env tid event actor reason extra s)"
  using advances_log [of s "[e]" for e] by (simp add: note_with_meta_def Let_def log_event_events new_event_def)

lemma advances_record_in:
  assumes "store_inv s"
  shows "advances s (snd (record_in i s))"
proof (cases "get_task (ri_task_id i) s")
  case None
  then show ?thesis by (simp add: record_in_def advances_refl [OF assms])
next
  case (Some t)
  have "upd_task (ri_task_id i) (\<lambda>r. r) s = s" by (simp add: upd_task_def row_update_def)
  then show ?thesis
    using advances_note [OF assms Some, where f = "\<lambda>r. r" and es = "[handoff_event i t]"]
      store_inv_task(2,3) [OF assms Some] Some
    by (simp add: record_in_def log_event_events handoff_event_def new_event_def)
qed

lemma advances_update_next_job:
  assumes "store_inv s"
  shows "advances s (snd (update_next_job env h expected changes s))"
proof -
  have "advances s (snd (case record_in i s of (Inl e, s') \<Rightarrow> (Inl e, s) | (Inr r, s') \<Rightarrow> (f r, s')))"
    for i and f :: "handoff_record \<Rightarrow> handoff option result"
    using advances_record_in [OF assms, of i] advances_refl [OF assms] by (auto split: prod.splits sum.splits)
  then show ?thesis
    using advances_refl [OF assms] by (simp add: update_next_job_def Let_def split: option.split)
qed

section \<open>Filing, editing and deleting\<close>

lemma advances_assign:
  assumes inv: "store_inv s"
  shows "advances s (snd (assign env tid assignees mode s))"
proof (cases "strip_items assignees = [] \<or> assign_mode mode = None \<or> get_task (trim tid) s = None")
  case True
  then show ?thesis
    by (auto simp: assign_def Let_def advances_refl [OF inv] split: option.splits)
next
  case False
  then obtain m t where "assign_mode mode = Some m" and t: "get_task (trim tid) s = Some t" by auto
  with False show ?thesis
    by (simp add: assign_def Let_def)
       (rule advances_touch [OF inv t]; simp add: row_facts new_event_def)
qed

text \<open>Deleting: nothing points to the task that goes.\<close>

lemma delete_task_ok:
  assumes "snd (delete_task env tid s) \<noteq> s \<or> is_ok (fst (delete_task env tid s))"
  obtains t where "get_task (trim tid) s = Some t"
    "\<forall>r \<in> set (st_tasks s). t_parent_id r \<noteq> Some (trim tid) \<and> trim tid \<notin> set (t_depends_on r)"
    "delete_task env tid s =
      (ok (trim tid),
       (log_event ((new_event (trim tid) ''deleted'' (now_s env))
          \<lparr>e_scope := Some (t_scope t), e_priority := Some (t_priority t), e_status_from := Some (t_status t)\<rparr>) s)
         \<lparr>st_tasks := row_delete (\<lambda>r. t_id r = trim tid) (st_tasks s)\<rparr>)"
  using assms
  by (cases "get_task (trim tid) s")
     (auto simp: delete_task_def Let_def row_count_def filter_empty_conv split: if_splits)

lemma store_inv_delete:
  assumes inv: "store_inv s"
    and free: "\<forall>r \<in> set (st_tasks s). t_parent_id r \<noteq> Some tid \<and> tid \<notin> set (t_depends_on r)"
  shows "store_inv (s\<lparr>st_tasks := row_delete (\<lambda>r. t_id r = tid) (st_tasks s)\<rparr>)"
proof -
  let ?s = "s\<lparr>st_tasks := row_delete (\<lambda>r. t_id r = tid) (st_tasks s)\<rparr>"
  have iss: "issued ?s = issued s" by (rule issued_frame) simp
  have mem: "set (st_tasks ?s) = {r \<in> set (st_tasks s). t_id r \<noteq> tid}" by (auto simp: row_delete_def)
  have ids: "task_ids ?s = task_ids s - {tid}" unfolding task_ids_def mem by auto
  have "refs_ok (task_ids ?s) r" if "r \<in> set (st_tasks ?s)" for r
    using that inv free unfolding mem ids
    by (fastforce simp: store_inv_def refs_ok_def)
  moreover have "distinct (map t_id (st_tasks ?s))"
    using inv by (simp add: row_delete_def store_inv_def distinct_map_filter)
  moreover have "one_review (st_tasks ?s)"
    using inv unfolding store_inv_def one_review_def mem by blast
  ultimately show ?thesis
    using inv unfolding store_inv_def iss mem by simp
qed

lemma advances_delete:
  assumes inv: "store_inv s"
  shows "advances s (snd (delete_task env tid s))"
proof (cases "snd (delete_task env tid s) = s")
  case True
  then show ?thesis by (simp add: advances_refl [OF inv])
next
  case False
  then obtain t where t: "get_task (trim tid) s = Some t"
    "\<forall>r \<in> set (st_tasks s). t_parent_id r \<noteq> Some (trim tid) \<and> trim tid \<notin> set (t_depends_on r)"
    and s': "snd (delete_task env tid s) =
       (log_event ((new_event (trim tid) ''deleted'' (now_s env))
          \<lparr>e_scope := Some (t_scope t), e_priority := Some (t_priority t), e_status_from := Some (t_status t)\<rparr>) s)
         \<lparr>st_tasks := row_delete (\<lambda>r. t_id r = trim tid) (st_tasks s)\<rparr>"
    using delete_task_ok [of env tid s] by (metis snd_conv)
  let ?e = "(new_event (trim tid) ''deleted'' (now_s env))
          \<lparr>e_scope := Some (t_scope t), e_priority := Some (t_priority t), e_status_from := Some (t_status t)\<rparr>"
  have a: "advances s (log_event ?e s)"
    using advances_log [OF inv, of "[?e]"] by (simp add: log_event_events new_event_def)
  have "store_inv (snd (delete_task env tid s))"
    using store_inv_delete [OF advances_inv [OF a], of "trim tid"] t(2) by (simp add: s')
  moreover have "evolves s (snd (delete_task env tid s))"
    unfolding s' evolves_def issued_def get_task_def
    by (auto simp: task_table.get_del)
  ultimately show ?thesis by (simp add: advances_def)
qed

text \<open>Filing: the id is new, so nothing in the store is about it yet.\<close>

lemma task_id_of_inject [simp]: "task_id_of m = task_id_of n \<longleftrightarrow> m = n"
  by (simp add: task_id_of_def digits_inject)

lemma next_number_fresh: "\<not> issued s (task_id_of (next_number s))"
  by (auto simp: issued_def next_number_def)

lemma next_number_issued:
  "issued (s\<lparr>st_counter := Some (next_number s), st_tasks := ts\<rparr>) tid \<longleftrightarrow>
     issued s tid \<or> tid = task_id_of (next_number s)"
  by (cases "st_counter s") (auto simp: issued_def next_number_def le_Suc_eq)

definition new_row_ok :: "store \<Rightarrow> task_row \<Rightarrow> bool" where
  "new_row_ok s row \<longleftrightarrow> row_ok row \<and> set (t_depends_on row) \<subseteq> task_ids s \<and> set_option (t_parent_id row) \<subseteq> task_ids s"

lemma advances_insert:
  assumes inv: "store_inv s" and row: "new_row_ok s row"
  shows "advances s (snd (insert_task row s))"
proof (cases "snd (insert_task row s) = s")
  case True
  then show ?thesis by (simp add: advances_refl [OF inv])
next
  case False
  let ?n = "next_number s"
  let ?row = "row\<lparr>t_id := task_id_of ?n\<rparr>"
  let ?e = "created_event ?row"
  let ?s = "log_event ?e (s\<lparr>st_counter := Some ?n, st_tasks := st_tasks s @ [?row]\<rparr>)"
  have eq: "snd (insert_task row s) = ?s"
    and guard: "\<not> (t_kind row = ''review'' \<and> live_status (t_status row)
      \<and> find (live_review (t_repo row) (t_pr row) (t_head row)) (st_tasks s) \<noteq> None)"
    using False by (auto simp: insert_task_def Let_def split: if_splits)
  have fresh: "task_id_of ?n \<notin> task_ids s"
    using inv next_number_fresh [of s] by (auto simp: task_ids_def store_inv_def)
  have noclash: "\<not> live_review a b c u"
    if "live_review a b c ?row" "u \<in> set (st_tasks s)" for a b c u
    using guard that by (auto simp: live_review_def same_review_def find_eq_None_iff)
  have self: "live_review (t_repo t) (t_pr t) (t_head t) t \<and> live_review (t_repo t) (t_pr t) (t_head t) u
      \<Longrightarrow> live_review (t_repo u) (t_pr u) (t_head u) t \<and> live_review (t_repo u) (t_pr u) (t_head u) u" for t u
    by (auto simp: live_review_def same_review_def)
  have "one_review (st_tasks s @ [?row])"
    unfolding one_review_def
  proof (intro ballI impI)
    fix t u assume "t \<in> set (st_tasks s @ [?row])" "u \<in> set (st_tasks s @ [?row])"
      and l: "live_review (t_repo t) (t_pr t) (t_head t) t \<and> live_review (t_repo t) (t_pr t) (t_head t) u"
    then consider "t \<in> set (st_tasks s)" "u \<in> set (st_tasks s)" | "t = ?row" "u = ?row"
      | "t \<in> set (st_tasks s)" "u = ?row" | "t = ?row" "u \<in> set (st_tasks s)"
      by (auto simp del: task_row.update_convs)
    then show "t_id t = t_id u"
    proof cases
      case 1
      then show ?thesis using inv l unfolding store_inv_def one_review_def by blast
    next
      case 3
      then show ?thesis using noclash [OF _ 3(1)] self [OF l] l by blast
    next
      case 4
      then show ?thesis using noclash [OF _ 4(2)] l by blast
    qed simp
  qed
  moreover have "issued ?s tid \<longleftrightarrow> issued s tid \<or> tid = task_id_of ?n" for tid
    using next_number_issued [where s = s and ts = "st_tasks s @ [?row]" and tid = tid] by (simp add: issued_def)
  moreover have "logged_status (t_id u) (st_events s @ [?e]) = Some (t_status u)"
    if "u \<in> set (st_tasks s @ [?row])" for u
    using that inv fresh
    by (auto simp: logged_status_append logged_status_Cons created_event_def new_event_def store_inv_def task_ids_def)
  moreover have "\<not> ends_claim (t_status u)"
    if "l \<in> set (st_leases s)" "u \<in> set (st_tasks s @ [?row])" "l_task_id l = t_id u" for l u
    using that inv next_number_fresh [of s] by (auto simp: store_inv_def)
  moreover have "row_ok u \<and> refs_ok (insert (task_id_of ?n) (task_ids s)) u"
    if "u \<in> set (st_tasks s @ [?row])" for u
    using that row fresh inv by (auto simp: new_row_ok_def row_facts store_inv_def)
  ultimately have "store_inv ?s"
    using inv fresh unfolding store_inv_def by (auto simp: task_ids_def)
  moreover have "evolves s ?s"
  proof -
    have "get_task i ?s = (case get_task i s of None \<Rightarrow> if i = task_id_of ?n then Some ?row else None | Some t \<Rightarrow> Some t)" for i
      by (simp add: get_task_def row_get_def find_append split: option.split)
    then show ?thesis
      using next_number_fresh [of s] next_number_issued [where s = s and ts = "st_tasks s @ [?row]"]
      by (auto simp: evolves_def issued_def split: if_splits)
  qed
  ultimately show ?thesis by (simp add: eq advances_def)
qed

lemma validate_list_range:
  "validate_status x = ok y \<Longrightarrow> y \<in> set STATUSES"
  "validate_priority x = ok y \<Longrightarrow> y \<in> set PRIORITIES"
  "validate_kind x = ok y \<Longrightarrow> y \<in> set KINDS"
  by (auto simp: validate_status_def validate_priority_def validate_kind_def Let_def split: if_splits)


lemma new_task_row_ok:
  assumes "new_task_row env scope title body opts = ok row"
  shows "row_ok row"
  using assms
  by (auto simp: new_task_row_def row_ok_def try_bind_Inr Let_def dest: validate_list_range split: if_splits)

lemma check_deps_ok: "check_deps s parent deps = ok u \<Longrightarrow> set deps \<subseteq> task_ids s \<and> parent \<notin> Some ` set deps"
  by (induction s parent deps rule: check_deps.induct) (auto simp: task_ids_get split: if_splits)

lemma advances_add_guarded:
  assumes inv: "store_inv s"
  shows "advances s (snd (add_with_verdict_guard env scope title body opts expected s))"
proof (cases "snd (add_with_verdict_guard env scope title body opts expected s) = s")
  case True
  then show ?thesis by (simp add: advances_refl [OF inv])
next
  case False
  then obtain row u where row: "new_task_row env scope title body opts = ok row"
    and parent: "\<not> (case t_parent_id row of None \<Rightarrow> False | Some p \<Rightarrow> get_task p s = None)"
    and deps: "check_deps s (t_parent_id row) (t_depends_on row) = ok u"
    and eq: "snd (add_with_verdict_guard env scope title body opts expected s) = snd (insert_task row s)"
    by (auto simp: add_with_verdict_guard_def split: sum.splits prod.splits if_splits)
  have "new_row_ok s row"
    using new_task_row_ok [OF row] check_deps_ok [OF deps] parent
    by (auto simp: new_row_ok_def task_ids_get split: option.splits)
  then show ?thesis using advances_insert [OF inv] by (simp add: eq)
qed

lemma advances_add_with: "store_inv s \<Longrightarrow> advances s (snd (add_with env scope title body opts s))"
  using advances_add_guarded [of s env scope title body opts None]
  by (auto simp: add_with_def split: prod.splits sum.splits option.splits)

lemma advances_add_review:
  "store_inv s \<Longrightarrow> advances s (snd (add_review_with_verdict_guard env scope title body opts expected s))"
  by (simp add: add_review_with_verdict_guard_def advances_add_guarded advances_refl)

text \<open>Editing.\<close>

lemma opt_map_ok: "opt_map f x = ok y \<longleftrightarrow> (x = None \<and> y = None \<or> (\<exists>a b. x = Some a \<and> f a = ok b \<and> y = Some b))"
  by (cases x) (auto simp: opt_map_def try_bind_Inr)

lemma edit_parent_ok:
  assumes "edit_parent tid edit s = ok (Some p)"
  shows "set_option p \<subseteq> task_ids s - {tid}"
proof -
  from assms obtain a where "edit = Some a" and a: "(case clean a of
         None \<Rightarrow> ok None
       | Some parent \<Rightarrow>
           if parent = tid then refused (Text ''a task cannot be its own parent'')
           else if get_task parent s = None then refused (NoTask parent)
           else ok (Some parent)) = ok p"
    by (auto simp: edit_parent_def opt_map_ok)
  then show ?thesis
    by (cases "clean a") (auto simp: task_ids_get split: if_splits)
qed

lemma edit_checks:
  "edit_deps tid edits s = ok deps \<Longrightarrow> \<forall>ds. deps = Some ds \<longrightarrow> set ds \<subseteq> task_ids s - {tid}"
  "edit_status tid current requested = ok st \<Longrightarrow>
     \<forall>x. st = Some x \<longrightarrow> x \<in> set STATUSES \<and> (is_terminal current \<longrightarrow> x = current)"
  by (auto simp: edit_deps_def edit_status_def opt_map_ok task_ids_get try_bind_Inr Let_def
        find_eq_None_iff dest: validate_list_range split: option.splits if_splits)

lemma set_opt_simps [simp]: "set_opt None f r = r" "set_opt (Some v) f r = f v r"
  by (simp_all add: set_opt_def)

lemma set_opt_frame: "(\<And>v r. g (f v r) = g r) \<Longrightarrow> g (set_opt x f r) = g r"
  by (cases x) simp_all

lemma edit_status_row_frame:
  "same_identity t (edit_status_row now actor st t)" "t_attempts (edit_status_row now actor st t) = t_attempts t"
  "t_title (edit_status_row now actor st t) = t_title t" "t_priority (edit_status_row now actor st t) = t_priority t"
  "t_depends_on (edit_status_row now actor st t) = t_depends_on t"
  "t_parent_id (edit_status_row now actor st t) = t_parent_id t"
  "t_status (edit_status_row now actor st t) = st"
  by (simp_all add: edit_status_row_def same_identity_def)

text \<open>The columns the invariant reads, of an edited row.\<close>

lemma edit_row_columns:
  "same_identity t (edit_row env actor edit priority parent deps st t)"
  "t_attempts (edit_row env actor edit priority parent deps st t) = t_attempts t"
  "t_title (edit_row env actor edit priority parent deps st t) =
     (case fe_title edit of None \<Rightarrow> t_title t | Some x \<Rightarrow> trim x)"
  "t_priority (edit_row env actor edit priority parent deps st t) =
     (case priority of None \<Rightarrow> t_priority t | Some p \<Rightarrow> p)"
  "t_depends_on (edit_row env actor edit priority parent deps st t) =
     (case deps of None \<Rightarrow> t_depends_on t | Some d \<Rightarrow> d)"
  "t_parent_id (edit_row env actor edit priority parent deps st t) =
     (case parent of None \<Rightarrow> t_parent_id t | Some p \<Rightarrow> p)"
  "t_status (edit_row env actor edit priority parent deps st t) =
     (case st of None \<Rightarrow> t_status t | Some x \<Rightarrow> x)"
  using edit_status_row_frame
  by (auto simp: edit_row_def Let_def set_opt_def same_identity_def split: option.splits)

lemma edit_events_mine: "e \<in> set (edit_events env actor edit priority deps st removed t) \<Longrightarrow> e_task_id e = t_id t"
  by (auto simp: edit_events_def status_edit_events_def field_edit_events_def edit_event_def Let_def new_event_def
      split: option.splits if_splits)

lemma field_edit_events_status: "\<forall>e \<in> set (field_edit_events env actor edit priority deps t). e_status_to e = None"
  by (auto simp: field_edit_events_def edit_event_def new_event_def split: option.splits if_splits)

lemma status_edit_events_status:
  "logged_status (t_id t) (status_edit_events env actor priority st removed t) =
     (case st of None \<Rightarrow> None | Some x \<Rightarrow> if x = t_status t then None else Some x)"
  by (cases st)
     (simp_all add: Let_def status_edit_events_def edit_event_def logged_status_append logged_status_Cons new_event_def)

lemma logged_status_none: "\<forall>e \<in> set es. e_status_to e = None \<Longrightarrow> logged_status tid es = None"
  by (induction es) (simp_all add: logged_status_Cons)

lemma edit_events_status:
  "(case logged_status (t_id t) (edit_events env actor edit priority deps st removed t) of
      None \<Rightarrow> t_status t | Some x \<Rightarrow> x) = (case st of None \<Rightarrow> t_status t | Some x \<Rightarrow> x)"
  using logged_status_none [OF field_edit_events_status]
  by (cases st) (simp_all add: edit_events_def logged_status_append status_edit_events_status)

lemma advances_update_with_status:
  assumes inv: "store_inv s"
  shows "advances s (snd (update_with_status env tid edit status actor s))"
proof (cases "snd (update_with_status env tid edit status actor s) = s")
  case True
  then show ?thesis by (simp add: advances_refl [OF inv])
next
  case False
  let ?tid = "trim tid"
  from False obtain priority t parent deps st where
    title: "\<not> (case fe_title edit of Some t \<Rightarrow> trim t = [] | None \<Rightarrow> False)"
    and pr: "opt_map validate_priority (fe_priority edit) = ok priority"
    and t: "get_task ?tid s = Some t"
    and par: "edit_parent ?tid (fe_parent_id edit) s = ok parent"
    and ds: "edit_deps ?tid (fe_depends_on edit) s = ok deps"
    and st: "edit_status ?tid (t_status t) status = ok st"
    unfolding update_with_status_def
    by (auto simp: Let_def try_bind_Inr split: sum.splits option.splits if_splits)
  let ?ends = "case st of Some x \<Rightarrow> x \<noteq> t_status t \<and> ends_claim x | None \<Rightarrow> False"
  let ?f = "edit_row env actor edit priority parent deps st"
  let ?es = "edit_events env actor edit priority deps st (if ?ends then claim_count ?tid s else 0) t"
  have eq: "snd (update_with_status env tid edit status actor s) =
      log_events ?es (upd_task ?tid ?f (if ?ends then end_claims ?tid s else s))"
    using title pr t par ds st
    by (simp add: update_with_status_def Let_def if_distrib [of "upd_task ?tid ?f"] cong: if_cong split del: if_split)
  have tid: "t_id t = ?tid" by (rule store_inv_task(5) [OF inv t])
  have row: "row_evolves t (?f t)" "row_ok (?f t)"
    using edit_row_columns(1) [of t env actor edit priority parent deps st, unfolded same_identity_def]
      edit_row_columns(1) [of t env actor edit priority parent deps st] store_inv_task(2) [OF inv t] title pr edit_checks(2) [OF st]
    by (auto simp: edit_row_columns row_evolves_def row_ok_def opt_map_ok dest: validate_list_range split: option.splits)
  have refs: "refs_ok (task_ids s) (?f t)"
  proof -
    have "t_id (?f t) = ?tid" using edit_row_columns(1) [of t env actor edit priority parent deps st] tid
      by (simp add: same_identity_def)
    then show ?thesis
      using store_inv_task(3) [OF inv t] edit_checks(1) [OF ds] edit_parent_ok [of ?tid "fe_parent_id edit" s] par tid
      by (auto simp: refs_ok_def edit_row_columns split: option.splits)
  qed
  have es: "(case logged_status ?tid ?es of None \<Rightarrow> t_status t | Some x \<Rightarrow> x) = t_status (?f t)"
    "\<forall>e \<in> set ?es. e_task_id e = ?tid"
    using edit_events_status [of t env actor edit priority deps st] edit_events_mine tid
    by (auto simp: edit_row_columns)
  show ?thesis
  proof (cases ?ends)
    case True
    then show ?thesis
      using advances_write_end [where f = ?f and es = ?es, OF inv t row refs es] by (simp add: eq)
  next
    case no: False
    have "ends_claim (t_status (?f t)) \<longrightarrow> (\<forall>l \<in> set (st_leases s). l_task_id l \<noteq> ?tid)"
      using no store_inv_lease [OF inv] t by (auto simp: edit_row_columns split: option.splits)
    then show ?thesis
      using no advances_write [where f = ?f and es = ?es, OF inv t row refs es] by (simp add: eq)
  qed
qed

section \<open>Claims\<close>

lemma advances_claim_rows:
  assumes inv: "store_inv s" and t: "get_task tid s = Some t" and live: "\<not> ends_claim (t_status t)"
    and l: "l_task_id l = tid" and e: "e_task_id e = tid" "e_status_to e = Some ''in_progress''"
  shows "advances s (log_event e (upd_task tid (\<lambda>r. r\<lparr>t_status := ''in_progress'', t_assignees := owners,
     t_attempts := t_attempts r + 1, t_updated_at := now, t_block_reason := None\<rparr>) (put_lease l s)))"
proof -
  let ?s = "put_lease l s"
  have a: "advances s ?s"
    by (rule advances_put_lease [OF inv _ live]) (simp add: l t)
  have t': "get_task tid ?s = Some t" by (simp add: t)
  let ?f = "\<lambda>r. r\<lparr>t_status := ''in_progress'', t_assignees := owners,
                 t_attempts := t_attempts r + 1, t_updated_at := now, t_block_reason := None\<rparr>"
  have "advances ?s (log_events [e] (upd_task tid ?f ?s))"
    by (rule advances_write [where f = ?f, OF advances_inv [OF a] t'])
       (use store_inv_task(2,3) [OF advances_inv [OF a] t'] live e in
         \<open>auto simp: row_facts STATUSES_def logged_status_Cons ends_claim_def is_terminal_def\<close>)
  then show ?thesis
    using advances_trans [OF inv a] by (simp add: log_event_events)
qed

lemma advances_claim:
  assumes "store_inv s" "get_task (c_id (q_candidate r)) s = Some t" "\<not> ends_claim (t_status t)"
  shows "advances s (write_claim r pane lease_s caller now s)"
  unfolding write_claim_def Let_def
  by (rule advances_claim_rows [OF assms]) (simp_all add: new_lease_def new_event_def)

lemma claim_queue_row:
  assumes "r \<in> set (claim_queue env mine_only target pane s)"
  shows "\<exists>t \<in> set (st_tasks s). r = queue_row_of (now_s env) s t
     \<and> (t_status t = ''open'' \<or> t_status t = ''in_progress'')"
  using assms by (auto simp: claim_queue_def Let_def split: if_splits)

text \<open>How a claim ends: refused, told why not, or written.\<close>

lemma claim_next_cases:
  assumes "claim_next env scope pane opts s = (res, s')"
  obtains (refused) e where "res = Inl e" "s' = s"
  | (told) target why where "res = ok (Claim_Refused target why)" "s' = s"
  | (claimed) target r where "pane \<noteq> []" "0 < lease_length env (co_lease_seconds opts)"
      "if trim scope = ''mine'' then target = ''mine'' else validate_scope env scope = ok target"
      "co_allow_busy opts \<or> busy_task_ids pane (now_s env) s = []"
      "find (chosen_ok opts pane) (claim_queue env (trim scope = ''mine'') target pane s) = Some r"
      "s' = write_claim r pane (lease_length env (co_lease_seconds opts)) (co_caller opts) (now_s env) s"
      "res = try_bind (task_get (c_id (q_candidate r)) s')
        (\<lambda>t. ok (Claimed t target (lease_length env (co_lease_seconds opts))
                 (now_s env + lease_length env (co_lease_seconds opts))))"
proof (cases "pane = []")
  case True
  then have "\<exists>e. res = Inl e \<and> s' = s" using assms by (auto simp: claim_next_def Let_def)
  then show thesis using refused by blast
next
  case pane: False
  show thesis
  proof (cases "if trim scope = ''mine'' then ok ''mine'' else validate_scope env scope")
    case (Inl e)
    with pane have "\<exists>e. res = Inl e \<and> s' = s" using assms by (auto simp: claim_next_def Let_def)
    then show thesis using refused by blast
  next
    case (Inr target)
    then have target: "if trim scope = ''mine'' then target = ''mine'' else validate_scope env scope = ok target"
      by (simp split: if_splits)
    let ?busy = "if co_allow_busy opts then [] else busy_task_ids pane (now_s env) s"
    let ?rows = "claim_queue env (trim scope = ''mine'') target pane s"
    consider "lease_length env (co_lease_seconds opts) \<le> 0"
      | "0 < lease_length env (co_lease_seconds opts)" "?busy \<noteq> []"
      | "0 < lease_length env (co_lease_seconds opts)" "?busy = []" "find (chosen_ok opts pane) ?rows = None"
      | r where "0 < lease_length env (co_lease_seconds opts)" "?busy = []" "find (chosen_ok opts pane) ?rows = Some r"
      by fastforce
    then show thesis
    proof cases
      case 1
      with pane Inr have "\<exists>e. res = Inl e \<and> s' = s" using assms by (auto simp: claim_next_def Let_def)
      then show thesis using refused by blast
    next
      case 2
      with pane Inr have "\<exists>target why. res = ok (Claim_Refused target why) \<and> s' = s"
        using assms by (auto simp: claim_next_def Let_def)
      then show thesis using told by blast
    next
      case 3
      with pane Inr have "\<exists>target why. res = ok (Claim_Refused target why) \<and> s' = s"
        using assms by (auto simp: claim_next_def Let_def)
      then show thesis using told by blast
    next
      case (4 r)
      with pane Inr assms have "s' = write_claim r pane (lease_length env (co_lease_seconds opts)) (co_caller opts) (now_s env) s"
        "res = try_bind (task_get (c_id (q_candidate r)) s')
          (\<lambda>t. ok (Claimed t target (lease_length env (co_lease_seconds opts))
                 (now_s env + lease_length env (co_lease_seconds opts))))"
        by (auto simp: claim_next_def Let_def)
      with 4 pane target show thesis by (intro claimed) (auto split: if_splits)
    qed
  qed
qed

lemma advances_claim_next:
  assumes inv: "store_inv s"
  shows "advances s (snd (claim_next env scope pane opts s))"
proof (cases "claim_next env scope pane opts s")
  case (Pair res s')
  then show ?thesis
  proof (cases rule: claim_next_cases)
    case (claimed target r)
    from claimed(5) have "r \<in> set (claim_queue env (trim scope = ''mine'') target pane s)"
      by (auto dest: find_SomeD)
    then obtain t where t: "t \<in> set (st_tasks s)" "r = queue_row_of (now_s env) s t"
      "t_status t = ''open'' \<or> t_status t = ''in_progress''"
      using claim_queue_row by blast
    then have "get_task (c_id (q_candidate r)) s = Some t" "\<not> ends_claim (t_status t)"
      using get_task_rows [OF store_inv_distinct [OF inv] t(1)] by (auto simp: queue_row_of_def ends_claim_def)
    then show ?thesis using advances_claim [OF inv] Pair claimed(6) by simp
  qed (simp_all add: Pair advances_refl [OF inv])
qed

text \<open>A batch: its members are distinct, and each is still workable when its turn comes.\<close>

lemma write_claim_get:
  "get_task i (write_claim r pane lease_s caller now s) =
     (if i = c_id (q_candidate r)
      then map_option (\<lambda>t. t\<lparr>t_status := ''in_progress'', t_assignees := lease_assignees (c_assignees (q_candidate r)) pane,
             t_attempts := t_attempts t + 1, t_updated_at := now, t_block_reason := None\<rparr>) (get_task i s)
      else get_task i s)"
  by (simp add: write_claim_def Let_def get_task_upd)

lemma advances_claims:
  assumes "store_inv s" "distinct (map (\<lambda>m. c_id (q_candidate m)) ms)"
    and "\<forall>m \<in> set ms. \<exists>t. get_task (c_id (q_candidate m)) s = Some t \<and> \<not> ends_claim (t_status t)"
  shows "advances s (fold (\<lambda>m. write_claim m pane lease_s caller now) ms s)"
  using assms
proof (induction ms arbitrary: s)
  case Nil
  then show ?case by (simp add: advances_refl)
next
  case (Cons m ms)
  let ?s = "write_claim m pane lease_s caller now s"
  from Cons.prems(3) obtain t where "get_task (c_id (q_candidate m)) s = Some t" "\<not> ends_claim (t_status t)" by auto
  then have a: "advances s ?s" using advances_claim [OF Cons.prems(1)] by blast
  have "\<forall>k \<in> set ms. \<exists>t. get_task (c_id (q_candidate k)) ?s = Some t \<and> \<not> ends_claim (t_status t)"
    using Cons.prems(2,3) by (auto simp: write_claim_get ends_claim_def)
  with Cons.IH [OF advances_inv [OF a]] Cons.prems(2) have "advances ?s (fold (\<lambda>m. write_claim m pane lease_s caller now) ms ?s)"
    by simp
  with advances_trans [OF Cons.prems(1) a] show ?case by simp
qed

text \<open>
  Only workable tasks pass the batch's validation: a finished or blocked task has no lease in
  a well-formed store, and without a lease the claim rule asks for an open task or one in
  progress.
\<close>

lemma chosen_workable:
  assumes "store_inv s" "get_task tid s = Some t" "chosen_ok opts pane (member_row now wanted s t)"
  shows "t_status t = ''open'' \<or> t_status t = ''in_progress''"
proof (rule ccontr)
  assume no: "\<not> ?thesis"
  then have "ends_claim (t_status t)"
    using store_inv_task(2) [OF assms(1,2)] by (auto simp: row_ok_def STATUSES_def ends_claim_def)
  then have "\<forall>l \<in> set (st_leases s). l_task_id l \<noteq> t_id t"
    using store_inv_lease [OF assms(1)] assms(2) store_inv_task(5) [OF assms(1,2)] by auto
  then have "leases_for (t_id t) now s = []" by (simp add: leases_for_def filter_empty_conv)
  with assms(3) no show False
    by (auto simp: chosen_ok_def claimable_def split: if_splits)
qed

lemma batch_members_workable:
  assumes inv: "store_inv s" and b: "batch_validate env wanted pane opts s = Inr ms"
  shows "map (\<lambda>m. c_id (q_candidate m)) ms = wanted"
    "\<forall>m \<in> set ms. \<exists>t. get_task (c_id (q_candidate m)) s = Some t \<and> m = member_row (now_s env) wanted s t
       \<and> \<not> ends_claim (t_status t)"
proof -
  note v = batch_validate_members [OF b]
  have id: "t_id (the (get_task tid s)) = tid" if "tid \<in> set wanted" for tid
    using v(3) that get_task_id [of tid s] by force
  then show "map (\<lambda>m. c_id (q_candidate m)) ms = wanted" by (simp add: v(4) comp_def map_idI)
  show "\<forall>m \<in> set ms. \<exists>t. get_task (c_id (q_candidate m)) s = Some t \<and> m = member_row (now_s env) wanted s t
       \<and> \<not> ends_claim (t_status t)"
  proof
    fix m assume m: "m \<in> set ms"
    then obtain tid where tid: "tid \<in> set wanted" "m = member_row (now_s env) wanted s (the (get_task tid s))"
      unfolding v(4) by auto
    with v(3) obtain t where t: "get_task tid s = Some t" by blast
    then have "chosen_ok opts pane (member_row (now_s env) wanted s t)" using v(5) m tid by simp
    from chosen_workable [OF inv t this] have "\<not> ends_claim (t_status t)" by (auto simp: ends_claim_def)
    with t tid get_task_id [OF t] show "\<exists>t. get_task (c_id (q_candidate m)) s = Some t
        \<and> m = member_row (now_s env) wanted s t \<and> \<not> ends_claim (t_status t)" by simp
  qed
qed

lemma advances_claim_batch:
  assumes inv: "store_inv s"
  shows "advances s (snd (claim_batch env ids pane opts s))"
proof (cases "batch_validate env ids pane opts s")
  case (Inl why)
  then show ?thesis by (simp add: claim_batch_def Let_def advances_refl [OF inv])
next
  case (Inr ms)
  note b = batch_members_workable [OF inv Inr]
  have "distinct (map (\<lambda>m. c_id (q_candidate m)) ms)" using b(1) batch_validate_members(2) [OF Inr] by simp
  then have "advances s (fold (\<lambda>m. write_claim m pane lease_s caller now) ms s)" for lease_s caller now
    using b(2) by (intro advances_claims [OF inv]) auto
  with Inr show ?thesis by (simp add: claim_batch_def Let_def advances_refl [OF inv])
qed

lemma advances_heartbeat: "store_inv s \<Longrightarrow> advances s (snd (heartbeat env tid pane wish caller s))"
  by (auto simp: heartbeat_def Let_def advances_refl split: option.split intro!: advances_upd_lease)

lemma advances_after_lease:
  assumes inv: "store_inv s" and t: "get_task tid s = Some t"
    and e: "e_task_id e = tid" "e_status_to e = Some (status_after_lease tid s t)"
  shows "advances s (log_event e (after_lease_change tid assignees now t s))"
proof -
  let ?f = "\<lambda>r. r\<lparr>t_assignees := assignees, t_status := status_after_lease tid s t,
                 t_attempts := t_attempts r + 1, t_updated_at := now\<rparr>"
  have "advances s (log_events [e] (upd_task tid ?f s))"
  proof (rule advances_write [where f = ?f, OF inv t])
    show "ends_claim (t_status (?f t)) \<longrightarrow> (\<forall>l \<in> set (st_leases s). l_task_id l \<noteq> tid)"
      using store_inv_lease [OF inv] t by (auto simp: status_after_lease_def ends_claim_def)
    show "row_evolves t (?f t)" "row_ok (?f t)" "refs_ok (task_ids s) (?f t)"
      using store_inv_task(2,3) [OF inv t]
      by (auto simp: row_facts status_after_lease_def STATUSES_def is_terminal_def)
  qed (simp_all add: e logged_status_Cons)
  then show ?thesis by (simp add: after_lease_change_def log_event_events)
qed

lemma advances_release:
  assumes inv: "store_inv s"
  shows "advances s (snd (release env tid pane s))"
proof (cases "get_task (trim tid) s")
  case None
  then show ?thesis by (simp add: release_def Let_def advances_refl [OF inv])
next
  case (Some t)
  note d = advances_del_lease [OF inv, of "trim tid" pane]
  show ?thesis
    unfolding release_def Let_def Some option.case done_with_simps snd_conv
    by (rule advances_trans [OF inv d], rule advances_after_lease [OF advances_inv [OF d]])
       (simp_all add: Some new_event_def)
qed

lemma advances_reap_one:
  assumes inv: "store_inv s"
  shows "advances s (fst (reap_one now panes alive l (s, out)))"
proof (cases "reapable now alive l")
  case False
  then show ?thesis by (simp add: reap_one_def advances_refl [OF inv])
next
  case True
  note d = advances_del_lease [OF inv, of "l_task_id l" "l_pane_id l"]
  show ?thesis
  proof (cases "get_task (l_task_id l) s")
    case None
    then show ?thesis using True d by (simp add: reap_one_def Let_def)
  next
    case (Some t)
    then have t: "get_task (l_task_id l) (del_lease (l_task_id l) (l_pane_id l) s) = Some t" by simp
    show ?thesis
      using True Some
      by (simp only: reap_one_def Let_def prod.case option.case if_True not_True_eq_False if_False t fst_conv)
         (rule advances_trans [OF inv d], rule advances_after_lease [OF advances_inv [OF d] t], simp_all add: new_event_def)
  qed
qed

lemma advances_reap:
  assumes "store_inv s"
  shows "advances s (snd (reap env panes alive at_time source s))"
  using advances_fold [of "reap_one now panes alive" for now, OF advances_reap_one assms] advances_refl [OF assms]
  by (auto simp: reap_def Let_def split_beta)

section \<open>Every operation meets the contract\<close>

lemma task_get_Inl: "task_get tid s = Inl e \<longleftrightarrow> get_task tid s = None \<and> e = Refused (NoTask tid)"
  by (auto simp: task_get_def split: option.splits)

lemma transition_row_id [simp]: "t_id (transition_row now status reason actor t) = t_id t"
  by (simp add: transition_row_def)

lemma set_status_rollback:
  assumes inv: "store_inv s" and e: "fst (set_status env tid status reason actor s) = Inl e"
  shows "snd (set_status env tid status reason actor s) = s"
proof (cases "get_task tid s")
  case None
  then show ?thesis by (simp add: set_status_def)
next
  case (Some t)
  show ?thesis
  proof (cases "is_terminal (t_status t) \<longrightarrow> t_status t = status")
    case False
    with Some show ?thesis by (auto simp: set_status_refused)
  next
    case True
    note d = store_inv_distinct [OF inv]
    let ?s1 = "log_event (status_event (now_s env) status reason actor t)
        (upd_task tid (transition_row (now_s env) status reason actor) (if ends_claim status then end_claims tid s else s))"
    have "distinct (map t_id (st_tasks ?s1))" using d by simp
    moreover have "get_task tid ?s1 \<noteq> None" using Some by (simp add: get_task_upd)
    ultimately have "get_task tid (fst (auto_unblock (now_s env) (Some tid) ?s1)) \<noteq> None"
      by (simp add: auto_unblock_get_task)
    with e Some show ?thesis
      unfolding set_status_closed [OF d Some True]
      by (auto simp: Let_def task_get_Inl get_task_upd split: if_splits)
  qed
qed

lemma complete_by_rollback:
  assumes "store_inv s" "fst (complete_by env tid who s) = Inl e"
  shows "snd (complete_by env tid who s) = s"
proof (cases "set_status env tid ''done'' None who s")
  case (Pair r s')
  then show ?thesis
    using assms set_status_rollback [OF assms(1), of env tid "''done''" None who]
    by (auto simp: complete_by_def split: sum.splits if_splits)
qed

lemma set_landed_rollback:
  "fst (set_landed env tid landed who repo pr s) = Inl e \<Longrightarrow> snd (set_landed env tid landed who repo pr s) = s"
  by (cases "get_task tid s") (auto simp: set_landed_def Let_def task_get_Inl get_task_upd split: if_splits)

lemma block_by_rollback: "fst (block_by env tid b s) = Inl e \<Longrightarrow> snd (block_by env tid b s) = s"
  by (cases "get_task (trim tid) s")
     (auto simp: block_by_def Let_def task_get_Inl get_task_upd split: if_splits)

lemma set_verdict_rollback: "fst (set_verdict env tid v who s) = Inl e \<Longrightarrow> snd (set_verdict env tid v who s) = s"
proof -
  have "row_count (\<lambda>r. t_id r = tid) (st_tasks s) = 0 \<longleftrightarrow> get_task tid s = None"
    by (auto simp: row_count_def filter_empty_conv get_task_def row_get_def find_eq_None_iff)
  then show "fst (set_verdict env tid v who s) = Inl e \<Longrightarrow> ?thesis"
    by (auto simp: set_verdict_def Let_def task_get_Inl get_task_upd split: if_splits)
qed

lemma set_accounting_rollback:
  "fst (set_accounting_pr env tid n s) = Inl e \<Longrightarrow> snd (set_accounting_pr env tid n s) = s"
  by (cases "get_task tid s") (auto simp: set_accounting_pr_def Let_def)

lemma assign_rollback: "fst (assign env tid as mode s) = Inl e \<Longrightarrow> snd (assign env tid as mode s) = s"
  by (auto simp: assign_def Let_def task_get_Inl get_task_upd split: if_splits option.splits)

lemma delete_rollback: "fst (delete_task env tid s) = Inl e \<Longrightarrow> snd (delete_task env tid s) = s"
  by (auto simp: delete_task_def Let_def split: if_splits option.splits)

lemma edit_row_id: "t_id (edit_row env actor edit priority parent deps st t) = t_id t"
  using edit_row_columns(1) [of t env actor edit priority parent deps st] by (simp add: same_identity_def)

lemma update_rollback:
  "fst (update_with_status env tid edit status actor s) = Inl e \<Longrightarrow>
   snd (update_with_status env tid edit status actor s) = s"
  by (auto simp: update_with_status_def Let_def task_get_Inl get_task_upd edit_row_id
      split: if_splits option.splits sum.splits prod.splits)

lemma insert_task_get: "insert_task row s = (ok tid, s') \<Longrightarrow> \<exists>t. get_task tid s' = Some t"
  by (auto simp: insert_task_def Let_def get_task_def row_get_def find_append split: if_splits option.splits)

lemma add_guarded_rollback:
  assumes "fst (add_with_verdict_guard env scope title body opts expected s) = Inl e"
  shows "snd (add_with_verdict_guard env scope title body opts expected s) = s"
proof -
  have "s' = s" if "insert_task row s = (Inl e', s')" for row e' s'
    using that by (auto simp: insert_task_def Let_def split: if_splits)
  with assms show ?thesis
    by (auto simp: add_with_verdict_guard_def task_get_def dest: insert_task_get
        split: sum.splits prod.splits if_splits option.splits)
qed

lemma add_with_rollback:
  "fst (add_with env scope title body opts s) = Inl e \<Longrightarrow> snd (add_with env scope title body opts s) = s"
proof (cases "add_with_verdict_guard env scope title body opts None s")
  case (Pair r s')
  have "s' = s" if "r = ok None"
    using Pair that by (auto simp: add_with_verdict_guard_def try_bind_Inr split: sum.splits prod.splits if_splits)
  moreover have "s' = s" if "r = Inl x" for x
    using add_guarded_rollback [of env scope title body opts None s x] Pair that by simp
  moreover assume "fst (add_with env scope title body opts s) = Inl e"
  ultimately show ?thesis using Pair by (auto simp: add_with_def split: sum.splits option.splits)
qed

lemma heartbeat_rollback: "fst (heartbeat env tid pane w c s) = Inl e \<Longrightarrow> snd (heartbeat env tid pane w c s) = s"
  by (auto simp: heartbeat_def Let_def split: if_splits)

lemma claim_next_rollback:
  assumes inv: "store_inv s" and e: "fst (claim_next env scope pane opts s) = Inl e"
  shows "snd (claim_next env scope pane opts s) = s"
proof (cases "claim_next env scope pane opts s")
  case (Pair res s')
  then show ?thesis
  proof (cases rule: claim_next_cases)
    case (claimed target r)
    from claimed(5) have "r \<in> set (claim_queue env (trim scope = ''mine'') target pane s)"
      by (auto dest: find_SomeD)
    then obtain t where "t \<in> set (st_tasks s)" "r = queue_row_of (now_s env) s t"
      using claim_queue_row by blast
    then have "get_task (c_id (q_candidate r)) s \<noteq> None"
      using get_task_rows [OF store_inv_distinct [OF inv]] by (auto simp: queue_row_of_def)
    then have "get_task (c_id (q_candidate r)) s' \<noteq> None"
      unfolding claimed(6) write_claim_def Let_def by (simp add: get_task_upd)
    with e claimed(7) show ?thesis by (auto simp: Pair task_get_def split: option.splits)
  qed (use Pair e in auto)
qed

lemma fold_claims_some:
  "get_task i (fold (\<lambda>m. write_claim m pane lease_s caller now) ms s) = None \<longleftrightarrow> get_task i s = None"
  by (induction ms arbitrary: s) (simp_all add: write_claim_get)

lemma get_all_ok: "(\<exists>ts. get_all ids s = ok ts) \<longleftrightarrow> (\<forall>tid \<in> set ids. get_task tid s \<noteq> None)"
  by (induction ids) (auto simp: try_bind_Inr task_get_def split: option.splits)

lemma claim_batch_rollback:
  assumes inv: "store_inv s" and e: "fst (claim_batch env ids pane opts s) = Inl e"
  shows "snd (claim_batch env ids pane opts s) = s"
proof (cases "batch_validate env ids pane opts s")
  case (Inl why)
  then show ?thesis by (simp add: claim_batch_def Let_def)
next
  case (Inr ms)
  have "\<exists>ts. get_all (map (\<lambda>m. c_id (q_candidate m)) ms)
      (fold (\<lambda>m. write_claim m pane lease_s caller now) ms s) = ok ts" for lease_s caller now
    unfolding get_all_ok using batch_members_workable(2) [OF inv Inr] by (auto simp: fold_claims_some)
  then obtain ts where "get_all (map (\<lambda>m. c_id (q_candidate m)) ms)
      (fold (\<lambda>m. write_claim m pane (lease_length env (co_lease_seconds opts)) (co_caller opts) (now_s env)) ms s) = ok ts"
    by blast
  with Inr e show ?thesis by (auto simp: claim_batch_def Let_def split: if_splits)
qed

lemma release_rollback: "fst (release env tid pane s) = Inl e \<Longrightarrow> snd (release env tid pane s) = s"
  by (auto simp: release_def Let_def task_get_Inl after_lease_change_def get_task_upd split: option.splits)

lemma reap_rollback: "fst (reap env panes alive at_time source s) = Inl e \<Longrightarrow> snd (reap env panes alive at_time source s) = s"
  by (auto simp: reap_def Let_def split: if_splits prod.splits)

lemma record_in_rollback: "fst (record_in i s) = Inl e \<Longrightarrow> snd (record_in i s) = s"
  by (auto simp: record_in_def split: option.splits)

lemma update_next_job_rollback:
  "fst (update_next_job env h expected changes s) = Inl e \<Longrightarrow> snd (update_next_job env h expected changes s) = s"
  by (auto simp: update_next_job_def Let_def split: option.splits prod.splits sum.splits if_splits)

lemmas set_status_contract = advances_set_status [OF _ done_in_STATUSES(2)]
  advances_set_status [OF _ done_in_STATUSES(3)] advances_set_status [OF _ done_in_STATUSES(4)] set_status_rollback

interpretation block_op: atomic_op "block_task env tid reason" for env tid reason
  unfolding block_task_def by unfold_locales (auto simp: set_status_contract)

interpretation unblock_op: atomic_op "unblock_task env tid" for env tid
  unfolding unblock_task_def by unfold_locales (auto simp: set_status_contract)

interpretation cancel_op: atomic_op "cancel_task env tid reason" for env tid reason
  unfolding cancel_task_def by unfold_locales (auto simp: set_status_contract)

interpretation complete_op: atomic_op "complete_by env tid who" for env tid who
  by unfold_locales (auto simp: advances_complete_by complete_by_rollback)

interpretation task_complete_op: store_op "task_complete env tid who landed" for env tid who landed
  by unfold_locales (rule advances_task_complete)

interpretation block_by_op: atomic_op "block_by env tid blocker" for env tid blocker
  by unfold_locales (auto simp: advances_block_by block_by_rollback)

interpretation set_landed_op: atomic_op "set_landed env tid landed who repo pr" for env tid landed who repo pr
  by unfold_locales (auto simp: advances_set_landed set_landed_rollback)

interpretation mark_landed_op: store_op "mark_landed_for_pr env repo pr who" for env repo pr who
  by unfold_locales (rule advances_mark_landed)

interpretation verdict_op: atomic_op "set_verdict env tid verdict who" for env tid verdict who
  by unfold_locales (auto simp: advances_set_verdict set_verdict_rollback)

interpretation accounting_op: atomic_op "set_accounting_pr env tid number" for env tid number
  by unfold_locales (auto simp: advances_set_accounting_pr set_accounting_rollback)

interpretation add_op: atomic_op "add_with env scope title body opts" for env scope title body opts
  by unfold_locales (auto simp: advances_add_with add_with_rollback)

interpretation add_guarded_op: atomic_op "add_with_verdict_guard env scope title body opts expected"
  for env scope title body opts expected
  by unfold_locales (auto simp: advances_add_guarded add_guarded_rollback)

interpretation assign_op: atomic_op "assign env tid assignees mode" for env tid assignees mode
  by unfold_locales (auto simp: advances_assign assign_rollback)

interpretation delete_op: atomic_op "delete_task env tid" for env tid
  by unfold_locales (auto simp: advances_delete delete_rollback)

interpretation update_op: atomic_op "update_with_status env tid edit status actor" for env tid edit status actor
  by unfold_locales (auto simp: advances_update_with_status update_rollback)

interpretation claim_op: atomic_op "claim_next env scope pane opts" for env scope pane opts
  by unfold_locales (auto simp: advances_claim_next claim_next_rollback)

interpretation batch_op: atomic_op "claim_batch env ids pane opts" for env ids pane opts
  by unfold_locales (auto simp: advances_claim_batch claim_batch_rollback)

interpretation heartbeat_op: atomic_op "heartbeat env tid pane wish caller" for env tid pane wish caller
  by unfold_locales (auto simp: advances_heartbeat heartbeat_rollback)

interpretation release_op: atomic_op "release env tid pane" for env tid pane
  by unfold_locales (auto simp: advances_release release_rollback)

interpretation reap_op: atomic_op "reap env panes alive at_time source" for env panes alive at_time source
  by unfold_locales (auto simp: advances_reap reap_rollback)

interpretation handoff_op: atomic_op "record_next_job_handoff env tid pane from_task mid attempt reason now details"
  for env tid pane from_task mid attempt reason now details
  unfolding record_next_job_handoff_def by unfold_locales (auto simp: advances_record_in record_in_rollback)

interpretation progress_op: atomic_op "update_next_job env h expected changes" for env h expected changes
  by unfold_locales (auto simp: advances_update_next_job update_next_job_rollback)

section \<open>The machine\<close>

text \<open>
  One command of the task store's clients with its arguments. \<open>Sweep\<close> is the daemon tick
  \<^verbatim>\<open>sweep_auto_unblock\<close>; \<open>Reap\<close> carries the liveness answers the tick reads.
\<close>

datatype command =
    Add string string string add_options
  | Add_Review string string string add_options "string list"
  | Block string string
  | Block_By string string
  | Unblock string
  | Cancel string string
  | Complete string "string option" "bool option"
  | Set_Landed string bool "string option" "string option" "int option"
  | Mark_Landed string int "string option"
  | Set_Verdict string string "string option"
  | Set_Accounting_Pr string int
  | Note string string string "string option" json
  | Assign string "string list" string
  | Delete string
  | Update string field_edit "string option" "string option"
  | Claim_Next string string claim_options
  | Claim_Batch "string list" string claim_options
  | Heartbeat string string "time option" "caller option"
  | Release string string
  | Reap "string list option" "caller_alive option" "time option" "string option"
  | Record_Handoff string string "string option" "string option" int "string option" "time option"
      "json_map option"
  | Update_Handoff handoff "json_map option" json_map
  | Sweep

definition exec :: "env \<Rightarrow> command \<Rightarrow> store \<Rightarrow> store" where
  "exec env c s =
     (case c of
        Add scope title body opts \<Rightarrow> snd (add_with env scope title body opts s)
      | Add_Review scope title body opts ids \<Rightarrow>
          snd (add_review_with_verdict_guard env scope title body opts ids s)
      | Block tid reason \<Rightarrow> snd (block_task env tid reason s)
      | Block_By tid blocker \<Rightarrow> snd (block_by env tid blocker s)
      | Unblock tid \<Rightarrow> snd (unblock_task env tid s)
      | Cancel tid reason \<Rightarrow> snd (cancel_task env tid reason s)
      | Complete tid who landed \<Rightarrow> snd (h_task_complete env tid who landed s)
      | Set_Landed tid landed who repo pr \<Rightarrow> snd (set_landed env tid landed who repo pr s)
      | Mark_Landed repo pr who \<Rightarrow> snd (mark_landed_for_pr env repo pr who s)
      | Set_Verdict tid verdict who \<Rightarrow> snd (set_verdict env tid verdict who s)
      | Set_Accounting_Pr tid number \<Rightarrow> snd (set_accounting_pr env tid number s)
      | Note tid event actor reason extra \<Rightarrow> note_with_meta env tid event actor reason extra s
      | Assign tid assignees mode \<Rightarrow> snd (assign env tid assignees mode s)
      | Delete tid \<Rightarrow> snd (delete_task env tid s)
      | Update tid edit status actor \<Rightarrow> snd (update_with_status env tid edit status actor s)
      | Claim_Next scope pane opts \<Rightarrow> snd (claim_next env scope pane opts s)
      | Claim_Batch ids pane opts \<Rightarrow> snd (claim_batch env ids pane opts s)
      | Heartbeat tid pane wish caller \<Rightarrow> snd (heartbeat env tid pane wish caller s)
      | Release tid pane \<Rightarrow> snd (release env tid pane s)
      | Reap panes alive at_time source \<Rightarrow> snd (reap env panes alive at_time source s)
      | Record_Handoff tid pane from_task mid attempt reason now details \<Rightarrow>
          snd (record_next_job_handoff env tid pane from_task mid attempt reason now details s)
      | Update_Handoff h expected changes \<Rightarrow> snd (update_next_job env h expected changes s)
      | Sweep \<Rightarrow> fst (sweep_auto_unblock env s))"

inductive step :: "store \<Rightarrow> store \<Rightarrow> bool" where
  step_exec: "step s (exec env c s)"

inductive reachable :: "store \<Rightarrow> bool" where
  reach_init: "reachable empty_store"
| reach_step: "reachable s \<Longrightarrow> step s s' \<Longrightarrow> reachable s'"

inductive_cases stepE: "step s s'"

text \<open>The stores a running daemon passes through from \<open>s\<close> on.\<close>

inductive runs :: "store \<Rightarrow> store \<Rightarrow> bool" where
  runs_here: "runs s s"
| runs_more: "runs s s' \<Longrightarrow> step s' s'' \<Longrightarrow> runs s s''"

lemma step_advances: "step s s' \<Longrightarrow> store_inv s \<Longrightarrow> advances s s'"
  by (erule stepE)
     (auto simp: exec_def h_task_complete_def sweep_auto_unblock_def advances_add_review advances_note_with_meta
        advances_auto_unblock block_op.advance unblock_op.advance cancel_op.advance task_complete_op.advance
        block_by_op.advance set_landed_op.advance mark_landed_op.advance verdict_op.advance
        accounting_op.advance add_op.advance assign_op.advance delete_op.advance update_op.advance
        claim_op.advance batch_op.advance heartbeat_op.advance release_op.advance reap_op.advance handoff_op.advance
        progress_op.advance split: command.splits)

lemma reachable_inv: "reachable s \<Longrightarrow> store_inv s"
proof (induction rule: reachable.induct)
  case reach_init
  show ?case by (rule store_inv_empty)
next
  case (reach_step s s')
  then show ?case using step_advances advances_inv by blast
qed

lemma runs_advances: "runs s s' \<Longrightarrow> store_inv s \<Longrightarrow> advances s s'"
proof (induction rule: runs.induct)
  case (runs_here s)
  then show ?case by (rule advances_refl)
next
  case (runs_more s s' s'')
  then have "advances s s'" by simp
  moreover have "advances s' s''" using runs_more calculation step_advances advances_inv by blast
  ultimately show ?case using advances_trans runs_more.prems by blast
qed

section \<open>What holds of every store the daemon reaches\<close>

text \<open>A small run to apply the properties to: two tasks, one waiting for the other.\<close>

definition demo_env :: env where
  "demo_env = \<lparr>now_s = 1, default_lease_s = 60, is_digits = (\<lambda>_. False)\<rparr>"

definition demo_filed :: store where
  "demo_filed =
     exec demo_env (Block_By ''t2'' ''t1'')
       (exec demo_env (Add ''global'' ''second'' [] default_add_options)
         (exec demo_env (Add ''global'' ''first'' [] default_add_options) empty_store))"

definition demo_claimed :: store where
  "demo_claimed = exec demo_env (Claim_Next ''global'' ''w:1'' default_claim_options) demo_filed"

definition demo_done :: store where
  "demo_done = exec demo_env (Complete ''t1'' (Some ''w:1'') None) demo_claimed"

text \<open>The same stores written out, so that evaluating over them does not replay the commands.\<close>

definition demo_row :: "string \<Rightarrow> string \<Rightarrow> task_row" where
  "demo_row i title = \<lparr>t_id = i, t_scope = ''global'', t_title = title, t_body = [],
        t_status = ''open'', t_priority = ''low'', t_parent_id = None,
        t_multi_assignee = False, t_attempts = 0, t_assignees = [],
        t_depends_on = [], t_created_at = 1, t_updated_at = 1,
        t_created_by = None, t_completed_by = None, t_completed_at = None,
        t_cancelled_at = None, t_block_reason = None, t_kind = ''work'',
        t_author = None, t_repo = None, t_pr = None, t_head = None,
        t_verdict = None, t_accounting_pr = None, t_landed = True\<rparr>"

definition demo_event :: "string \<Rightarrow> string \<Rightarrow> event_row" where
  "demo_event i what = \<lparr>e_task_id = i, e_event = what, e_at = 1, e_actor = None,
          e_scope = Some ''global'', e_priority = Some ''low'',
          e_status_from = None, e_status_to = Some ''open'',
          e_duration_ms = None, e_meta = None\<rparr>"

lemma demo_filed_code [code]:
  "demo_filed = \<lparr>st_tasks = [demo_row ''t1'' ''first'',
       (demo_row ''t2'' ''second'')\<lparr>t_status := ''blocked'', t_depends_on := [''t1''], t_block_reason := Some ''blocked-by:t1''\<rparr>],
     st_leases = [],
     st_events = [demo_event ''t1'' ''created'', demo_event ''t2'' ''created'',
       (demo_event ''t2'' ''blocked'')\<lparr>e_status_from := Some ''open'', e_status_to := Some ''blocked'',
          e_meta := Some (JObj [(''reason'', JStr ''blocked-by:t1'')])\<rparr>],
     st_counter = Some 2, st_offers = None\<rparr>"
  by code_simp

lemma demo_claimed_code [code]:
  "demo_claimed = demo_filed
    \<lparr>st_tasks := [(demo_row ''t1'' ''first'')\<lparr>t_status := ''in_progress'', t_attempts := 1, t_assignees := [''w:1'']\<rparr>,
       (demo_row ''t2'' ''second'')\<lparr>t_status := ''blocked'', t_depends_on := [''t1''], t_block_reason := Some ''blocked-by:t1''\<rparr>],
     st_leases :=
      [\<lparr>l_task_id = ''t1'', l_pane_id = ''w:1'', l_claimed_at = 1,
          l_heartbeat_at = 1, l_expires_at = 61,
          l_caller_pid = None, l_caller_start = None, l_caller_name = None,
          l_assignee_added = True\<rparr>],
     st_events := st_events demo_filed @
       [(demo_event ''t1'' ''claimed'')\<lparr>e_actor := Some ''w:1'', e_status_from := Some ''open'',
          e_status_to := Some ''in_progress'', e_duration_ms := Some 0,
          e_meta := Some (JObj [(''lease_seconds'', JReal 60), (''caller_pid'', JNull), (''caller_name'', JNull)])\<rparr>]\<rparr>"
  by code_simp

lemma demo_reachable: "reachable demo_filed" "reachable demo_claimed" "reachable demo_done"
  unfolding demo_filed_def demo_claimed_def demo_done_def
  by (intro reach_step [OF _ step_exec] reach_init)+

lemma demo_runs: "runs demo_claimed demo_done"
  unfolding demo_done_def by (rule runs_more [OF runs_here step_exec])

text \<open>
  A lease never outlives the work it was taken for. In every store the daemon can reach, a
  task somebody holds a lease on is neither done, cancelled nor blocked.
\<close>

theorem leases_are_on_workable_tasks:
  assumes "reachable s" "l \<in> set (st_leases s)" "get_task (l_task_id l) s = Some t"
  shows "t_status t \<noteq> ''done'' \<and> t_status t \<noteq> ''cancelled'' \<and> t_status t \<noteq> ''blocked''"
  using store_inv_lease [OF reachable_inv [OF assms(1)] assms(2,3)] by (simp add: ends_claim_def)

theorem leases_are_on_workable_tasks_witness:
  "\<exists>l t. l \<in> set (st_leases demo_claimed) \<and> get_task (l_task_id l) demo_claimed = Some t
     \<and> t_status t \<noteq> ''done'' \<and> t_status t \<noteq> ''cancelled'' \<and> t_status t \<noteq> ''blocked''"
proof -
  have "map l_task_id (st_leases demo_claimed) = [''t1'']" "get_task ''t1'' demo_claimed \<noteq> None"
    by code_simp+
  then obtain l t where "l \<in> set (st_leases demo_claimed)" "get_task (l_task_id l) demo_claimed = Some t"
    by (auto simp: map_eq_Cons_conv)
  with leases_are_on_workable_tasks [OF demo_reachable(2) this] show ?thesis by blast
qed

text \<open>
  C32: references never dangle. Whatever was filed, edited, blocked and deleted, every
  dependency and every parent of a stored task exists and is not the task itself, so a
  reader never reports a missing dependency.
\<close>

theorem references_never_dangle:
  assumes "reachable s" "get_task tid s = Some t"
  shows "missing_dependencies (dependency_state_of s t) = [] \<and> tid \<notin> set (t_depends_on t)
    \<and> (case t_parent_id t of None \<Rightarrow> True | Some p \<Rightarrow> p \<noteq> tid \<and> get_task p s \<noteq> None)"
proof -
  have refs: "refs_ok (task_ids s) t" "t_id t = tid"
    using store_inv_task(3,5) [OF reachable_inv [OF assms(1)] assms(2)] by simp_all
  moreover have "missing_dependencies (dependency_state_of s t) = []"
    using refs by (auto simp: dependency_state_of_def Let_def read_dependencies no_dependencies_def
        refs_ok_def task_ids_get filter_empty_conv)
  ultimately show ?thesis by (auto simp: refs_ok_def task_ids_get split: option.splits)
qed

theorem references_never_dangle_witness:
  "\<exists>t. get_task ''t2'' demo_filed = Some t \<and> t_depends_on t = [''t1'']
     \<and> missing_dependencies (dependency_state_of demo_filed t) = []"
proof -
  have "map_option t_depends_on (get_task ''t2'' demo_filed) = Some [''t1'']" by code_simp
  then obtain t where t: "get_task ''t2'' demo_filed = Some t" "t_depends_on t = [''t1'']" by auto
  with references_never_dangle [OF demo_reachable(1) t(1)] show ?thesis by blast
qed

text \<open>
  The event log tells the truth. Replaying the status changes recorded in
  \<^verbatim>\<open>task_events\<close> gives the status each stored task has: no operation changes a status
  without its event, and no event claims a change that was not made.
\<close>

theorem event_log_tells_status:
  assumes "reachable s" "get_task tid s = Some t"
  shows "logged_status tid (st_events s) = Some (t_status t)"
  by (rule store_inv_task(4) [OF reachable_inv [OF assms(1)] assms(2)])

theorem event_log_tells_status_witness:
  "\<exists>t. get_task ''t2'' demo_done = Some t \<and> t_status t = ''open''
     \<and> logged_status ''t2'' (st_events demo_done) = Some ''open''"
proof -
  have "map_option t_status (get_task ''t2'' demo_done) = Some ''open''" by code_simp
  then obtain t where t: "get_task ''t2'' demo_done = Some t" "t_status t = ''open''" by auto
  with event_log_tells_status [OF demo_reachable(3) t(1)] show ?thesis by simp
qed

text \<open>
  A head is under review once. Two live review tasks for the same repository, pull
  request and head are the same task.
\<close>

theorem one_live_review_per_head:
  assumes "reachable s" "get_task i s = Some t" "get_task j s = Some u"
    and "live_review repo pr head t" "live_review repo pr head u"
  shows "i = j"
proof -
  note inv = reachable_inv [OF assms(1)]
  have "one_review (st_tasks s)" using inv by (simp add: store_inv_def)
  moreover have "repo = t_repo t" "pr = t_pr t" "head = t_head t"
    using assms(4) by (auto simp: live_review_def same_review_def)
  ultimately have "t_id t = t_id u"
    using assms(4,5) store_inv_task(6) [OF inv assms(2)] store_inv_task(6) [OF inv assms(3)]
    unfolding one_review_def by blast
  then show ?thesis
    using store_inv_task(5) [OF inv assms(2)] store_inv_task(5) [OF inv assms(3)] by simp
qed

definition demo_review :: store where
  "demo_review = exec demo_env (Add ''global'' ''look'' []
     (default_add_options\<lparr>ao_kind := Some ''review'', ao_repo := Some ''r'', ao_pr := Some ''7'', ao_head := Some ''h''\<rparr>))
     empty_store"

lemma demo_review_reachable: "reachable demo_review"
  unfolding demo_review_def by (intro reach_step [OF _ step_exec] reach_init)

theorem one_live_review_per_head_witness:
  "\<exists>t. get_task ''t1'' demo_review = Some t \<and> live_review (Some ''r'') (Some 7) (Some ''h'') t
     \<and> (\<forall>j u. get_task j demo_review = Some u \<and> live_review (Some ''r'') (Some 7) (Some ''h'') u \<longrightarrow> j = ''t1'')"
proof -
  have "map_option (live_review (Some ''r'') (Some 7) (Some ''h'')) (get_task ''t1'' demo_review) = Some True"
    by code_simp
  then obtain t where "get_task ''t1'' demo_review = Some t" "live_review (Some ''r'') (Some 7) (Some ''h'') t"
    by auto
  with one_live_review_per_head [OF demo_review_reachable _ this(1) _ this(2)] show ?thesis by blast
qed

text \<open>
  C31: finished is final. Once a task is done or cancelled, no sequence of commands gives it
  another status, or another kind, scope, pull request or head; at most it is deleted.
\<close>

theorem finished_is_final:
  assumes "reachable s" "runs s s'" "get_task tid s = Some t" "is_terminal (t_status t)" "get_task tid s' = Some u"
  shows "t_status u = t_status t \<and> t_kind u = t_kind t \<and> t_scope u = t_scope t
    \<and> t_pr u = t_pr t \<and> t_head u = t_head t"
  using evolvesD(3) [OF _ assms(3,5)] runs_advances [OF assms(2) reachable_inv [OF assms(1)]] assms(4)
  by (auto simp: advances_def row_evolves_def same_identity_def)

definition demo_after :: store where
  "demo_after = exec demo_env (Unblock ''t1'') demo_done"

theorem finished_is_final_witness:
  "\<exists>t u. get_task ''t1'' demo_done = Some t \<and> is_terminal (t_status t)
     \<and> get_task ''t1'' demo_after = Some u \<and> t_status u = t_status t"
proof -
  have r: "runs demo_done demo_after"
    unfolding demo_after_def by (rule runs_more [OF runs_here step_exec])
  have "map_option (\<lambda>t. is_terminal (t_status t)) (get_task ''t1'' demo_done) = Some True"
    "get_task ''t1'' demo_after \<noteq> None"
    by code_simp+
  then obtain t u where "get_task ''t1'' demo_done = Some t" "is_terminal (t_status t)" "get_task ''t1'' demo_after = Some u"
    by auto
  with finished_is_final [OF demo_reachable(3) r this] show ?thesis by blast
qed

text \<open>
  An id names one task for ever. A task that was deleted never comes back under its id,
  whatever is filed afterwards.
\<close>

theorem ids_are_never_reused:
  assumes "reachable s" "get_task tid s \<noteq> None" "runs s s'" "get_task tid s' = None" "runs s' s''"
  shows "get_task tid s'' = None"
proof -
  note inv = reachable_inv [OF assms(1)]
  have a: "advances s s'" by (rule runs_advances [OF assms(3) inv])
  have "issued s tid" using assms(2) store_inv_task(1) [OF inv] by blast
  then have "issued s' tid" using a evolvesD(2) by (auto simp: advances_def)
  then show ?thesis
    using runs_advances [OF assms(5) advances_inv [OF a]] assms(4) evolvesD(4) by (auto simp: advances_def)
qed

definition demo_deleted :: store where
  "demo_deleted = exec demo_env (Delete ''t2'') demo_filed"

definition demo_refiled :: store where
  "demo_refiled = exec demo_env (Add ''global'' ''third'' [] default_add_options) demo_deleted"

theorem ids_are_never_reused_witness:
  "get_task ''t2'' demo_filed \<noteq> None \<and> get_task ''t2'' demo_deleted = None
   \<and> get_task ''t3'' demo_refiled \<noteq> None \<and> get_task ''t2'' demo_refiled = None"
proof -
  have e: "get_task ''t2'' demo_filed \<noteq> None" "get_task ''t2'' demo_deleted = None"
    "get_task ''t3'' demo_refiled \<noteq> None"
    by code_simp+
  have "runs demo_filed demo_deleted" "runs demo_deleted demo_refiled"
    unfolding demo_deleted_def demo_refiled_def by (rule runs_more [OF runs_here step_exec])+
  with ids_are_never_reused [OF demo_reachable(1) e(1) _ e(2)] e show ?thesis by blast
qed

end
