(* ===== verification/Dependency_Effects.thy ===== *)
theory Dependency_Effects
  imports Task_Machine
begin

text \<open>
  What the dependency machinery does to a store: which tasks the sweep and a completion
  open, that nothing else changes, and how the reader's view of a task's dependencies
  relates to what the unblocking loop acts on.
\<close>

section \<open>The sweep\<close>

text \<open>A task the loop opens: blocked on dependencies, all of them done and landed.\<close>

definition ready_to_open :: "store \<Rightarrow> task_row \<Rightarrow> bool" where
  "ready_to_open s t \<longleftrightarrow>
     t_status t = ''blocked'' \<and> dependency_block (t_block_reason t) \<and> t_depends_on t \<noteq> []
     \<and> list_all (dep_satisfied s) (t_depends_on t)"

lemma unblockable_sweep: "t_status t = ''blocked'' \<and> unblockable s None t \<longleftrightarrow> ready_to_open s t"
  by (auto simp: unblockable_def ready_to_open_def)

text \<open>
  C27: the sweep opens exactly the tasks that are blocked on dependencies which are all done
  and landed, and reports them; every other task, every lease and the counter keep their
  values. A block the owner set for another reason is never lifted.
\<close>

theorem sweep_opens_exactly:
  assumes "store_inv s"
  shows "get_task tid (fst (sweep_auto_unblock env s)) =
      map_option (\<lambda>t. if ready_to_open s t then open_row (now_s env) t else t) (get_task tid s)
    \<and> st_leases (fst (sweep_auto_unblock env s)) = st_leases s
    \<and> st_counter (fst (sweep_auto_unblock env s)) = st_counter s
    \<and> set (snd (sweep_auto_unblock env s)) = {t_id t | t. t \<in> set (st_tasks s) \<and> ready_to_open s t}"
proof -
  note d = store_inv_distinct [OF assms]
  have "set (snd (sweep_auto_unblock env s)) = t_id ` set (unblock_hits None s)"
    by (simp add: sweep_auto_unblock_def auto_unblock_closed [OF d])
  also have "\<dots> = {t_id t | t. t \<in> set (st_tasks s) \<and> ready_to_open s t}"
    using unblock_hits_iff [OF d, of _ None] unblockable_sweep by blast
  finally show ?thesis
    by (simp add: sweep_auto_unblock_def d auto_unblock_get_task [OF d] unblockable_sweep)
qed

definition demo_waiting :: store where
  "demo_waiting = exec demo_env (Update ''t1'' no_edit (Some ''done'') None) demo_filed"

lemma demo_waiting_reachable: "reachable demo_waiting"
  unfolding demo_waiting_def by (rule reach_step [OF demo_reachable(1) step_exec])

theorem sweep_opens_exactly_witness:
  "map_option t_status (get_task ''t2'' demo_waiting) = Some ''blocked''
   \<and> map_option t_status (get_task ''t2'' (fst (sweep_auto_unblock demo_env demo_waiting))) = Some ''open''"
proof -
  have "map_option (\<lambda>t. (t_status t, ready_to_open demo_waiting t)) (get_task ''t2'' demo_waiting) = Some (''blocked'', True)"
    by code_simp
  then obtain t where t: "get_task ''t2'' demo_waiting = Some t" "t_status t = ''blocked''" "ready_to_open demo_waiting t"
    by auto
  with sweep_opens_exactly [OF reachable_inv [OF demo_waiting_reachable], of "''t2''" demo_env] show ?thesis
    by (simp add: open_row_def)
qed

text \<open>Opening tasks satisfies no dependency, so one sweep does all there is to do.\<close>

lemma dep_satisfied_auto_unblock:
  assumes "distinct (map t_id (st_tasks s))"
  shows "dep_satisfied (fst (auto_unblock now c s)) d = dep_satisfied s d"
  by (auto simp: dep_satisfied_def auto_unblock_get_task [OF assms] open_row_def split: option.splits)

text \<open>
  The sweep is finished after one pass. A second sweep, at any later time, opens nothing
  and writes nothing.
\<close>

theorem sweep_is_idempotent:
  assumes "store_inv s"
  shows "sweep_auto_unblock env' (fst (sweep_auto_unblock env s)) = (fst (sweep_auto_unblock env s), [])"
proof -
  let ?s = "fst (sweep_auto_unblock env s)"
  have inv: "store_inv ?s"
    unfolding sweep_auto_unblock_def using advances_inv [OF advances_auto_unblock [OF assms]] .
  note d = store_inv_distinct [OF assms] and d' = store_inv_distinct [OF inv]
  have "\<not> ready_to_open ?s t" if t: "t \<in> set (st_tasks ?s)" for t
  proof
    assume r: "ready_to_open ?s t"
    from get_task_rows [OF d' t] have "get_task (t_id t) ?s = Some t" .
    then obtain u where u: "get_task (t_id t) s = Some u"
      "t = (if ready_to_open s u then open_row (now_s env) u else u)"
      using conjunct1 [OF sweep_opens_exactly [OF assms], of "t_id t" env] by auto
    moreover have "ready_to_open ?s t = ready_to_open s t"
      by (simp add: ready_to_open_def list_all_iff sweep_auto_unblock_def dep_satisfied_auto_unblock [OF d])
    ultimately show False
      using r by (auto simp: ready_to_open_def open_row_def split: if_splits)
  qed
  then have "unblock_hits None ?s = []"
    using unblock_hits_iff [OF d', of _ None] unblockable_sweep by (metis last_in_set)
  then show ?thesis
    by (simp add: sweep_auto_unblock_def [of env'] auto_unblock_closed [OF d'] log_events_def open_where_False)
qed

theorem sweep_is_idempotent_witness:
  "snd (sweep_auto_unblock demo_env demo_waiting) = [''t2'']
   \<and> snd (sweep_auto_unblock demo_env (fst (sweep_auto_unblock demo_env demo_waiting))) = []"
proof
  show "snd (sweep_auto_unblock demo_env demo_waiting) = [''t2'']" by code_simp
  show "snd (sweep_auto_unblock demo_env (fst (sweep_auto_unblock demo_env demo_waiting))) = []"
    using sweep_is_idempotent [OF reachable_inv [OF demo_waiting_reachable], of demo_env demo_env] by simp
qed

section \<open>What a reader is told\<close>

text \<open>
  The dependency report. \<^verbatim>\<open>blocked_by\<close> lists, in order, the dependencies that still hold
  the task back: those that are missing, not finished, or done but not landed; a cancelled
  one counts as satisfied and is listed as dead. \<^verbatim>\<open>dependencies_clear\<close> and
  \<^verbatim>\<open>unblock_needed\<close> follow from it.
\<close>

theorem dependency_report:
  "blocked_by (dependency_state_of s t) = filter (outstanding s) (t_depends_on t)
   \<and> dead_dependencies (dependency_state_of s t) =
      filter (\<lambda>d. map_option t_status (get_task d s) = Some ''cancelled'') (t_depends_on t)
   \<and> unlanded_dependencies (dependency_state_of s t) =
      filter (\<lambda>d. map_option (\<lambda>u. (t_status u, t_landed u)) (get_task d s) = Some (''done'', False)) (t_depends_on t)
   \<and> (dependencies_clear (dependency_state_of s t)
      = (t_status t \<in> {''open'', ''in_progress''} \<and> list_all (\<lambda>d. \<not> outstanding s d) (t_depends_on t)))
   \<and> (unblock_needed (dependency_state_of s t)
      = (t_status t = ''blocked'' \<and> t_depends_on t \<noteq> [] \<and> list_all (\<lambda>d. \<not> outstanding s d) (t_depends_on t)))"
proof -
  have 1: "(\<exists>u. get_task d s = Some u \<and> t_status u = ''cancelled'') = (map_option t_status (get_task d s) = Some ''cancelled'')"
    and 2: "(\<exists>u. get_task d s = Some u \<and> t_status u = ''done'' \<and> \<not> t_landed u)
      = (map_option (\<lambda>u. (t_status u, t_landed u)) (get_task d s) = Some (''done'', False))" for d
    by auto
  have "dead_dependencies (dependency_state_of s t) =
      filter (\<lambda>d. map_option t_status (get_task d s) = Some ''cancelled'') (t_depends_on t)"
    "unlanded_dependencies (dependency_state_of s t) =
      filter (\<lambda>d. map_option (\<lambda>u. (t_status u, t_landed u)) (get_task d s) = Some (''done'', False)) (t_depends_on t)"
    unfolding 1 [symmetric] 2 [symmetric]
    by (simp_all add: dependency_state_of_def Let_def read_dependencies no_dependencies_def)
  then show ?thesis
    by (simp add: blocked_by_state dependencies_clear_state unblock_needed_state filter_empty_conv list_all_iff)
qed

text \<open>
  C36: the reader and the sweep agree up to cancelled dependencies. Of the blocked tasks whose
  block is a dependency block, the sweep opens those a reader reports as needing to be
  unblocked and that have no cancelled dependency; a task a cancelled dependency is part of
  is left for the owner.
\<close>

theorem reader_and_sweep_agree:
  assumes "t_status t = ''blocked''" "dependency_block (t_block_reason t)"
  shows "ready_to_open s t \<longleftrightarrow>
    unblock_needed (dependency_state_of s t) \<and> dead_dependencies (dependency_state_of s t) = []"
proof -
  have "dep_satisfied s d \<longleftrightarrow> \<not> outstanding s d \<and> (\<nexists>u. get_task d s = Some u \<and> t_status u = ''cancelled'')" for d
    by (auto simp: dep_satisfied_def outstanding_def split: option.splits)
  moreover have "dead_dependencies (dependency_state_of s t) =
      filter (\<lambda>d. \<exists>u. get_task d s = Some u \<and> t_status u = ''cancelled'') (t_depends_on t)"
    by (simp add: dependency_state_of_def Let_def read_dependencies no_dependencies_def)
  ultimately show ?thesis
    using assms by (auto simp: ready_to_open_def unblock_needed_state list_all_iff filter_empty_conv)
qed

theorem reader_and_sweep_agree_witness:
  "\<exists>t. get_task ''t2'' demo_waiting = Some t \<and> ready_to_open demo_waiting t
     \<and> unblock_needed (dependency_state_of demo_waiting t)"
proof -
  have "map_option (\<lambda>t. t_status t = ''blocked'' \<and> dependency_block (t_block_reason t) \<and> ready_to_open demo_waiting t)
      (get_task ''t2'' demo_waiting) = Some True"
    by code_simp
  then obtain t where t: "get_task ''t2'' demo_waiting = Some t" "t_status t = ''blocked''"
    "dependency_block (t_block_reason t)" "ready_to_open demo_waiting t" by auto
  with reader_and_sweep_agree [OF t(2,3), of demo_waiting] show ?thesis by blast
qed

section \<open>Cycles\<close>

text \<open>
  A dependency cycle never opens by itself. If every task of a set is unfinished and
  depends on some task of the set, no sweep changes any of them; only a person can.
  Nothing stops such a cycle from being made: a task may be blocked on one that is itself
  blocked on it.
\<close>

theorem cycle_stays_blocked:
  assumes "store_inv s" "i \<in> C"
    and "\<forall>j \<in> C. \<exists>t. get_task j s = Some t \<and> t_status t \<noteq> ''done'' \<and> set (t_depends_on t) \<inter> C \<noteq> {}"
  shows "get_task i (fst (sweep_auto_unblock env s)) = get_task i s"
proof -
  from assms(2,3) obtain t d where t: "get_task i s = Some t" and d: "d \<in> set (t_depends_on t)" "d \<in> C" by blast
  from assms(3) d(2) have "\<not> dep_satisfied s d" by (auto simp: dep_satisfied_def)
  with d(1) have "\<not> ready_to_open s t" by (auto simp: ready_to_open_def list_all_iff)
  then show ?thesis
    using conjunct1 [OF sweep_opens_exactly [OF assms(1)], of i env] t by simp
qed

definition demo_cycle :: store where
  "demo_cycle = exec demo_env (Block_By ''t1'' ''t2'') demo_filed"

theorem cycle_stays_blocked_witness:
  "map_option t_status (get_task ''t1'' (fst (sweep_auto_unblock demo_env demo_cycle))) = Some ''blocked''"
proof -
  have r: "reachable demo_cycle"
    unfolding demo_cycle_def by (rule reach_step [OF demo_reachable(1) step_exec])
  have "map_option (\<lambda>t. (t_status t, t_depends_on t)) (get_task ''t1'' demo_cycle) = Some (''blocked'', [''t2''])"
    "map_option (\<lambda>t. (t_status t, t_depends_on t)) (get_task ''t2'' demo_cycle) = Some (''blocked'', [''t1''])"
    by code_simp+
  then show ?thesis
    using cycle_stays_blocked [OF reachable_inv [OF r], of "''t1''" "{''t1'', ''t2''}" demo_env] by auto
qed

end
