(* ===== verification/Lifecycle_Effects.thy ===== *)
theory Lifecycle_Effects
  imports Dependency_Effects
begin

text \<open>
  What the operations of a task's life do: a status change, a completion with the tasks it
  opens and the notices it sends, completions whose work has not landed, and the merge that
  lands it.
\<close>

section \<open>Status changes\<close>

lemma transition_row_simps [simp]:
  "t_status (transition_row now status reason actor t) = status"
  "t_depends_on (transition_row now status reason actor t) = t_depends_on t"
  "t_landed (transition_row now status reason actor t) = t_landed t"
  by (simp_all add: transition_row_def)

text \<open>
  One status change is one row, one event and, for a status that ends claims, the end of
  every claim. Blocking, unblocking or cancelling an unfinished task changes no other task,
  and the event names the status before and after.
\<close>

theorem status_change_effect:
  assumes "store_inv s" "get_task tid s = Some t" "\<not> is_terminal (t_status t)" "status \<noteq> ''done''"
    and "set_status env tid status reason actor s = (res, s')"
  shows "res = ok (transition_row (now_s env) status reason actor t)
    \<and> get_task i s' = (if i = tid then Some (transition_row (now_s env) status reason actor t) else get_task i s)
    \<and> st_events s' = st_events s @ [status_event (now_s env) status reason actor t]
    \<and> st_leases s' = (if ends_claim status then filter (\<lambda>l. l_task_id l \<noteq> tid) (st_leases s) else st_leases s)"
proof -
  have "set_status env tid status reason actor s =
      done_with tid (log_event (status_event (now_s env) status reason actor t)
        (upd_task tid (transition_row (now_s env) status reason actor)
           (if ends_claim status then end_claims tid s else s)))"
    using set_status_closed [OF store_inv_distinct [OF assms(1)] assms(2)] assms(3,4) by simp
  with assms(2,5) show ?thesis
    by (auto simp: done_with_def task_get_def get_task_upd leases_end_claims)
qed

theorem status_change_effect_witness:
  "\<exists>r s'. set_status demo_env ''t1'' ''blocked'' (Some ''wait'') None demo_claimed = (ok r, s')
     \<and> t_status r = ''blocked'' \<and> st_leases s' = [] \<and> st_leases demo_claimed \<noteq> []"
proof -
  have e: "map_option t_status (get_task ''t1'' demo_claimed) = Some ''in_progress''"
    "map l_task_id (st_leases demo_claimed) = [''t1'']"
    by code_simp+
  obtain t where t: "get_task ''t1'' demo_claimed = Some t" "t_status t = ''in_progress''" using e(1) by auto
  obtain res s' where r: "set_status demo_env ''t1'' ''blocked'' (Some ''wait'') None demo_claimed = (res, s')"
    by fastforce
  have "\<not> is_terminal (t_status t)" by (simp add: is_terminal_def t)
  from status_change_effect [OF reachable_inv [OF demo_reachable(2)] t(1) this _ r]
  have "res = ok (transition_row (now_s demo_env) ''blocked'' (Some ''wait'') None t)"
    "st_leases s' = filter (\<lambda>l. l_task_id l \<noteq> ''t1'') (st_leases demo_claimed)"
    by (simp_all add: ends_claim_def)
  moreover from e(2) have "\<forall>l \<in> set (st_leases demo_claimed). l_task_id l = ''t1''" "st_leases demo_claimed \<noteq> []"
    by auto
  ultimately show ?thesis using r by (auto simp: filter_empty_conv)
qed

section \<open>Completion\<close>

text \<open>The tasks a completion of \<open>tid\<close> opens, \<open>landed\<close> being whether its work is on main.\<close>

definition opened_by :: "string \<Rightarrow> bool \<Rightarrow> store \<Rightarrow> task_row \<Rightarrow> bool" where
  "opened_by tid landed s r \<longleftrightarrow>
     t_status r = ''blocked'' \<and> dependency_block (t_block_reason r) \<and> tid \<in> set (t_depends_on r)
     \<and> landed \<and> list_all (\<lambda>d. d = tid \<or> dep_satisfied s d) (t_depends_on r)"

text \<open>The store between the write of the status and the unblocking loop.\<close>

definition finished_store :: "env \<Rightarrow> string \<Rightarrow> string option \<Rightarrow> task_row \<Rightarrow> store \<Rightarrow> store" where
  "finished_store env tid who t s =
     log_event (status_event (now_s env) ''done'' None who t)
       (upd_task tid (transition_row (now_s env) ''done'' None who) (end_claims tid s))"

lemma finished_store_get:
  assumes "get_task tid s = Some t"
  shows "get_task i (finished_store env tid who t s) =
    (if i = tid then Some (transition_row (now_s env) ''done'' None who t) else get_task i s)"
  using assms by (simp add: finished_store_def get_task_upd)

lemma finished_store_simps [simp]:
  "map t_id (st_tasks (finished_store env tid who t s)) = map t_id (st_tasks s)"
  "st_leases (finished_store env tid who t s) = filter (\<lambda>l. l_task_id l \<noteq> tid) (st_leases s)"
  by (simp_all add: finished_store_def leases_end_claims)

lemma unblockable_finished:
  assumes "get_task tid s = Some t" "t_status r = ''blocked''"
  shows "unblockable (finished_store env tid who t s) (Some tid) r \<longleftrightarrow> opened_by tid (t_landed t) s r"
proof -
  have "dep_satisfied (finished_store env tid who t s) d = (if d = tid then t_landed t else dep_satisfied s d)" for d
    by (simp add: dep_satisfied_def finished_store_get [OF assms(1)])
  with assms(2) show ?thesis
    by (auto simp: unblockable_def opened_by_def list_all_iff)
qed

lemma completed_store:
  assumes "store_inv s" "get_task tid s = Some t" "t_status t \<noteq> ''done''" "complete_by env tid who s = (ok r, s')"
  shows "s' = fst (auto_unblock (now_s env) (Some tid) (finished_store env tid who t s))"
    "fst r = transition_row (now_s env) ''done'' None who t"
    "snd r = (tid, ''completed'', who, Some (t_kind t)) # unblocked_notices (unblocked_by tid s')"
proof -
  note d = store_inv_distinct [OF assms(1)]
  let ?s = "finished_store env tid who t s"
  have nt: "\<not> is_terminal (t_status t)"
  proof
    assume "is_terminal (t_status t)"
    then show False
      using assms(2-4) set_status_refused [OF assms(2), of "''done''" env None who]
      by (auto simp: complete_by_def task_get_def)
  qed
  then have st: "set_status env tid ''done'' None who s = done_with tid (fst (auto_unblock (now_s env) (Some tid) ?s))"
    using set_status_closed [OF d assms(2), of "''done''" env None who] assms(3)
    by (simp add: finished_store_def ends_claim_def)
  have "get_task tid (fst (auto_unblock (now_s env) (Some tid) ?s)) = Some (transition_row (now_s env) ''done'' None who t)"
    using d by (simp add: auto_unblock_get_task finished_store_get [OF assms(2)])
  with st assms(2-4) have "s' = fst (auto_unblock (now_s env) (Some tid) ?s) \<and>
    fst r = transition_row (now_s env) ''done'' None who t \<and>
    snd r = (t_id (fst r), ''completed'', who, Some (t_kind t)) # unblocked_notices (unblocked_by (t_id (fst r)) s')"
    by (auto simp: complete_by_def task_get_def done_with_def)
  then show "s' = fst (auto_unblock (now_s env) (Some tid) ?s)" "fst r = transition_row (now_s env) ''done'' None who t"
    "snd r = (tid, ''completed'', who, Some (t_kind t)) # unblocked_notices (unblocked_by tid s')"
    using get_task_id [OF assms(2)] by auto
qed

lemma completion_effect:
  assumes "store_inv s" "get_task tid s = Some t" "t_status t \<noteq> ''done''"
    and "complete_by env tid who s = (ok r, s')"
  shows "get_task i s' =
      (if i = tid then Some (transition_row (now_s env) ''done'' None who t)
       else map_option (\<lambda>u. if opened_by tid (t_landed t) s u then open_row (now_s env) u else u) (get_task i s))
    \<and> st_leases s' = filter (\<lambda>l. l_task_id l \<noteq> tid) (st_leases s)"
proof -
  have d: "distinct (map t_id (st_tasks (finished_store env tid who t s)))"
    using store_inv_distinct [OF assms(1)] by simp
  have "t_status u = ''blocked'' \<and> unblockable (finished_store env tid who t s) (Some tid) u
      \<longleftrightarrow> opened_by tid (t_landed t) s u" for u
    using unblockable_finished [OF assms(2), of u] by (auto simp: opened_by_def)
  moreover have "\<not> opened_by tid b s (transition_row (now_s env) ''done'' None who t)" for b
    by (simp add: opened_by_def)
  ultimately show ?thesis
    unfolding completed_store(1) [OF assms]
    by (simp add: auto_unblock_get_task [OF d] auto_unblock_frames [OF d] finished_store_get [OF assms(2)] del: finished_store_simps(1))
qed

text \<open>
  C5: a completion opens exactly what it completes the wait of. The task is done and records
  who finished it, its claims are gone, and of all other tasks precisely those change that
  were blocked on dependencies of which it was the last unfinished one; they are open.
\<close>

theorem completion_opens_exactly:
  assumes "store_inv s" "get_task tid s = Some t" "t_status t \<noteq> ''done''"
    and "complete_by env tid who s = (ok r, s')"
  shows "get_task i s' =
      (if i = tid then Some (transition_row (now_s env) ''done'' None who t)
       else map_option (\<lambda>u. if opened_by tid (t_landed t) s u then open_row (now_s env) u else u) (get_task i s))
    \<and> st_leases s' = filter (\<lambda>l. l_task_id l \<noteq> tid) (st_leases s)"
  by (rule completion_effect [OF assms])

theorem completion_opens_exactly_witness:
  "\<exists>r s'. complete_by demo_env ''t1'' None demo_claimed = (ok r, s')
     \<and> map_option t_status (get_task ''t1'' s') = Some ''done''
     \<and> map_option t_status (get_task ''t2'' s') = Some ''open''"
proof -
  have e: "is_ok (fst (complete_by demo_env ''t1'' None demo_claimed))"
    "map_option (\<lambda>t. t_status t = ''done'' \<or> \<not> t_landed t) (get_task ''t1'' demo_claimed) = Some False"
    "map_option (opened_by ''t1'' True demo_claimed) (get_task ''t2'' demo_claimed) = Some True"
    by code_simp+
  from e(1) obtain r s' where c: "complete_by demo_env ''t1'' None demo_claimed = (ok r, s')"
    by (metis prod.exhaust_sel sum.collapse(2))
  from e(2,3) obtain t u where t: "get_task ''t1'' demo_claimed = Some t" "t_status t \<noteq> ''done''" "t_landed t"
    and u: "get_task ''t2'' demo_claimed = Some u" "opened_by ''t1'' True demo_claimed u" by auto
  note eff = completion_opens_exactly [OF reachable_inv [OF demo_reachable(2)] t(1,2) c]
  show ?thesis
    using conjunct1 [OF eff, of "''t1''"] conjunct1 [OF eff, of "''t2''"] c t u
    by (auto simp: open_row_def)
qed

text \<open>
  Everybody who was waiting is told. Every task a completion opens is among the notices
  sent after it, as long as it opens at most the 200 tasks the notice query reads.
\<close>

theorem opened_tasks_are_announced:
  assumes "store_inv s" "get_task tid s = Some t" "t_status t \<noteq> ''done''"
    and "complete_by env tid who s = (ok r, s')"
    and "get_task i s = Some u" "opened_by tid (t_landed t) s u" "i \<noteq> tid"
    and "length (filter (opened_by tid (t_landed t) s) (st_tasks s)) < 200"
  shows "(i, ''unblocked'', Some ''system'', None) \<in> set (snd r)"
proof -
  let ?f = "finished_store env tid who t s"
  let ?hits = "unblock_hits (Some tid) ?f"
  have d: "distinct (map t_id (st_tasks ?f))" using store_inv_distinct [OF assms(1)] by simp
  have f: "st_tasks ?f = map (\<lambda>v. if t_id v = tid then transition_row (now_s env) ''done'' None who t else v) (st_tasks s)"
    unfolding finished_store_def
    using st_tasks_upd_task [OF store_inv_distinct, of "end_claims tid s" tid t] assms(1,2)
    by (simp add: store_inv_end_claims)
  have mem: "v \<in> set ?hits \<longleftrightarrow> v \<in> set (st_tasks s) \<and> t_id v \<noteq> tid \<and> opened_by tid (t_landed t) s v" for v
  proof -
    have "v \<in> set ?hits \<longleftrightarrow> v \<in> set (st_tasks ?f) \<and> opened_by tid (t_landed t) s v"
      using unblock_hits_iff [OF d, of v "Some tid"] unblockable_finished [OF assms(2), of v]
      by (auto simp: opened_by_def)
    moreover have "v \<in> set (st_tasks ?f) \<and> t_status v = ''blocked'' \<longleftrightarrow> v \<in> set (st_tasks s) \<and> t_id v \<noteq> tid \<and> t_status v = ''blocked''"
      unfolding f by auto
    ultimately show ?thesis by (auto simp: opened_by_def)
  qed
  have "distinct ?hits"
    using blocked_rows_rows(1) [OF d] by (auto simp: unblock_hits_def distinct_map)
  moreover have "set ?hits \<subseteq> set (filter (opened_by tid (t_landed t) s) (st_tasks s))" using mem by auto
  ultimately have "length ?hits \<le> length (filter (opened_by tid (t_landed t) s) (st_tasks s))"
    by (metis card_length card_mono distinct_card finite_set order_trans)
  then have len: "length ?hits < 200" using assms(8) by simp
  let ?P = "\<lambda>e. e_event e = ''unblocked'' \<and> e_actor e = Some ''system''"
  let ?new = "map (unblocked_event (now_s env) (Some tid)) ?hits"
  have ev: "st_events s' = st_events ?f @ ?new"
    by (simp add: completed_store(1) [OF assms(1-4)] auto_unblock_closed [OF d])
  have "filter ?P ?new = ?new" by (rule filter_True) (auto simp: unblocked_event_def new_event_def)
  then have "take 200 (rev (filter ?P (st_events s'))) = rev ?new @ take (200 - length ?hits) (rev (filter ?P (st_events ?f)))"
    using len by (simp add: ev del: filter_map)
  moreover have "u \<in> set ?hits" using mem assms(5-7) get_task_mem [OF assms(5)] get_task_id [OF assms(5)] by auto
  ultimately have "unblocked_event (now_s env) (Some tid) u \<in> set (take 200 (rev (filter ?P (st_events s'))))" by simp
  moreover have "meta_reason (e_meta (unblocked_event (now_s env) (Some tid) u)) = Some (unblock_reason (Some tid))"
    "e_task_id (unblocked_event (now_s env) (Some tid) u) = i"
    using get_task_id [OF assms(5)] by (simp_all add: unblocked_event_def meta_reason_def jget_def as_str_def new_event_def)
  ultimately have "i \<in> set (unblocked_by tid s')"
    unfolding unblocked_by_def by (auto simp: image_iff intro!: bexI)
  then show ?thesis
    by (simp add: completed_store(3) [OF assms(1-4)] unblocked_notices_def)
qed

theorem opened_tasks_are_announced_witness:
  "\<exists>r s'. complete_by demo_env ''t1'' None demo_claimed = (ok r, s')
     \<and> (''t2'', ''unblocked'', Some ''system'', None) \<in> set (snd r)"
proof -
  have e: "is_ok (fst (complete_by demo_env ''t1'' None demo_claimed))"
    "map_option (\<lambda>t. (t_status t, t_landed t)) (get_task ''t1'' demo_claimed) = Some (''in_progress'', True)"
    "map_option (opened_by ''t1'' True demo_claimed) (get_task ''t2'' demo_claimed) = Some True"
    "length (filter (opened_by ''t1'' True demo_claimed) (st_tasks demo_claimed)) = 1"
    by code_simp+
  from e(1) obtain r s' where c: "complete_by demo_env ''t1'' None demo_claimed = (ok r, s')"
    by (metis prod.exhaust_sel sum.collapse(2))
  from e(2,3) obtain t u where t: "get_task ''t1'' demo_claimed = Some t" "t_status t = ''in_progress''" "t_landed t"
    and u: "get_task ''t2'' demo_claimed = Some u" "opened_by ''t1'' True demo_claimed u" by auto
  show ?thesis
    using opened_tasks_are_announced [OF reachable_inv [OF demo_reachable(2)] t(1) _ c u(1)] c t(2,3) u(2) e(4)
    by auto
qed

section \<open>Work that is not on main yet\<close>

text \<open>
  Stacked work opens nothing. Completing a task whose change has not landed finishes the
  task but leaves every other task as it is, whatever depends on it.
\<close>

theorem unlanded_completion_opens_nothing:
  assumes "store_inv s" "get_task tid s = Some t" "t_status t \<noteq> ''done''"
    and "task_complete env tid who False s = (ok r, s')" "i \<noteq> tid"
  shows "get_task i s' = get_task i s
    \<and> map_option (\<lambda>u. (t_status u, t_landed u)) (get_task tid s') = Some (''done'', False)"
proof -
  let ?t = "t\<lparr>t_landed := False, t_updated_at := now_s env\<rparr>"
  obtain r1 s1 where 1: "set_landed env tid False who None None s = (r1, s1)" by fastforce
  have inv: "store_inv s1" using advances_inv [OF advances_set_landed [OF assms(1)]] 1 by (metis snd_conv)
  have r1: "isl r1 = False" and g1: "get_task j s1 = (if j = tid then Some ?t else get_task j s)" for j
    using 1 assms(2) by (auto simp: set_landed_def Let_def get_task_upd done_with_def task_get_def)
  have c: "complete_by env tid who s1 = (ok r, s')"
    using assms(2-4) 1 r1
    by (auto simp: task_complete_def task_get_def split: sum.splits prod.splits)
  have "get_task tid s1 = Some ?t" "t_status ?t \<noteq> ''done''" using g1 assms(3) by simp_all
  note eff = completion_effect [OF inv this c]
  show ?thesis
    using eff [of i] eff [of tid] assms(5) g1
    by (auto simp: opened_by_def option.map_ident)
qed

theorem unlanded_completion_opens_nothing_witness:
  "\<exists>r s'. task_complete demo_env ''t1'' None False demo_claimed = (ok r, s')
     \<and> get_task ''t2'' s' = get_task ''t2'' demo_claimed"
proof -
  have e: "is_ok (fst (task_complete demo_env ''t1'' None False demo_claimed))"
    "map_option (\<lambda>t. t_status t = ''done'') (get_task ''t1'' demo_claimed) = Some False"
    by code_simp+
  from e(1) obtain r s' where c: "task_complete demo_env ''t1'' None False demo_claimed = (ok r, s')"
    by (metis prod.exhaust_sel sum.collapse(2))
  from e(2) obtain t where t: "get_task ''t1'' demo_claimed = Some t" "t_status t \<noteq> ''done''" by auto
  show ?thesis
    using unlanded_completion_opens_nothing [OF reachable_inv [OF demo_reachable(2)] t c, of "''t2''"] c by simp
qed

text \<open>The merge: what \<^const>\<open>mark_landed_for_pr\<close> turns over.\<close>

definition landed_now :: "time \<Rightarrow> task_row \<Rightarrow> task_row" where
  "landed_now now t = t\<lparr>t_landed := True, t_updated_at := now\<rparr>"

definition lands :: "string \<Rightarrow> int \<Rightarrow> task_row \<Rightarrow> bool" where
  "lands repo pr t \<longleftrightarrow> t_repo t = Some repo \<and> t_pr t = Some pr \<and> t_status t = ''done'' \<and> \<not> t_landed t"

definition land_where :: "string set \<Rightarrow> time \<Rightarrow> store \<Rightarrow> store" where
  "land_where ids now s = s\<lparr>st_tasks := map (\<lambda>r. if t_id r \<in> ids then landed_now now r else r) (st_tasks s)\<rparr>"

lemma land_where_simps:
  "land_where {} now s = s"
  "land_where ids now (log_event e s) = log_event e (land_where ids now s)"
  "land_where ids now (upd_task i (landed_now now) s) = land_where (insert i ids) now s"
  by (auto simp: land_where_def upd_task_def row_update_def log_event_def landed_now_def)

lemma fold_land:
  "\<exists>es. fold (land_one now repo pr who) cs (s, acc) =
     (log_events es (land_where (t_id ` set (filter (\<lambda>t. t_status t = ''done'' \<and> \<not> t_landed t) cs)) now s),
      acc @ map t_id (filter (\<lambda>t. t_status t = ''done'' \<and> \<not> t_landed t) cs))"
proof (induction cs arbitrary: s acc)
  case Nil
  show ?case by (intro exI [of _ "[]"]) (simp add: land_where_simps log_events_def)
next
  case (Cons c cs)
  show ?case
  proof (cases "t_status c = ''done'' \<and> \<not> t_landed c")
    case False
    then have "land_one now repo pr who c (s, acc) = (s, acc)" by (auto simp: land_one_def)
    with Cons.IH [of s acc] False show ?thesis by auto
  next
    case True
    then obtain e where "land_one now repo pr who c (s, acc) =
        (log_event e (upd_task (t_id c) (landed_now now) s), acc @ [t_id c])"
      unfolding land_one_def landed_now_def by force
    then show ?thesis
      using Cons.IH [of "log_event e (upd_task (t_id c) (landed_now now) s)" "acc @ [t_id c]"] True
      by (auto simp: land_where_simps log_events_log_event)
  qed
qed

text \<open>
  A merge lands exactly its own finished work. The landed flag turns over for the done,
  unlanded tasks of that repository and pull request, which are the tasks reported; no other
  task changes and no status does.
\<close>

theorem merge_lands_its_work:
  assumes "store_inv s" "repo \<noteq> []" "pr \<noteq> 0"
    and "mark_landed_for_pr env repo pr who s = (ok flipped, s')"
  shows "get_task i s' = map_option (\<lambda>t. if lands repo pr t then landed_now (now_s env) t else t) (get_task i s)
    \<and> flipped = map t_id (filter (lands repo pr) (st_tasks s)) \<and> st_leases s' = st_leases s"
proof -
  note d = store_inv_distinct [OF assms(1)]
  let ?cs = "filter (\<lambda>t. t_repo t = Some repo \<and> t_pr t = Some pr) (st_tasks s)"
  have fl: "filter (\<lambda>t. t_status t = ''done'' \<and> \<not> t_landed t) ?cs = filter (lands repo pr) (st_tasks s)"
    by (auto simp: lands_def intro: filter_cong)
  let ?ids = "t_id ` set (filter (lands repo pr) (st_tasks s))"
  obtain es where eq: "s' = log_events es (land_where ?ids (now_s env) s)"
    "flipped = map t_id (filter (lands repo pr) (st_tasks s))"
    using fold_land [of "now_s env" repo pr who ?cs s "[]"] assms(2-4) unfolding fl
    by (auto simp: mark_landed_for_pr_def split_beta)
  have "get_task i (land_where ?ids (now_s env) s) =
      map_option (\<lambda>r. if t_id r \<in> ?ids then landed_now (now_s env) r else r) (get_task i s)"
    unfolding get_task_def row_get_def land_where_def by (simp, rule find_map_cong, simp add: landed_now_def)
  moreover have "t_id r \<in> ?ids \<longleftrightarrow> lands repo pr r" if "r \<in> set (st_tasks s)" for r
    using that d by (auto simp: distinct_map inj_on_def)
  ultimately show ?thesis
    using eq get_task_mem [of i s] by (cases "get_task i s") (auto simp: land_where_def)
qed

definition demo_stacked :: store where
  "demo_stacked = exec demo_env (Complete ''t1'' None (Some False))
     (exec demo_env (Add ''global'' ''body'' [] (default_add_options\<lparr>ao_repo := Some ''r'', ao_pr := Some ''7''\<rparr>)) empty_store)"

lemma demo_stacked_reachable: "reachable demo_stacked"
  unfolding demo_stacked_def by (intro reach_step [OF _ step_exec] reach_init)

theorem merge_lands_its_work_witness:
  "\<exists>s'. mark_landed_for_pr demo_env ''r'' 7 None demo_stacked = (ok [''t1''], s')
     \<and> map_option t_landed (get_task ''t1'' demo_stacked) = Some False
     \<and> map_option t_landed (get_task ''t1'' s') = Some True"
proof -
  have e: "fst (mark_landed_for_pr demo_env ''r'' 7 None demo_stacked) = ok [''t1'']"
    "map_option (lands ''r'' 7) (get_task ''t1'' demo_stacked) = Some True"
    by code_simp+
  from e(1) obtain s' where m: "mark_landed_for_pr demo_env ''r'' 7 None demo_stacked = (ok [''t1''], s')"
    by (metis prod.exhaust_sel)
  from merge_lands_its_work [OF reachable_inv [OF demo_stacked_reachable] _ _ m, of "''t1''"] e(2) m
  show ?thesis by (auto simp: lands_def landed_now_def)
qed

end
