(* ===== verification/Claim_Effects.thy ===== *)
theory Claim_Effects
  imports Lifecycle_Effects
begin

text \<open>
  What claiming does: the rule a reader sees is the rule the claim applies, the claim takes
  the first task it allows and writes exactly one lease, a pane holds one job, giving a claim
  back undoes it, and the reaper takes exactly the leases that ran out or lost their caller.
\<close>

section \<open>The rule\<close>

text \<open>
  One rule for who may take a task. The flags \<^verbatim>\<open>claimable\<close> and \<^verbatim>\<open>eligible\<close> a reader
  gets for its pane are those the claim itself computes from the same rows.
\<close>

theorem reader_and_claim_agree:
  assumes "pane \<noteq> []"
  shows "d_claimable (decorate_row now s (Some pane) t) = claimable (q_candidate (queue_row_of now s t)) (Some pane)
    \<and> d_eligible (decorate_row now s (Some pane) t) =
        ((t_status t = ''open'' \<or> t_status t = ''in_progress'')
         \<and> c_blocked_by (q_candidate (queue_row_of now s t)) = []
         \<and> claimable (q_candidate (queue_row_of now s t)) (Some pane))"
proof -
  have "claimable_for d pane = claimable (q_candidate (queue_row_of now s t)) (Some pane)"
    if "d_task d = t" "d_assignees d = t_assignees t" "d_multi_assignee d = t_multi_assignee t"
      "d_leases d = leases_for (t_id t) now s" "d_allocation_waiting d = allocation_waiting (t_id t) (t_assignees t) s"
    for d
    using that assms by (auto simp: claimable_for_def claimable_def queue_row_of_def Let_def)
  with assms show ?thesis
    by (simp add: decorate_row_def non_empty_str_def Let_def queue_row_of_def)
qed

theorem reader_and_claim_agree_witness:
  "\<exists>t. get_task ''t1'' demo_filed = Some t
     \<and> d_claimable (decorate_row 1 demo_filed (Some ''w:1'') t)
     \<and> claimable (q_candidate (queue_row_of 1 demo_filed t)) (Some ''w:1'')"
proof -
  have "map_option (\<lambda>t. d_claimable (decorate_row 1 demo_filed (Some ''w:1'') t)) (get_task ''t1'' demo_filed) = Some True"
    by code_simp
  then obtain t where "get_task ''t1'' demo_filed = Some t" "d_claimable (decorate_row 1 demo_filed (Some ''w:1'') t)"
    by auto
  with reader_and_claim_agree [of "''w:1''" 1 demo_filed t] show ?thesis by auto
qed

section \<open>The next task\<close>

text \<open>The tasks a claim looks at, and those it may take.\<close>

definition in_queue :: "string \<Rightarrow> string \<Rightarrow> string \<Rightarrow> task_row \<Rightarrow> bool" where
  "in_queue scope target pane t \<longleftrightarrow>
     (if trim scope = ''mine'' then (t_scope t = ''global'' \<or> t_scope t = pane) \<and> pane \<in> set (t_assignees t)
      else t_scope t = target)
     \<and> (t_status t = ''open'' \<or> t_status t = ''in_progress'')"

definition may_take :: "env \<Rightarrow> string \<Rightarrow> string \<Rightarrow> string \<Rightarrow> claim_options \<Rightarrow> store \<Rightarrow> task_row \<Rightarrow> bool" where
  "may_take env scope target pane opts s t \<longleftrightarrow>
     in_queue scope target pane t \<and> chosen_ok opts pane (queue_row_of (now_s env) s t)"

lemma queue_key_row [simp]: "queue_key (queue_row_of now s t) = task_order t"
  by (simp add: queue_key_def queue_row_of_def task_order_def)

lemma claim_queue_set:
  "set (claim_queue env (trim scope = ''mine'') target pane s) =
     queue_row_of (now_s env) s ` {t \<in> set (st_tasks s). in_queue scope target pane t}"
  by (auto simp: claim_queue_def in_queue_def Let_def)

lemma claim_queue_sorted:
  "claim_queue env m target pane s = sort_key queue_key (claim_queue env m target pane s)"
  unfolding claim_queue_def Let_def by (rule sort_key_id_if_sorted [symmetric]) simp

lemma first_in_queue:
  assumes "find (chosen_ok opts pane) (claim_queue env (trim scope = ''mine'') target pane s) = Some r"
  shows "\<exists>t \<in> set (st_tasks s). r = queue_row_of (now_s env) s t \<and> may_take env scope target pane opts s t
    \<and> (\<forall>u \<in> set (st_tasks s). may_take env scope target pane opts s u \<longrightarrow> task_order t \<le> task_order u)"
proof -
  let ?q = "claim_queue env (trim scope = ''mine'') target pane s"
  have f: "find (chosen_ok opts pane) (sort_key queue_key ?q) = Some r"
    using assms claim_queue_sorted [of env "trim scope = ''mine''" target pane s] by simp
  have r: "r \<in> set ?q" "chosen_ok opts pane r" using find_sort_key_min(1,2) [OF f] by auto
  then obtain t where t: "t \<in> set (st_tasks s)" "in_queue scope target pane t" "r = queue_row_of (now_s env) s t"
    unfolding claim_queue_set by blast
  have "task_order t \<le> task_order u" if "u \<in> set (st_tasks s)" "may_take env scope target pane opts s u" for u
    using find_sort_key_min(3) [OF f, of "queue_row_of (now_s env) s u"] that t(3)
    by (auto simp: claim_queue_set may_take_def)
  with t r(2) show ?thesis by (auto simp: may_take_def)
qed

text \<open>The row and the lease of a claim.\<close>

definition claimed_row :: "time \<Rightarrow> string \<Rightarrow> task_row \<Rightarrow> task_row" where
  "claimed_row now pane t =
     t\<lparr>t_status := ''in_progress'', t_assignees := lease_assignees (t_assignees t) pane,
       t_attempts := t_attempts t + 1, t_updated_at := now, t_block_reason := None\<rparr>"

definition claim_lease :: "env \<Rightarrow> string \<Rightarrow> claim_options \<Rightarrow> task_row \<Rightarrow> lease_row" where
  "claim_lease env pane opts t =
     new_lease (t_id t) pane (now_s env) (lease_length env (co_lease_seconds opts)) (co_caller opts)
       (pane \<notin> set (t_assignees t))"

lemma claim_lease_simps [simp]:
  "l_task_id (claim_lease env pane opts t) = t_id t" "l_pane_id (claim_lease env pane opts t) = pane"
  "l_expires_at (claim_lease env pane opts t) = now_s env + lease_length env (co_lease_seconds opts)"
  "l_assignee_added (claim_lease env pane opts t) = (pane \<notin> set (t_assignees t))"
  by (simp_all add: claim_lease_def new_lease_def)

text \<open>Everything a successful claim tells and writes.\<close>

lemma claimed_effect:
  assumes inv: "store_inv s" and c: "claim_next env scope pane opts s = (ok (Claimed u target len till), s')"
  obtains t where "get_task (t_id u) s = Some t" "u = claimed_row (now_s env) pane t"
    "may_take env scope target pane opts s t"
    "\<forall>v \<in> set (st_tasks s). may_take env scope target pane opts s v \<longrightarrow> task_order t \<le> task_order v"
    "len = lease_length env (co_lease_seconds opts)" "0 < len" "till = now_s env + len" "pane \<noteq> []"
    "co_allow_busy opts \<or> busy_task_ids pane (now_s env) s = []"
    "\<And>i. get_task i s' = (if i = t_id u then Some u else get_task i s)"
    "st_leases s' = filter (\<lambda>l. lease_key l \<noteq> (t_id u, pane)) (st_leases s) @ [claim_lease env pane opts t]"
  using c
proof (cases rule: claim_next_cases)
  case (claimed tgt r)
  from first_in_queue [OF claimed(5)] obtain t where t: "t \<in> set (st_tasks s)" "r = queue_row_of (now_s env) s t"
    "may_take env scope tgt pane opts s t"
    "\<forall>v \<in> set (st_tasks s). may_take env scope tgt pane opts s v \<longrightarrow> task_order t \<le> task_order v" by blast
  have g: "get_task (t_id t) s = Some t" by (rule get_task_rows [OF store_inv_distinct [OF inv] t(1)])
  let ?len = "lease_length env (co_lease_seconds opts)"
  have cand: "c_id (q_candidate r) = t_id t" "c_assignees (q_candidate r) = t_assignees t"
    by (simp_all add: t(2) queue_row_of_def)
  have s': "s' = log_event ((new_event (t_id t) ''claimed'' (now_s env))
           \<lparr>e_actor := Some pane, e_scope := Some (q_scope r), e_priority := Some (q_priority r),
            e_status_from := Some (c_status (q_candidate r)), e_status_to := Some ''in_progress'',
            e_duration_ms := Some (duration_ms (now_s env) (q_created_at r)),
            e_meta := Some (JObj [(''lease_seconds'', JReal ?len),
                                  (''caller_pid'', json_opt_int (l_caller_pid (claim_lease env pane opts t))),
                                  (''caller_name'', json_opt_str (l_caller_name (claim_lease env pane opts t)))])\<rparr>)
        (upd_task (t_id t) (\<lambda>r. r\<lparr>t_status := ''in_progress'', t_assignees := lease_assignees (t_assignees t) pane,
                                 t_attempts := t_attempts r + 1, t_updated_at := now_s env, t_block_reason := None\<rparr>)
          (put_lease (claim_lease env pane opts t) s))"
    unfolding claimed(6) write_claim_def Let_def cand claim_lease_def by simp
  have get: "get_task i s' = (if i = t_id t then Some (claimed_row (now_s env) pane t) else get_task i s)" for i
    unfolding s' by (simp add: get_task_upd g claimed_row_def)
  then have u: "u = claimed_row (now_s env) pane t" "target = tgt" "len = ?len" "till = now_s env + ?len"
    using claimed(7) unfolding cand by (auto simp: task_get_def)
  have tid: "t_id u = t_id t" by (simp add: u claimed_row_def)
  show thesis
  proof (rule that [of t])
    show "st_leases s' = filter (\<lambda>l. lease_key l \<noteq> (t_id u, pane)) (st_leases s) @ [claim_lease env pane opts t]"
      unfolding s' tid by (simp add: put_lease_def row_replace_def)
  qed (use t g u tid get claimed(1,2,4) in auto)
qed simp_all

text \<open>
  C15: a claim takes the best task it may. The task given out was open or being worked in the
  asked queue, free for this pane, unblocked and of a wanted kind, and no other such task
  comes before it in the order priority, age, id. The task says so and is in progress.
\<close>

theorem claim_takes_the_first:
  assumes "store_inv s" "claim_next env scope pane opts s = (ok (Claimed u target len till), s')"
  shows "\<exists>t. get_task (t_id u) s = Some t \<and> may_take env scope target pane opts s t
    \<and> (\<forall>v \<in> set (st_tasks s). may_take env scope target pane opts s v \<longrightarrow> task_order t \<le> task_order v)
    \<and> u = claimed_row (now_s env) pane t
    \<and> 0 < len \<and> till = now_s env + len"
  using claimed_effect [OF assms] by metis

theorem claim_takes_the_first_witness:
  "\<exists>u target len till s'. claim_next demo_env ''global'' ''w:1'' default_claim_options demo_filed
      = (ok (Claimed u target len till), s') \<and> u = claimed_row 1 ''w:1'' (the (get_task (t_id u) demo_filed))"
proof -
  have "case fst (claim_next demo_env ''global'' ''w:1'' default_claim_options demo_filed) of
      Inr (Claimed u target len till) \<Rightarrow> True | _ \<Rightarrow> False"
    by code_simp
  then obtain u target len till s' where c: "claim_next demo_env ''global'' ''w:1'' default_claim_options demo_filed
      = (ok (Claimed u target len till), s')"
    by (cases "claim_next demo_env ''global'' ''w:1'' default_claim_options demo_filed")
       (auto split: sum.splits claim_outcome.splits)
  from claim_takes_the_first [OF reachable_inv [OF demo_reachable(1)] c] c show ?thesis
    by (auto simp: demo_env_def)
qed

text \<open>
  C25: nothing to take means nothing to take. A caller that may hold more than one job, with a
  valid scope and a positive lease, is given a task exactly when some task may be taken; told
  no, the store is as it was.
\<close>

theorem claim_finds_work:
  assumes inv: "store_inv s" and pane: "pane \<noteq> []" and len: "0 < lease_length env (co_lease_seconds opts)"
    and target: "if trim scope = ''mine'' then target = ''mine'' else validate_scope env scope = ok target"
    and busy: "co_allow_busy opts \<or> busy_task_ids pane (now_s env) s = []"
  shows "if (\<exists>t \<in> set (st_tasks s). may_take env scope target pane opts s t)
    then (\<exists>u l e. fst (claim_next env scope pane opts s) = ok (Claimed u target l e))
    else (\<exists>why. claim_next env scope pane opts s = (ok (Claim_Refused target why), s))"
proof -
  let ?q = "claim_queue env (trim scope = ''mine'') target pane s"
  have some: "find (chosen_ok opts pane) ?q = None \<longleftrightarrow> (\<forall>t \<in> set (st_tasks s). \<not> may_take env scope target pane opts s t)"
    unfolding find_eq_None_iff claim_queue_set by (auto simp: may_take_def)
  have none: "\<exists>why. claim_next env scope pane opts s = (ok (Claim_Refused target why), s)"
    if "\<forall>t \<in> set (st_tasks s). \<not> may_take env scope target pane opts s t"
    using that [folded some] pane len target busy
    by (cases "trim scope = ''mine''") (auto simp: claim_next_def Let_def)
  have "\<exists>u l e. fst (claim_next env scope pane opts s) = ok (Claimed u target l e)"
    if yes: "\<exists>t \<in> set (st_tasks s). may_take env scope target pane opts s t"
  proof -
    from yes some obtain r where r: "find (chosen_ok opts pane) ?q = Some r" by blast
    let ?s = "write_claim r pane (lease_length env (co_lease_seconds opts)) (co_caller opts) (now_s env) s"
    from first_in_queue [OF r] obtain t where "t \<in> set (st_tasks s)" "r = queue_row_of (now_s env) s t" by blast
    then have "get_task (c_id (q_candidate r)) s \<noteq> None"
      using get_task_rows [OF store_inv_distinct [OF inv]] by (auto simp: queue_row_of_def)
    then obtain u where "get_task (c_id (q_candidate r)) ?s = Some u"
      by (auto simp: write_claim_def Let_def get_task_upd)
    moreover have "fst (claim_next env scope pane opts s) = try_bind (task_get (c_id (q_candidate r)) ?s)
        (\<lambda>t. ok (Claimed t target (lease_length env (co_lease_seconds opts))
           (now_s env + lease_length env (co_lease_seconds opts))))"
      using pane len target busy r
      by (cases "trim scope = ''mine''") (auto simp: claim_next_def Let_def)
    ultimately show ?thesis by (simp add: task_get_def)
  qed
  with none show ?thesis by simp
qed

theorem claim_finds_work_witness:
  "\<exists>u l e. fst (claim_next demo_env ''global'' ''w:1'' default_claim_options demo_filed) = ok (Claimed u ''global'' l e)"
proof -
  have e: "validate_scope demo_env ''global'' = ok ''global''" "trim ''global'' \<noteq> ''mine''"
    "busy_task_ids ''w:1'' (now_s demo_env) demo_filed = []"
    "list_ex (may_take demo_env ''global'' ''global'' ''w:1'' default_claim_options demo_filed) (st_tasks demo_filed)"
    by code_simp+
  have "0 < lease_length demo_env (co_lease_seconds default_claim_options)"
    by (simp add: lease_length_def demo_env_def default_claim_options_def)
  with claim_finds_work [OF reachable_inv [OF demo_reachable(1)], of "''w:1''" demo_env default_claim_options
      "''global''" "''global''"] e
  show ?thesis by (auto simp: list_ex_iff split: if_splits)
qed

section \<open>What a claim writes\<close>

lemma leases_for_set: "l \<in> set (leases_for tid now s) \<longleftrightarrow> l \<in> set (st_leases s) \<and> l_task_id l = tid \<and> now < l_expires_at l"
  by (auto simp: leases_for_def live_def)

text \<open>
  C1: an exclusive task has one holder. Right after a claim, the claimed task has this pane's
  lease and, unless it takes several assignees, no other live lease; no other task and no
  other pane's lease changed.
\<close>

theorem claim_is_exclusive:
  assumes "store_inv s" "claim_next env scope pane opts s = (ok (Claimed u target len till), s')"
  shows "(\<exists>l \<in> set (leases_for (t_id u) (now_s env) s'). l_pane_id l = pane \<and> l_expires_at l = till)
    \<and> (\<not> t_multi_assignee u \<longrightarrow> map l_pane_id (leases_for (t_id u) (now_s env) s') = [pane])
    \<and> (\<forall>i. i \<noteq> t_id u \<longrightarrow> get_task i s' = get_task i s)
    \<and> filter (\<lambda>l. lease_key l \<noteq> (t_id u, pane)) (st_leases s') = filter (\<lambda>l. lease_key l \<noteq> (t_id u, pane)) (st_leases s)"
proof -
  obtain t where t: "get_task (t_id u) s = Some t" "u = claimed_row (now_s env) pane t"
    "may_take env scope target pane opts s t" "0 < len" "till = now_s env + len"
    "len = lease_length env (co_lease_seconds opts)"
    and g: "\<And>i. get_task i s' = (if i = t_id u then Some u else get_task i s)"
    and l: "st_leases s' = filter (\<lambda>l. lease_key l \<noteq> (t_id u, pane)) (st_leases s) @ [claim_lease env pane opts t]"
    by (rule claimed_effect [OF assms], rule that; assumption)
  have tid: "t_id u = t_id t" using get_task_id [OF t(1)] by simp
  have live: "live (now_s env) (claim_lease env pane opts t)" using t(4,6) by (simp add: live_def)
  have after: "leases_for (t_id u) (now_s env) s' =
      filter (\<lambda>k. l_pane_id k \<noteq> pane) (leases_for (t_id u) (now_s env) s) @ [claim_lease env pane opts t]"
  proof -
    have "filter (live (now_s env)) (filter (\<lambda>k. l_task_id k = t_id t) (filter (\<lambda>k. lease_key k \<noteq> (t_id t, pane)) (st_leases s)))
      = filter (\<lambda>k. l_pane_id k \<noteq> pane) (filter (live (now_s env)) (filter (\<lambda>k. l_task_id k = t_id t) (st_leases s)))"
      unfolding filter_filter by (rule filter_cong) auto
    with live show ?thesis by (simp add: leases_for_def l tid del: filter_filter)
  qed
  have "leases_for (t_id u) (now_s env) s = []" if "\<not> t_multi_assignee u"
  proof -
    have c: "claimable (q_candidate (queue_row_of (now_s env) s t)) (Some pane)"
      using t(3) by (simp add: may_take_def chosen_ok_def)
    moreover have "\<not> t_multi_assignee t" using that by (simp add: t(2) claimed_row_def)
    ultimately have "c_leased_by (q_candidate (queue_row_of (now_s env) s t)) = []"
      by (auto simp: claimable_def queue_row_of_def split: if_splits)
    then show ?thesis by (simp add: queue_row_of_def tid)
  qed
  then have "map l_pane_id (leases_for (t_id u) (now_s env) s') = [pane]" if "\<not> t_multi_assignee u"
    using that by (simp add: after)
  moreover have "\<exists>l \<in> set (leases_for (t_id u) (now_s env) s'). l_pane_id l = pane \<and> l_expires_at l = till"
    unfolding after using t(5,6) by simp
  moreover have "filter (\<lambda>l. lease_key l \<noteq> (t_id u, pane)) (st_leases s') = filter (\<lambda>l. lease_key l \<noteq> (t_id u, pane)) (st_leases s)"
    by (simp add: l tid)
  ultimately show ?thesis using g by simp
qed

lemma demo_claim:
  obtains u target len till where "claim_next demo_env ''global'' ''w:1'' default_claim_options demo_filed
      = (ok (Claimed u target len till), demo_claimed)" "t_id u = ''t1''" "\<not> t_multi_assignee u"
proof -
  have "case fst (claim_next demo_env ''global'' ''w:1'' default_claim_options demo_filed) of
      Inr (Claimed u target len till) \<Rightarrow> t_id u = ''t1'' \<and> \<not> t_multi_assignee u | _ \<Rightarrow> False"
    by code_simp
  moreover have "snd (claim_next demo_env ''global'' ''w:1'' default_claim_options demo_filed) = demo_claimed"
    by (simp add: demo_claimed_def exec_def)
  ultimately show thesis
    using that
    by (cases "claim_next demo_env ''global'' ''w:1'' default_claim_options demo_filed")
       (auto split: sum.splits claim_outcome.splits)
qed

theorem claim_is_exclusive_witness:
  "map l_pane_id (leases_for ''t1'' (now_s demo_env) demo_claimed) = [''w:1'']"
proof -
  obtain u target len till where "claim_next demo_env ''global'' ''w:1'' default_claim_options demo_filed
      = (ok (Claimed u target len till), demo_claimed)" "t_id u = ''t1''" "\<not> t_multi_assignee u"
    by (rule demo_claim)
  with claim_is_exclusive [OF reachable_inv [OF demo_reachable(1)] this(1)] show ?thesis by simp
qed

text \<open>
  One job per pane. A pane that claims without asking for a second job has, right after
  the claim, exactly the claimed task in progress under a live lease.
\<close>

theorem one_job_per_pane:
  assumes "store_inv s" "claim_next env scope pane opts s = (ok (Claimed u target len till), s')"
    and "\<not> co_allow_busy opts"
  shows "busy_task_ids pane (now_s env) s' = [t_id u]"
proof -
  obtain t where t: "get_task (t_id u) s = Some t" "u = claimed_row (now_s env) pane t"
    "0 < len" "len = lease_length env (co_lease_seconds opts)" "co_allow_busy opts \<or> busy_task_ids pane (now_s env) s = []"
    and g: "\<And>i. get_task i s' = (if i = t_id u then Some u else get_task i s)"
    and l: "st_leases s' = filter (\<lambda>l. lease_key l \<noteq> (t_id u, pane)) (st_leases s) @ [claim_lease env pane opts t]"
    by (rule claimed_effect [OF assms(1,2)], rule that; assumption)
  let ?working = "\<lambda>s l. case get_task (l_task_id l) s of Some t \<Rightarrow> t_status t = ''in_progress'' | None \<Rightarrow> False"
  have tid: "t_id u = t_id t" using get_task_id [OF t(1)] by simp
  have idle: "\<not> ?working s l" if "l \<in> set (st_leases s)" "l_pane_id l = pane" "live (now_s env) l" for l
  proof
    assume "?working s l"
    with that have "l_task_id l \<in> set (busy_task_ids pane (now_s env) s)"
      by (auto simp: busy_task_ids_def leases_for_pane_def)
    with t(5) assms(3) show False by simp
  qed
  have live: "live (now_s env) (claim_lease env pane opts t)" using t(3,4) by (simp add: live_def)
  have old: "filter (?working s') (filter (\<lambda>l. l_pane_id l = pane \<and> live (now_s env) l)
      (filter (\<lambda>l. lease_key l \<noteq> (t_id u, pane)) (st_leases s))) = []"
    using idle g by (auto simp: filter_empty_conv)
  have "filter (?working s') (leases_for_pane pane (now_s env) s') = [claim_lease env pane opts t]"
    using old live g [of "t_id t"] t(2) tid by (simp add: leases_for_pane_def l claimed_row_def)
  then show ?thesis by (simp add: busy_task_ids_def tid)
qed

theorem one_job_per_pane_witness:
  "busy_task_ids ''w:1'' (now_s demo_env) demo_claimed = [''t1'']"
proof -
  obtain u target len till where "claim_next demo_env ''global'' ''w:1'' default_claim_options demo_filed
      = (ok (Claimed u target len till), demo_claimed)" "t_id u = ''t1''"
    by (rule demo_claim)
  with one_job_per_pane [OF reachable_inv [OF demo_reachable(1)] this(1)] show ?thesis
    by (simp add: default_claim_options_def)
qed

section \<open>Giving a claim back\<close>

text \<open>Ids the counter issued have no blanks to trim.\<close>

lemma front_width_0: "\<forall>w \<in> set ws. w \<noteq> [] \<longrightarrow> hd w \<noteq> c \<Longrightarrow> front_width ws (c # s) = 0"
  by (induction ws) (auto simp: take_Cons' neq_Nil_conv)

lemma digit_chars: "c \<in> set (digits n) \<Longrightarrow> digit_char c"
proof (induction n rule: digits.induct)
  case (1 n)
  then show ?case
    by (subst (asm) (2) digits.simps) (auto simp: digit_char_def of_char_of split: if_splits)
qed

lemma digits_snoc: "\<exists>d ds. digits n = ds @ [d] \<and> digit_char d"
  using digit_chars [of _ n] by (cases "digits n" rule: rev_cases) (auto simp: digits.simps [of n] split: if_splits)

lemma trim_task_id: "trim (task_id_of n) = task_id_of n"
proof -
  obtain d ds where d: "digits n = ds @ [d]" "digit_char d" using digits_snoc by blast
  have "front_width white_space (task_id_of n) = 0"
    unfolding task_id_of_def by (simp, rule front_width_0) (simp add: white_space_def)
  then have 1: "trim_start (task_id_of n) = task_id_of n"
    by (simp add: trim_start_def strip_front.simps [of white_space])
  have "hd (rev w) \<noteq> d" if "w \<in> set white_space" for w
    using that d(2) by (auto simp: white_space_def digit_char_def)
  then have "front_width (map rev white_space) (d # rev ds @ ''t'') = 0"
    by (intro front_width_0) auto
  then have "strip_front (map rev white_space) (rev (task_id_of n)) = rev (task_id_of n)"
    by (simp add: task_id_of_def d(1) strip_front.simps [of "map rev white_space"])
  then show ?thesis by (simp add: trim_def 1 trim_end_def)
qed

lemma trim_issued: "issued s tid \<Longrightarrow> trim tid = tid"
  by (auto simp: issued_def trim_task_id)

text \<open>
  Giving a claim back undoes it. When a pane that was not an assignee claims an open task
  nobody holds and releases it, the task is open with the assignees it had, claimable as
  before, and every lease is as it was; what remains are two attempts and the update time.
\<close>

theorem release_undoes_claim:
  assumes inv: "store_inv s" and c: "claim_next env scope pane opts s = (ok (Claimed u target len till), s')"
    and t: "get_task (t_id u) s = Some t" "t_status t = ''open''" "pane \<notin> set (t_assignees t)"
    and free: "\<forall>l \<in> set (st_leases s). l_task_id l \<noteq> t_id u"
    and r: "release env' (t_id u) pane s' = (res, s'')"
  shows "res = ok (t\<lparr>t_attempts := t_attempts t + 2, t_updated_at := now_s env', t_block_reason := None\<rparr>)
    \<and> get_task (t_id u) s'' = Some (t\<lparr>t_attempts := t_attempts t + 2, t_updated_at := now_s env', t_block_reason := None\<rparr>)
    \<and> st_leases s'' = st_leases s"
proof -
  obtain t' where t': "get_task (t_id u) s = Some t'" "u = claimed_row (now_s env) pane t'"
    and g: "\<And>i. get_task i s' = (if i = t_id u then Some u else get_task i s)"
    and l: "st_leases s' = filter (\<lambda>l. lease_key l \<noteq> (t_id u, pane)) (st_leases s) @ [claim_lease env pane opts t']"
    by (rule claimed_effect [OF inv c], rule that; assumption)
  have tt: "t' = t" using t'(1) t(1) by simp
  have tid: "t_id t = t_id u" using get_task_id [OF t(1)] .
  have trim: "trim (t_id u) = t_id u" using trim_issued [OF store_inv_task(1) [OF inv t(1)]] .
  have u: "t_assignees u = t_assignees t @ [pane]" "t_status u = ''in_progress''"
    using t(3) by (simp_all add: t'(2) tt claimed_row_def lease_assignees_def)
  have noone: "filter (\<lambda>l. lease_key l \<noteq> (t_id u, pane)) (st_leases s) = st_leases s"
    using free by (auto simp: filter_id_conv)
  have lease: "get_lease (t_id u) pane s' = Some (claim_lease env pane opts t)"
    using free by (auto simp: get_lease_def row_get_def l noone find_append tt tid find_eq_None_iff split: option.splits dest: find_SomeD)
  have gone: "st_leases (del_lease (t_id u) pane s') = st_leases s"
    using free by (auto simp: del_lease_def row_delete_def l noone tt tid filter_id_conv)
  then have none: "claim_count (t_id u) (del_lease (t_id u) pane s') = 0"
    using free by (simp add: claim_count_def row_count_def filter_empty_conv)
  have row: "u\<lparr>t_assignees := t_assignees t, t_status := ''open'', t_attempts := t_attempts u + 1, t_updated_at := now_s env'\<rparr>
      = t\<lparr>t_attempts := t_attempts t + 2, t_updated_at := now_s env', t_block_reason := None\<rparr>"
    using t(2) by (simp add: t'(2) tt claimed_row_def)
  have keep: "filter (\<lambda>a. a \<noteq> pane) (t_assignees t) = t_assignees t"
    using t(3) by (auto simp: filter_id_conv)
  have "get_task (t_id u) s' = Some u" using g by simp
  then have "release env' (t_id u) pane s' = done_with (t_id u) s''" and
    s'': "get_task (t_id u) s'' = Some (u\<lparr>t_assignees := t_assignees t, t_status := ''open'', t_attempts := t_attempts u + 1, t_updated_at := now_s env'\<rparr>)"
    "st_leases s'' = st_leases s"
    using r gone none t(3)
    by (auto simp: release_def Let_def trim lease u keep after_lease_change_def status_after_lease_def get_task_upd tid done_with_def)
  then show ?thesis using r by (simp add: row done_with_def task_get_def)
qed

theorem release_undoes_claim_witness:
  "\<exists>v s''. release demo_env ''t1'' ''w:1'' demo_claimed = (ok v, s'')
     \<and> t_assignees v = [] \<and> t_status v = ''open'' \<and> t_attempts v = 2 \<and> st_leases s'' = []"
proof -
  obtain u target len till where c: "claim_next demo_env ''global'' ''w:1'' default_claim_options demo_filed
      = (ok (Claimed u target len till), demo_claimed)" "t_id u = ''t1''"
    by (rule demo_claim)
  have "map_option (\<lambda>t. t_status t = ''open'' \<and> t_assignees t = [] \<and> t_attempts t = 0) (get_task ''t1'' demo_filed) = Some True"
    "st_leases demo_filed = []"
    by code_simp+
  then obtain t where t: "get_task ''t1'' demo_filed = Some t" "t_status t = ''open''" "t_assignees t = []" "t_attempts t = 0"
    "st_leases demo_filed = []" by auto
  obtain res s'' where r: "release demo_env ''t1'' ''w:1'' demo_claimed = (res, s'')" by fastforce
  show ?thesis
    using release_undoes_claim [OF reachable_inv [OF demo_reachable(1)] c(1), of t demo_env res s''] c(2) t r
    by simp
qed

section \<open>The reaper\<close>

text \<open>What is left after the leases \<open>cs\<close> have been looked at.\<close>

lemma reap_one_leases:
  "st_leases (fst (reap_one now panes alive c (s, out))) =
     (if reapable now alive c then filter (\<lambda>l. lease_key l \<noteq> lease_key c) (st_leases s) else st_leases s)"
  by (auto simp: reap_one_def Let_def after_lease_change_def del_lease_def row_delete_def split: option.splits
      intro!: filter_cong)

lemma fold_reap_leases:
  "st_leases (fst (fold (reap_one now panes alive) cs (s, out))) =
     filter (\<lambda>l. \<forall>c \<in> set cs. reapable now alive c \<longrightarrow> lease_key l \<noteq> lease_key c) (st_leases s)"
proof (induction cs arbitrary: s out)
  case (Cons c cs)
  obtain s' out' where 1: "reap_one now panes alive c (s, out) = (s', out')" by fastforce
  then have "st_leases s' = (if reapable now alive c then filter (\<lambda>l. lease_key l \<noteq> lease_key c) (st_leases s) else st_leases s)"
    using reap_one_leases [of now panes alive c s out] by simp
  with 1 Cons.IH [of s' out'] show ?case by (auto simp: filter_filter intro!: filter_cong)
qed simp

lemma reap_one_task:
  assumes "get_task i s = Some t"
  shows "\<exists>u. get_task i (fst (reap_one now panes alive c (s, out))) = Some u \<and> t_assignees u = t_assignees t
    \<and> t_status u = (if reapable now alive c \<and> l_task_id c = i \<and> t_status t = ''in_progress''
        \<and> (\<forall>l \<in> set (st_leases s). l_task_id l = i \<longrightarrow> lease_key l = lease_key c)
      then ''open'' else t_status t)"
proof -
  have "claim_count i (del_lease i (l_pane_id c) s) = 0 \<longleftrightarrow>
      (\<forall>l \<in> set (st_leases s). l_task_id l = i \<longrightarrow> l_pane_id l = l_pane_id c)"
    by (auto simp: claim_count_def row_count_def del_lease_def row_delete_def filter_empty_conv)
  with assms show ?thesis
    by (cases "get_task (l_task_id c) s")
       (auto simp: reap_one_def Let_def after_lease_change_def get_task_upd status_after_lease_def)
qed

lemma fold_reap_task:
  assumes "distinct (map lease_key cs)" "set cs \<subseteq> set (st_leases s)" "get_task i s = Some t"
  shows "\<exists>u. get_task i (fst (fold (reap_one now panes alive) cs (s, out))) = Some u \<and> t_assignees u = t_assignees t
    \<and> t_status u = (if t_status t = ''in_progress'' \<and> (\<exists>c \<in> set cs. reapable now alive c \<and> l_task_id c = i)
        \<and> (\<forall>l \<in> set (st_leases s). l_task_id l = i \<longrightarrow> (\<exists>c \<in> set cs. reapable now alive c \<and> lease_key l = lease_key c))
      then ''open'' else t_status t)"
  using assms
proof (induction cs rule: rev_induct)
  case Nil
  then show ?case by simp
next
  case (snoc c cs)
  obtain s1 out1 where 1: "fold (reap_one now panes alive) cs (s, out) = (s1, out1)" by fastforce
  from snoc.IH snoc.prems 1 obtain u where u: "get_task i s1 = Some u" "t_assignees u = t_assignees t"
    "t_status u = (if t_status t = ''in_progress'' \<and> (\<exists>c \<in> set cs. reapable now alive c \<and> l_task_id c = i)
        \<and> (\<forall>l \<in> set (st_leases s). l_task_id l = i \<longrightarrow> (\<exists>c \<in> set cs. reapable now alive c \<and> lease_key l = lease_key c))
      then ''open'' else t_status t)" by auto
  have leases: "st_leases s1 = filter (\<lambda>l. \<forall>c \<in> set cs. reapable now alive c \<longrightarrow> lease_key l \<noteq> lease_key c) (st_leases s)"
    using fold_reap_leases [of now panes alive cs s out] 1 by simp
  from reap_one_task [OF u(1), of now panes alive c out1] obtain v where v:
    "get_task i (fst (reap_one now panes alive c (s1, out1))) = Some v" "t_assignees v = t_assignees u"
    "t_status v = (if reapable now alive c \<and> l_task_id c = i \<and> t_status u = ''in_progress''
        \<and> (\<forall>l \<in> set (st_leases s1). l_task_id l = i \<longrightarrow> lease_key l = lease_key c)
      then ''open'' else t_status u)" by blast
  have c: "c \<in> set (st_leases s)" using snoc.prems(2) by simp
  have "lease_key c \<notin> lease_key ` set cs" using snoc.prems(1) by simp
  then have other: "\<forall>b \<in> set cs. lease_key c \<noteq> lease_key b" by (simp only: image_iff bex_simps(8) simp_thms)
  have "t_status v = (if t_status t = ''in_progress'' \<and> (\<exists>b \<in> set (cs @ [c]). reapable now alive b \<and> l_task_id b = i)
        \<and> (\<forall>l \<in> set (st_leases s). l_task_id l = i \<longrightarrow> (\<exists>b \<in> set (cs @ [c]). reapable now alive b \<and> lease_key l = lease_key b))
      then ''open'' else t_status t)"
  proof (cases "reapable now alive c \<and> l_task_id c = i")
    case True
    have "\<not> (\<forall>l \<in> set (st_leases s). l_task_id l = i \<longrightarrow> (\<exists>b \<in> set cs. reapable now alive b \<and> lease_key l = lease_key b))"
      using other c True by blast
    then have "t_status u = t_status t" by (simp only: u(3) simp_thms if_False)
    moreover have "(\<forall>l \<in> set (st_leases s1). l_task_id l = i \<longrightarrow> lease_key l = lease_key c) \<longleftrightarrow>
      (\<forall>l \<in> set (st_leases s). l_task_id l = i \<longrightarrow> (\<exists>b \<in> set (cs @ [c]). reapable now alive b \<and> lease_key l = lease_key b))"
      unfolding leases set_append list.set set_filter using True by blast
    moreover have "\<exists>b \<in> set (cs @ [c]). reapable now alive b \<and> l_task_id b = i" using True by auto
    ultimately show ?thesis by (simp only: v(3) conjunct1 [OF True] conjunct2 [OF True] simp_thms)
  next
    case False
    then have "t_status v = t_status u" by (subst v(3)) auto
    moreover have "(\<exists>b \<in> set (cs @ [c]). reapable now alive b \<and> lease_key l = lease_key b) \<longleftrightarrow>
        (\<exists>b \<in> set cs. reapable now alive b \<and> lease_key l = lease_key b)" if "l_task_id l = i" for l
      using False that by auto
    ultimately show ?thesis using False u(3) by auto
  qed
  with v u(2) 1 show ?case by simp
qed

lemma reap_outcome:
  assumes "store_inv s" "reap env panes alive at_time source s = (ok out, s')"
    and now: "now = (case at_time of Some t \<Rightarrow> t | None \<Rightarrow> now_s env)"
    and t: "get_task i s = Some t"
  shows "st_leases s' = filter (\<lambda>l. \<not> reapable now alive l) (st_leases s)
    \<and> (\<exists>u. get_task i s' = Some u \<and> t_assignees u = t_assignees t
       \<and> t_status u = (if t_status t = ''in_progress''
            \<and> (\<exists>l \<in> set (st_leases s). l_task_id l = i) \<and> (\<forall>l \<in> set (st_leases s'). l_task_id l \<noteq> i)
          then ''open'' else t_status t))"
proof -
  note d = store_inv_lease_keys [OF assms(1)]
  have s': "s' = fst (fold (reap_one now panes alive) (st_leases s) (s, []))"
    using assms(2) now by (auto simp: reap_def Let_def split_beta split: if_splits)
  have key: "reapable now alive c = reapable now alive l"
    if "l \<in> set (st_leases s)" "c \<in> set (st_leases s)" "lease_key l = lease_key c" for l c
    using that d by (auto simp: distinct_map inj_on_def)
  have l: "st_leases s' = filter (\<lambda>l. \<not> reapable now alive l) (st_leases s)"
    unfolding s' fold_reap_leases using key by (intro filter_cong) blast+
  from fold_reap_task [OF d subset_refl t, of now panes alive "[]"] obtain u where
    u: "get_task i s' = Some u" "t_assignees u = t_assignees t"
    "t_status u = (if t_status t = ''in_progress'' \<and> (\<exists>c \<in> set (st_leases s). reapable now alive c \<and> l_task_id c = i)
        \<and> (\<forall>l \<in> set (st_leases s). l_task_id l = i \<longrightarrow> (\<exists>c \<in> set (st_leases s). reapable now alive c \<and> lease_key l = lease_key c))
      then ''open'' else t_status t)"
    unfolding s' by blast
  have "(\<exists>c \<in> set (st_leases s). reapable now alive c \<and> l_task_id c = i)
        \<and> (\<forall>l \<in> set (st_leases s). l_task_id l = i \<longrightarrow> (\<exists>c \<in> set (st_leases s). reapable now alive c \<and> lease_key l = lease_key c))
     \<longleftrightarrow> (\<exists>l \<in> set (st_leases s). l_task_id l = i) \<and> (\<forall>l \<in> set (st_leases s'). l_task_id l \<noteq> i)"
  proof -
    have "(\<exists>c \<in> set (st_leases s). reapable now alive c \<and> lease_key k = lease_key c) \<longleftrightarrow> reapable now alive k"
      if "k \<in> set (st_leases s)" for k
      using key [OF that] that by blast
    then have "(\<forall>k \<in> set (st_leases s). l_task_id k = i \<longrightarrow> (\<exists>c \<in> set (st_leases s). reapable now alive c \<and> lease_key k = lease_key c))
        = (\<forall>k \<in> set (st_leases s). l_task_id k = i \<longrightarrow> reapable now alive k)"
      by (intro ball_cong refl) (simp only:)
    then show ?thesis unfolding l by auto
  qed
  with u l show ?thesis by auto
qed

text \<open>
  C29: the reaper takes what ran out and nothing else. The leases left are those that are
  unexpired and whose caller is not dead; a task that was being worked reopens exactly when
  it lost a lease and none is left; assignments and every other status are kept.
\<close>

theorem reaper_takes_dead_leases:
  assumes "store_inv s" "reap env panes alive at_time source s = (ok out, s')"
    and "now = (case at_time of Some t \<Rightarrow> t | None \<Rightarrow> now_s env)"
    and "get_task i s = Some t"
  shows "st_leases s' = filter (\<lambda>l. now < l_expires_at l \<and> \<not> dead_caller alive l) (st_leases s)
    \<and> (\<exists>u. get_task i s' = Some u \<and> t_assignees u = t_assignees t
       \<and> t_status u = (if t_status t = ''in_progress''
            \<and> (\<exists>l \<in> set (st_leases s). l_task_id l = i) \<and> (\<forall>l \<in> set (st_leases s'). l_task_id l \<noteq> i)
          then ''open'' else t_status t))"
  by (rule reap_outcome [OF assms, unfolded reapable_def de_Morgan_disj not_le])

theorem reaper_takes_dead_leases_witness:
  "\<exists>out s'. reap demo_env None None (Some 100) None demo_claimed = (ok out, s') \<and> st_leases s' = []
     \<and> map_option t_status (get_task ''t1'' s') = Some ''open''"
proof -
  have e: "is_ok (fst (reap demo_env None None (Some 100) None demo_claimed))"
    "map_option t_status (get_task ''t1'' demo_claimed) = Some ''in_progress''"
    "map l_task_id (st_leases demo_claimed) = [''t1'']"
    "list_all (reapable 100 None) (st_leases demo_claimed)"
    by code_simp+
  from e(1) obtain out s' where r: "reap demo_env None None (Some 100) None demo_claimed = (ok out, s')"
    by (metis prod.exhaust_sel sum.collapse(2))
  from e(2) obtain t where t: "get_task ''t1'' demo_claimed = Some t" "t_status t = ''in_progress''" by auto
  have "\<exists>l \<in> set (st_leases demo_claimed). l_task_id l = ''t1''" using e(3) by (cases "st_leases demo_claimed") auto
  with reaper_takes_dead_leases [OF reachable_inv [OF demo_reachable(2)] r _ t(1), of 100] t(2) e(4) r
  show ?thesis by (auto simp: list_all_iff filter_empty_conv reapable_def not_less)
qed

section \<open>Batches\<close>

abbreviation claim_members :: "string \<Rightarrow> time \<Rightarrow> caller option \<Rightarrow> time \<Rightarrow> queue_row list \<Rightarrow> store \<Rightarrow> store" where
  "claim_members pane len caller now ms s \<equiv> fold (\<lambda>m. write_claim m pane len caller now) ms s"

abbreviation member_id :: "queue_row \<Rightarrow> string" where
  "member_id m \<equiv> c_id (q_candidate m)"

lemma write_claim_lease:
  "get_lease i pane (write_claim r pane len caller now s) =
     (if i = member_id r then Some (new_lease i pane now len caller (pane \<notin> set (c_assignees (q_candidate r))))
      else get_lease i pane s)"
  by (auto simp: write_claim_def Let_def get_lease_put new_lease_def)

lemma write_claim_events: "map e_task_id (st_events (write_claim r pane len caller now s)) = map e_task_id (st_events s) @ [member_id r]"
  "\<exists>e. st_events (write_claim r pane len caller now s) = st_events s @ [e]"
  by (simp_all add: write_claim_def Let_def new_event_def)

lemma claim_members_get:
  assumes "distinct (map member_id ms)"
  shows "get_task i (claim_members pane len caller now ms s) =
     (case find (\<lambda>m. member_id m = i) ms of None \<Rightarrow> get_task i s
      | Some m \<Rightarrow> get_task i (write_claim m pane len caller now s))"
  using assms
proof (induction ms arbitrary: s)
  case (Cons m ms)
  have none: "find (\<lambda>k. member_id k = member_id m) ms = None"
  proof -
    have "member_id m \<notin> member_id ` set ms" using Cons.prems by simp
    then show ?thesis unfolding find_eq_None_iff by (metis imageI)
  qed
  show ?case
  proof (cases "member_id m = i")
    case True
    then show ?thesis using Cons none by simp
  next
    case False
    then show ?thesis using Cons by (auto simp: write_claim_get split: option.splits dest: find_SomeD)
  qed
qed simp

lemma claim_members_lease:
  assumes "distinct (map member_id ms)" "m \<in> set ms"
  shows "\<exists>b. get_lease (member_id m) pane (claim_members pane len caller now ms s) = Some (new_lease (member_id m) pane now len caller b)"
  using assms
proof (induction ms arbitrary: s)
  case (Cons k ms)
  show ?case
  proof (cases "m \<in> set ms")
    case True
    then show ?thesis using Cons by simp
  next
    case False
    with Cons.prems have k: "m = k" "member_id k \<notin> member_id ` set ms" by auto
    have "get_lease (member_id k) pane (claim_members pane len caller now ms r) = get_lease (member_id k) pane r" for r
      using k(2) by (induction ms arbitrary: r) (auto simp: write_claim_lease)
    then show ?thesis by (auto simp: k write_claim_lease)
  qed
qed simp

lemma claim_members_events:
  "map e_task_id (st_events (claim_members pane len caller now ms s)) = map e_task_id (st_events s) @ map member_id ms"
  by (induction ms arbitrary: s) (simp_all add: write_claim_events)

lemma get_all_tasks: "get_all ids s = ok ts \<Longrightarrow> map (\<lambda>i. get_task i s) ids = map Some ts"
  by (induction ids arbitrary: ts) (auto simp: try_bind_Inr task_get_def split: option.splits)

text \<open>What a batch reports of its members.\<close>

definition batch_given :: "env \<Rightarrow> string list \<Rightarrow> string \<Rightarrow> time \<Rightarrow> store \<Rightarrow> store \<Rightarrow> task_row list \<Rightarrow> bool" where
  "batch_given env ids pane till s s' ts \<longleftrightarrow>
     ids \<noteq> [] \<and> distinct ids \<and> map t_id ts = ids
     \<and> (\<forall>u \<in> set ts. get_task (t_id u) s' = Some u
          \<and> (\<exists>t. get_task (t_id u) s = Some t \<and> u = claimed_row (now_s env) pane t
               \<and> (t_status t = ''open'' \<or> t_status t = ''in_progress'')
               \<and> (\<forall>d \<in> set (t_depends_on t). d \<in> set ids \<or> \<not> outstanding s d))
          \<and> (\<exists>l \<in> set (st_leases s'). lease_key l = (t_id u, pane) \<and> l_expires_at l = till))
     \<and> (\<forall>i. i \<notin> set ids \<longrightarrow> get_task i s' = get_task i s)
     \<and> map e_task_id (st_events s') = map e_task_id (st_events s) @ ids"

lemma batch_claimed:
  assumes inv: "store_inv s" and c: "claim_batch env ids pane opts s = (ok (Batch_Claimed ts len till), s')"
  shows "batch_given env ids pane till s s' ts"
proof -
  from c obtain ms where ms: "batch_validate env ids pane opts s = Inr ms"
    and s': "s' = claim_members pane (lease_length env (co_lease_seconds opts)) (co_caller opts) (now_s env) ms s"
    and ts: "get_all (map member_id ms) s' = ok ts" and till: "till = now_s env + lease_length env (co_lease_seconds opts)"
    by (auto simp: claim_batch_def Let_def try_bind_Inr split: if_splits sum.splits)
  note v = batch_validate_members [OF ms] and b = batch_members_workable [OF inv ms]
  have d: "distinct (map member_id ms)" using b(1) v(2) by simp
  have got: "map (\<lambda>i. get_task i s') ids = map Some ts" using get_all_tasks [OF ts] b(1) by simp
  have ids: "map t_id ts = ids"
  proof -
    have "map (\<lambda>i. map_option t_id (get_task i s')) ids = map (Some \<circ> t_id) ts"
      using arg_cong [OF got, of "map (map_option t_id)"] by (simp add: comp_def)
    moreover have "map (\<lambda>i. map_option t_id (get_task i s')) ids = map Some ids"
    proof (rule map_cong [OF refl])
      fix i assume "i \<in> set ids"
      then have "get_task i s' \<in> set (map Some ts)" using got by (metis image_eqI list.set_map)
      then obtain u where "get_task i s' = Some u" by auto
      then show "map_option t_id (get_task i s') = Some i" using get_task_id by simp
    qed
    ultimately have "map Some (map t_id ts) = map Some ids" by (simp add: comp_def)
    then show ?thesis by (simp only: inj_map_eq_map [OF inj_Some])
  qed
  have each: "get_task (t_id u) s' = Some u \<and> (\<exists>t. get_task (t_id u) s = Some t \<and> u = claimed_row (now_s env) pane t
      \<and> (t_status t = ''open'' \<or> t_status t = ''in_progress'')
      \<and> (\<forall>dep \<in> set (t_depends_on t). dep \<in> set ids \<or> \<not> outstanding s dep))
    \<and> (\<exists>l \<in> set (st_leases s'). lease_key l = (t_id u, pane) \<and> l_expires_at l = till)" if u: "u \<in> set ts" for u
  proof -
    from u ids have uid: "t_id u \<in> set ids" by auto
    then have "t_id u \<in> member_id ` set ms" unfolding b(1) [symmetric] by simp
    then obtain m where m: "m \<in> set ms" "member_id m = t_id u" by auto
    from bspec [OF b(2) m(1)] m(2) obtain t where
      t: "get_task (t_id u) s = Some t" "m = member_row (now_s env) ids s t" by auto
    have ok: "chosen_ok opts pane m" using v(5) m(1) by blast
    have "Some u \<in> (\<lambda>i. get_task i s') ` set ids" using u arg_cong [OF got, of set] by simp
    then obtain i where "get_task i s' = Some u" by auto
    then have g: "get_task (t_id u) s' = Some u" using get_task_id by metis
    have "find (\<lambda>k. member_id k = t_id u) ms = Some m"
      using distinct_find_unique [OF d m(1)] m(2) by simp
    then have "get_task (t_id u) s' = Some (claimed_row (now_s env) pane t)"
      using t by (simp add: s' claim_members_get [OF d] write_claim_get m(2) claimed_row_def get_task_id [OF t(1)])
    moreover have "\<forall>dep \<in> set (t_depends_on t). dep \<in> set ids \<or> \<not> outstanding s dep"
      using ok by (auto simp: chosen_ok_def t(2) filter_empty_conv)
    moreover have "t_status t = ''open'' \<or> t_status t = ''in_progress''"
      using chosen_workable [OF inv t(1)] ok t(2) by blast
    moreover obtain x where "get_lease (t_id u) pane s' =
        Some (new_lease (t_id u) pane (now_s env) (lease_length env (co_lease_seconds opts)) (co_caller opts) x)"
      using claim_members_lease [OF d m(1)] m(2) s' by metis
    then have "\<exists>l \<in> set (st_leases s'). lease_key l = (t_id u, pane) \<and> l_expires_at l = till"
      using get_lease_mem [of "t_id u" pane s'] till by (auto simp: new_lease_def intro!: bexI)
    ultimately show ?thesis using g t(1) by auto
  qed
  have "get_task i s' = get_task i s" if "i \<notin> set ids" for i
  proof -
    have "find (\<lambda>m. member_id m = i) ms = None" using that b(1) by (auto simp: find_eq_None_iff)
    then show ?thesis by (simp add: s' claim_members_get [OF d])
  qed
  then show ?thesis
    using v(1,2) ids each by (auto simp: batch_given_def s' claim_members_events b(1))
qed

text \<open>
  C26: a batch is all or nothing. Either every listed task is claimed for the pane, in the
  listed order, each of them workable and waiting for nothing outside the batch, with its
  lease and its event and nothing else changed; or the store is exactly what it was.
\<close>

theorem batch_is_all_or_nothing:
  assumes "store_inv s" "claim_batch env ids pane opts s = (res, s')"
  shows "case res of Inr (Batch_Claimed ts len till) \<Rightarrow> batch_given env ids pane till s s' ts | _ \<Rightarrow> s' = s"
proof (cases res)
  case (Inl e)
  then show ?thesis using claim_batch_rollback [OF assms(1), of env ids pane opts e] assms(2) by simp
next
  case (Inr out)
  then show ?thesis
  proof (cases out)
    case (Batch_Claimed ts len till)
    then show ?thesis using batch_claimed [OF assms(1)] assms(2) Inr by simp
  next
    case (Batch_Refused why)
    then show ?thesis
      using assms(2) Inr by (auto simp: claim_batch_def Let_def try_bind_Inr split: if_splits sum.splits)
  qed
qed

definition demo_opened :: store where
  "demo_opened = exec demo_env (Unblock ''t2'') demo_filed"

theorem batch_is_all_or_nothing_witness:
  "\<exists>ts len till s'. claim_batch demo_env [''t2'', ''t1''] ''w:1'' default_claim_options demo_opened
      = (ok (Batch_Claimed ts len till), s') \<and> map t_id ts = [''t2'', ''t1'']"
proof -
  have r: "reachable demo_opened"
    unfolding demo_opened_def by (rule reach_step [OF demo_reachable(1) step_exec])
  have "case fst (claim_batch demo_env [''t2'', ''t1''] ''w:1'' default_claim_options demo_opened) of
      Inr (Batch_Claimed ts len till) \<Rightarrow> True | _ \<Rightarrow> False"
    by code_simp
  then obtain ts len till s' where c: "claim_batch demo_env [''t2'', ''t1''] ''w:1'' default_claim_options demo_opened
      = (ok (Batch_Claimed ts len till), s')"
    by (cases "claim_batch demo_env [''t2'', ''t1''] ''w:1'' default_claim_options demo_opened")
       (auto split: sum.splits claim_batch_outcome.splits)
  from batch_is_all_or_nothing [OF reachable_inv [OF r] c] c show ?thesis by (auto simp: batch_given_def)
qed

section \<open>Where a lease outlives its promise\<close>

text \<open>The same store at another time of day.\<close>

definition at_time_env :: "time \<Rightarrow> env" where
  "at_time_env now = demo_env\<lparr>now_s := now\<rparr>"

text \<open>
  An exclusive task with two assignees, for the witness: the first claims it, lets the lease
  run out, the second claims it, and the first sends a heartbeat.
\<close>

definition demo_shared :: store where
  "demo_shared = exec (at_time_env 0)
     (Add ''global'' ''shared'' [] (default_add_options\<lparr>ao_assignees := [''w:1'', ''w:2'']\<rparr>)) empty_store"

text \<open>
  C38: A late heartbeat makes a second holder. \<^const>\<open>heartbeat\<close> extends the lease row whether or
  not it has expired. So whenever a pane has claimed an exclusive task on which another pane
  still has a lease row, a heartbeat of that other pane, sent while the claim runs, is accepted,
  and both panes hold the task.
\<close>

theorem late_heartbeat_makes_two_holders:
  assumes inv: "store_inv s" and c: "claim_next env scope q opts s = (ok (Claimed u target len till), s1)"
    and old: "get_lease (t_id u) p s = Some l" "p \<noteq> q" "\<not> t_multi_assignee u"
    and beat: "now_s env' < now_s env + len" "0 < lease_length env' seconds"
  shows "\<exists>r s2. heartbeat env' (t_id u) p seconds caller s1 = (ok r, s2) \<and> get_task (t_id u) s2 = Some u
    \<and> p \<in> set (map l_pane_id (leases_for (t_id u) (now_s env') s2))
    \<and> q \<in> set (map l_pane_id (leases_for (t_id u) (now_s env') s2))"
proof -
  obtain t where t: "get_task (t_id u) s = Some t" "0 < len" "len = lease_length env (co_lease_seconds opts)"
    and g: "\<And>i. get_task i s1 = (if i = t_id u then Some u else get_task i s)"
    and ls: "st_leases s1 = filter (\<lambda>l. lease_key l \<noteq> (t_id u, q)) (st_leases s) @ [claim_lease env q opts t]"
    by (rule claimed_effect [OF inv c], rule that; assumption)
  have tid: "t_id t = t_id u" using get_task_id [OF t(1)] .
  have l: "l \<in> set (st_leases s)" "lease_key l = (t_id u, p)"
    using old(1) by (auto simp: get_lease_def row_get_def dest: find_SomeD)
  then have l1: "l \<in> set (st_leases s1)" using old(2) by (simp add: ls)
  then have "row_count (\<lambda>l. lease_key l = (t_id u, p)) (st_leases s1) \<noteq> 0"
    using l(2) by (auto simp: row_count_def filter_empty_conv)
  moreover define f where "f l = (case caller of
       None \<Rightarrow> l\<lparr>l_heartbeat_at := now_s env', l_expires_at := now_s env' + lease_length env' seconds\<rparr>
     | Some (pid, st, name) \<Rightarrow> l\<lparr>l_heartbeat_at := now_s env', l_expires_at := now_s env' + lease_length env' seconds,
         l_caller_pid := Some pid, l_caller_start := st, l_caller_name := name\<rparr>)" for l :: lease_row
  ultimately have run: "heartbeat env' (t_id u) p seconds caller s1
      = (ok (now_s env' + lease_length env' seconds, lease_length env' seconds), upd_lease (t_id u) p f s1)"
    by (simp add: heartbeat_def Let_def f_def [abs_def])
  have f: "l_expires_at (f l) = now_s env' + lease_length env' seconds" "l_task_id (f l) = l_task_id l"
    "l_pane_id (f l) = l_pane_id l" for l
    by (auto simp: f_def split: option.split)
  let ?s2 = "upd_lease (t_id u) p f s1"
  have "f l \<in> set (st_leases ?s2)" using l1 l(2) by (force simp: upd_lease_def row_update_def)
  then have "f l \<in> set (leases_for (t_id u) (now_s env') ?s2)"
    using l(2) f beat(2) by (simp add: leases_for_def live_def)
  moreover have "claim_lease env q opts t \<in> set (st_leases ?s2)"
    using old(2) tid by (force simp: upd_lease_def row_update_def ls)
  then have "claim_lease env q opts t \<in> set (leases_for (t_id u) (now_s env') ?s2)"
    using tid t(3) beat(1) by (simp add: leases_for_def live_def)
  moreover have "get_task (t_id u) ?s2 = Some u" using g by (simp add: upd_lease_def get_task_def)
  moreover have "l_pane_id (f l) = p" "l_pane_id (claim_lease env q opts t) = q" using f l(2) by simp_all
  ultimately show ?thesis using run by (metis image_eqI set_map)
qed

definition demo_lapsed :: store where
  "demo_lapsed = exec (at_time_env 1) (Claim_Next ''global'' ''w:1'' default_claim_options) demo_shared"

theorem late_heartbeat_makes_two_holders_witness:
  "\<exists>u target len till s1 r s2. claim_next (at_time_env 71) ''global'' ''w:2'' default_claim_options demo_lapsed
      = (ok (Claimed u target len till), s1)
     \<and> \<not> t_multi_assignee u \<and> heartbeat (at_time_env 72) ''t1'' ''w:1'' None None s1 = (ok r, s2)
     \<and> {''w:1'', ''w:2''} \<subseteq> set (map l_pane_id (leases_for ''t1'' 72 s2))"
proof -
  have r: "reachable demo_lapsed"
    unfolding demo_lapsed_def demo_shared_def by (intro reach_step [OF _ step_exec] reach_init)
  have "case fst (claim_next (at_time_env 71) ''global'' ''w:2'' default_claim_options demo_lapsed) of
      Inr (Claimed u target len till) \<Rightarrow> t_id u = ''t1'' \<and> \<not> t_multi_assignee u \<and> 1 < len | _ \<Rightarrow> False" by code_simp
  then obtain u target len till s1 where c: "claim_next (at_time_env 71) ''global'' ''w:2'' default_claim_options demo_lapsed
      = (ok (Claimed u target len till), s1)" "t_id u = ''t1''" "\<not> t_multi_assignee u" "1 < len"
    by (cases "claim_next (at_time_env 71) ''global'' ''w:2'' default_claim_options demo_lapsed")
       (auto split: sum.splits claim_outcome.splits)
  have "get_lease ''t1'' ''w:1'' demo_lapsed \<noteq> None" "0 < lease_length (at_time_env 72) None" by code_simp+
  then obtain l where l: "get_lease (t_id u) ''w:1'' demo_lapsed = Some l" "0 < lease_length (at_time_env 72) None"
    using c(2) by auto
  have "now_s (at_time_env 72) < now_s (at_time_env 71) + len" using c(4) by (simp add: at_time_env_def)
  from late_heartbeat_makes_two_holders [OF reachable_inv [OF r] c(1) l(1) _ c(3) this l(2), of None] c
  show ?thesis by (auto simp: at_time_env_def)
qed

text \<open>
  A pane claims a task nobody was assigned, lets the lease run out, claims it again and
  gives it back.
\<close>

definition demo_reclaimed :: store where
  "demo_reclaimed =
     exec (at_time_env 72) (Release ''t1'' ''w:1'')
       (exec (at_time_env 71) (Claim_Next ''global'' ''w:1'' default_claim_options)
         (exec (at_time_env 1) (Claim_Next ''global'' ''w:1'' default_claim_options)
           (exec (at_time_env 0) (Add ''global'' ''solo'' [] default_add_options) empty_store)))"

text \<open>
  A second claim forgets that the first one added the assignee. The pane is already on the
  list when it claims again, so the new lease records no addition and the release leaves the
  pane as the only assignee: the task is open, nobody holds it, and no other pane can take it.
\<close>

theorem reclaim_strands_the_task:
  "reachable demo_reclaimed
   \<and> map_option (\<lambda>t. (t_status t, t_assignees t)) (get_task ''t1'' demo_reclaimed) = Some (''open'', [''w:1''])
   \<and> st_leases demo_reclaimed = []
   \<and> fst (claim_next (at_time_env 73) ''global'' ''w:2'' default_claim_options demo_reclaimed)
      = ok (Claim_Refused ''global'' \<lparr>r_reason = ''owned_elsewhere'', r_task_ids = [''t1''], r_owned_by = Some [''w:1'']\<rparr>)"
proof (intro conjI)
  show "reachable demo_reclaimed"
    unfolding demo_reclaimed_def by (intro reach_step [OF _ step_exec] reach_init)
  show "map_option (\<lambda>t. (t_status t, t_assignees t)) (get_task ''t1'' demo_reclaimed) = Some (''open'', [''w:1''])"
    "st_leases demo_reclaimed = []"
    "fst (claim_next (at_time_env 73) ''global'' ''w:2'' default_claim_options demo_reclaimed)
      = ok (Claim_Refused ''global'' \<lparr>r_reason = ''owned_elsewhere'', r_task_ids = [''t1''], r_owned_by = Some [''w:1'']\<rparr>)"
    by code_simp+
qed

end
