(* ===== verification/Edit_Effects.thy ===== *)
theory Edit_Effects
  imports Dependency_Effects
begin

text \<open>What filing, deleting and editing do to the store.\<close>

section \<open>Filing\<close>

lemma fold_dedupe:
  "distinct seen \<Longrightarrow> distinct (fold (\<lambda>item seen. if item \<in> set seen then seen else seen @ [item]) xs seen)"
  "set (fold (\<lambda>item seen. if item \<in> set seen then seen else seen @ [item]) xs seen) = set seen \<union> set xs"
  by (induction xs arbitrary: seen) auto

lemma dedupe_distinct: "distinct (dedupe xs)" and dedupe_set: "set (dedupe xs) = trim ` set xs - {[]}"
  using fold_dedupe(1) [where seen = "[]"] by (auto simp: dedupe_def fold_dedupe(2))

lemma insert_task_ok:
  assumes "insert_task row s = (ok tid, s')"
  shows "tid = task_id_of (next_number s)"
    "s' = log_event (created_event (row\<lparr>t_id := tid\<rparr>)) (s\<lparr>st_counter := Some (next_number s), st_tasks := st_tasks s @ [row\<lparr>t_id := tid\<rparr>]\<rparr>)"
    "t_kind row = ''review'' \<and> live_status (t_status row) \<Longrightarrow>
      \<forall>u \<in> set (st_tasks s). \<not> live_review (t_repo row) (t_pr row) (t_head row) u"
  using assms by (auto simp: insert_task_def Let_def find_eq_None_iff split: if_splits)

lemma add_with_ok:
  assumes "add_with env scope title body opts s = (ok t, s')"
  obtains row where "new_task_row env scope title body opts = ok row"
    "insert_task row s = (ok (task_id_of (next_number s)), s')" "task_get (task_id_of (next_number s)) s' = ok t"
    "set (t_depends_on row) \<subseteq> task_ids s"
proof -
  from assms obtain row u where row: "new_task_row env scope title body opts = ok row"
    and deps: "check_deps s (t_parent_id row) (t_depends_on row) = ok u"
    and r: "(case insert_task row s of
                 (Inl e, s) \<Rightarrow> (Inl e, s)
               | (Inr tid, s) \<Rightarrow> (try_bind (task_get tid s) (\<lambda>t. ok (Some t)), s)) = (ok (Some t), s')"
    by (auto simp: add_with_def add_with_verdict_guard_def split: sum.splits prod.splits option.splits if_splits)
  then obtain tid where i: "insert_task row s = (ok tid, s')" "task_get tid s' = ok t"
    by (auto simp: try_bind_Inr split: sum.splits prod.splits)
  from insert_task_ok(1) [OF i(1)] have "tid = task_id_of (next_number s)" .
  with row i check_deps_ok [OF deps] show thesis by (intro that) auto
qed

text \<open>
  A filed task is new and as asked. It gets the next number, an id nothing in the store
  has; it carries the trimmed title, the body and the author's fields, each assignee and
  dependency once; its dependencies exist; and no other row and no lease changes.
\<close>

theorem filed_task_is_new:
  assumes "store_inv s" "add_with env scope title body opts s = (ok t, s')"
  shows "t_id t = task_id_of (next_number s) \<and> get_task (t_id t) s = None
    \<and> get_task (t_id t) s' = Some t
    \<and> (\<forall>i. i \<noteq> t_id t \<longrightarrow> get_task i s' = get_task i s)
    \<and> st_leases s' = st_leases s \<and> st_counter s' = Some (next_number s)
    \<and> t_title t = trim title \<and> t_title t \<noteq> [] \<and> t_body t = body
    \<and> distinct (t_assignees t) \<and> set (t_assignees t) = trim ` set (ao_assignees opts) - {[]}
    \<and> distinct (t_depends_on t) \<and> set (t_depends_on t) = trim ` set (ao_depends_on opts) - {[]}
    \<and> (\<forall>d \<in> set (t_depends_on t). get_task d s \<noteq> None)
    \<and> t_attempts t = 0 \<and> t_landed t \<and> t_created_at t = now_s env"
proof -
  obtain row where row: "new_task_row env scope title body opts = ok row"
    and ins: "insert_task row s = (ok (task_id_of (next_number s)), s')"
    and get: "task_get (task_id_of (next_number s)) s' = ok t" and deps: "set (t_depends_on row) \<subseteq> task_ids s"
    by (rule add_with_ok [OF assms(2)])
  let ?id = "task_id_of (next_number s)"
  have s': "s' = log_event (created_event (row\<lparr>t_id := ?id\<rparr>)) (s\<lparr>st_counter := Some (next_number s), st_tasks := st_tasks s @ [row\<lparr>t_id := ?id\<rparr>]\<rparr>)"
    using insert_task_ok(2) [OF ins] by simp
  have none: "get_task ?id s = None"
    using next_number_fresh [of s] store_inv_task(1) [OF assms(1)] by fastforce
  then have g: "get_task i s' = (if i = ?id then Some (row\<lparr>t_id := ?id\<rparr>) else get_task i s)" for i
    by (auto simp: s' get_task_def row_get_def find_append split: option.splits)
  then have t: "t = row\<lparr>t_id := ?id\<rparr>" using get by (simp add: task_get_def)
  have fields: "t_title row = trim title" "trim title \<noteq> []" "t_body row = body"
    "t_assignees row = dedupe (ao_assignees opts)" "t_depends_on row = dedupe (ao_depends_on opts)"
    "t_attempts row = 0" "t_landed row" "t_created_at row = now_s env"
    using row by (auto simp: new_task_row_def try_bind_Inr Let_def split: if_splits)
  have "\<forall>d \<in> set (t_depends_on row). get_task d s \<noteq> None" using deps by (auto simp: task_ids_get)
  then show ?thesis
    using none g fields by (simp add: t s' dedupe_distinct dedupe_set)
qed

theorem filed_task_is_new_witness:
  "\<exists>t s'. add_with demo_env ''global'' '' third '' ''why'' (default_add_options\<lparr>ao_depends_on := [''t1'', '' t1'']\<rparr>) demo_filed = (ok t, s')
     \<and> t_id t = ''t3'' \<and> get_task ''t3'' demo_filed = None \<and> distinct (t_depends_on t)"
proof -
  have e: "is_ok (fst (add_with demo_env ''global'' '' third '' ''why'' (default_add_options\<lparr>ao_depends_on := [''t1'', '' t1'']\<rparr>) demo_filed))"
    "task_id_of (next_number demo_filed) = ''t3''"
    by code_simp+
  from e(1) obtain t s' where r: "add_with demo_env ''global'' '' third '' ''why'' (default_add_options\<lparr>ao_depends_on := [''t1'', '' t1'']\<rparr>) demo_filed = (ok t, s')"
    by (metis prod.exhaust_sel sum.collapse(2))
  from filed_task_is_new [OF reachable_inv [OF demo_reachable(1)] r] r e(2) show ?thesis by auto
qed

section \<open>Deleting\<close>

text \<open>
  Only what nothing points to can be deleted. A deletion succeeds exactly when the task
  exists, has no children and no task depends on it; then that row is gone, every other task
  is as it was, and otherwise nothing is.
\<close>

theorem delete_needs_no_references:
  assumes "store_inv s" "delete_task env tid s = (res, s')"
  shows "is_ok res = (get_task (trim tid) s \<noteq> None
      \<and> (\<forall>r \<in> set (st_tasks s). t_parent_id r \<noteq> Some (trim tid) \<and> trim tid \<notin> set (t_depends_on r)))
    \<and> get_task i s' = (if is_ok res \<and> i = trim tid then None else get_task i s)"
proof
  show "is_ok res = (get_task (trim tid) s \<noteq> None
      \<and> (\<forall>r \<in> set (st_tasks s). t_parent_id r \<noteq> Some (trim tid) \<and> trim tid \<notin> set (t_depends_on r)))"
    using assms(2)
    by (auto simp: delete_task_def Let_def row_count_def filter_empty_conv split: option.splits if_splits)
  show "get_task i s' = (if is_ok res \<and> i = trim tid then None else get_task i s)"
  proof (cases "is_ok res")
    case True
    then have ok: "snd (delete_task env tid s) \<noteq> s \<or> is_ok (fst (delete_task env tid s))" using assms(2) by simp
    have "\<exists>e. s' = (log_event e s)\<lparr>st_tasks := row_delete (\<lambda>r. t_id r = trim tid) (st_tasks s)\<rparr>"
      by (rule delete_task_ok [OF ok]) (use assms(2) in auto)
    with True assms(2) show ?thesis by (auto simp: get_task_def task_table.get_del)
  next
    case False
    then show ?thesis using delete_rollback [of env tid s] assms(2) by (cases res) auto
  qed
qed

theorem delete_needs_no_references_witness:
  "\<not> is_ok (fst (delete_task demo_env ''t1'' demo_filed)) \<and> get_task ''t1'' (snd (delete_task demo_env ''t1'' demo_filed)) \<noteq> None"
proof -
  have e: "get_task ''t1'' demo_filed \<noteq> None" "\<not> is_ok (fst (delete_task demo_env ''t1'' demo_filed))" by code_simp+
  obtain res s' where r: "delete_task demo_env ''t1'' demo_filed = (res, s')" by fastforce
  have "\<not> is_ok res" using e(2) r by simp
  with conjunct2 [OF delete_needs_no_references [OF reachable_inv [OF demo_reachable(1)] r, of "''t1''"]]
  have "get_task ''t1'' s' = get_task ''t1'' demo_filed" by simp
  with e r show ?thesis by simp
qed

section \<open>Editing\<close>

text \<open>
  An edit touches one task. Whatever an edit changes, a status among them, it changes the
  edited task's row only: even one that says \<^verbatim>\<open>done\<close> opens no dependent, which waits for the
  next sweep.
\<close>

theorem edit_touches_one_task:
  assumes "store_inv s" "update_with_status env tid edit status actor s = (ok t, s')"
  shows "get_task (trim tid) s' = Some t \<and> (\<forall>i. i \<noteq> trim tid \<longrightarrow> get_task i s' = get_task i s)
    \<and> (\<exists>old. get_task (trim tid) s = Some old \<and> same_identity old t
        \<and> t_title t = (case fe_title edit of None \<Rightarrow> t_title old | Some x \<Rightarrow> trim x)
        \<and> (fe_priority edit = None \<longrightarrow> t_priority t = t_priority old)
        \<and> (fe_depends_on edit = None \<longrightarrow> t_depends_on t = t_depends_on old)
        \<and> (status = None \<longrightarrow> t_status t = t_status old))"
proof -
  from assms(2) obtain priority old parent deps st where
    title: "\<not> (case fe_title edit of Some t \<Rightarrow> trim t = [] | None \<Rightarrow> False)"
    and pr: "opt_map validate_priority (fe_priority edit) = ok priority"
    and old: "get_task (trim tid) s = Some old"
    and par: "edit_parent (trim tid) (fe_parent_id edit) s = ok parent"
    and ds: "edit_deps (trim tid) (fe_depends_on edit) s = ok deps"
    and st: "edit_status (trim tid) (t_status old) status = ok st"
    unfolding update_with_status_def
    by (auto simp: Let_def try_bind_Inr split: sum.splits option.splits if_splits)
  obtain es r where s': "s' = log_events es (upd_task (trim tid) (edit_row env actor edit priority parent deps st) r)"
    and r: "\<And>i. get_task i r = get_task i s" and t: "task_get (trim tid) s' = ok t"
    using title pr old par ds st assms(2)
    by (cases "case st of Some x \<Rightarrow> x \<noteq> t_status old \<and> ends_claim x | None \<Rightarrow> False")
       (auto simp: update_with_status_def Let_def done_with_def)
  have g: "get_task i s' = (if i = trim tid then Some (edit_row env actor edit priority parent deps st old) else get_task i s)" for i
    using old by (simp add: s' get_task_upd edit_row_id r)
  then have "t = edit_row env actor edit priority parent deps st old" using t by (simp add: task_get_def)
  moreover have "fe_priority edit = None \<Longrightarrow> priority = None" "fe_depends_on edit = None \<Longrightarrow> deps = None"
    "status = None \<Longrightarrow> st = None"
    using pr ds st by (auto simp: opt_map_def edit_deps_def edit_status_def)
  ultimately show ?thesis
    using g old by (auto simp: edit_row_columns)
qed

theorem edit_touches_one_task_witness:
  "\<exists>t s'. update_with_status demo_env ''t1'' no_edit (Some ''done'') None demo_filed = (ok t, s')
     \<and> get_task ''t1'' s' = Some t \<and> get_task ''t2'' s' = get_task ''t2'' demo_filed"
proof -
  have e: "is_ok (fst (update_with_status demo_env ''t1'' no_edit (Some ''done'') None demo_filed))" "trim ''t1'' = ''t1''"
    by code_simp+
  from e(1) obtain t s' where r: "update_with_status demo_env ''t1'' no_edit (Some ''done'') None demo_filed = (ok t, s')"
    by (metis prod.exhaust_sel sum.collapse(2))
  from edit_touches_one_task [OF reachable_inv [OF demo_reachable(1)] r] r show ?thesis unfolding e(2) by simp
qed

end
