(* ===== verification/Json_Text.thy ===== *)
theory Json_Text
  imports Prelude
begin

text \<open>
  How the dispatcher and the allowlist read JSON values: Python's truth value, Python's
  \<^verbatim>\<open>str()\<close>, numbers, and the words of a text. The text serde prints for a number, a list
  or an object is library behaviour: it is the parameter \<open>txt\<close> of the functions that use it.
\<close>

section \<open>Fields\<close>

definition vget :: "json \<Rightarrow> string \<Rightarrow> json option" where
  "vget v k = (case v of JObj m \<Rightarrow> jget m k | _ \<Rightarrow> None)"

lemma jget_list [simp]:
  "jget [] k = None"
  "jget ((k', v) # m) k = (if k = k' then Some v else jget m k)"
  by (auto simp: jget_def)

definition as_array :: "json option \<Rightarrow> json list option" where
  "as_array v = (case v of Some (JArr xs) \<Rightarrow> Some xs | _ \<Rightarrow> None)"

definition as_f64 :: "json option \<Rightarrow> real option" where
  "as_f64 v = (case v of Some (JInt i) \<Rightarrow> Some (of_int i) | Some (JReal r) \<Rightarrow> Some r | _ \<Rightarrow> None)"

definition is_object :: "json \<Rightarrow> bool" where
  "is_object v = (case v of JObj _ \<Rightarrow> True | _ \<Rightarrow> False)"

section \<open>Python's view of a value\<close>

fun truthy :: "json \<Rightarrow> bool" where
  "truthy JNull = False"
| "truthy (JBool b) = b"
| "truthy (JInt i) = (i \<noteq> 0)"
| "truthy (JReal r) = (r \<noteq> 0)"
| "truthy (JStr s) = (s \<noteq> [])"
| "truthy (JArr xs) = (xs \<noteq> [])"
| "truthy (JObj m) = (m \<noteq> [])"

definition opt_truthy :: "json option \<Rightarrow> bool" where
  "opt_truthy v = (case v of Some x \<Rightarrow> truthy x | None \<Rightarrow> False)"

definition py_str :: "(json \<Rightarrow> string) \<Rightarrow> json option \<Rightarrow> string" where
  "py_str txt v = (case v of
       None \<Rightarrow> ''None''
     | Some JNull \<Rightarrow> ''None''
     | Some (JBool True) \<Rightarrow> ''True''
     | Some (JBool False) \<Rightarrow> ''False''
     | Some (JStr s) \<Rightarrow> s
     | Some other \<Rightarrow> txt other)"

definition str_or :: "(json \<Rightarrow> string) \<Rightarrow> json \<Rightarrow> string \<Rightarrow> string \<Rightarrow> string" where
  "str_or txt task key fallback =
     (if opt_truthy (vget task key) then py_str txt (vget task key) else fallback)"

definition number :: "json option \<Rightarrow> real" where
  "number v = (case as_f64 v of Some r \<Rightarrow> r | None \<Rightarrow> 0)"

section \<open>Words\<close>

text \<open>\<^verbatim>\<open>str::split_whitespace\<close>: the maximal pieces without white space.\<close>

fun break_word :: "string \<Rightarrow> string \<times> string" where
  "break_word [] = ([], [])"
| "break_word (c # s) =
     (if front_width white_space (c # s) \<noteq> 0 then ([], c # s)
      else let (w, rest) = break_word s in (c # w, rest))"

lemma length_break_word: "length (snd (break_word s)) \<le> length s"
  by (induction s) (auto split: prod.splits)

lemma break_word_shorter:
  "s \<noteq> [] \<Longrightarrow> front_width white_space s = 0 \<Longrightarrow> length (snd (break_word s)) < length s"
  using length_break_word [of "tl s"] by (cases s) (auto split: prod.splits)

lemma front_width_strip: "strip_front ws s \<noteq> [] \<Longrightarrow> front_width ws (strip_front ws s) = 0"
proof (induction ws s rule: strip_front.induct)
  case (1 ws s)
  show ?case
  proof (cases "front_width ws s = 0 \<or> s = []")
    case True
    then have "strip_front ws s = s" by (auto simp: strip_front.simps)
    with True 1(2) show ?thesis by auto
  next
    case False
    then have "strip_front ws s = strip_front ws (drop (front_width ws s) s)"
      by (simp add: strip_front.simps [of ws s] Let_def)
    with 1 False show ?thesis by simp
  qed
qed

function split_whitespace :: "string \<Rightarrow> string list" where
  "split_whitespace s =
     (let rest = strip_front white_space s in
      if rest = [] then [] else fst (break_word rest) # split_whitespace (snd (break_word rest)))"
  by pat_completeness auto
termination
proof (relation "measure length", simp)
  fix s rest :: string
  assume "rest = strip_front white_space s" "rest \<noteq> []"
  then show "(snd (break_word rest), s) \<in> measure length"
    using break_word_shorter [of rest] front_width_strip [of white_space s] length_strip_front [of white_space s]
    by auto
qed

declare split_whitespace.simps [simp del]

fun join_with :: "string \<Rightarrow> string list \<Rightarrow> string" where
  "join_with sep [] = []"
| "join_with sep [w] = w"
| "join_with sep (w # v # ws) = w @ sep @ join_with sep (v # ws)"

text \<open>\<^verbatim>\<open>" ".join(text.split())\<close>.\<close>

definition squash :: "string \<Rightarrow> string" where
  "squash s = join_with '' '' (split_whitespace s)"

text \<open>\<^verbatim>\<open>chars().count()\<close>: the bytes of a UTF-8 text that start a character.\<close>

definition char_count :: "string \<Rightarrow> nat" where
  "char_count s = length (filter (\<lambda>c. \<not> (128 \<le> (of_char c :: nat) \<and> (of_char c :: nat) < 192)) s)"

lemma split_words_ne: "w \<in> set (split_whitespace s) \<Longrightarrow> w \<noteq> []"
proof (induction s rule: split_whitespace.induct)
  case (1 s)
  let ?rest = "strip_front white_space s"
  show ?case
  proof (cases "?rest = []")
    case True
    with 1(2) show ?thesis by (simp add: split_whitespace.simps [of s] Let_def)
  next
    case False
    then have "fst (break_word ?rest) \<noteq> []"
      using front_width_strip [OF False] by (cases ?rest) (auto split: prod.splits)
    with False 1 show ?thesis by (auto simp: split_whitespace.simps [of s] Let_def)
  qed
qed

lemma squash_Nil: "squash s = [] \<longleftrightarrow> split_whitespace s = []"
proof -
  have "join_with sep ws = [] \<longleftrightarrow> ws = []" if "\<forall>w \<in> set ws. w \<noteq> []" for sep ws
    using that by (induction sep ws rule: join_with.induct) auto
  then show ?thesis using split_words_ne by (auto simp: squash_def)
qed

end
