(* ===== verification/Dispatch.thy ===== *)
theory Dispatch
  imports Json_Text
begin

text \<open>
  The dispatcher's planners (\<^verbatim>\<open>dispatch.rs\<close>): pure functions over the board's tasks as JSON
  objects, which decide whether a lane that goes free, or ends its turn, gets work. The clock
  and the two pacing settings read from the process environment are the record \<open>pacing\<close>.
\<close>

section \<open>Planners\<close>

record pacing =
  clock_now :: time
  turn_end_min_gap_s :: time
  turn_end_task_cooldown_s :: time

definition priority_order :: "string \<Rightarrow> int" where
  "priority_order name =
     (if name = ''urgent'' then 0 else if name = ''high'' then 1 else if name = ''medium'' then 2
      else if name = ''low'' then 3 else 9)"

text \<open>\<^verbatim>\<open>lane_plan\<close>: one lane into one of five buckets.\<close>

type_synonym buckets = "string \<Rightarrow> json list"

definition push :: "string \<Rightarrow> json \<Rightarrow> buckets \<Rightarrow> buckets" where
  "push k v out = out(k := out k @ [v])"

definition lane_entry :: "string \<Rightarrow> json \<Rightarrow> json \<Rightarrow> json_map" where
  "lane_entry pane_id pane reason =
     [(''pane_id'', JStr pane_id),
      (''name'', if opt_truthy (vget pane ''agent_name'') then the (vget pane ''agent_name'') else JStr pane_id),
      (''reason'', reason)]"

definition lane_step ::
    "(json \<Rightarrow> json) \<Rightarrow> (json \<Rightarrow> int) \<Rightarrow> string set option \<Rightarrow> json \<Rightarrow> buckets \<Rightarrow> buckets" where
  "lane_step delivery unread lanes pane out =
     (case non_empty_str (as_str (vget pane ''pane_id'')) of
        None \<Rightarrow> out
      | Some pane_id \<Rightarrow>
          if (case lanes of None \<Rightarrow> False | Some allowed \<Rightarrow> pane_id \<notin> allowed) then out
          else
            let state = delivery pane;
                name = as_str (vget state ''state'');
                reason = (case vget state ''reason'' of Some r \<Rightarrow> r | None \<Rightarrow> JNull);
                entry = lane_entry pane_id pane reason
            in if name = Some ''dead'' then push ''dead'' (JObj entry) out
               else if name = Some ''blocked'' then push ''blocked'' (JObj entry) out
               else if name = Some ''working'' then push ''working'' (JObj entry) out
               else if name = Some ''ready'' then
                 (if unread pane \<noteq> 0
                  then push ''has_mail'' (JObj (jinsert ''unread'' (JInt (unread pane)) entry)) out
                  else push ''ready'' (JObj entry) out)
               else push ''blocked''
                 (JObj (jinsert ''reason'' (if truthy reason then reason else JStr ''unknown state'') entry)) out)"

definition lane_buckets ::
    "json list \<Rightarrow> (json \<Rightarrow> json) \<Rightarrow> (json \<Rightarrow> int) \<Rightarrow> string set option \<Rightarrow> buckets" where
  "lane_buckets panes delivery unread lanes = fold (lane_step delivery unread lanes) panes (\<lambda>_. [])"

definition lane_plan ::
    "json list \<Rightarrow> (json \<Rightarrow> json) \<Rightarrow> (json \<Rightarrow> int) \<Rightarrow> string set option \<Rightarrow> json" where
  "lane_plan panes delivery unread lanes =
     (let out = lane_buckets panes delivery unread lanes in
      JObj [(''ready'', JArr (out ''ready'')), (''has_mail'', JArr (out ''has_mail'')),
            (''blocked'', JArr (out ''blocked'')), (''dead'', JArr (out ''dead'')),
            (''working'', JArr (out ''working''))])"

text \<open>\<^verbatim>\<open>derive_board_items\<close>: the open, unblocked, unleased work of the board.\<close>

definition board_done :: "(json \<Rightarrow> string) \<Rightarrow> json list \<Rightarrow> string list" where
  "board_done txt tasks =
     map (\<lambda>task. py_str txt (vget task ''id''))
       (filter (\<lambda>task. py_str txt (vget task ''status'') \<in> {''done'', ''cancelled''}) tasks)"

definition waits_on :: "(json \<Rightarrow> string) \<Rightarrow> string list \<Rightarrow> json \<Rightarrow> bool" where
  "waits_on txt finished task =
     (case as_array (vget task ''depends_on'') of
        None \<Rightarrow> False
      | Some deps \<Rightarrow> list_ex (\<lambda>dep. py_str txt (Some dep) \<notin> set finished) deps)"

definition dispatchable :: "(json \<Rightarrow> string) \<Rightarrow> string list \<Rightarrow> string set \<Rightarrow> json \<Rightarrow> bool" where
  "dispatchable txt finished recent task \<longleftrightarrow>
     str_or txt task ''status'' [] = ''open''
     \<and> trim (str_or txt task ''block_reason'' []) = []
     \<and> \<not> waits_on txt finished task
     \<and> \<not> opt_truthy (vget task ''leases'')
     \<and> py_str txt (vget task ''id'') \<notin> recent
     \<and> squash (str_or txt task ''title'' []) \<noteq> []"

definition board_item :: "(json \<Rightarrow> string) \<Rightarrow> time \<Rightarrow> json \<Rightarrow> int \<times> time \<times> json" where
  "board_item txt now task =
     (let tid = py_str txt (vget task ''id'');
          priority = priority_order (py_str txt (vget task ''priority''));
          created_at = (if opt_truthy (vget task ''created_at'') then the (vget task ''created_at'') else JReal now)
      in (priority, number (Some created_at),
          JObj [(''id'', JStr (''board:'' @ tid)), (''task_id'', JStr tid),
                (''brief'', JStr (squash (str_or txt task ''title'' []))), (''lane'', JNull),
                (''derived'', JBool True), (''priority'', JInt priority), (''created_at'', created_at)]))"

definition derive_board_items ::
    "(json \<Rightarrow> string) \<Rightarrow> pacing \<Rightarrow> json list \<Rightarrow> string set \<Rightarrow> time option \<Rightarrow> nat
     \<Rightarrow> json list \<times> string list" where
  "derive_board_items txt p tasks recent now coarse_chars =
     (let now = (case now of Some n \<Rightarrow> if n \<noteq> 0 then n else clock_now p | None \<Rightarrow> clock_now p);
          finished = board_done txt tasks;
          chosen = filter (dispatchable txt finished recent) tasks;
          items = map (board_item txt now) chosen;
          coarse = map (\<lambda>task. py_str txt (vget task ''id''))
            (filter (\<lambda>task. coarse_chars < char_count (squash (str_or txt task ''title'' []))) chosen)
      in (map (\<lambda>(_, _, item). item) (sort_key (\<lambda>(priority, created, _). (priority, created)) items), coarse))"

definition dispatch_text :: "(json \<Rightarrow> string) \<Rightarrow> json \<Rightarrow> string" where
  "dispatch_text txt item =
     (if opt_truthy (vget item ''task_id'')
      then ''[standby '' @ py_str txt (vget item ''task_id'') @ ''] '' else ''[standby] '')
     @ squash (py_str txt (vget item ''brief''))"

text \<open>\<^verbatim>\<open>claimed_tasks\<close>: what a lane holds a lease on, in the order to offer it.\<close>

definition task_key :: "(json \<Rightarrow> string) \<Rightarrow> json \<Rightarrow> int \<times> time" where
  "task_key txt task =
     (priority_order (py_str txt (vget task ''priority'')), number (vget task ''created_at''))"

definition holds_lease :: "(json \<Rightarrow> string) \<Rightarrow> string \<Rightarrow> json \<Rightarrow> bool" where
  "holds_lease txt pane_id task =
     (case as_array (vget task ''leases'') of
        None \<Rightarrow> False
      | Some leases \<Rightarrow>
          list_ex (\<lambda>lease. is_object lease \<and> py_str txt (vget lease ''pane_id'') = pane_id) leases)"

definition claimed_ok :: "(json \<Rightarrow> string) \<Rightarrow> string list \<Rightarrow> string \<Rightarrow> json \<Rightarrow> bool" where
  "claimed_ok txt finished pane_id task \<longleftrightarrow>
     str_or txt task ''status'' [] = ''in_progress''
     \<and> trim (str_or txt task ''block_reason'' []) = []
     \<and> holds_lease txt pane_id task
     \<and> \<not> (case vget task ''blocked_by'' of
            Some blocked_by \<Rightarrow> truthy blocked_by
          | None \<Rightarrow> waits_on txt finished task)"

definition claimed_tasks :: "(json \<Rightarrow> string) \<Rightarrow> json list \<Rightarrow> string \<Rightarrow> json list" where
  "claimed_tasks txt tasks pane_id =
     (if pane_id = [] then []
      else let finished = map (\<lambda>task. py_str txt (vget task ''id''))
                 (filter (\<lambda>task. str_or txt task ''status'' [] = ''done'') tasks)
           in sort_key (task_key txt) (filter (claimed_ok txt finished pane_id) tasks))"

definition claimed_work :: "(json \<Rightarrow> string) \<Rightarrow> json list \<Rightarrow> string \<Rightarrow> json option" where
  "claimed_work txt tasks pane_id = (case claimed_tasks txt tasks pane_id of [] \<Rightarrow> None | t # _ \<Rightarrow> Some t)"

record turn_end =
  te_pane_id :: string
  te_tasks :: "json list"
  te_unread :: "int option"
  te_last_nudge_at :: "time option"
  te_task_nudges :: "string \<rightharpoonup> time"
  te_now :: "time option"
  te_min_gap_s :: "time option"
  te_task_cooldown_s :: "time option"

definition or_else :: "'a \<Rightarrow> 'a option \<Rightarrow> 'a" where
  "or_else d v = (case v of Some x \<Rightarrow> x | None \<Rightarrow> d)"

definition too_soon :: "time \<Rightarrow> time option \<Rightarrow> time \<Rightarrow> bool" where
  "too_soon now prev gap = (case prev of None \<Rightarrow> False | Some t \<Rightarrow> 0 < gap \<and> now - t < gap)"

definition turn_end_plan :: "(json \<Rightarrow> string) \<Rightarrow> pacing \<Rightarrow> turn_end \<Rightarrow> json_map" where
  "turn_end_plan txt p i =
     (let now = or_else (clock_now p) (te_now i);
          gap = or_else (turn_end_min_gap_s p) (te_min_gap_s i);
          cooldown = or_else (turn_end_task_cooldown_s p) (te_task_cooldown_s i);
          plan = [(''trigger'', JStr ''turn.end''), (''pane_id'', JStr (te_pane_id i)),
                  (''action'', JStr ''skip''), (''reason'', JNull), (''item'', JNull)];
          skip = (\<lambda>why. jinsert ''reason'' (JStr why) plan);
          held = claimed_tasks txt (te_tasks i) (te_pane_id i);
          fresh = (if 0 < cooldown
                   then filter (\<lambda>task. \<not> (case te_task_nudges i (py_str txt (vget task ''id'')) of
                            None \<Rightarrow> False | Some t \<Rightarrow> now - t < cooldown)) held
                   else held)
      in if te_pane_id i = [] then skip ''no_pane''
         else (case te_unread i of
             None \<Rightarrow> skip ''unread_unknown''
           | Some unread \<Rightarrow>
               if unread \<noteq> 0 then skip ''unread_mail''
               else if held = [] then skip ''no_open_work''
               else if too_soon now (te_last_nudge_at i) gap then skip ''cooldown''
               else (case fresh of
                   [] \<Rightarrow> skip ''task_cooldown''
                 | first # _ \<Rightarrow> jinsert ''item'' first (jinsert ''action'' (JStr ''nudge'') plan))))"

definition turn_end_text :: "(json \<Rightarrow> string) \<Rightarrow> json \<Rightarrow> string" where
  "turn_end_text txt task =
     (let tid = py_str txt (vget task ''id'');
          title = squash (str_or txt task ''title'' []);
          status = str_or txt task ''status'' ''open'';
          priority = str_or txt task ''priority'' ''low''
      in join_with [CHR 0x0A]
          [''[turn-end '' @ tid @ ''] '' @ title,
           ''trigger: turn.end - you ended your turn still holding this task ('' @ status @ '', priority '' @ priority @ '').'',
           ''Carry on, or close it out:'',
           ''  dunkingsheep task note '' @ tid @ '' --reason \"<what you did / did NOT verify>\"'',
           ''  dunkingsheep task complete '' @ tid])"

text \<open>\<^verbatim>\<open>assigned_open_tasks\<close> and \<^verbatim>\<open>next_job_plan\<close>: what a lane does the moment it goes free.\<close>

definition assigned_to :: "(json \<Rightarrow> string) \<Rightarrow> string \<Rightarrow> json \<Rightarrow> bool" where
  "assigned_to txt pane_id task \<longleftrightarrow>
     pane_id \<noteq> []
     \<and> (case as_array (vget task ''assignees'') of
          None \<Rightarrow> False
        | Some xs \<Rightarrow> list_ex (\<lambda>a. py_str txt (Some a) = pane_id) xs)"

definition offerable :: "(json \<Rightarrow> string) \<Rightarrow> string \<Rightarrow> json \<Rightarrow> bool" where
  "offerable txt pane_id task \<longleftrightarrow>
     py_str txt (vget task ''status'') = ''open''
     \<and> \<not> (opt_truthy (vget task ''blocked_by'') \<or> opt_truthy (vget task ''block_reason'')
          \<or> opt_truthy (vget task ''allocation_waiting''))
     \<and> assigned_to txt pane_id task"

definition board_key :: "(json \<Rightarrow> string) \<Rightarrow> json \<Rightarrow> int \<times> time \<times> string" where
  "board_key txt task =
     (priority_order (py_str txt (vget task ''priority'')), number (vget task ''created_at''),
      py_str txt (vget task ''id''))"

definition assigned_open_tasks :: "(json \<Rightarrow> string) \<Rightarrow> json list \<Rightarrow> string \<Rightarrow> json list" where
  "assigned_open_tasks txt tasks pane_id = sort_key (board_key txt) (filter (offerable txt pane_id) tasks)"

record next_job =
  nj_trigger :: string
  nj_pane_id :: string
  nj_tasks :: "json list"
  nj_unread :: "int option"
  nj_pending_delivery :: bool
  nj_last_nudge_at :: "time option"
  nj_task_nudges :: "string \<rightharpoonup> time"
  nj_now :: "time option"
  nj_min_gap_s :: "time option"
  nj_task_cooldown_s :: "time option"
  nj_dispatch_reason :: "string option"

definition next_job_plan :: "(json \<Rightarrow> string) \<Rightarrow> pacing \<Rightarrow> next_job \<Rightarrow> json_map" where
  "next_job_plan txt p i =
     (let now = or_else (clock_now p) (nj_now i);
          gap = or_else (turn_end_min_gap_s p) (nj_min_gap_s i);
          cooldown = or_else (turn_end_task_cooldown_s p) (nj_task_cooldown_s i);
          plan = [(''trigger'', JStr (nj_trigger i)), (''pane_id'', JStr (nj_pane_id i)),
                  (''action'', JStr ''skip''), (''reason'', JNull), (''task_id'', JNull)];
          skip = (\<lambda>why. jinsert ''reason'' (JStr why) plan);
          candidates = assigned_open_tasks txt (nj_tasks i) (nj_pane_id i);
          fresh = filter (\<lambda>task. cooldown \<le> now - or_else 0 (nj_task_nudges i (py_str txt (vget task ''id''))))
                    candidates
      in if nj_pane_id i = [] then skip ''no_pane''
         else (case non_empty_str (nj_dispatch_reason i) of
             Some reason \<Rightarrow> skip reason
           | None \<Rightarrow> (case nj_unread i of
               None \<Rightarrow> skip ''unread_unknown''
             | Some unread \<Rightarrow>
                 if unread \<noteq> 0 then skip ''unread_mail''
                 else if nj_pending_delivery i then skip ''pending_delivery''
                 else if candidates = [] then skip ''no_assigned_work''
                 else if too_soon now (nj_last_nudge_at i) gap then skip ''cooldown''
                 else (case fresh of
                     [] \<Rightarrow> skip ''task_cooldown''
                   | first # _ \<Rightarrow>
                       jinsert ''task_id'' (JStr (py_str txt (vget first ''id'')))
                         (jinsert ''action'' (JStr ''claim'') plan)))))"

text \<open>
  \<^verbatim>\<open>delivery_retry_plan\<close>: the backoff doubles with each attempt. The exponent is an \<^verbatim>\<open>i32\<close>
  made from an \<^verbatim>\<open>i64\<close> by truncation.
\<close>

definition as_i32 :: "int \<Rightarrow> int" where
  "as_i32 i = ((i + 2 ^ 31) mod 2 ^ 32) - 2 ^ 31"

definition pow2 :: "int \<Rightarrow> real" where
  "pow2 e = (if 0 \<le> e then 2 ^ nat e else 1 / 2 ^ nat (- e))"

definition delivery_retry_plan :: "pacing \<Rightarrow> int \<Rightarrow> time option \<Rightarrow> time \<Rightarrow> int \<Rightarrow> time option \<Rightarrow> json_map" where
  "delivery_retry_plan p attempt last_at now max_attempts min_gap_s =
     (let gap = or_else (turn_end_min_gap_s p) min_gap_s;
          next_at = or_else 0 last_at + max gap 0 * pow2 (as_i32 (max (attempt - 1) 0))
      in if max_attempts \<le> attempt then [(''action'', JStr ''stop''), (''reason'', JStr ''retry_exhausted'')]
         else if attempt \<noteq> 0 \<and> now < next_at
         then [(''action'', JStr ''wait''), (''reason'', JStr ''retry_backoff''), (''next_at'', JReal next_at)]
         else [(''action'', JStr ''attempt''), (''reason'', JNull)])"

section \<open>What the planners decide\<close>

text \<open>A task that was not prompted for a cooldown.\<close>

definition rested :: "(json \<Rightarrow> string) \<Rightarrow> time \<Rightarrow> time \<Rightarrow> (string \<rightharpoonup> time) \<Rightarrow> json \<Rightarrow> bool" where
  "rested txt now cooldown nudges task \<longleftrightarrow> cooldown \<le> now - or_else 0 (nudges (py_str txt (vget task ''id'')))"

lemma assigned_open_set: "set (assigned_open_tasks txt tasks pane) = {t \<in> set tasks. offerable txt pane t}"
  by (auto simp: assigned_open_tasks_def)

lemma sort_filter_head:
  fixes f :: "'a \<Rightarrow> 'k :: linorder"
  assumes "filter P (sort_key f xs) = x # ys"
  shows "x \<in> set xs" "P x" "\<And>y. y \<in> set xs \<Longrightarrow> P y \<Longrightarrow> f x \<le> f y"
proof -
  have "x \<in> set (filter P (sort_key f xs))" using assms by simp
  then show "x \<in> set xs" "P x" by auto
  have "sorted (map f (filter P (sort_key f xs)))" by (rule sorted_filter) simp
  then have le: "\<forall>y \<in> set (x # ys). f x \<le> f y" unfolding assms by auto
  fix y assume "y \<in> set xs" "P y"
  then have "y \<in> set (filter P (sort_key f xs))" by simp
  then show "f x \<le> f y" using le unfolding assms by blast
qed

lemma next_job_plan_claims:
  fixes p :: pacing and i :: next_job
  defines "now \<equiv> or_else (clock_now p) (nj_now i)"
    and "cooldown \<equiv> or_else (turn_end_task_cooldown_s p) (nj_task_cooldown_s i)"
    and "gap \<equiv> or_else (turn_end_min_gap_s p) (nj_min_gap_s i)"
  obtains (skip) why where "next_job_plan txt p i =
      jinsert ''reason'' (JStr why)
        [(''trigger'', JStr (nj_trigger i)), (''pane_id'', JStr (nj_pane_id i)),
         (''action'', JStr ''skip''), (''reason'', JNull), (''task_id'', JNull)]"
      "nj_pane_id i = [] \<or> non_empty_str (nj_dispatch_reason i) \<noteq> None \<or> nj_unread i \<noteq> Some 0
       \<or> nj_pending_delivery i \<or> too_soon now (nj_last_nudge_at i) gap
       \<or> (\<forall>t \<in> set (nj_tasks i). \<not> (offerable txt (nj_pane_id i) t \<and> rested txt now cooldown (nj_task_nudges i) t))"
  | (claim) t where "next_job_plan txt p i =
        [(''trigger'', JStr (nj_trigger i)), (''pane_id'', JStr (nj_pane_id i)),
         (''action'', JStr ''claim''), (''reason'', JNull), (''task_id'', JStr (py_str txt (vget t ''id'')))]"
      "nj_pane_id i \<noteq> []" "non_empty_str (nj_dispatch_reason i) = None" "nj_unread i = Some 0"
      "\<not> nj_pending_delivery i" "\<not> too_soon now (nj_last_nudge_at i) gap"
      "t \<in> set (nj_tasks i)" "offerable txt (nj_pane_id i) t" "rested txt now cooldown (nj_task_nudges i) t"
      "\<And>u. u \<in> set (nj_tasks i) \<Longrightarrow> offerable txt (nj_pane_id i) u \<Longrightarrow> rested txt now cooldown (nj_task_nudges i) u
        \<Longrightarrow> board_key txt t \<le> board_key txt u"
proof -
  let ?cs = "assigned_open_tasks txt (nj_tasks i) (nj_pane_id i)"
  let ?fresh = "filter (rested txt now cooldown (nj_task_nudges i)) ?cs"
  have fresh: "filter (\<lambda>task. cooldown \<le> now - or_else 0 (nj_task_nudges i (py_str txt (vget task ''id'')))) ?cs = ?fresh"
    by (simp add: rested_def [abs_def])
  have none: "?fresh = [] \<longleftrightarrow>
      (\<forall>t \<in> set (nj_tasks i). \<not> (offerable txt (nj_pane_id i) t \<and> rested txt now cooldown (nj_task_nudges i) t))"
    by (auto simp: filter_empty_conv assigned_open_set)
  consider (no) "nj_pane_id i = [] \<or> non_empty_str (nj_dispatch_reason i) \<noteq> None \<or> nj_unread i \<noteq> Some 0
       \<or> nj_pending_delivery i \<or> ?cs = [] \<or> too_soon now (nj_last_nudge_at i) gap \<or> ?fresh = []"
    | (yes) t ts where "nj_pane_id i \<noteq> []" "non_empty_str (nj_dispatch_reason i) = None" "nj_unread i = Some 0"
      "\<not> nj_pending_delivery i" "?cs \<noteq> []" "\<not> too_soon now (nj_last_nudge_at i) gap" "?fresh = t # ts"
    by (cases ?fresh) auto
  then show ?thesis
  proof cases
    case no
    then have "\<exists>why. next_job_plan txt p i =
      jinsert ''reason'' (JStr why)
        [(''trigger'', JStr (nj_trigger i)), (''pane_id'', JStr (nj_pane_id i)),
         (''action'', JStr ''skip''), (''reason'', JNull), (''task_id'', JNull)]"
      unfolding next_job_plan_def Let_def now_def [symmetric] cooldown_def [symmetric] gap_def [symmetric] fresh
      by (cases "nj_unread i"; cases "non_empty_str (nj_dispatch_reason i)"; cases ?fresh) auto
    moreover from no none have "nj_pane_id i = [] \<or> non_empty_str (nj_dispatch_reason i) \<noteq> None \<or> nj_unread i \<noteq> Some 0
       \<or> nj_pending_delivery i \<or> too_soon now (nj_last_nudge_at i) gap
       \<or> (\<forall>t \<in> set (nj_tasks i). \<not> (offerable txt (nj_pane_id i) t \<and> rested txt now cooldown (nj_task_nudges i) t))"
      by auto
    ultimately show ?thesis using skip by blast
  next
    case (yes t ts)
    have "t \<in> set ?fresh" using yes(7) by simp
    then have t: "t \<in> set (nj_tasks i)" "offerable txt (nj_pane_id i) t" "rested txt now cooldown (nj_task_nudges i) t"
      by (auto simp: assigned_open_set)
    have least: "board_key txt t \<le> board_key txt u"
      if "u \<in> set (nj_tasks i)" "offerable txt (nj_pane_id i) u" "rested txt now cooldown (nj_task_nudges i) u" for u
      using sort_filter_head(3) [OF yes(7) [unfolded assigned_open_tasks_def]] that by simp
    have "next_job_plan txt p i =
        [(''trigger'', JStr (nj_trigger i)), (''pane_id'', JStr (nj_pane_id i)),
         (''action'', JStr ''claim''), (''reason'', JNull), (''task_id'', JStr (py_str txt (vget t ''id'')))]"
      unfolding next_job_plan_def Let_def now_def [symmetric] cooldown_def [symmetric] gap_def [symmetric] fresh
      using yes by simp
    then show ?thesis by (rule claim [OF _ yes(1-4,6) t least])
  qed
qed

text \<open>
  C35: the planner claims at the right moment and the right task. A lane that goes free is told
  to claim exactly when it is a known lane the operator lets work, its mailbox is known to be
  empty, nothing is on its way to it, it was not prompted a moment ago, and some open,
  unblocked task is assigned to it that is past its cooldown.
\<close>

theorem claim_is_planned_exactly:
  "(jget (next_job_plan txt p i) ''action'' = Some (JStr ''claim'')) \<longleftrightarrow>
     nj_pane_id i \<noteq> [] \<and> non_empty_str (nj_dispatch_reason i) = None \<and> nj_unread i = Some 0
     \<and> \<not> nj_pending_delivery i
     \<and> \<not> too_soon (or_else (clock_now p) (nj_now i)) (nj_last_nudge_at i) (or_else (turn_end_min_gap_s p) (nj_min_gap_s i))
     \<and> list_ex (\<lambda>t. offerable txt (nj_pane_id i) t
          \<and> rested txt (or_else (clock_now p) (nj_now i))
              (or_else (turn_end_task_cooldown_s p) (nj_task_cooldown_s i)) (nj_task_nudges i) t) (nj_tasks i)"
  by (rule next_job_plan_claims [where i = i and p = p]) (auto simp: jget_def list_ex_iff)

text \<open>The item a nudge carries is work the lane holds a lease on.\<close>

lemma turn_end_nudge:
  assumes "jget (turn_end_plan txt p i) ''action'' = Some (JStr ''nudge'')"
  shows "\<exists>t \<in> set (te_tasks i). jget (turn_end_plan txt p i) ''item'' = Some t
     \<and> holds_lease txt (te_pane_id i) t \<and> str_or txt t ''status'' [] = ''in_progress''
     \<and> trim (str_or txt t ''block_reason'' []) = []"
proof -
  let ?held = "claimed_tasks txt (te_tasks i) (te_pane_id i)"
  have mem: "t \<in> set ?held \<Longrightarrow> t \<in> set (te_tasks i) \<and> holds_lease txt (te_pane_id i) t
      \<and> str_or txt t ''status'' [] = ''in_progress'' \<and> trim (str_or txt t ''block_reason'' []) = []" for t
    by (auto simp: claimed_tasks_def claimed_ok_def split: if_splits)
  define fresh where "fresh =
    (if 0 < or_else (turn_end_task_cooldown_s p) (te_task_cooldown_s i)
     then filter (\<lambda>task. \<not> (case te_task_nudges i (py_str txt (vget task ''id'')) of None \<Rightarrow> False
        | Some t \<Rightarrow> or_else (clock_now p) (te_now i) - t
             < or_else (turn_end_task_cooldown_s p) (te_task_cooldown_s i))) ?held
     else ?held)"
  have "set fresh \<subseteq> set ?held" by (auto simp: fresh_def)
  moreover from assms have "fresh \<noteq> [] \<and> jget (turn_end_plan txt p i) ''item'' = Some (hd fresh)"
    unfolding turn_end_plan_def Let_def fresh_def [symmetric]
    by (auto split: if_splits option.splits list.splits)
  ultimately have "hd fresh \<in> set ?held" "jget (turn_end_plan txt p i) ''item'' = Some (hd fresh)"
    using hd_in_set by auto
  with mem show ?thesis by blast
qed

lemma as_i32_id: "0 \<le> i \<Longrightarrow> i < 2 ^ 31 \<Longrightarrow> as_i32 i = i"
  by (simp add: as_i32_def)

text \<open>
  Retries are bounded and back off. Attempt \<open>n\<close> of a delivery is made only below the
  ceiling and only once \<open>gap * 2 ^ (n - 1)\<close> seconds have passed since the last one; the first
  is made at once.
\<close>

theorem delivery_retry_backs_off:
  assumes "attempt \<le> 2 ^ 31"
  shows "(jget (delivery_retry_plan p attempt last_at now max_attempts min_gap) ''action'' = Some (JStr ''attempt'')) \<longleftrightarrow>
     attempt < max_attempts
     \<and> (attempt = 0 \<or> or_else 0 last_at
          + max (or_else (turn_end_min_gap_s p) min_gap) 0 * 2 ^ nat (attempt - 1) \<le> now)"
proof -
  have "pow2 (as_i32 (max (attempt - 1) 0)) = 2 ^ nat (attempt - 1)"
    using assms as_i32_id [of "max (attempt - 1) 0"] by (simp add: pow2_def max_def)
  then show ?thesis by (auto simp: delivery_retry_plan_def Let_def jget_def)
qed

definition demo_pacing :: pacing where
  "demo_pacing = \<lparr>clock_now = 1000, turn_end_min_gap_s = 30, turn_end_task_cooldown_s = 300\<rparr>"

theorem delivery_retry_backs_off_witness:
  "jget (delivery_retry_plan demo_pacing 3 (Some 900) 1000 5 None) ''action'' \<noteq> Some (JStr ''attempt'')
   \<and> jget (delivery_retry_plan demo_pacing 3 (Some 880) 1000 5 None) ''action'' = Some (JStr ''attempt'')"
  using delivery_retry_backs_off [of 3 demo_pacing "Some 900" 1000 5 None]
    delivery_retry_backs_off [of 3 demo_pacing "Some 880" 1000 5 None]
  by (simp add: demo_pacing_def or_else_def)

end
