(* ===== verification/Advance.thy ===== *)
theory Advance
  imports Claims Next_Job Dispatch
begin

text \<open>
  \<^verbatim>\<open>advance_next_job\<close> (\<^verbatim>\<open>tasks/advance.rs\<close>): complete one task, choose and claim the next and
  journal the handoff, in one transaction. The planner is a function argument, as in the code;
  \<open>runtime_planner\<close> is the closure the daemon passes (\<^verbatim>\<open>next_job_runtime.rs\<close>), which asks
  \<^const>\<open>next_job_plan\<close>. The allowlist file is read twice under its lock, once when the
  completion is authorised and once before the commit; what the two reads give, or that they
  fail, is part of the operator's proof. The random part of a message id is an argument.
\<close>

section \<open>Data\<close>

record plan_input =
  pi_trigger :: string
  pi_pane_id :: string
  pi_tasks :: "decorated list"
  pi_unread :: int
  pi_pending_delivery :: bool
  pi_now :: time
  pi_dispatch_reason :: "string option"

type_synonym planner = "plan_input \<Rightarrow> json_map"
type_synonym allowlist_matcher = "string \<Rightarrow> json option \<Rightarrow> bool"

record operator_proof =
  op_pane_id :: string
  op_pane_info :: "json option"
  op_fresh_read :: "allowlist_matcher result"
  op_late_read :: "allowlist_matcher result"

record advance_options =
  av_from_task :: "string option"
  av_caller :: json_map
  av_unread :: int
  av_pending_delivery :: bool
  av_dispatch_reason :: "string option"
  av_operator_proof :: "operator_proof option"

record advance =
  ad_plan :: json_map
  ad_task :: "task_row option"

section \<open>The planner of the daemon\<close>

definition task_json :: "decorated \<Rightarrow> json" where
  "task_json d = JObj
     [(''id'', JStr (t_id (d_task d))), (''status'', JStr (t_status (d_task d))),
      (''priority'', JStr (t_priority (d_task d))), (''assignees'', json_strs (d_assignees d)),
      (''created_at'', JReal (t_created_at (d_task d))), (''blocked_by'', json_strs (blocked_by (d_deps d))),
      (''block_reason'', json_opt_str (t_block_reason (d_task d))),
      (''allocation_waiting'', JBool (d_allocation_waiting d))]"

definition runtime_planner :: "(json \<Rightarrow> string) \<Rightarrow> pacing \<Rightarrow> planner" where
  "runtime_planner txt p i = next_job_plan txt p
     \<lparr>nj_trigger = pi_trigger i, nj_pane_id = pi_pane_id i, nj_tasks = map task_json (pi_tasks i),
      nj_unread = (if 0 \<le> pi_unread i then Some (pi_unread i) else None),
      nj_pending_delivery = pi_pending_delivery i, nj_last_nudge_at = None, nj_task_nudges = (\<lambda>_. None),
      nj_now = Some (pi_now i), nj_min_gap_s = None, nj_task_cooldown_s = None,
      nj_dispatch_reason = pi_dispatch_reason i\<rparr>"

section \<open>The transaction\<close>

definition owners_of :: "task_row \<Rightarrow> time \<Rightarrow> store \<Rightarrow> string list" where
  "owners_of t now s =
     fold (\<lambda>l owners. if l_pane_id l \<noteq> [] \<and> l_pane_id l \<notin> set owners then owners @ [l_pane_id l] else owners)
       (leases_for (t_id t) now s) (t_assignees t)"

text \<open>\<^verbatim>\<open>claim_locked\<close>: the lease, the status, the attempt and the event.\<close>

definition claim_locked ::
    "decorated \<Rightarrow> string \<Rightarrow> time \<Rightarrow> json_map \<Rightarrow> time \<Rightarrow> store \<Rightarrow> store" where
  "claim_locked chosen pane lease_s caller now s =
     (let t = d_task chosen; tid = t_id t;
          added = (pane \<notin> set (d_assignees chosen));
          assignees = lease_assignees (d_assignees chosen) pane;
          pid = json_i64 (jget caller ''pid'');
          start = as_str (jget caller ''start'');
          who = as_str (jget caller ''name'');
          s = put_lease \<lparr>l_task_id = tid, l_pane_id = pane, l_claimed_at = now, l_heartbeat_at = now,
                l_expires_at = now + lease_s, l_caller_pid = pid, l_caller_start = start,
                l_caller_name = who, l_assignee_added = added\<rparr> s;
          s = upd_task tid (\<lambda>r. r\<lparr>t_status := ''in_progress'', t_assignees := assignees,
                t_attempts := t_attempts r + 1, t_updated_at := now, t_block_reason := None\<rparr>) s
      in log_event ((new_event tid ''claimed'' now)
           \<lparr>e_actor := Some pane, e_scope := Some (t_scope t), e_priority := Some (t_priority t),
            e_status_from := Some (t_status t), e_status_to := Some ''in_progress'',
            e_duration_ms := Some (duration_ms now (t_created_at t)),
            e_meta := Some (JObj [(''lease_seconds'', JReal lease_s), (''caller_pid'', json_opt_int pid),
                                  (''caller_name'', json_opt_str who)])\<rparr>) s)"

text \<open>The completion: the row, the claims on it, and the two events.\<close>

definition completed_row :: "time \<Rightarrow> string \<Rightarrow> task_row \<Rightarrow> task_row" where
  "completed_row now pane r = r\<lparr>t_status := ''done'', t_completed_at := Some now, t_completed_by := Some pane,
     t_updated_at := now, t_cancelled_at := None, t_block_reason := None\<rparr>"

definition complete_here :: "time \<Rightarrow> string \<Rightarrow> task_row \<Rightarrow> store \<Rightarrow> store" where
  "complete_here now pane row s =
     (let tid = t_id row;
          s = upd_task tid (completed_row now pane) s;
          released = claim_count tid s;
          s = end_claims tid s;
          s = (if 0 < released
               then log_event ((new_event tid ''lease_released'' now)
                      \<lparr>e_actor := Some pane, e_scope := Some (t_scope row), e_priority := Some (t_priority row),
                       e_status_to := Some ''done'',
                       e_meta := Some (JObj [(''reason'', JStr ''task completed''),
                                             (''leases_removed'', JInt (int released))])\<rparr>) s
               else s)
      in log_event ((new_event tid ''completed'' now)
           \<lparr>e_actor := Some pane, e_scope := Some (t_scope row), e_priority := Some (t_priority row),
            e_status_from := Some (t_status row), e_status_to := Some ''done'',
            e_duration_ms := Some (duration_ms now (t_created_at row))\<rparr>) s)"

definition granted :: "operator_proof option \<Rightarrow> string \<Rightarrow> bool" where
  "granted proof pane =
     (case proof of
        None \<Rightarrow> False
      | Some p \<Rightarrow> op_pane_id p = pane \<and> op_pane_id p \<noteq> []
          \<and> (case op_fresh_read p of Inl e \<Rightarrow> False | Inr matches \<Rightarrow> matches pane (op_pane_info p)))"

text \<open>
  What the first part of the transaction gives: an early answer, or the task come from, the
  time of its completion and the store.
\<close>

definition advance_start ::
    "env \<Rightarrow> string \<Rightarrow> string \<Rightarrow> advance_options \<Rightarrow> store
     \<Rightarrow> (advance + string option \<times> time option \<times> store) result" where
  "advance_start env pane trigger opts s =
     (let now = now_s env; from_task = non_empty_str (av_from_task opts) in
      if trigger = ''completion'' then
        try_bind (task_get (or_empty from_task) s) (\<lambda>row.
          if t_status row = ''done''
          then ok (Inl \<lparr>ad_plan = [(''action'', JStr ''skip''), (''reason'', JStr ''already_completed'')],
                        ad_task = Some row\<rparr>)
          else if pane \<notin> set (owners_of row now s) \<and> \<not> granted (av_operator_proof opts) pane
          then refused (NotOwner (or_empty from_task) pane (sort (owners_of row now s)))
          else ok (Inr (from_task, Some now, complete_here now pane row s)))
      else (case from_task of
          Some tid \<Rightarrow> try_bind (task_get tid s) (\<lambda>row. ok (Inr (from_task, t_completed_at row, s)))
        | None \<Rightarrow> (case find (\<lambda>e. e_event e = ''completed'' \<and> e_actor e = Some pane) (rev (st_events s)) of
              Some e \<Rightarrow> ok (Inr (Some (e_task_id e), Some (e_at e), s))
            | None \<Rightarrow> ok (Inr (None, None, s)))))"

definition advance_tasks :: "string \<Rightarrow> time \<Rightarrow> store \<Rightarrow> decorated list" where
  "advance_tasks pane now s =
     map (decorate_row now s (Some pane))
       (sort_key (\<lambda>t. (t_created_at t, t_id t))
         (filter (\<lambda>t. (t_scope t = ''global'' \<or> t_scope t = pane)
                    \<and> (t_status t = ''open'' \<or> t_status t = ''in_progress'')) (st_tasks s)))"

definition advance_plan ::
    "env \<Rightarrow> planner \<Rightarrow> string \<Rightarrow> string \<Rightarrow> advance_options \<Rightarrow> string option \<Rightarrow> time option \<Rightarrow> store \<Rightarrow> json_map" where
  "advance_plan env planner pane trigger opts from_task completion s =
     (let now = now_s env;
          tasks = advance_tasks pane now s;
          owned = map (\<lambda>d. t_id (d_task d)) (filter (\<lambda>d. pane \<in> set (d_assignees d)) tasks);
          active = active_handoffs pane owned s;
          held = list_ex (\<lambda>d. t_status (d_task d) = ''in_progress'' \<and> pane \<in> set (d_claimed_by d)) tasks;
          plan = planner \<lparr>pi_trigger = trigger, pi_pane_id = pane, pi_tasks = tasks, pi_unread = av_unread opts,
                   pi_pending_delivery = (av_pending_delivery opts \<or> active \<noteq> [] \<or> held), pi_now = now,
                   pi_dispatch_reason = av_dispatch_reason opts\<rparr>;
          plan = jinsert ''from_task'' (json_opt_str from_task) plan;
          plan = jinsert ''completion_at'' (case completion of Some c \<Rightarrow> JReal c | None \<Rightarrow> JNull) plan
      in jinsert ''caller'' (JObj (av_caller opts)) plan)"

text \<open>The handoff a claim journals, with its details in the order they are written.\<close>

definition claim_handoff ::
    "string \<Rightarrow> string \<Rightarrow> advance_options \<Rightarrow> string option \<Rightarrow> time option \<Rightarrow> json_map" where
  "claim_handoff mid trigger opts from_task completion =
     [(''from_task'', json_opt_str from_task),
      (''completion_at'', case completion of Some c \<Rightarrow> JReal c | None \<Rightarrow> JNull),
      (''message_id'', JStr mid), (''attempt'', JInt 0), (''reason'', JNull), (''state'', JStr ''pending''),
      (''trigger'', JStr trigger), (''caller'', JObj (av_caller opts))]"

definition advance_claim ::
    "env \<Rightarrow> string \<Rightarrow> string \<Rightarrow> string \<Rightarrow> advance_options \<Rightarrow> string option \<Rightarrow> time option \<Rightarrow> json_map \<Rightarrow> store
     \<Rightarrow> (json_map \<times> store) result" where
  "advance_claim env hex pane trigger opts from_task completion plan s =
     (if as_str (jget plan ''action'') \<noteq> Some ''claim'' then ok (plan, s)
      else let now = now_s env; wanted = or_empty (as_str (jget plan ''task_id'')) in
        (case find (\<lambda>d. t_id (d_task d) = wanted) (advance_tasks pane now s) of
           None \<Rightarrow> refused (UnknownChoice wanted)
         | Some chosen \<Rightarrow>
             if \<not> claimable_for chosen pane
             then ok (jinsert ''reason'' (JStr ''claim_unavailable'') (jinsert ''action'' (JStr ''skip'') plan), s)
             else
               let s = claim_locked chosen pane (default_lease_s env) (av_caller opts) now s;
                   mid = ''nj-'' @ hex;
                   handoff = claim_handoff mid trigger opts from_task completion
               in (case record_in \<lparr>ri_task_id = t_id (d_task chosen), ri_pane_id = pane, ri_from_task = from_task,
                          ri_message_id = Some mid, ri_attempt = 0, ri_reason = None, ri_now = now,
                          ri_details = handoff\<rparr> s of
                     (Inl e, s') \<Rightarrow> Inl e
                   | (Inr r, s') \<Rightarrow>
                       ok (jinsert ''handoff'' (JObj (jinsert ''pane_id'' (JStr pane)
                             (jinsert ''task_id'' (JStr (t_id (d_task chosen))) handoff))) plan, s'))))"

definition decision_event :: "time \<Rightarrow> string \<Rightarrow> string option \<Rightarrow> json_map \<Rightarrow> event_row" where
  "decision_event now pane from_task plan = (new_event (or_empty from_task) ''next_job_decision'' now)
     \<lparr>e_actor := Some pane, e_meta := Some (JObj (filter (\<lambda>(k, v). k \<noteq> ''handoff'') plan))\<rparr>"

text \<open>The late authorisation: ownership and a fresh read of the allowlist, at the commit.\<close>

definition late_check ::
    "env \<Rightarrow> string \<Rightarrow> string \<Rightarrow> advance_options \<Rightarrow> string option \<Rightarrow> store \<Rightarrow> unit result" where
  "late_check env pane trigger opts from_task s =
     (case (if trigger = ''completion'' \<and> pane \<noteq> [] \<and> from_task \<noteq> None then av_operator_proof opts else None) of
        None \<Rightarrow> ok ()
      | Some proof \<Rightarrow>
          try_bind (op_late_read proof) (\<lambda>matches.
          try_bind (task_get (or_empty from_task) s) (\<lambda>row.
            let owners = owners_of row (now_s env) s in
            if pane \<notin> set owners \<and> \<not> matches pane (op_pane_info proof)
            then refused (AuthorizationChanged (or_empty from_task) (sort owners))
            else ok ())))"

definition advance_in ::
    "env \<Rightarrow> planner \<Rightarrow> string \<Rightarrow> string \<Rightarrow> string \<Rightarrow> advance_options \<Rightarrow> advance op" where
  "advance_in env planner hex pane trigger opts s =
     (case advance_start env pane trigger opts s of
        Inl e \<Rightarrow> (Inl e, s)
      | Inr (Inl early) \<Rightarrow> (ok early, s)
      | Inr (Inr (from_task, completion, s1)) \<Rightarrow>
          (let plan = advance_plan env planner pane trigger opts from_task completion s1 in
           case advance_claim env hex pane trigger opts from_task completion plan s1 of
             Inl e \<Rightarrow> (Inl e, s)
           | Inr (plan, s2) \<Rightarrow>
               (let s3 = log_event (decision_event (now_s env) pane from_task plan) s2 in
                case late_check env pane trigger opts from_task s3 of
                  Inl e \<Rightarrow> (Inl e, s)
                | Inr _ \<Rightarrow> (ok \<lparr>ad_plan = plan, ad_task = None\<rparr>, s3))))"

definition advance_next_job ::
    "env \<Rightarrow> planner \<Rightarrow> string \<Rightarrow> string \<Rightarrow> string \<Rightarrow> advance_options \<Rightarrow> advance op" where
  "advance_next_job env planner hex pane trigger opts s =
     (case advance_in env planner hex pane trigger opts s of
        (Inl e, s') \<Rightarrow> (Inl e, s')
      | (Inr adv, s') \<Rightarrow>
          if trigger = ''completion'' \<and> ad_task adv = None then
            (case av_from_task opts of
               None \<Rightarrow> (ok adv, s')
             | Some tid \<Rightarrow> (case task_get tid s' of
                   Inl e \<Rightarrow> (Inl e, s')
                 | Inr t \<Rightarrow> (ok (adv\<lparr>ad_task := Some t\<rparr>), s')))
          else (ok adv, s'))"

end
