(* ===== verification/Next_Job_Effects.thy ===== *)
theory Next_Job_Effects
  imports Task_Machine
begin

text \<open>
  What recording a handoff and updating it do: the handoffs a pane reads are a keyed list that
  every write updates in place, an update reads back, and of two racers with the same
  expectation one wins.
\<close>

text \<open>The handoff a pane has under a message id.\<close>

definition handoff_of :: "string \<Rightarrow> string \<Rightarrow> store \<Rightarrow> handoff option" where
  "handoff_of pane mid s = map_of (handoff_table (Some pane) s) mid"

lemma handoff_of_reads:
  "handoff_of pane mid s = find (\<lambda>h. as_str (jget h ''message_id'') = Some mid) (handoffs_in (Some pane) s)"
  by (simp add: handoff_of_def find_handoff)

lemma handoff_table_empty [simp]: "handoff_table wanted empty_store = []"
  by (simp add: handoff_table_def next_job_events_def empty_store_def)

text \<open>
  C24: the event log implements a keyed list. The handoffs read are the entries of a list of
  distinct message ids, empty in a new store, and recording a handoff updates that list at its
  message id, or appends to it, and touches no other entry.
\<close>

theorem handoffs_refine_a_keyed_list:
  "handoffs_in wanted s = map snd (handoff_table wanted s)
   \<and> distinct (map fst (handoff_table wanted s))
   \<and> handoff_table wanted empty_store = []
   \<and> handoff_table wanted (snd (record_in i s)) =
       (case get_task (ri_task_id i) s of
          None \<Rightarrow> handoff_table wanted s
        | Some t \<Rightarrow> learn (handoff_entry wanted (handoff_event i t)) (handoff_table wanted s))"
  by (auto simp: handoffs_in_table distinct_handoff_table record_in_def handoff_table_log handoff_event_def
      new_event_def split: option.splits)

section \<open>Progress\<close>

text \<open>A JSON object has each key once; the rows of the log hold such objects.\<close>

definition metas_ok :: "store \<Rightarrow> bool" where
  "metas_ok s \<longleftrightarrow> list_all (\<lambda>e. distinct (map fst (meta_map e))) (st_events s)"

lemma jget_jextend:
  "jget (jextend m kvs) k = (case map_of (rev kvs) k of Some v \<Rightarrow> Some v | None \<Rightarrow> jget m k)"
  by (induction kvs arbitrary: m) (auto simp: jextend_def map_add_def split: option.splits)

lemma distinct_jextend: "distinct (map fst m) \<Longrightarrow> distinct (map fst (jextend m kvs))"
  by (induction kvs arbitrary: m) (auto simp: jextend_def distinct_jinsert)

lemma jget_rev: "distinct (map fst m) \<Longrightarrow> map_of (rev m) k = jget m k"
  by (metis distinct_rev jget_def map_of_eqI map_of_inject_set rev_map set_rev)

lemma jget_filter: "jget (filter (\<lambda>(k, v). P k) m) k = (if P k then jget m k else None)"
  by (induction m) (auto simp: jget_def)

lemma jextend_untouched: "k \<notin> fst ` set kvs \<Longrightarrow> jget (jextend m kvs) k = jget m k"
  by (force simp: jget_jextend split: option.splits dest: map_of_SomeD)

lemma update_cases:
  assumes "update_next_job env h expected changes s = (res, s')"
  defines "pane \<equiv> or_empty (as_str (jget h ''pane_id''))" and "mid \<equiv> or_empty (as_str (jget h ''message_id''))"
  obtains (missing) "handoff_of pane mid s = None" "res = refused (NoHandoff mid pane)" "s' = s"
  | (mismatch) old wish where "handoff_of pane mid s = Some old" "expected = Some wish"
      "list_ex (\<lambda>(k, v). jget old k \<noteq> Some v) wish" "res = ok None" "s' = s"
  | (no_task) old e where "handoff_of pane mid s = Some old" "res = Inl e" "s' = s"
  | (written) old t where "handoff_of pane mid s = Some old"
      "\<forall>wish. expected = Some wish \<longrightarrow> list_all (\<lambda>(k, v). jget old k = Some v) wish"
      "res = ok (Some (jextend old changes))"
      "get_task (ri_task_id (progress_input env (jextend old changes))) s = Some t"
      "s' = log_event (handoff_event (progress_input env (jextend old changes)) t) s"
proof -
  let ?latest = "\<lambda>old. jextend old changes"
  have run: "(res, s') = (case handoff_of pane mid s of
      None \<Rightarrow> (refused (NoHandoff mid pane), s)
    | Some old \<Rightarrow>
        if (case expected of None \<Rightarrow> False | Some wish \<Rightarrow> list_ex (\<lambda>(k, v). jget old k \<noteq> Some v) wish)
        then (ok None, s)
        else (case record_in (progress_input env (?latest old)) s of
            (Inl e, s') \<Rightarrow> (Inl e, s) | (Inr r, s') \<Rightarrow> (ok (Some (?latest old)), s')))"
    using assms(1) by (simp only: update_next_job_def Let_def handoff_of_reads pane_def mid_def)
  show ?thesis
  proof (cases "handoff_of pane mid s")
    case None
    show ?thesis by (rule missing [OF None]) (use run None in simp_all)
  next
    case (Some old)
    show ?thesis
    proof (cases "case expected of None \<Rightarrow> False | Some wish \<Rightarrow> list_ex (\<lambda>(k, v). jget old k \<noteq> Some v) wish")
      case True
      then obtain wish where "expected = Some wish" "list_ex (\<lambda>(k, v). jget old k \<noteq> Some v) wish"
        by (auto split: option.splits)
      then show ?thesis by (rule mismatch [OF Some]) (use run Some True in simp_all)
    next
      case False
      then have match: "\<forall>wish. expected = Some wish \<longrightarrow> list_all (\<lambda>(k, v). jget old k = Some v) wish"
        by (auto simp: list_ex_iff list_all_iff)
      show ?thesis
      proof (cases "get_task (ri_task_id (progress_input env (?latest old))) s")
        case None
        show ?thesis by (rule no_task [OF Some]) (use run Some False None in \<open>simp_all add: record_in_def\<close>)
      next
        case (Some t)
        show ?thesis
          by (rule written [OF \<open>handoff_of pane mid s = Some old\<close> match _ Some])
             (use run False Some \<open>handoff_of pane mid s = Some old\<close> in \<open>simp_all add: record_in_def\<close>)
      qed
    qed
  qed
qed

text \<open>The entry a progress event tells. The record has some keys of its own.\<close>

definition record_keys :: "string list" where
  "record_keys = [''task_id'', ''pane_id'', ''at'', ''from_task'', ''message_id'', ''attempt'', ''reason'']"

lemma progress_entry:
  assumes old: "handoff_of pane mid s = Some old" and ok: "metas_ok s"
    and keys: "''task_id'' \<notin> fst ` set changes" "''pane_id'' \<notin> fst ` set changes" "''message_id'' \<notin> fst ` set changes"
  defines "h \<equiv> jextend old changes"
  obtains new where
    "\<And>w. handoff_entry w (handoff_event (progress_input env h) t) =
       (if w = None \<or> w = Some pane then Some (mid, new) else None)"
    "jget new ''at'' = Some (JReal (now_s env))"
    "\<And>k v. k \<noteq> ''at'' \<Longrightarrow> jget h k = Some v \<Longrightarrow> jget new k = Some v"
    "\<And>k. k \<notin> set record_keys \<Longrightarrow> jget h k = None \<Longrightarrow> jget new k = None"
proof -
  let ?i = "progress_input env h"
  let ?e = "handoff_event ?i t"
  obtain e where e: "e \<in> set (st_events s)" "handoff_entry (Some pane) e = Some (mid, old)"
    "jget old ''pane_id'' = Some (JStr pane)" "jget old ''task_id'' = Some (JStr (e_task_id e))"
    "jget old ''message_id'' = Some (JStr mid)" "mid \<noteq> []" "jget old ''state'' \<noteq> None"
    using old unfolding handoff_of_def by (rule table_row)
  have "distinct (map fst old)"
    using e(1,2) ok by (auto simp: metas_ok_def list_all_iff handoff_entry_Some intro!: distinct_jinsert)
  then have d: "distinct (map fst h)" unfolding h_def by (rule distinct_jextend)
  have h: "jget h ''pane_id'' = Some (JStr pane)" "jget h ''task_id'' = Some (JStr (e_task_id e))"
    "jget h ''message_id'' = Some (JStr mid)"
    using e(3-5) keys by (simp_all add: h_def jextend_untouched)
  have st: "jget h ''state'' \<noteq> None" using e(7) by (auto simp: h_def jget_jextend split: option.splits)
  have meta: "jget (meta_map ?e) k = Some v"
    if "jget h k = Some v" "k \<noteq> ''task_id''" "k \<noteq> ''pane_id''" "k \<noteq> ''at''" for k v
  proof -
    let ?P = "\<lambda>k. k \<noteq> ''task_id'' \<and> k \<noteq> ''pane_id'' \<and> k \<noteq> ''at''"
    have "distinct (map fst (filter (\<lambda>(k, v). ?P k) h))" using d by (rule distinct_map_filter)
    then have "map_of (rev (filter (\<lambda>(k, v). ?P k) h)) k = Some v"
      using that jget_filter [of ?P h k] by (simp add: jget_rev)
    then show ?thesis
      by (simp add: meta_map_def handoff_event_def handoff_meta_def jget_jextend progress_input_def)
  qed
  have actor: "e_actor ?e = Some pane" and tid: "e_task_id ?e = e_task_id e" and at: "e_at ?e = now_s env"
    using h by (simp_all add: handoff_event_def progress_input_def as_str_def or_empty_def new_event_def)
  let ?new = "jinsert ''at'' (JReal (e_at ?e)) (jinsert ''pane_id'' (json_opt_str (e_actor ?e))
             (jinsert ''task_id'' (JStr (e_task_id ?e)) (meta_map ?e)))"
  show ?thesis
  proof (rule that [of ?new])
    show "handoff_entry w ?e = (if w = None \<or> w = Some pane then Some (mid, ?new) else None)" for w
      using meta [OF h(3)] meta [of "''state''"] st e(6) actor
      by (auto simp: handoff_entry_def Let_def as_str_def non_empty_str_def)
    show "jget ?new ''at'' = Some (JReal (now_s env))" by (simp add: at)
    show "jget ?new k = Some v" if "k \<noteq> ''at''" "jget h k = Some v" for k v
      using that h meta [of k v] by (auto simp: actor tid json_opt_str_def)
    show "jget ?new k = None" if "k \<notin> set record_keys" "jget h k = None" for k
    proof -
      have "k \<notin> fst ` set (filter (\<lambda>(k, v). k \<noteq> ''task_id'' \<and> k \<noteq> ''pane_id'' \<and> k \<noteq> ''at'') h)"
        using that(2) by (auto simp: jget_def map_of_eq_None_iff)
      then show ?thesis
        using that by (simp add: meta_map_def handoff_event_def handoff_meta_def progress_input_def
            jextend_untouched record_keys_def) (simp add: jget_def)
    qed
  qed
qed

lemma handoff_progress:
  assumes "metas_ok s" "update_next_job env h expected changes s = (ok (Some h'), s')"
    and "as_str (jget h ''pane_id'') = Some pane" "as_str (jget h ''message_id'') = Some mid"
    and "''task_id'' \<notin> fst ` set changes" "''pane_id'' \<notin> fst ` set changes" "''message_id'' \<notin> fst ` set changes"
  obtains old new where "handoff_of pane mid s = Some old" "h' = jextend old changes"
    "handoff_of pane mid s' = Some new" "jget new ''at'' = Some (JReal (now_s env))"
    "\<And>k v. k \<noteq> ''at'' \<Longrightarrow> jget h' k = Some v \<Longrightarrow> jget new k = Some v"
    "\<And>k. k \<notin> set record_keys \<Longrightarrow> jget h' k = None \<Longrightarrow> jget new k = None"
    "\<And>p m. (p, m) \<noteq> (pane, mid) \<Longrightarrow> handoff_of p m s' = handoff_of p m s"
    "map fst (handoff_table (Some pane) s') = map fst (handoff_table (Some pane) s)"
    "st_tasks s' = st_tasks s" "st_leases s' = st_leases s"
  using assms(2)
proof (cases rule: update_cases)
  case (written old t)
  from written(1) assms(3,4) have old: "handoff_of pane mid s = Some old" by (simp add: or_empty_def)
  let ?e = "handoff_event (progress_input env (jextend old changes)) t"
  obtain new where n:
    "\<And>w. handoff_entry w ?e = (if w = None \<or> w = Some pane then Some (mid, new) else None)"
    "jget new ''at'' = Some (JReal (now_s env))"
    "\<And>k v. k \<noteq> ''at'' \<Longrightarrow> jget (jextend old changes) k = Some v \<Longrightarrow> jget new k = Some v"
    "\<And>k. k \<notin> set record_keys \<Longrightarrow> jget (jextend old changes) k = None \<Longrightarrow> jget new k = None"
    by (rule progress_entry [OF old assms(1,5-7), where t = t]) (rule that; assumption)
  have table: "handoff_table (Some p) s' =
      (if p = pane then AList.update mid new (handoff_table (Some p) s) else handoff_table (Some p) s)" for p
    using n(1) by (simp add: written(5) handoff_table_log handoff_event_def new_event_def learn_def)
  show ?thesis
  proof (rule that [OF old _ _ n(2)])
    show "h' = jextend old changes" using written(3) by simp
    then show "jget new k = Some v" if "k \<noteq> ''at''" "jget h' k = Some v" for k v using n(3) that by simp
    show "jget new k = None" if "k \<notin> set record_keys" "jget h' k = None" for k
      using n(4) [OF that(1)] that(2) \<open>h' = jextend old changes\<close> by simp
    show "handoff_of pane mid s' = Some new" by (simp add: handoff_of_def table update_conv')
    show "handoff_of p m s' = handoff_of p m s" if "(p, m) \<noteq> (pane, mid)" for p m
      using that by (auto simp: handoff_of_def table update_conv')
    show "map fst (handoff_table (Some pane) s') = map fst (handoff_table (Some pane) s)"
      using old by (auto simp: table map_fst_update handoff_of_def dest!: map_of_SomeD)
         (metis fst_conv image_eqI)
  qed (simp_all add: written(5))
qed auto

text \<open>A handoff of the second task to the pane that finished the first, for the witnesses.\<close>

definition demo_handed :: store where
  "demo_handed = exec demo_env
     (Record_Handoff ''t2'' ''w:1'' (Some ''t1'') (Some ''m1'') 1 None None (Some [(''state'', JStr ''queued'')])) demo_filed"

definition demo_handoff :: handoff where
  "demo_handoff = [(''pane_id'', JStr ''w:1''), (''message_id'', JStr ''m1'')]"

abbreviation "demo_send \<equiv>
  update_next_job demo_env demo_handoff (Some [(''state'', JStr ''queued'')]) [(''state'', JStr ''sent'')]"

lemma demo_send_ok: "\<exists>h' s'. demo_send demo_handed = (ok (Some h'), s')"
proof -
  have "(case demo_send demo_handed of (Inr (Some h), s') \<Rightarrow> True | _ \<Rightarrow> False)" by code_simp
  then show ?thesis by (auto split: prod.splits sum.splits option.splits)
qed

lemma demo_handoff_facts:
  "metas_ok demo_handed" "as_str (jget demo_handoff ''pane_id'') = Some ''w:1''"
  "as_str (jget demo_handoff ''message_id'') = Some ''m1''"
  by code_simp+

text \<open>
  Progress reads back. An update that is made leaves the handoff with exactly the fields it
  had, the changes on top of them and the time of the update, it stays at its place in the
  order, and no other handoff, task or lease changes.
\<close>

theorem handoff_progress_reads_back:
  assumes "metas_ok s" "update_next_job env h expected changes s = (ok (Some h'), s')"
    and "as_str (jget h ''pane_id'') = Some pane" "as_str (jget h ''message_id'') = Some mid"
    and "''task_id'' \<notin> fst ` set changes" "''pane_id'' \<notin> fst ` set changes" "''message_id'' \<notin> fst ` set changes"
  shows "\<exists>old new. handoff_of pane mid s = Some old \<and> h' = jextend old changes
     \<and> handoff_of pane mid s' = Some new \<and> jget new ''at'' = Some (JReal (now_s env))
     \<and> (\<forall>k v. k \<noteq> ''at'' \<longrightarrow> jget h' k = Some v \<longrightarrow> jget new k = Some v)
     \<and> (\<forall>p m. (p, m) \<noteq> (pane, mid) \<longrightarrow> handoff_of p m s' = handoff_of p m s)
     \<and> map fst (handoff_table (Some pane) s') = map fst (handoff_table (Some pane) s)
     \<and> st_tasks s' = st_tasks s \<and> st_leases s' = st_leases s"
  by (rule handoff_progress [OF assms]) blast

theorem handoff_progress_reads_back_witness:
  "\<exists>h' s' new. demo_send demo_handed = (ok (Some h'), s') \<and> handoff_of ''w:1'' ''m1'' s' = Some new
     \<and> jget new ''state'' = Some (JStr ''sent'')"
proof -
  obtain h' s' where u: "demo_send demo_handed = (ok (Some h'), s')" using demo_send_ok by blast
  show ?thesis
    using handoff_progress_reads_back [OF demo_handoff_facts(1) u demo_handoff_facts(2,3)] u
    by (auto simp: jget_jextend)
qed

text \<open>
  C23: of two racers one wins. When an update under an expectation is made and changes one of the
  expected fields, a second update of the same handoff under the same expectation is refused
  with \<^verbatim>\<open>None\<close> and writes nothing, whoever makes it and whatever it would change.
\<close>

theorem one_racer_wins:
  assumes "metas_ok s" "update_next_job env h (Some wish) changes s = (ok (Some h'), s')"
    and "as_str (jget h ''pane_id'') = Some pane" "as_str (jget h ''message_id'') = Some mid"
    and "''task_id'' \<notin> fst ` set changes" "''pane_id'' \<notin> fst ` set changes" "''message_id'' \<notin> fst ` set changes"
    and "(k, v) \<in> set wish" "map_of (rev changes) k = Some v'" "v' \<noteq> v" "k \<noteq> ''at''"
  shows "update_next_job env2 h (Some wish) changes2 s' = (ok None, s')"
proof (rule handoff_progress [OF assms(1-7)])
  fix old new
  assume h': "h' = jextend old changes" and n: "handoff_of pane mid s' = Some new"
    "\<And>k v. k \<noteq> ''at'' \<Longrightarrow> jget h' k = Some v \<Longrightarrow> jget new k = Some v"
  have "jget new k = Some v'" using assms(9,11) by (intro n(2)) (simp_all add: h' jget_jextend)
  then have "list_ex (\<lambda>(k, v). jget new k \<noteq> Some v) wish"
    using assms(8,10) by (auto simp: list_ex_iff intro!: bexI [of _ "(k, v)"])
  then show ?thesis
    using n(1) assms(3,4) by (simp add: update_next_job_def Let_def or_empty_def handoff_of_reads)
qed

theorem one_racer_wins_witness:
  "\<exists>h' s'. demo_send demo_handed = (ok (Some h'), s') \<and> demo_send s' = (ok None, s')"
proof -
  obtain h' s' where u: "demo_send demo_handed = (ok (Some h'), s')" using demo_send_ok by blast
  show ?thesis
    using one_racer_wins [OF demo_handoff_facts(1) u demo_handoff_facts(2,3),
        where k = "''state''" and v = "JStr ''queued''" and v' = "JStr ''sent''"] u
    by auto
qed

end
