(* ===== verification/Allocation.thy ===== *)
theory Allocation
  imports Task_Edit Claims Next_Job Json_Text
begin

text \<open>
  Registered allocation (\<^verbatim>\<open>tasks/allocator.rs\<close>): workers register with pools, roles and skills,
  owners offer tasks, and one pass assigns every offered task to an idle worker who may take it.
  Reviews are offers with an exclusion list. The three allocation tables are created together,
  so \<^const>\<open>st_offers\<close> is \<^verbatim>\<open>None\<close> exactly while none of them exists. The guarded variant
  that takes the daemon's locks without waiting is concurrency around the same pass and is not
  modelled; neither is the raw status report.
\<close>

section \<open>Data\<close>

record worker_row =
  w_pane_id :: string
  w_pools :: "string list"
  w_roles :: "string list"
  w_skills :: "string list"
  w_enabled :: bool
  w_registered_by :: string
  w_updated_at :: time
  w_last_assigned :: time

record review_row =
  rv_source_id :: string
  rv_task_id :: string
  rv_revision :: string
  rv_author :: string

record desk =
  dk_store :: store
  dk_workers :: "worker_row list"
  dk_reviews :: "review_row list"

definition dk_offers :: "desk \<Rightarrow> offer_row list" where
  "dk_offers d = (case st_offers (dk_store d) of Some offers \<Rightarrow> offers | None \<Rightarrow> [])"

definition in_store :: "(store \<Rightarrow> store) \<Rightarrow> desk \<Rightarrow> desk" where
  "in_store f d = d\<lparr>dk_store := f (dk_store d)\<rparr>"

section \<open>Names and tags\<close>

definition simple_name :: "string \<Rightarrow> bool" where
  "simple_name s \<longleftrightarrow> 1 \<le> char_count s \<and> char_count s \<le> 80
     \<and> list_all (\<lambda>c. word_char c \<or> c = CHR '':'') s"

fun tag_texts :: "json list \<Rightarrow> string list option" where
  "tag_texts [] = Some []"
| "tag_texts (v # vs) = (case v of
       JStr s \<Rightarrow> if simple_name s then map_option ((#) s) (tag_texts vs) else None
     | _ \<Rightarrow> None)"

definition sort_dedup :: "string list \<Rightarrow> string list" where
  "sort_dedup xs = remdups_adj (sort xs)"

definition tags :: "json \<Rightarrow> bool \<Rightarrow> string list result" where
  "tags values required =
     (case Option.bind (as_array (Some values)) tag_texts of
        None \<Rightarrow> refused (Text ''tags must be a list of nonempty simple names'')
      | Some xs \<Rightarrow>
          if required \<and> sort_dedup xs = [] then refused (Text ''at least one tag is required'')
          else ok (sort_dedup xs))"

definition full_revision :: "string \<Rightarrow> bool" where
  "full_revision revision \<longleftrightarrow> 40 \<le> length revision \<and> length revision \<le> 64
     \<and> list_all (\<lambda>c. let n = (of_char c :: nat) in (48 \<le> n \<and> n \<le> 57) \<or> (97 \<le> n \<and> n \<le> 102)) revision"

section \<open>Registering and offering\<close>

definition registry_event :: "string \<Rightarrow> string \<Rightarrow> string \<Rightarrow> json \<Rightarrow> time \<Rightarrow> event_row" where
  "registry_event tid event actor meta now =
     (new_event tid event now)\<lparr>e_actor := Some actor, e_meta := Some meta\<rparr>"

definition allocation_init :: "desk \<Rightarrow> desk" where
  "allocation_init d =
     in_store (\<lambda>s. if st_offers s = None then s\<lparr>st_offers := Some []\<rparr> else s) d"

definition allocation_register ::
    "env \<Rightarrow> string \<Rightarrow> json \<Rightarrow> json \<Rightarrow> json \<Rightarrow> string \<Rightarrow> json \<Rightarrow> desk \<Rightarrow> unit result \<times> desk" where
  "allocation_register env pane pools roles skills actor enabled d =
     (case enabled of
        JBool enabled \<Rightarrow>
          (case try_bind (tags pools True) (\<lambda>pools. try_bind (tags roles True) (\<lambda>roles.
                try_bind (tags skills False) (\<lambda>skills. ok (pools, roles, skills)))) of
             Inl e \<Rightarrow> (Inl e, d)
           | Inr (pools, roles, skills) \<Rightarrow>
               if \<not> list_all (\<lambda>r. r = ''worker'' \<or> r = ''reviewer'') roles
               then (refused (Text ''roles must be worker or reviewer''), d)
               else if pane = [] \<or> actor = []
               then (refused (Text ''registration requires pane and operator''), d)
               else if st_offers (dk_store d) = None
               then (refused (Text ''no such table: allocation_workers''), d)
               else
                 let row = \<lparr>w_pane_id = pane, w_pools = pools, w_roles = roles, w_skills = skills,
                            w_enabled = enabled, w_registered_by = actor, w_updated_at = now_s env,
                            w_last_assigned = 0\<rparr>;
                     d = d\<lparr>dk_workers := row_upsert w_pane_id
                            (\<lambda>w. row\<lparr>w_last_assigned := w_last_assigned w\<rparr>) row (dk_workers d)\<rparr>
                 in (ok (), in_store (log_event (registry_event [] ''allocation_registered'' actor
                       (JObj [(''pane_id'', JStr pane), (''enabled'', JBool enabled), (''pools'', json_strs pools),
                              (''roles'', json_strs roles), (''skills'', json_strs skills)]) (now_s env))) d))
      | _ \<Rightarrow> (refused (Text ''enabled must be boolean''), d))"

definition has_intent :: "string \<Rightarrow> store \<Rightarrow> bool" where
  "has_intent tid s \<longleftrightarrow> list_ex (\<lambda>h. as_str (jget h ''task_id'') = Some tid
     \<and> as_str (jget h ''state'') \<noteq> Some ''cancelled'') (handoffs_in None s)"

definition offer_in ::
    "string \<Rightarrow> string \<Rightarrow> string \<Rightarrow> json \<Rightarrow> string list \<Rightarrow> string \<Rightarrow> time \<Rightarrow> desk \<Rightarrow> desk result" where
  "offer_in tid pool role requires excluded actor now d =
     try_bind (task_get tid (dk_store d)) (\<lambda>t.
     let dec = decorate_row now (dk_store d) None t in
     if t_scope t \<noteq> ''global'' \<or> \<not> (t_status t = ''open'' \<or> t_status t = ''blocked'')
     then refused (Text ''only open/blocked global backlog can be offered'')
     else if trim (t_body t) = [] \<or> d_assignees dec = [] \<or> d_leases dec \<noteq> [] \<or> d_multi_assignee dec
     then refused (Text ''offer requires body, owner, exclusive task and no lease'')
     else if role \<noteq> ''worker'' \<and> role \<noteq> ''reviewer'' then refused (Text ''invalid allocation role'')
     else
       try_bind (tags (JArr [JStr pool]) True) (\<lambda>_.
       try_bind (tags requires False) (\<lambda>requires.
       if has_intent tid (dk_store d) then refused (Text ''task already has a delivery intent'')
       else
         let row = \<lparr>o_task_id = tid, o_pool = pool, o_role = role, o_requires = requires,
                    o_excluded = sort_dedup excluded, o_owners = sort (d_assignees dec),
                    o_offered_by = actor, o_state = ''ready''\<rparr>;
             offers = row_upsert o_task_id (\<lambda>_. row) row (dk_offers d)
         in ok (in_store (\<lambda>s. log_event (registry_event tid ''allocation_offered'' actor
                  (JObj [(''pool'', JStr pool), (''role'', JStr role), (''requires'', json_strs requires)]) now)
                  (s\<lparr>st_offers := Some offers\<rparr>)) d))))"

definition allocation_offer ::
    "env \<Rightarrow> string \<Rightarrow> string \<Rightarrow> json \<Rightarrow> string \<Rightarrow> desk \<Rightarrow> task_row result \<times> desk" where
  "allocation_offer env tid pool requires actor d =
     (if st_offers (dk_store d) = None then (refused (Text ''no such table: allocation_reviews''), d)
      else if find (\<lambda>r. rv_task_id r = tid) (dk_reviews d) \<noteq> None
      then (refused (Text ''canonical review cannot be reoffered as worker work''), d)
      else (case offer_in tid pool ''worker'' requires [] actor (now_s env) d of
          Inl e \<Rightarrow> (Inl e, d)
        | Inr d' \<Rightarrow> (task_get tid (dk_store d'), d')))"

section \<open>Submitting work for review\<close>

definition review_body :: "string \<Rightarrow> string \<Rightarrow> string \<Rightarrow> string" where
  "review_body revision source_id body =
     ''Frozen revision: '' @ revision @ [CHR 0x0A] @ ''Source task: '' @ source_id @ [CHR 0x0A, CHR 0x0A] @ body"

text \<open>The first review of a source: a new task of its author, with the columns' defaults.\<close>

definition review_row_of ::
    "string \<Rightarrow> task_row \<Rightarrow> string \<Rightarrow> string \<Rightarrow> time \<Rightarrow> task_row" where
  "review_row_of tid source body author now =
     \<lparr>t_id = tid, t_scope = ''global'', t_title = ''Review: '' @ t_title source, t_body = body,
      t_status = ''open'', t_priority = t_priority source, t_parent_id = Some (t_id source),
      t_multi_assignee = False, t_attempts = 0, t_assignees = [author], t_depends_on = [],
      t_created_at = now, t_updated_at = now, t_created_by = Some author, t_completed_by = None,
      t_completed_at = None, t_cancelled_at = None, t_block_reason = None, t_kind = ''work'',
      t_author = None, t_repo = None, t_pr = None, t_head = None, t_verdict = None,
      t_accounting_pr = None, t_landed = True\<rparr>"

definition file_review :: "task_row \<Rightarrow> string \<Rightarrow> string \<Rightarrow> time \<Rightarrow> store \<Rightarrow> string \<times> store" where
  "file_review source body author now s =
     (let n = next_number s; tid = task_id_of n;
          row = review_row_of tid source body author now
      in (tid, log_event ((new_event tid ''created'' now)
                 \<lparr>e_actor := Some author, e_scope := Some ''global'', e_priority := Some (t_priority source),
                  e_status_to := Some ''open''\<rparr>)
               (s\<lparr>st_counter := Some n, st_tasks := st_tasks s @ [row]\<rparr>)))"

definition reopen_review :: "string \<Rightarrow> string \<Rightarrow> string \<Rightarrow> time \<Rightarrow> store \<Rightarrow> store" where
  "reopen_review tid body author now s =
     upd_task tid (\<lambda>t. t\<lparr>t_status := ''open'', t_body := body, t_assignees := [author], t_updated_at := now,
        t_completed_at := None, t_completed_by := None\<rparr>) (end_claims tid s)"

fun cancel_intents :: "string \<Rightarrow> time \<Rightarrow> handoff list \<Rightarrow> store \<Rightarrow> store result" where
  "cancel_intents tid now [] s = ok s"
| "cancel_intents tid now (h # hs) s =
     (if as_str (jget h ''task_id'') = Some tid \<and> as_str (jget h ''state'') \<noteq> Some ''cancelled''
      then (case record_in
              \<lparr>ri_task_id = tid, ri_pane_id = or_empty (as_str (jget h ''pane_id'')),
               ri_from_task = as_str (jget h ''from_task''), ri_message_id = None, ri_attempt = 0,
               ri_reason = None, ri_now = now,
               ri_details = jinsert ''reason'' (JStr ''review_revision_superseded'')
                              (jinsert ''state'' (JStr ''cancelled'') h)\<rparr> s of
              (Inl e, s') \<Rightarrow> Inl e
            | (Inr r, s') \<Rightarrow> cancel_intents tid now hs s')
      else cancel_intents tid now hs s)"

definition barred :: "task_row \<Rightarrow> offer_row option \<Rightarrow> string list" where
  "barred source prior =
     t_assignees source
     @ filter (\<lambda>p. p \<noteq> []) (case t_created_by source of Some p \<Rightarrow> [p] | None \<Rightarrow> [])
     @ filter (\<lambda>p. p \<noteq> []) (case t_completed_by source of Some p \<Rightarrow> [p] | None \<Rightarrow> [])
     @ (case prior of Some o1 \<Rightarrow> o_excluded o1 | None \<Rightarrow> [])"

text \<open>The review task of a submission: the one of an earlier revision, reopened, or a new one.\<close>

definition review_task ::
    "review_row option \<Rightarrow> task_row \<Rightarrow> string \<Rightarrow> string \<Rightarrow> time \<Rightarrow> store \<Rightarrow> (string \<times> store) result" where
  "review_task old source body author now s =
     (case old of
        None \<Rightarrow> ok (file_review source body author now s)
      | Some r \<Rightarrow>
          (case get_task (rv_task_id r) s of
             None \<Rightarrow> refused (Text ''Query returned no rows'')
           | Some previous \<Rightarrow>
               if t_status previous \<noteq> ''done'' then refused (Text ''prior review is not finished'')
               else
                 let s = reopen_review (rv_task_id r) body author now s in
                 try_bind (cancel_intents (rv_task_id r) now (handoffs_in None s) s)
                   (\<lambda>s. ok (rv_task_id r, s))))"

definition review_in ::
    "string \<Rightarrow> string \<Rightarrow> string \<Rightarrow> string \<Rightarrow> json \<Rightarrow> string \<Rightarrow> time \<Rightarrow> desk \<Rightarrow> (string \<times> desk) result" where
  "review_in source_id revision body pool requires author now d =
     (let body = review_body revision source_id body in
      try_bind (task_get source_id (dk_store d)) (\<lambda>source.
      if t_scope source \<noteq> ''global'' \<or> author \<notin> set (t_assignees source)
      then refused (Text ''only source owner may submit global work for review'')
      else if st_offers (dk_store d) = None then refused (Text ''no such table: allocation_reviews'')
      else
        let old = row_get rv_source_id source_id (dk_reviews d) in
        if (case old of Some r \<Rightarrow> rv_author r \<noteq> author | None \<Rightarrow> False)
        then refused (Text ''review author changed; operator reconciliation required'')
        else if (case old of Some r \<Rightarrow> rv_revision r = revision | None \<Rightarrow> False)
        then ok (rv_task_id (the old), d)
        else
          try_bind (review_task old source body author now (dk_store d)) (\<lambda>(tid, s).
          let d1 = d\<lparr>dk_store := s\<rparr>;
              excluded = sort_dedup (barred source (row_get o_task_id tid (dk_offers d1)))
          in try_bind (offer_in tid pool ''reviewer'' requires excluded author now d1) (\<lambda>d2.
             let row = \<lparr>rv_source_id = source_id, rv_task_id = tid, rv_revision = revision, rv_author = author\<rparr>;
                 d3 = d2\<lparr>dk_reviews := row_upsert rv_source_id (\<lambda>r. r\<lparr>rv_revision := revision\<rparr>) row (dk_reviews d2)\<rparr>
             in ok (tid, in_store (log_event (registry_event source_id ''review_submitted'' author
                  (JObj [(''review_task'', JStr tid), (''revision'', JStr revision)]) now)) d3)))))"

definition allocation_review ::
    "env \<Rightarrow> string \<Rightarrow> string \<Rightarrow> string \<Rightarrow> string \<Rightarrow> json \<Rightarrow> string \<Rightarrow> desk \<Rightarrow> task_row result \<times> desk" where
  "allocation_review env source_id revision body pool requires author d =
     (if \<not> full_revision revision \<or> trim body = []
      then (refused (Text ''review requires full revision hash and evidence/acceptance body''), d)
      else (case review_in source_id revision body pool requires author (now_s env) d of
          Inl e \<Rightarrow> (Inl e, d)
        | Inr (tid, d') \<Rightarrow> (task_get tid (dk_store d'), d')))"

section \<open>The allocation pass\<close>

text \<open>\<^verbatim>\<open>_claim_locked\<close> as the allocator writes it; \<^verbatim>\<open>caller\<close> is a JSON value.\<close>

definition caller_text :: "(json \<Rightarrow> string) \<Rightarrow> json option \<Rightarrow> string option" where
  "caller_text txt v = (case v of
       None \<Rightarrow> None | Some JNull \<Rightarrow> None | Some (JStr s) \<Rightarrow> Some s | Some other \<Rightarrow> Some (txt other))"

definition claim_locked_in ::
    "(json \<Rightarrow> string) \<Rightarrow> task_row \<Rightarrow> string list \<Rightarrow> string \<Rightarrow> time \<Rightarrow> json \<Rightarrow> time \<Rightarrow> store \<Rightarrow> store" where
  "claim_locked_in txt t owners pane lease_s caller now s =
     (let tid = t_id t;
          lease = \<lparr>l_task_id = tid, l_pane_id = pane, l_claimed_at = now, l_heartbeat_at = now,
                l_expires_at = now + lease_s, l_caller_pid = json_i64 (vget caller ''pid''),
                l_caller_start = caller_text txt (vget caller ''start''),
                l_caller_name = caller_text txt (vget caller ''name''),
                l_assignee_added = (pane \<notin> set owners)\<rparr>;
          s = put_lease lease s;
          s = upd_task tid (\<lambda>r. r\<lparr>t_status := ''in_progress'', t_assignees := lease_assignees owners pane,
                t_attempts := t_attempts r + 1, t_updated_at := now, t_block_reason := None\<rparr>) s
      in log_event ((new_event tid ''claimed'' now)
           \<lparr>e_actor := Some pane, e_scope := Some (t_scope t), e_priority := Some (t_priority t),
            e_status_from := Some (t_status t), e_status_to := Some ''in_progress'',
            e_duration_ms := Some (duration_ms now (t_created_at t)),
            e_meta := Some (JObj [(''lease_seconds'', JReal lease_s),
               (''caller_pid'', case vget caller ''pid'' of Some v \<Rightarrow> v | None \<Rightarrow> JNull),
               (''caller_name'', case vget caller ''name'' of Some v \<Rightarrow> v | None \<Rightarrow> JNull)])\<rparr>) s)"

text \<open>The workers in the order they are tried, and the tasks that count for capacity.\<close>

definition enabled_workers :: "desk \<Rightarrow> worker_row list" where
  "enabled_workers d =
     sort_key (\<lambda>w. (w_last_assigned w, w_pane_id w)) (filter w_enabled (dk_workers d))"

definition capacity_tasks :: "time \<Rightarrow> store \<Rightarrow> decorated list" where
  "capacity_tasks now s =
     map (decorate_row now s None) (filter (\<lambda>t. \<not> is_terminal (t_status t)) (st_tasks s))"

definition ready_offers :: "desk \<Rightarrow> string \<Rightarrow> offer_row option" where
  "ready_offers d tid = find (\<lambda>r. o_task_id r = tid \<and> o_state r = ''ready'') (dk_offers d)"

definition blank :: "string option \<Rightarrow> bool" where
  "blank v = (case v of None \<Rightarrow> True | Some s \<Rightarrow> s = [])"

text \<open>The tests on a task, and on a worker for it; \<open>owners\<close> are the assignees the pass has written.\<close>

definition task_allocatable :: "decorated \<Rightarrow> string list \<Rightarrow> offer_row \<Rightarrow> bool" where
  "task_allocatable x owners offer \<longleftrightarrow>
     t_status (d_task x) = ''open'' \<and> blocked_by (d_deps x) = [] \<and> blank (t_block_reason (d_task x))
     \<and> d_leases x = [] \<and> t_scope (d_task x) = ''global'' \<and> sort owners = o_owners offer"

definition worker_fits :: "worker_row \<Rightarrow> offer_row \<Rightarrow> bool" where
  "worker_fits w offer \<longleftrightarrow>
     w_pane_id w \<notin> set (o_excluded offer) \<and> o_pool offer \<in> set (w_pools w) \<and> o_role offer \<in> set (w_roles w)
     \<and> list_all (\<lambda>r. r \<in> set (w_skills w)) (o_requires offer)"

definition pane_busy :: "string \<Rightarrow> time \<Rightarrow> store \<Rightarrow> bool" where
  "pane_busy pane now s \<longleftrightarrow> list_ex (\<lambda>l. l_pane_id l = pane \<and> live now l
     \<and> (case get_task (l_task_id l) s of Some t \<Rightarrow> t_status t = ''in_progress'' | None \<Rightarrow> False)) (st_leases s)"

definition owns_work :: "string \<Rightarrow> decorated list \<Rightarrow> (string \<Rightarrow> string list) \<Rightarrow> bool" where
  "owns_work pane xs owners \<longleftrightarrow> list_ex (\<lambda>x.
     pane \<in> set (owners (t_id (d_task x))) \<and> \<not> d_allocation_waiting x
     \<and> (t_status (d_task x) = ''in_progress''
        \<or> t_status (d_task x) = ''open'' \<and> blocked_by (d_deps x) = [] \<and> blank (t_block_reason (d_task x)))) xs"

definition pane_intents :: "string \<Rightarrow> string list \<Rightarrow> store \<Rightarrow> bool" where
  "pane_intents pane ids s \<longleftrightarrow> list_ex (\<lambda>h.
     (case as_str (jget h ''task_id'') of Some tid \<Rightarrow> tid \<in> set ids | None \<Rightarrow> False)
     \<and> as_str (jget h ''state'') \<noteq> Some ''cancelled'') (handoffs_in (Some pane) s)"

text \<open>
  The state of the pass: the desk, the panes given work, the handoffs returned, and the
  assignees of each task as the pass has them in memory.
\<close>

record alloc_state =
  al_desk :: desk
  al_used :: "string list"
  al_results :: "json_map list"
  al_owners :: "string \<Rightarrow> string list"

definition worker_ok ::
    "time \<Rightarrow> (string \<rightharpoonup> json) \<Rightarrow> decorated list \<Rightarrow> alloc_state \<Rightarrow> offer_row \<Rightarrow> worker_row \<Rightarrow> bool" where
  "worker_ok now idle xs a offer w \<longleftrightarrow>
     idle (w_pane_id w) \<noteq> None \<and> w_pane_id w \<notin> set (al_used a) \<and> worker_fits w offer
     \<and> \<not> pane_busy (w_pane_id w) now (dk_store (al_desk a))
     \<and> \<not> owns_work (w_pane_id w) xs (al_owners a)
     \<and> \<not> pane_intents (w_pane_id w) (map (\<lambda>x. t_id (d_task x)) xs) (dk_store (al_desk a))"

definition allocation_handoff :: "string \<Rightarrow> json \<Rightarrow> json_map" where
  "allocation_handoff mid caller =
     [(''from_task'', JNull), (''completion_at'', JNull), (''message_id'', JStr mid), (''attempt'', JInt 0),
      (''reason'', JNull), (''state'', JStr ''pending''), (''trigger'', JStr ''allocation''), (''caller'', caller)]"

definition assign_offer ::
    "(json \<Rightarrow> string) \<Rightarrow> env \<Rightarrow> (nat \<Rightarrow> string) \<Rightarrow> (string \<rightharpoonup> json) \<Rightarrow> decorated \<Rightarrow> offer_row \<Rightarrow> worker_row
     \<Rightarrow> alloc_state \<Rightarrow> alloc_state result" where
  "assign_offer txt env hex idle x offer w a =
     (let now = now_s env; t = d_task x; tid = t_id t; pane = w_pane_id w;
          caller = the (idle pane);
          s = upd_task tid (\<lambda>r. r\<lparr>t_assignees := [pane]\<rparr>) (dk_store (al_desk a));
          s = claim_locked_in txt t [pane] pane (default_lease_s env) caller now s;
          mid = ''nj-'' @ hex (length (al_results a));
          handoff = allocation_handoff mid caller
      in case record_in \<lparr>ri_task_id = tid, ri_pane_id = pane, ri_from_task = None, ri_message_id = None,
             ri_attempt = 0, ri_reason = None, ri_now = now, ri_details = handoff\<rparr> s of
           (Inl e, s') \<Rightarrow> Inl e
         | (Inr r, s) \<Rightarrow>
             let s = s\<lparr>st_offers := map_option (row_update (\<lambda>o1. o_task_id o1 = tid)
                        (\<lambda>o1. o1\<lparr>o_state := ''assigned''\<rparr>)) (st_offers s)\<rparr>;
                 s = log_event (registry_event tid ''allocated'' pane
                       (JObj [(''pool'', JStr (o_pool offer)), (''role'', JStr (o_role offer)),
                              (''previous_owners'', json_strs (o_owners offer)), (''message_id'', JStr mid)]) now) s;
                 ws = row_update (\<lambda>v. w_pane_id v = pane) (\<lambda>v. v\<lparr>w_last_assigned := now\<rparr>) (dk_workers (al_desk a))
             in ok \<lparr>al_desk = (al_desk a)\<lparr>dk_store := s, dk_workers := ws\<rparr>,
                    al_used = al_used a @ [pane],
                    al_results = al_results a @ [jinsert ''pane_id'' (JStr pane) (jinsert ''task_id'' (JStr tid) handoff)],
                    al_owners = (al_owners a)(tid := [pane])\<rparr>)"

fun allocate_all ::
    "(json \<Rightarrow> string) \<Rightarrow> env \<Rightarrow> (nat \<Rightarrow> string) \<Rightarrow> (string \<rightharpoonup> json) \<Rightarrow> worker_row list \<Rightarrow> decorated list
     \<Rightarrow> (decorated \<times> offer_row) list \<Rightarrow> alloc_state \<Rightarrow> alloc_state result" where
  "allocate_all txt env hex idle ws xs [] a = ok a"
| "allocate_all txt env hex idle ws xs ((x, offer) # cs) a =
     (if \<not> task_allocatable x (al_owners a (t_id (d_task x))) offer
      then allocate_all txt env hex idle ws xs cs a
      else (case find (worker_ok (now_s env) idle xs a offer) ws of
          None \<Rightarrow> allocate_all txt env hex idle ws xs cs a
        | Some w \<Rightarrow> try_bind (assign_offer txt env hex idle x offer w a)
            (allocate_all txt env hex idle ws xs cs)))"

definition allocation_candidates :: "desk \<Rightarrow> decorated list \<Rightarrow> (decorated \<times> offer_row) list" where
  "allocation_candidates d xs =
     sort_key (\<lambda>(x, _). task_order (d_task x))
       (concat (map (\<lambda>x. case ready_offers d (t_id (d_task x)) of Some offer \<Rightarrow> [(x, offer)] | None \<Rightarrow> []) xs))"

definition allocate_in ::
    "(json \<Rightarrow> string) \<Rightarrow> env \<Rightarrow> (nat \<Rightarrow> string) \<Rightarrow> (string \<rightharpoonup> json) \<Rightarrow> desk \<Rightarrow> (json_map list \<times> desk) result" where
  "allocate_in txt env hex idle d =
     (let xs = capacity_tasks (now_s env) (dk_store d);
          owners = (\<lambda>tid. case find (\<lambda>x. t_id (d_task x) = tid) xs of Some x \<Rightarrow> d_assignees x | None \<Rightarrow> [])
      in try_bind (allocate_all txt env hex idle (enabled_workers d) xs (allocation_candidates d xs)
                     \<lparr>al_desk = d, al_used = [], al_results = [], al_owners = owners\<rparr>)
           (\<lambda>a. ok (al_results a, al_desk a)))"

definition allocation_allocate ::
    "(json \<Rightarrow> string) \<Rightarrow> env \<Rightarrow> (nat \<Rightarrow> string) \<Rightarrow> (string \<rightharpoonup> json) \<Rightarrow> desk \<Rightarrow> json_map list result \<times> desk" where
  "allocation_allocate txt env hex idle d =
     (if st_offers (dk_store d) = None then (refused (Text ''no such table: allocation_workers''), d)
      else (case allocate_in txt env hex idle d of
          Inl e \<Rightarrow> (Inl e, d)
        | Inr (results, d') \<Rightarrow> (ok results, d')))"

end
