(* ===== verification/Allocation_Effects.thy ===== *)
theory Allocation_Effects
  imports Allocation Task_Machine
begin

text \<open>
  What an allocation pass guarantees of every assignment it makes, and what submitting work for
  review guarantees of who may review it.
\<close>

section \<open>The pass\<close>

text \<open>What is written for one assignment.\<close>

definition placed :: "string \<Rightarrow> string \<Rightarrow> time \<Rightarrow> store \<Rightarrow> bool" where
  "placed tid pane until s \<longleftrightarrow>
     map_option (\<lambda>t. (t_status t, t_assignees t)) (get_task tid s) = Some (''in_progress'', [pane])
     \<and> map_option l_expires_at (get_lease tid pane s) = Some until"

lemma get_task_offers [simp]: "get_task i (s\<lparr>st_offers := os\<rparr>) = get_task i s"
  by (simp add: get_task_def)

lemma get_lease_offers [simp]: "get_lease i p (s\<lparr>st_offers := os\<rparr>) = get_lease i p s"
  by (simp add: get_lease_def)

lemma claim_locked_in_get:
  "get_task i (claim_locked_in txt t owners pane lease_s caller now s) =
    (if i = t_id t
     then map_option (\<lambda>r. r\<lparr>t_status := ''in_progress'', t_assignees := lease_assignees owners pane,
            t_attempts := t_attempts r + 1, t_updated_at := now, t_block_reason := None\<rparr>) (get_task i s)
     else get_task i s)"
  by (simp add: claim_locked_in_def Let_def get_task_upd)

lemma claim_locked_in_lease:
  "map_option l_expires_at (get_lease i p (claim_locked_in txt t owners pane lease_s caller now s)) =
    (if i = t_id t \<and> p = pane then Some (now + lease_s) else map_option l_expires_at (get_lease i p s))"
  by (simp add: claim_locked_in_def Let_def get_lease_put)

lemma get_lease_upd_task [simp]: "get_lease i p (upd_task tid f s) = get_lease i p s"
  by simp

lemma assign_offer_ok:
  assumes "assign_offer txt env hex idle x offer w a = ok a'"
  defines "tid \<equiv> t_id (d_task x)" and "pane \<equiv> w_pane_id w"
  shows "al_used a' = al_used a @ [pane]"
    "\<exists>h. al_results a' = al_results a @ [h] \<and> jget h ''task_id'' = Some (JStr tid) \<and> jget h ''pane_id'' = Some (JStr pane)"
    "al_owners a' = (al_owners a)(tid := [pane])"
    "placed tid pane (now_s env + default_lease_s env) (dk_store (al_desk a'))"
    "\<And>i. i \<noteq> tid \<Longrightarrow> get_task i (dk_store (al_desk a')) = get_task i (dk_store (al_desk a))"
    "\<And>i p. i \<noteq> tid \<Longrightarrow> map_option l_expires_at (get_lease i p (dk_store (al_desk a'))) =
       map_option l_expires_at (get_lease i p (dk_store (al_desk a)))"
proof -
  let ?s = "claim_locked_in txt (d_task x) [pane] pane (default_lease_s env) (the (idle pane)) (now_s env)
     (upd_task tid (\<lambda>r. r\<lparr>t_assignees := [pane]\<rparr>) (dk_store (al_desk a)))"
  let ?i = "\<lparr>ri_task_id = tid, ri_pane_id = pane, ri_from_task = None, ri_message_id = None,
             ri_attempt = 0, ri_reason = None, ri_now = now_s env,
             ri_details = allocation_handoff (''nj-'' @ hex (length (al_results a))) (the (idle pane))\<rparr>"
  obtain t where t: "get_task tid ?s = Some t"
    using assms(1) by (auto simp: assign_offer_def Let_def record_in_def tid_def pane_def split: option.splits)
  have run: "al_used a' = al_used a @ [pane] \<and> al_owners a' = (al_owners a)(tid := [pane])
    \<and> al_results a' = al_results a @ [jinsert ''pane_id'' (JStr pane) (jinsert ''task_id'' (JStr tid)
         (allocation_handoff (''nj-'' @ hex (length (al_results a))) (the (idle pane))))]
    \<and> (\<forall>i. get_task i (dk_store (al_desk a')) = get_task i ?s)
    \<and> (\<forall>i p. get_lease i p (dk_store (al_desk a')) = get_lease i p ?s)"
    using assms(1) t by (auto simp: assign_offer_def Let_def record_in_def tid_def pane_def)
  then show "al_used a' = al_used a @ [pane]" "al_owners a' = (al_owners a)(tid := [pane])"
    "\<exists>h. al_results a' = al_results a @ [h] \<and> jget h ''task_id'' = Some (JStr tid) \<and> jget h ''pane_id'' = Some (JStr pane)"
    by auto
  from run have g: "get_task i (dk_store (al_desk a')) = get_task i ?s"
    "get_lease i p (dk_store (al_desk a')) = get_lease i p ?s" for i p
    by auto
  show "placed tid pane (now_s env + default_lease_s env) (dk_store (al_desk a'))"
    using t by (auto simp: placed_def g claim_locked_in_lease claim_locked_in_get tid_def lease_assignees_def)
  show "get_task i (dk_store (al_desk a')) = get_task i (dk_store (al_desk a))" if "i \<noteq> tid" for i
    using that by (simp add: g claim_locked_in_get tid_def get_task_upd)
  show "map_option l_expires_at (get_lease i p (dk_store (al_desk a'))) =
       map_option l_expires_at (get_lease i p (dk_store (al_desk a)))" if "i \<noteq> tid" for i p
    using that by (simp add: g claim_locked_in_lease tid_def)
qed

text \<open>What holds of one result: who got which task, and why that was allowed.\<close>

definition justified ::
    "(string \<rightharpoonup> json) \<Rightarrow> worker_row list \<Rightarrow> (decorated \<times> offer_row) list \<Rightarrow> json_map \<Rightarrow> bool" where
  "justified idle ws cs h \<longleftrightarrow>
     (\<exists>x offer w. (x, offer) \<in> set cs \<and> w \<in> set ws
        \<and> jget h ''task_id'' = Some (JStr (t_id (d_task x))) \<and> jget h ''pane_id'' = Some (JStr (w_pane_id w))
        \<and> idle (w_pane_id w) \<noteq> None \<and> worker_fits w offer \<and> task_allocatable x (d_assignees x) offer)"

definition in_effect :: "time \<Rightarrow> store \<Rightarrow> json_map \<Rightarrow> bool" where
  "in_effect until s h \<longleftrightarrow>
     (\<exists>tid pane. jget h ''task_id'' = Some (JStr tid) \<and> jget h ''pane_id'' = Some (JStr pane) \<and> placed tid pane until s)"

definition pass_inv ::
    "env \<Rightarrow> (string \<rightharpoonup> json) \<Rightarrow> worker_row list \<Rightarrow> (decorated \<times> offer_row) list \<Rightarrow> (decorated \<times> offer_row) list
     \<Rightarrow> alloc_state \<Rightarrow> bool" where
  "pass_inv env idle ws all rest a \<longleftrightarrow>
     distinct (al_used a)
     \<and> map (\<lambda>h. jget h ''pane_id'') (al_results a) = map (\<lambda>p. Some (JStr p)) (al_used a)
     \<and> (\<forall>h \<in> set (al_results a). justified idle ws all h
          \<and> in_effect (now_s env + default_lease_s env) (dk_store (al_desk a)) h
          \<and> (\<forall>(x, offer) \<in> set rest. jget h ''task_id'' \<noteq> Some (JStr (t_id (d_task x)))))
     \<and> (\<forall>(x, offer) \<in> set rest. al_owners a (t_id (d_task x)) = d_assignees x)"

lemma pass_inv_skip: "pass_inv env idle ws all (c # rest) a \<Longrightarrow> pass_inv env idle ws all rest a"
  by (auto simp: pass_inv_def)

lemma pass_inv_assign:
  assumes inv: "pass_inv env idle ws all ((x, offer) # rest) a"
    and mem: "(x, offer) \<in> set all" "w \<in> set ws" "worker_ok (now_s env) idle xs a offer w"
    and fits: "task_allocatable x (al_owners a (t_id (d_task x))) offer"
    and run: "assign_offer txt env hex idle x offer w a = ok a'"
    and apart: "\<forall>(y, o1) \<in> set rest. t_id (d_task y) \<noteq> t_id (d_task x)"
  shows "pass_inv env idle ws all rest a'"
proof -
  note r = assign_offer_ok [OF run]
  let ?tid = "t_id (d_task x)" and ?pane = "w_pane_id w" and ?until = "now_s env + default_lease_s env"
  obtain h where h: "al_results a' = al_results a @ [h]" "jget h ''task_id'' = Some (JStr ?tid)"
    "jget h ''pane_id'' = Some (JStr ?pane)" using r(2) by blast
  have old: "in_effect ?until (dk_store (al_desk a')) k" if "k \<in> set (al_results a)" for k
  proof -
    have "in_effect ?until (dk_store (al_desk a)) k" "jget k ''task_id'' \<noteq> Some (JStr ?tid)"
      using inv that by (auto simp: pass_inv_def)
    then obtain i q where "jget k ''task_id'' = Some (JStr i)" "jget k ''pane_id'' = Some (JStr q)"
      "placed i q ?until (dk_store (al_desk a))" "i \<noteq> ?tid" by (auto simp: in_effect_def)
    moreover from this(3) have "placed i q ?until (dk_store (al_desk a'))"
      by (simp only: placed_def r(5) [OF \<open>i \<noteq> ?tid\<close>] r(6) [OF \<open>i \<noteq> ?tid\<close>])
    ultimately show ?thesis unfolding in_effect_def by blast
  qed
  have "al_owners a ?tid = d_assignees x" using inv by (auto simp: pass_inv_def)
  then have new: "justified idle ws all h"
    unfolding justified_def
    by (intro exI [of _ x] exI [of _ offer] exI [of _ w])
       (use mem fits h(2,3) in \<open>simp add: worker_ok_def\<close>)
  have eff: "in_effect ?until (dk_store (al_desk a')) h"
    unfolding in_effect_def using h(2,3) r(4) by blast
  have "distinct (al_used a')"
    "map (\<lambda>h. jget h ''pane_id'') (al_results a') = map (\<lambda>p. Some (JStr p)) (al_used a')"
    using inv mem(3) by (auto simp: pass_inv_def r(1) h worker_ok_def)
  moreover have "\<forall>k \<in> set (al_results a'). justified idle ws all k
      \<and> in_effect ?until (dk_store (al_desk a')) k
      \<and> (\<forall>(y, o1) \<in> set rest. jget k ''task_id'' \<noteq> Some (JStr (t_id (d_task y))))"
  proof
    fix k assume "k \<in> set (al_results a')"
    then consider "k = h" | "k \<in> set (al_results a)" by (auto simp: h(1))
    then show "justified idle ws all k \<and> in_effect ?until (dk_store (al_desk a')) k
      \<and> (\<forall>(y, o1) \<in> set rest. jget k ''task_id'' \<noteq> Some (JStr (t_id (d_task y))))"
    proof cases
      case 1
      then show ?thesis using new eff h(2) apart by auto
    next
      case 2
      then show ?thesis using old [OF 2] inv by (auto simp: pass_inv_def)
    qed
  qed
  moreover have "\<forall>(y, o1) \<in> set rest. al_owners a' (t_id (d_task y)) = d_assignees y"
    using inv apart by (auto simp: pass_inv_def r(3))
  ultimately show ?thesis by (simp add: pass_inv_def)
qed

lemma allocate_all_inv:
  assumes "allocate_all txt env hex idle ws xs cs a = ok a'" "pass_inv env idle ws all cs a"
    and "set cs \<subseteq> set all" "distinct (map (\<lambda>(x, offer). t_id (d_task x)) cs)"
  shows "pass_inv env idle ws all [] a'"
  using assms
proof (induction cs arbitrary: a)
  case (Cons c cs)
  obtain x offer where c: "c = (x, offer)" by (cases c)
  have rest: "set cs \<subseteq> set all" "distinct (map (\<lambda>(x, offer). t_id (d_task x)) cs)"
    "\<forall>(y, o1) \<in> set cs. t_id (d_task y) \<noteq> t_id (d_task x)"
    using Cons.prems(3,4) by (force simp: c)+
  note skip = pass_inv_skip [OF Cons.prems(2)]
  consider (no) "allocate_all txt env hex idle ws xs cs a = ok a'"
    | (yes) w b where "task_allocatable x (al_owners a (t_id (d_task x))) offer"
        "find (worker_ok (now_s env) idle xs a offer) ws = Some w"
        "assign_offer txt env hex idle x offer w a = ok b" "allocate_all txt env hex idle ws xs cs b = ok a'"
    using Cons.prems(1) by (auto simp: c try_bind_Inr split: if_splits option.splits)
  then show ?case
  proof cases
    case no
    then show ?thesis using Cons.IH skip rest by blast
  next
    case yes
    have "w \<in> set ws" "worker_ok (now_s env) idle xs a offer w" using find_SomeD [OF yes(2)] by auto
    then have "pass_inv env idle ws all cs b"
      using pass_inv_assign [OF Cons.prems(2) [unfolded c] _ _ _ yes(1,3) rest(3)] Cons.prems(3) by (auto simp: c)
    then show ?thesis using Cons.IH yes(4) rest by blast
  qed
qed simp

lemma candidates_mem:
  "(x, offer) \<in> set (allocation_candidates d xs) \<longleftrightarrow> x \<in> set xs \<and> ready_offers d (t_id (d_task x)) = Some offer"
  by (auto simp: allocation_candidates_def split: option.splits)

lemma candidates_distinct:
  assumes "distinct (map (\<lambda>x. t_id (d_task x)) xs)"
  shows "distinct (map (\<lambda>(x, offer). t_id (d_task x)) (allocation_candidates d xs))"
proof -
  let ?pick = "\<lambda>x. case ready_offers d (t_id (d_task x)) of Some offer \<Rightarrow> [(x, offer)] | None \<Rightarrow> []"
  have "map (\<lambda>(x, offer). t_id (d_task x)) (concat (map ?pick xs)) =
      map (\<lambda>x. t_id (d_task x)) (filter (\<lambda>x. ready_offers d (t_id (d_task x)) \<noteq> None) xs)"
    by (induction xs) (auto split: option.splits)
  then have "distinct (map (\<lambda>(x, offer). t_id (d_task x)) (concat (map ?pick xs)))"
    using assms by (simp add: distinct_map_filter)
  then show ?thesis
    unfolding allocation_candidates_def by (simp add: distinct_map inj_on_def)
qed

lemma decorate_row_simps [simp]:
  "d_task (decorate_row now s p t) = t" "d_assignees (decorate_row now s p t) = t_assignees t"
  "d_leases (decorate_row now s p t) = leases_for (t_id t) now s"
  "d_deps (decorate_row now s p t) = dependency_state_of s t"
  "d_multi_assignee (decorate_row now s p t) = t_multi_assignee t"
  by (simp_all add: decorate_row_def Let_def)

lemma capacity_ids: "map (\<lambda>x. t_id (d_task x)) (capacity_tasks now s) = map t_id (filter (\<lambda>t. \<not> is_terminal (t_status t)) (st_tasks s))"
  by (simp add: capacity_tasks_def)

lemma allocation_result:
  assumes "allocation_allocate txt env hex idle d = (ok results, d')" "distinct (map t_id (st_tasks (dk_store d)))"
  shows "distinct (map (\<lambda>h. jget h ''pane_id'') results)
    \<and> (\<forall>h \<in> set results. \<exists>t offer w.
        jget h ''task_id'' = Some (JStr (t_id t)) \<and> jget h ''pane_id'' = Some (JStr (w_pane_id w))
        \<and> get_task (t_id t) (dk_store d) = Some t \<and> t_status t = ''open'' \<and> t_scope t = ''global''
        \<and> leases_for (t_id t) (now_s env) (dk_store d) = []
        \<and> list_all (\<lambda>dep. \<not> outstanding (dk_store d) dep) (t_depends_on t)
        \<and> ready_offers d (t_id t) = Some offer \<and> sort (t_assignees t) = o_owners offer
        \<and> w \<in> set (dk_workers d) \<and> w_enabled w \<and> worker_fits w offer \<and> idle (w_pane_id w) \<noteq> None
        \<and> placed (t_id t) (w_pane_id w) (now_s env + default_lease_s env) (dk_store d'))"
proof -
  let ?xs = "capacity_tasks (now_s env) (dk_store d)"
  let ?cs = "allocation_candidates d ?xs"
  let ?owners = "\<lambda>tid. case find (\<lambda>x. t_id (d_task x) = tid) ?xs of Some x \<Rightarrow> d_assignees x | None \<Rightarrow> []"
  let ?a0 = "\<lparr>al_desk = d, al_used = [], al_results = [], al_owners = ?owners\<rparr>"
  from assms(1) obtain a where run: "allocate_all txt env hex idle (enabled_workers d) ?xs ?cs ?a0 = ok a"
    and res: "results = al_results a" "d' = al_desk a"
    by (auto simp: allocation_allocate_def allocate_in_def Let_def try_bind_Inr split: if_splits sum.splits)
  have dist: "distinct (map (\<lambda>x. t_id (d_task x)) ?xs)"
    unfolding capacity_ids using assms(2) by (rule distinct_map_filter)
  have "?owners (t_id (d_task x)) = d_assignees x" if "(x, offer) \<in> set ?cs" for x offer
    using distinct_find_unique [OF dist, of x] that by (simp add: candidates_mem)
  then have "pass_inv env idle (enabled_workers d) ?cs ?cs ?a0" by (auto simp: pass_inv_def)
  from allocate_all_inv [OF run this subset_refl candidates_distinct [OF dist]]
  have fin: "pass_inv env idle (enabled_workers d) ?cs [] a" .
  have "distinct (map (\<lambda>h. jget h ''pane_id'') results)"
    using fin by (auto simp: pass_inv_def res distinct_map inj_on_def)
  moreover have "\<exists>t offer w.
        jget h ''task_id'' = Some (JStr (t_id t)) \<and> jget h ''pane_id'' = Some (JStr (w_pane_id w))
        \<and> get_task (t_id t) (dk_store d) = Some t \<and> t_status t = ''open'' \<and> t_scope t = ''global''
        \<and> leases_for (t_id t) (now_s env) (dk_store d) = []
        \<and> list_all (\<lambda>dep. \<not> outstanding (dk_store d) dep) (t_depends_on t)
        \<and> ready_offers d (t_id t) = Some offer \<and> sort (t_assignees t) = o_owners offer
        \<and> w \<in> set (dk_workers d) \<and> w_enabled w \<and> worker_fits w offer \<and> idle (w_pane_id w) \<noteq> None
        \<and> placed (t_id t) (w_pane_id w) (now_s env + default_lease_s env) (dk_store d')"
    if "h \<in> set results" for h
  proof -
    from that fin obtain x offer w where j: "(x, offer) \<in> set ?cs" "w \<in> set (enabled_workers d)"
      "jget h ''task_id'' = Some (JStr (t_id (d_task x)))" "jget h ''pane_id'' = Some (JStr (w_pane_id w))"
      "idle (w_pane_id w) \<noteq> None" "worker_fits w offer" "task_allocatable x (d_assignees x) offer"
      and e: "in_effect (now_s env + default_lease_s env) (dk_store (al_desk a)) h"
      by (auto simp: pass_inv_def justified_def res)
    from j(1) obtain t where t: "t \<in> set (st_tasks (dk_store d))" "x = decorate_row (now_s env) (dk_store d) None t"
      "ready_offers d (t_id t) = Some offer"
      by (auto simp: candidates_mem capacity_tasks_def)
    have "get_task (t_id t) (dk_store d) = Some t" by (rule get_task_rows [OF assms(2) t(1)])
    moreover have "placed (t_id t) (w_pane_id w) (now_s env + default_lease_s env) (dk_store d')"
      using e j(3,4) by (simp add: in_effect_def res t(2))
    ultimately show ?thesis
      using j t(2,3)
      by (intro exI [of _ t] exI [of _ offer] exI [of _ w])
         (auto simp: task_allocatable_def enabled_workers_def blocked_by_state filter_empty_conv list_all_iff)
  qed
  ultimately show ?thesis by blast
qed

text \<open>
  C13: an allocation pass keeps to the registrations and the offers. Every task it hands out was
  an open, global, unleased task whose dependencies are finished, offered by the owners it still
  has; it goes to an idle, enabled worker of the offer's pool and role that has every required
  skill and is not excluded; no worker gets two tasks; and each is in progress afterwards, with
  that worker its only assignee and holding a lease of the default length.
\<close>

theorem allocation_follows_the_offers:
  assumes "allocation_allocate txt env hex idle d = (ok results, d')" "distinct (map t_id (st_tasks (dk_store d)))"
  shows "distinct (map (\<lambda>h. jget h ''pane_id'') results)
    \<and> (\<forall>h \<in> set results. \<exists>t offer w.
        jget h ''task_id'' = Some (JStr (t_id t)) \<and> jget h ''pane_id'' = Some (JStr (w_pane_id w))
        \<and> get_task (t_id t) (dk_store d) = Some t \<and> t_status t = ''open'' \<and> t_scope t = ''global''
        \<and> leases_for (t_id t) (now_s env) (dk_store d) = []
        \<and> list_all (\<lambda>dep. \<not> outstanding (dk_store d) dep) (t_depends_on t)
        \<and> ready_offers d (t_id t) = Some offer \<and> sort (t_assignees t) = o_owners offer
        \<and> w \<in> set (dk_workers d) \<and> w_enabled w \<and> worker_fits w offer \<and> idle (w_pane_id w) \<noteq> None
        \<and> placed (t_id t) (w_pane_id w) (now_s env + default_lease_s env) (dk_store d'))"
  by (rule allocation_result [OF assms])

definition demo_desk :: desk where
  "demo_desk =
     \<lparr>dk_store = \<lparr>st_tasks = [(demo_row ''t1'' ''first'')\<lparr>t_body := ''do'', t_assignees := [''a:1'']\<rparr>],
        st_leases = [], st_events = [demo_event ''t1'' ''created''], st_counter = Some 1,
        st_offers = Some [\<lparr>o_task_id = ''t1'', o_pool = ''p'', o_role = ''worker'', o_requires = [''rust''],
          o_excluded = [''a:1''], o_owners = [''a:1''], o_offered_by = ''a:1'', o_state = ''ready''\<rparr>]\<rparr>,
      dk_workers = [\<lparr>w_pane_id = ''w:1'', w_pools = [''p''], w_roles = [''worker''], w_skills = [''rust''],
        w_enabled = True, w_registered_by = ''op'', w_updated_at = 1, w_last_assigned = 0\<rparr>],
      dk_reviews = []\<rparr>"

abbreviation "demo_allocate \<equiv>
  allocation_allocate (\<lambda>_. []) demo_env (\<lambda>_. ''a1'') (\<lambda>p. if p = ''w:1'' then Some (JObj []) else None)"

theorem allocation_follows_the_offers_witness:
  "\<exists>h results d'. demo_allocate demo_desk = (ok (h # results), d')
     \<and> (\<exists>tid pane. jget h ''task_id'' = Some (JStr tid) \<and> jget h ''pane_id'' = Some (JStr pane)
          \<and> placed tid pane 61 (dk_store d'))"
proof -
  have "(case demo_allocate demo_desk of (Inr (h # hs), d') \<Rightarrow> True | _ \<Rightarrow> False)" by code_simp
  then obtain h hs d' where run: "demo_allocate demo_desk = (ok (h # hs), d')"
    by (auto split: prod.splits sum.splits list.splits)
  have "distinct (map t_id (st_tasks (dk_store demo_desk)))" by (simp add: demo_desk_def)
  from bspec [OF conjunct2 [OF allocation_follows_the_offers [OF run this]], of h]
  obtain t :: task_row and w :: worker_row where "jget h ''task_id'' = Some (JStr (t_id t))" "jget h ''pane_id'' = Some (JStr (w_pane_id w))"
    "placed (t_id t) (w_pane_id w) (now_s demo_env + default_lease_s demo_env) (dk_store d')"
    by auto
  moreover have "now_s demo_env + default_lease_s demo_env = 61" by (simp add: demo_env_def)
  ultimately show ?thesis using run by auto
qed

section \<open>Who may review\<close>

lemma find_upsert:
  assumes "\<And>x. key x = key r \<Longrightarrow> merge x = r" "P r" "\<And>x. P x \<Longrightarrow> key x = key r"
  shows "find P (row_upsert key merge r rows) = Some r"
proof (cases "row_get key (key r) rows = None")
  case True
  then have "find P rows = None" using assms(3) by (auto simp: row_get_def find_eq_None_iff)
  then show ?thesis using True assms(2) by (simp add: row_upsert_def find_append)
next
  case False
  have "(\<exists>x \<in> set rows. key x = key r) \<Longrightarrow> find P (row_update (\<lambda>x. key x = key r) merge rows) = Some r"
  proof (induction rows)
    case (Cons x rows)
    show ?case
    proof (cases "key x = key r")
      case True
      then show ?thesis using assms(1,2) by (simp add: row_update_def)
    next
      case False
      then have "\<not> P x" using assms(3) by blast
      then show ?thesis using False Cons by (simp add: row_update_def)
    qed
  qed simp
  with False show ?thesis by (auto simp: row_upsert_def row_get_def find_eq_None_iff)
qed

lemma set_sort_dedup [simp]: "set (sort_dedup xs) = set xs"
  by (simp add: sort_dedup_def)

lemma ready_offers_frame: "st_offers (dk_store d') = st_offers (dk_store d) \<Longrightarrow> ready_offers d' = ready_offers d"
  by (simp add: ready_offers_def dk_offers_def fun_eq_iff)

lemma offer_in_ok:
  assumes "offer_in tid pool role requires excluded actor now d = ok d'"
  obtains offer where "ready_offers d' tid = Some offer" "set (o_excluded offer) = set excluded" "o_role offer = role"
    "dk_reviews d' = dk_reviews d"
proof -
  from assms obtain t row e where
    d': "d' = in_store (\<lambda>s. log_event e (s\<lparr>st_offers := Some (row_upsert o_task_id (\<lambda>_. row) row (dk_offers d))\<rparr>)) d"
    and row: "o_task_id row = tid" "o_state row = ''ready''" "set (o_excluded row) = set excluded" "o_role row = role"
    by (auto simp: offer_in_def try_bind_Inr Let_def split: if_splits)
  have "ready_offers d' tid = Some row"
    unfolding d' by (simp add: ready_offers_def dk_offers_def in_store_def log_event_def)
      (rule find_upsert; use row in simp)
  then show ?thesis by (rule that) (use row in \<open>simp_all add: d' in_store_def\<close>)
qed

text \<open>The offer of a task on the later desk excludes whom the earlier one excluded.\<close>

definition still_barred :: "string \<Rightarrow> desk \<Rightarrow> desk \<Rightarrow> bool" where
  "still_barred tid d d1 \<longleftrightarrow>
     (\<forall>offer. ready_offers d1 tid = Some offer \<longrightarrow>
        (case ready_offers d tid of None \<Rightarrow> True | Some old \<Rightarrow> set (o_excluded old) \<subseteq> set (o_excluded offer)))"

text \<open>
  C22: nobody reviews their own work. When work is submitted for review under a new revision, no
  later allocation pass gives the review to one of the assignees the source had when it was
  submitted, nor to who filed it, had completed it or submitted it: whatever changed the desk in
  between, so long as the review's offer was not replaced by one that excludes fewer. Who
  becomes an assignee of the source after the submission is not excluded.
\<close>

theorem nobody_reviews_their_own_work:
  assumes "allocation_review env source_id revision body pool requires author d = (ok review, d')"
    and "get_task source_id (dk_store d) = Some source"
    and "map_option rv_revision (row_get rv_source_id source_id (dk_reviews d)) \<noteq> Some revision"
    and "still_barred (t_id review) d' d1" "distinct (map t_id (st_tasks (dk_store d1)))"
    and "allocation_allocate txt env' hex idle d1 = (ok results, d'')" "h \<in> set results"
    and "jget h ''task_id'' = Some (JStr (t_id review))" "jget h ''pane_id'' = Some (JStr pane)"
  shows "pane \<notin> set (t_assignees source) \<and> pane \<noteq> author
    \<and> (t_created_by source = Some pane \<longrightarrow> pane = []) \<and> (t_completed_by source = Some pane \<longrightarrow> pane = [])"
proof -
  from assms(1) obtain tid where run: "review_in source_id revision body pool requires author (now_s env) d = ok (tid, d')"
    and rv: "task_get tid (dk_store d') = ok review"
    by (auto simp: allocation_review_def split: if_splits sum.splits prod.splits)
  have id: "t_id review = tid" using rv get_task_id by (auto simp: task_get_def split: option.splits)
  have author: "author \<in> set (t_assignees source)"
    using run assms(2) by (auto simp: review_in_def Let_def task_get_def split: if_splits)
  have other: "\<not> (case row_get rv_source_id source_id (dk_reviews d) of Some r \<Rightarrow> rv_revision r = revision | None \<Rightarrow> False)"
    using assms(3) by (auto split: option.splits)
  from run other assms(2) obtain s d2 where
    off: "offer_in tid pool ''reviewer'' requires
        (sort_dedup (barred source (row_get o_task_id tid (dk_offers (d\<lparr>dk_store := s\<rparr>))))) author (now_s env)
        (d\<lparr>dk_store := s\<rparr>) = ok d2"
    and d': "st_offers (dk_store d') = st_offers (dk_store d2)"
    by (auto simp: review_in_def Let_def task_get_def try_bind_Inr in_store_def split: if_splits)
  from off obtain offer where o1: "ready_offers d2 tid = Some offer"
    "set (o_excluded offer) = set (sort_dedup (barred source (row_get o_task_id tid (dk_offers (d\<lparr>dk_store := s\<rparr>)))))"
    by (rule offer_in_ok)
  have o2: "ready_offers d' tid = Some offer" using o1(1) ready_offers_frame [OF d'] by simp
  from bspec [OF conjunct2 [OF allocation_result [OF assms(6,5)]] assms(7)]
  obtain t :: task_row and offer' w where w: "jget h ''task_id'' = Some (JStr (t_id t))" "jget h ''pane_id'' = Some (JStr (w_pane_id w))"
    "ready_offers d1 (t_id t) = Some offer'" "worker_fits w offer'"
    by (elim exE conjE) (rule that; assumption)
  then have "set (o_excluded offer) \<subseteq> set (o_excluded offer')" "w_pane_id w = pane"
    using o2 assms(4,8,9) id by (simp_all add: still_barred_def)
  then have "pane \<notin> set (barred source (row_get o_task_id tid (dk_offers (d\<lparr>dk_store := s\<rparr>))))"
    using w(4) o1(2) by (auto simp: worker_fits_def)
  then show ?thesis using author by (auto simp: barred_def)
qed

definition demo_reviewer :: "string \<Rightarrow> worker_row" where
  "demo_reviewer pane = \<lparr>w_pane_id = pane, w_pools = [''p''], w_roles = [''reviewer''], w_skills = [],
     w_enabled = True, w_registered_by = ''op'', w_updated_at = 1, w_last_assigned = 0\<rparr>"

definition demo_finished :: desk where
  "demo_finished =
     \<lparr>dk_store = \<lparr>st_tasks = [(demo_row ''t1'' ''first'')\<lparr>t_body := ''do'', t_status := ''in_progress'',
          t_assignees := [''a:1'']\<rparr>],
        st_leases = [], st_events = [], st_counter = Some 1, st_offers = Some []\<rparr>,
      dk_workers = [demo_reviewer ''a:1'', demo_reviewer ''w:1''], dk_reviews = []\<rparr>"

abbreviation "demo_submit \<equiv>
  allocation_review demo_env ''t1'' (replicate 40 (CHR ''a'')) ''see'' ''p'' (JArr []) ''a:1'' demo_finished"

abbreviation "demo_allocate_all \<equiv>
  allocation_allocate (\<lambda>_. []) demo_env (\<lambda>_. ''a1'') (\<lambda>p. Some (JObj []))"

theorem nobody_reviews_their_own_work_witness:
  "\<exists>review d' h d'' pane. demo_submit = (ok review, d') \<and> demo_allocate_all d' = (ok [h], d'')
     \<and> jget h ''task_id'' = Some (JStr (t_id review)) \<and> jget h ''pane_id'' = Some (JStr pane) \<and> pane \<noteq> ''a:1''"
proof -
  have "(case demo_submit of (Inl e, d') \<Rightarrow> False
    | (Inr review, d') \<Rightarrow> distinct (map t_id (st_tasks (dk_store d')))
        \<and> (case demo_allocate_all d' of
             (Inr [h], d'') \<Rightarrow> jget h ''task_id'' = Some (JStr (t_id review))
                \<and> jget h ''pane_id'' = Some (JStr ''w:1'')
           | _ \<Rightarrow> False))" by code_simp
  moreover obtain res d' where sub: "demo_submit = (res, d')" by fastforce
  moreover obtain al d'' where alloc: "demo_allocate_all d' = (al, d'')" by fastforce
  ultimately obtain review h where r: "demo_submit = (ok review, d')" "distinct (map t_id (st_tasks (dk_store d')))"
    "demo_allocate_all d' = (ok [h], d'')" "jget h ''task_id'' = Some (JStr (t_id review))"
    "jget h ''pane_id'' = Some (JStr ''w:1'')"
    by (auto split: sum.splits list.splits)
  have "map_option t_assignees (get_task ''t1'' (dk_store demo_finished)) = Some [''a:1'']"
    "map_option rv_revision (row_get rv_source_id ''t1'' (dk_reviews demo_finished)) \<noteq> Some (replicate 40 (CHR ''a''))"
    by code_simp+
  then obtain source where s: "get_task ''t1'' (dk_store demo_finished) = Some source" "t_assignees source = [''a:1'']"
    "map_option rv_revision (row_get rv_source_id ''t1'' (dk_reviews demo_finished)) \<noteq> Some (replicate 40 (CHR ''a''))"
    by auto
  have "''w:1'' \<noteq> ''a:1''"
    using nobody_reviews_their_own_work [OF r(1) s(1,3) _ r(2,3) _ r(4,5)] s(2) by (simp add: still_barred_def split: option.splits)
  with r show ?thesis by blast
qed

section \<open>The store under allocation\<close>

lemma advances_offers: "store_inv s \<Longrightarrow> advances s (s\<lparr>st_offers := os\<rparr>)"
  by (auto simp: advances_def evolves_def store_inv_def issued_def task_ids_def)

lemma log_events_none [simp]: "log_events [] s = s"
  by (simp add: log_events_def)

lemma advances_assign_offer:
  assumes inv: "store_inv (dk_store (al_desk a))"
    and t: "get_task (t_id (d_task x)) (dk_store (al_desk a)) = Some t" "t_status t = ''open''"
    and run: "assign_offer txt env hex idle x offer w a = ok a'"
  shows "advances (dk_store (al_desk a)) (dk_store (al_desk a'))"
proof -
  let ?s = "dk_store (al_desk a)" and ?tid = "t_id (d_task x)" and ?pane = "w_pane_id w"
  let ?f = "\<lambda>r. r\<lparr>t_assignees := [?pane]\<rparr>"
  let ?s1 = "upd_task ?tid ?f ?s"
  let ?s2 = "claim_locked_in txt (d_task x) [?pane] ?pane (default_lease_s env) (the (idle ?pane)) (now_s env) ?s1"
  have 1: "advances ?s ?s1"
    using advances_note [where f = ?f and es = "[]", OF inv t(1)] store_inv_task(2,3) [OF inv t(1)]
    by (auto simp: row_facts log_events_none)
  have g: "get_task ?tid ?s1 = Some (?f t)" by (simp add: get_task_upd t(1))
  have 2: "advances ?s1 ?s2"
    unfolding claim_locked_in_def Let_def
    by (rule advances_claim_rows [OF advances_inv [OF 1] g]) (use t(2) in \<open>simp_all add: new_event_def ends_claim_def\<close>)
  let ?i = "\<lparr>ri_task_id = ?tid, ri_pane_id = ?pane, ri_from_task = None, ri_message_id = None,
             ri_attempt = 0, ri_reason = None, ri_now = now_s env,
             ri_details = allocation_handoff (''nj-'' @ hex (length (al_results a))) (the (idle ?pane))\<rparr>"
  obtain res s3 where rec: "record_in ?i ?s2 = (res, s3)" by fastforce
  have 3: "advances ?s2 s3" using advances_record_in [OF advances_inv [OF 2], of ?i] rec by simp
  obtain os e where e: "dk_store (al_desk a') = log_events [e] (s3\<lparr>st_offers := os\<rparr>)" "e_status_to e = None"
    using run rec by (auto simp: assign_offer_def Let_def registry_event_def new_event_def log_event_events split: sum.splits)
  have 4: "advances s3 (s3\<lparr>st_offers := os\<rparr>)" by (rule advances_offers [OF advances_inv [OF 3]])
  have 5: "advances (s3\<lparr>st_offers := os\<rparr>) (dk_store (al_desk a'))"
    unfolding e(1) by (rule advances_log [OF advances_inv [OF 4]]) (simp add: e(2))
  note s12 = advances_trans [OF inv 1 2] and s35 = advances_trans [OF advances_inv [OF 3] 4 5]
  show ?thesis by (rule advances_trans [OF inv s12 advances_trans [OF advances_inv [OF 2] 3 s35]])
qed

text \<open>A pass keeps the store well formed: the rows it still has to visit are as they were.\<close>

lemma advances_allocate_all:
  assumes "store_inv (dk_store (al_desk a))" "allocate_all txt env hex idle ws xs cs a = ok a'"
    and "\<forall>(x, offer) \<in> set cs. get_task (t_id (d_task x)) (dk_store (al_desk a)) = Some (d_task x)"
    and "distinct (map (\<lambda>(x, offer). t_id (d_task x)) cs)"
  shows "advances (dk_store (al_desk a)) (dk_store (al_desk a'))"
  using assms
proof (induction cs arbitrary: a)
  case Nil
  then show ?case by (simp add: advances_refl)
next
  case (Cons c cs)
  obtain x offer where c: "c = (x, offer)" by (cases c)
  have rest: "\<forall>(x, offer) \<in> set cs. get_task (t_id (d_task x)) (dk_store (al_desk a)) = Some (d_task x)"
    "distinct (map (\<lambda>(x, offer). t_id (d_task x)) cs)" using Cons.prems(3,4) by auto
  consider (no) "allocate_all txt env hex idle ws xs cs a = ok a'"
    | (yes) w b where "t_status (d_task x) = ''open''"
        "assign_offer txt env hex idle x offer w a = ok b" "allocate_all txt env hex idle ws xs cs b = ok a'"
    using Cons.prems(2) by (auto simp: c try_bind_Inr task_allocatable_def split: if_splits option.splits)
  then show ?case
  proof cases
    case no
    then show ?thesis using Cons.IH Cons.prems(1) rest by blast
  next
    case yes
    have g: "get_task (t_id (d_task x)) (dk_store (al_desk a)) = Some (d_task x)" using Cons.prems(3) by (auto simp: c)
    note adv = advances_assign_offer [OF Cons.prems(1) g yes(1,2)]
    have "t_id (d_task y) \<noteq> t_id (d_task x)" if "(y, o1) \<in> set cs" for y o1
      using Cons.prems(4) that by (force simp: c)
    then have "\<forall>(y, o1) \<in> set cs. get_task (t_id (d_task y)) (dk_store (al_desk b)) = Some (d_task y)"
      using rest(1) assign_offer_ok(5) [OF yes(2)] by fastforce
    then show ?thesis
      using Cons.IH [OF advances_inv [OF adv] yes(3) _ rest(2)] advances_trans [OF Cons.prems(1) adv] by blast
  qed
qed

lemma allocation_keeps_inv:
  assumes "store_inv (dk_store d)"
  shows "advances (dk_store d) (dk_store (snd (allocation_allocate txt env hex idle d)))"
proof (cases "allocation_allocate txt env hex idle d")
  case (Pair res d')
  show ?thesis
  proof (cases res)
    case (Inl e)
    with Pair have "d' = d" by (auto simp: allocation_allocate_def split: if_splits sum.splits prod.splits)
    then show ?thesis using Pair advances_refl [OF assms] by simp
  next
    case (Inr results)
    let ?xs = "capacity_tasks (now_s env) (dk_store d)"
    note dist = store_inv_distinct [OF assms]
    from Inr Pair obtain a0 a where run: "allocate_all txt env hex idle (enabled_workers d) ?xs (allocation_candidates d ?xs) a0 = ok a"
      and res: "al_desk a0 = d" "d' = al_desk a"
      by (auto simp: allocation_allocate_def allocate_in_def Let_def try_bind_Inr split: if_splits sum.splits)
    have "distinct (map (\<lambda>x. t_id (d_task x)) ?xs)"
      unfolding capacity_ids using dist by (rule distinct_map_filter)
    moreover have "\<forall>(x, offer) \<in> set (allocation_candidates d ?xs).
        get_task (t_id (d_task x)) (dk_store d) = Some (d_task x)"
      using get_task_rows [OF dist] by (auto simp: candidates_mem capacity_tasks_def)
    ultimately have "advances (dk_store (al_desk a0)) (dk_store (al_desk a))"
      using advances_allocate_all [OF _ run _ candidates_distinct] assms res(1) by simp
    then show ?thesis using Pair res by simp
  qed
qed

lemma advances_event: "store_inv s \<Longrightarrow> e_status_to e = None \<Longrightarrow> advances s (log_event e s)"
  using advances_log [of s "[e]"] by (simp add: log_event_events)

lemma registration_keeps_inv:
  assumes "store_inv (dk_store d)"
  shows "advances (dk_store d) (dk_store (snd (allocation_register env pane pools roles skills actor enabled d)))"
  using advances_refl [OF assms] advances_event [OF assms]
  by (auto simp: allocation_register_def Let_def in_store_def registry_event_def new_event_def
      split: json.split sum.split prod.split)

lemma offer_keeps_inv:
  assumes "store_inv (dk_store d)"
  shows "advances (dk_store d) (dk_store (snd (allocation_offer env tid pool requires actor d)))"
proof -
  have "advances (dk_store d) (dk_store d')" if "offer_in tid pool role requires excluded actor now d = ok d'"
    for role excluded now d'
  proof -
    from that obtain kind payload os where
      d': "d' = in_store (\<lambda>s. log_event (registry_event tid kind actor payload now) (s\<lparr>st_offers := os\<rparr>)) d"
      by (auto simp: offer_in_def try_bind_Inr Let_def split: if_splits)
    have "e_status_to (registry_event tid kind actor payload now) = None"
      by (simp add: registry_event_def new_event_def)
    with d' show ?thesis unfolding in_store_def
      using advances_trans [OF assms advances_offers [OF assms] advances_event [OF advances_inv [OF advances_offers [OF assms]]]]
      by simp
  qed
  then show ?thesis
    using advances_refl [OF assms] by (auto simp: allocation_offer_def split: sum.split)
qed

end
