(* ===== verification/Advance_Effects.thy ===== *)
theory Advance_Effects
  imports Advance Next_Job_Effects Allocation_Effects
begin

text \<open>
  What \<^verbatim>\<open>advance_next_job\<close> guarantees: the store stays well formed, only an owner or an operator
  completes a task, a refusal has no effect, and a claim always comes with its handoff.
\<close>

section \<open>The parts of the transaction\<close>

lemma completed_row_simps [simp]:
  "t_id (completed_row now pane r) = t_id r" "t_status (completed_row now pane r) = ''done''"
  "same_identity r (completed_row now pane r)" "refs_ok ids (completed_row now pane r) = refs_ok ids r"
  "row_ok (completed_row now pane r) = (t_priority r \<in> set PRIORITIES \<and> t_kind r \<in> set KINDS \<and> t_title r \<noteq> [])"
  by (simp_all add: completed_row_def row_facts STATUSES_def)

text \<open>The events of a completion.\<close>

lemma complete_here_events:
  obtains es where
    "complete_here now pane t s = log_events es (upd_task (t_id t) (completed_row now pane) (end_claims (t_id t) s))"
    "\<forall>e \<in> set es. e_task_id e = t_id t \<and> e_event e \<noteq> NEXT_JOB_EVENT" "logged_status (t_id t) es = Some ''done''"
proof -
  let ?s = "upd_task (t_id t) (completed_row now pane) s"
  have c: "claim_count (t_id t) ?s = claim_count (t_id t) s" by (simp add: claim_count_def)
  define rel where "rel = (new_event (t_id t) ''lease_released'' now)
     \<lparr>e_actor := Some pane, e_scope := Some (t_scope t), e_priority := Some (t_priority t),
      e_status_to := Some ''done'',
      e_meta := Some (JObj [(''reason'', JStr ''task completed''),
                            (''leases_removed'', JInt (int (claim_count (t_id t) s)))])\<rparr>"
  define fin where "fin = (new_event (t_id t) ''completed'' now)
     \<lparr>e_actor := Some pane, e_scope := Some (t_scope t), e_priority := Some (t_priority t),
      e_status_from := Some (t_status t), e_status_to := Some ''done'',
      e_duration_ms := Some (duration_ms now (t_created_at t))\<rparr>"
  have "complete_here now pane t s = log_events ((if 0 < claim_count (t_id t) s then [rel] else []) @ [fin])
      (upd_task (t_id t) (completed_row now pane) (end_claims (t_id t) s))"
    by (simp add: complete_here_def Let_def c rel_def fin_def log_event_events log_events_def)
  then show ?thesis
    by (rule that) (auto simp: rel_def fin_def new_event_def logged_status_Cons NEXT_JOB_EVENT_def)
qed

lemma complete_here_get:
  assumes "get_task tid s = Some t"
  shows "get_task i (complete_here now pane t s) =
     (if i = tid then Some (completed_row now pane t) else get_task i s)"
proof -
  have "t_id t = tid" using assms by (rule get_task_id)
  then show ?thesis
    by (rule_tac complete_here_events [of now pane t s]) (simp add: get_task_upd assms)
qed

lemma store_inv_complete_here:
  assumes inv: "store_inv s" and t: "get_task tid s = Some t"
  shows "store_inv (complete_here now pane t s)"
proof -
  have id: "t_id t = tid" using t by (rule get_task_id)
  obtain es where es:
    "complete_here now pane t s = log_events es (upd_task (t_id t) (completed_row now pane) (end_claims (t_id t) s))"
    "\<forall>e \<in> set es. e_task_id e = t_id t \<and> e_event e \<noteq> NEXT_JOB_EVENT" "logged_status (t_id t) es = Some ''done''"
    by (rule complete_here_events)
  have "row_ok (completed_row now pane t)"
    using store_inv_task(2) [OF inv t] by (simp, simp add: row_ok_def)
  then show ?thesis
    unfolding es(1) id
    by (rule_tac store_inv_write [where f = "completed_row now pane", OF store_inv_end_claims [OF inv]])
       (use t es(2,3) id store_inv_task(2,3) [OF inv t] no_claims_left in
         \<open>auto simp: live_status_def\<close>)
qed

lemma advances_claim_locked:
  assumes "store_inv s" "get_task (t_id (d_task d)) s = Some t" "\<not> ends_claim (t_status t)"
  shows "advances s (claim_locked d pane lease_s caller now s)"
  unfolding claim_locked_def Let_def
  by (rule advances_claim_rows [OF assms]) (simp_all add: new_event_def)

lemma claim_locked_get:
  "get_task i (claim_locked d pane lease_s caller now s) =
    (if i = t_id (d_task d)
     then map_option (\<lambda>r. r\<lparr>t_status := ''in_progress'', t_assignees := lease_assignees (d_assignees d) pane,
            t_attempts := t_attempts r + 1, t_updated_at := now, t_block_reason := None\<rparr>) (get_task i s)
     else get_task i s)"
  by (simp add: claim_locked_def Let_def get_task_upd)

lemma claim_locked_lease:
  "\<exists>l \<in> set (st_leases (claim_locked d pane lease_s caller now s)).
     l_task_id l = t_id (d_task d) \<and> l_pane_id l = pane \<and> l_expires_at l = now + lease_s"
  by (simp add: claim_locked_def Let_def put_lease_def row_replace_def)

lemma advance_tasks_row:
  assumes "store_inv s" "d \<in> set (advance_tasks pane now s)"
  shows "\<exists>t. get_task (t_id (d_task d)) s = Some t \<and> d = decorate_row now s (Some pane) t
     \<and> (t_status t = ''open'' \<or> t_status t = ''in_progress'')"
  using assms(2) get_task_rows [OF store_inv_distinct [OF assms(1)]]
  by (auto simp: advance_tasks_def decorate_row_def Let_def)

text \<open>How the claim part ends: no claim, or the chosen task claimed and its handoff recorded.\<close>

lemma advance_claim_cases:
  assumes inv: "store_inv s"
    and "advance_claim env hex pane trigger opts from_task completion plan s = ok (plan', s')"
  obtains (kept) "s' = s" "as_str (jget plan' ''action'') \<noteq> Some ''claim''"
  | (claimed) d t where "d \<in> set (advance_tasks pane (now_s env) s)" "get_task (t_id (d_task d)) s = Some t"
      "d = decorate_row (now_s env) s (Some pane) t" "t_status t = ''open'' \<or> t_status t = ''in_progress''"
      "as_str (jget plan ''task_id'') = Some (t_id t) \<or> t_id t = []" "claimable_for d pane"
      "as_str (jget plan' ''action'') = Some ''claim''"
      "s' = snd (record_in \<lparr>ri_task_id = t_id t, ri_pane_id = pane, ri_from_task = from_task,
                          ri_message_id = Some (''nj-'' @ hex), ri_attempt = 0, ri_reason = None,
                          ri_now = now_s env,
                          ri_details = claim_handoff (''nj-'' @ hex) trigger opts from_task completion\<rparr>
                 (claim_locked d pane (default_lease_s env) (av_caller opts) (now_s env) s))"
proof (cases "as_str (jget plan ''action'') = Some ''claim''")
  case False
  then show ?thesis using assms(2) kept by (simp add: advance_claim_def)
next
  case True
  let ?wanted = "or_empty (as_str (jget plan ''task_id''))"
  obtain d where d: "find (\<lambda>d. t_id (d_task d) = ?wanted) (advance_tasks pane (now_s env) s) = Some d"
    using assms(2) True by (auto simp: advance_claim_def Let_def split: option.splits)
  then have mem: "d \<in> set (advance_tasks pane (now_s env) s)" "t_id (d_task d) = ?wanted"
    using find_SomeD [OF d] by auto
  obtain t where t: "get_task (t_id (d_task d)) s = Some t" "d = decorate_row (now_s env) s (Some pane) t"
    "t_status t = ''open'' \<or> t_status t = ''in_progress''"
    using advance_tasks_row [OF inv mem(1)] by blast
  have dt: "d_task d = t" using t(2) by (simp add: decorate_row_def Let_def)
  show ?thesis
  proof (cases "claimable_for d pane")
    case False
    then show ?thesis
      using assms(2) True d kept by (auto simp: advance_claim_def Let_def as_str_def)
  next
    case can: True
    let ?i = "\<lparr>ri_task_id = t_id t, ri_pane_id = pane, ri_from_task = from_task,
                          ri_message_id = Some (''nj-'' @ hex), ri_attempt = 0, ri_reason = None,
                          ri_now = now_s env,
                          ri_details = claim_handoff (''nj-'' @ hex) trigger opts from_task completion\<rparr>"
    let ?s = "claim_locked d pane (default_lease_s env) (av_caller opts) (now_s env) s"
    obtain r s1 where rec: "record_in ?i ?s = (ok r, s1)"
      using t(1) by (auto simp: record_in_def claim_locked_get dt)
    then have "plan' = jinsert ''handoff'' (JObj (jinsert ''pane_id'' (JStr pane)
          (jinsert ''task_id'' (JStr (t_id t)) (claim_handoff (''nj-'' @ hex) trigger opts from_task completion)))) plan"
      "s' = s1"
      using assms(2) True d can by (simp_all add: advance_claim_def Let_def dt)
    then show ?thesis
      using claimed [OF mem(1) t] mem(2) dt can True rec
      by (auto simp: or_empty_def split: option.splits)
  qed
qed

section \<open>The whole transaction\<close>

lemma try_bind_ok: "try_bind r f = ok y \<Longrightarrow> (\<And>x. r = ok x \<Longrightarrow> f x = ok y \<Longrightarrow> P) \<Longrightarrow> P"
  by (auto simp: try_bind_Inr)

lemma advance_start_cases:
  assumes "advance_start env pane trigger opts s = ok x"
  obtains (already) adv t where "x = Inl adv" "trigger = ''completion''" "ad_task adv = Some t" "t_status t = ''done''"
      "jget (ad_plan adv) ''action'' = Some (JStr ''skip'')"
      "get_task (or_empty (non_empty_str (av_from_task opts))) s = Some t"
  | (completed) t where "trigger = ''completion''"
      "get_task (or_empty (non_empty_str (av_from_task opts))) s = Some t" "t_status t \<noteq> ''done''"
      "pane \<in> set (owners_of t (now_s env) s) \<or> granted (av_operator_proof opts) pane"
      "x = Inr (non_empty_str (av_from_task opts), Some (now_s env), complete_here (now_s env) pane t s)"
  | (other) from_task completion where "trigger \<noteq> ''completion''" "x = Inr (from_task, completion, s)"
proof (cases "trigger = ''completion''")
  case True
  with assms obtain t where t: "get_task (or_empty (non_empty_str (av_from_task opts))) s = Some t"
    by (auto simp: advance_start_def Let_def task_get_def try_bind_Inr split: option.splits)
  show ?thesis
  proof (cases "t_status t = ''done''")
    case fin: True
    then show ?thesis
      using assms True t already by (auto simp: advance_start_def Let_def task_get_def)
  next
    case False
    then show ?thesis
      using assms True t completed by (auto simp: advance_start_def Let_def task_get_def split: if_splits)
  qed
next
  case False
  then show ?thesis
    using assms other by (auto simp: advance_start_def Let_def try_bind_Inr split: option.splits)
qed

lemma advance_in_ok:
  assumes "advance_in env planner hex pane trigger opts s = (ok adv, s')"
  obtains (already) t where "s' = s" "trigger = ''completion''" "ad_task adv = Some t" "t_status t = ''done''"
      "get_task (or_empty (non_empty_str (av_from_task opts))) s = Some t"
      "jget (ad_plan adv) ''action'' = Some (JStr ''skip'')"
  | (ran) from_task completion s1 plan s2 where
      "advance_start env pane trigger opts s = ok (Inr (from_task, completion, s1))"
      "advance_claim env hex pane trigger opts from_task completion
         (advance_plan env planner pane trigger opts from_task completion s1) s1 = ok (plan, s2)"
      "s' = log_event (decision_event (now_s env) pane from_task plan) s2"
      "late_check env pane trigger opts from_task s' = ok ()" "adv = \<lparr>ad_plan = plan, ad_task = None\<rparr>"
proof (cases "advance_start env pane trigger opts s")
  case (Inl e)
  with assms show ?thesis by (simp add: advance_in_def)
next
  case (Inr x)
  show ?thesis
  proof (cases x)
    case (Inl early)
    then have e: "adv = early" "s' = s" using assms Inr by (simp_all add: advance_in_def)
    from Inr show ?thesis
      by (cases rule: advance_start_cases) (use already e Inl in auto)
  next
    case (Inr y)
    obtain from_task completion s1 where y: "y = (from_task, completion, s1)" by (cases y)
    with Inr \<open>advance_start env pane trigger opts s = Inr x\<close>
    have st: "advance_start env pane trigger opts s = ok (Inr (from_task, completion, s1))" by simp
    show ?thesis
    proof (cases "advance_claim env hex pane trigger opts from_task completion
         (advance_plan env planner pane trigger opts from_task completion s1) s1")
      case (Inl e)
      with assms st show ?thesis by (simp add: advance_in_def Let_def)
    next
      case (Inr z)
      obtain plan s2 where z: "z = (plan, s2)" by (cases z)
      show ?thesis
        by (rule ran [OF st Inr [unfolded z]])
           (use assms st Inr z in \<open>auto simp: advance_in_def Let_def split: sum.splits\<close>)
    qed
  qed
qed

text \<open>A refusal leaves the store as it was.\<close>

lemma advance_rollback: "fst (advance_in env planner hex pane trigger opts s) = Inl e \<Longrightarrow>
   snd (advance_in env planner hex pane trigger opts s) = s"
  by (auto simp: advance_in_def Let_def split: sum.splits prod.splits)

lemma advances_decision: "store_inv s \<Longrightarrow> advances s (log_event (decision_event now pane from_task plan) s)"
  using advances_log [of s "[e]" for e] by (simp add: decision_event_def log_event_events new_event_def)

lemma advances_advance_claim:
  assumes inv: "store_inv s"
    and run: "advance_claim env hex pane trigger opts from_task completion plan s = ok (plan', s')"
  shows "advances s s'"
  using inv run
proof (cases rule: advance_claim_cases)
  case kept
  then show ?thesis by (simp add: advances_refl [OF inv])
next
  case (claimed d t)
  have "d_task d = t" using claimed(3) by (simp add: decorate_row_def Let_def)
  then have c: "advances s (claim_locked d pane (default_lease_s env) (av_caller opts) (now_s env) s)"
    using claimed(2,4) by (intro advances_claim_locked [OF inv claimed(2)]) (auto simp: ends_claim_def)
  show ?thesis
    unfolding claimed(8)
    by (rule advances_trans [OF inv c advances_record_in [OF advances_inv [OF c]]])
qed

lemma advance_in_inv:
  assumes inv: "store_inv s"
  shows "store_inv (snd (advance_in env planner hex pane trigger opts s))"
proof (cases "fst (advance_in env planner hex pane trigger opts s)")
  case (Inl e)
  then show ?thesis using advance_rollback inv by metis
next
  case (Inr adv)
  then obtain s' where run: "advance_in env planner hex pane trigger opts s = (ok adv, s')"
    by (metis prod.exhaust_sel)
  from run have "store_inv s'"
  proof (cases rule: advance_in_ok)
    case already
    then show ?thesis using inv by simp
  next
    case (ran from_task completion s1 plan s2)
    from ran(1) have "store_inv s1"
      by (cases rule: advance_start_cases) (use inv in \<open>auto intro: store_inv_complete_here\<close>)
    then have "store_inv s2" using advances_advance_claim [OF _ ran(2)] advances_inv by blast
    then show ?thesis unfolding ran(3) using advances_decision advances_inv by blast
  qed
  with run show ?thesis by simp
qed

lemma advance_next_job_store:
  "snd (advance_next_job env planner hex pane trigger opts s) = snd (advance_in env planner hex pane trigger opts s)"
  by (auto simp: advance_next_job_def split: prod.splits sum.splits option.splits)

section \<open>The daemon with hand-overs\<close>

text \<open>
  Every store the daemon reaches by commands, by advancing lanes to their next job and by
  registering, offering and allocating, whatever the other allocation tables hold. Submitting a
  review is not among the steps: it reopens a finished review task.
\<close>

inductive daemon_reachable :: "store \<Rightarrow> bool" where
  daemon_init: "daemon_reachable empty_store"
| daemon_step: "daemon_reachable s \<Longrightarrow> step s s' \<Longrightarrow> daemon_reachable s'"
| daemon_advance: "daemon_reachable s \<Longrightarrow>
    daemon_reachable (snd (advance_next_job env planner hex pane trigger opts s))"
| daemon_register: "daemon_reachable (dk_store d) \<Longrightarrow>
    daemon_reachable (dk_store (snd (allocation_register env pane pools roles skills actor enabled d)))"
| daemon_offer: "daemon_reachable (dk_store d) \<Longrightarrow>
    daemon_reachable (dk_store (snd (allocation_offer env tid pool requires actor d)))"
| daemon_allocate: "daemon_reachable (dk_store d) \<Longrightarrow>
    daemon_reachable (dk_store (snd (allocation_allocate text_of env hexes idle d)))"

lemma daemon_inv: "daemon_reachable s \<Longrightarrow> store_inv s"
proof (induction rule: daemon_reachable.induct)
  case daemon_init
  show ?case by (rule store_inv_empty)
next
  case (daemon_step s s')
  then show ?case using step_advances advances_inv by blast
next
  case (daemon_advance s env planner hex pane trigger opts)
  then show ?case by (simp add: advance_next_job_store advance_in_inv)
next
  case (daemon_register d env pane pools roles skills actor enabled)
  then show ?case using registration_keeps_inv advances_inv by blast
next
  case (daemon_offer d env tid pool requires actor)
  then show ?case using offer_keeps_inv advances_inv by blast
next
  case (daemon_allocate d text_of env hexes idle)
  then show ?case using allocation_keeps_inv advances_inv by blast
qed

lemma reachable_daemon: "reachable s \<Longrightarrow> daemon_reachable s"
  by (induction rule: reachable.induct) (auto intro: daemon_reachable.intros)

text \<open>
  C2: the store stays well formed when lanes are advanced and work is allocated. Whatever
  commands, hand-overs and allocation passes the daemon ran, with whatever planner, the events of a task tell its status, no lease is left on a
  finished or blocked task, and no dependency dangles or points to the task itself.
\<close>

theorem daemon_store_is_well_formed:
  assumes "daemon_reachable s" "get_task tid s = Some t"
  shows "logged_status tid (st_events s) = Some (t_status t)
    \<and> (ends_claim (t_status t) \<longrightarrow> (\<forall>l \<in> set (st_leases s). l_task_id l \<noteq> tid))
    \<and> set (t_depends_on t) \<subseteq> task_ids s - {tid}"
  using store_inv_task [OF daemon_inv [OF assms(1)] assms(2)] store_inv_lease [OF daemon_inv [OF assms(1)]] assms(2)
  by (auto simp: refs_ok_def)

definition demo_assigned :: store where
  "demo_assigned = exec demo_env (Assign ''t1'' [''w:1''] ''set'') demo_filed"

definition demo_opts :: advance_options where
  "demo_opts = \<lparr>av_from_task = None, av_caller = [(''pid'', JInt 7)], av_unread = 0, av_pending_delivery = False,
     av_dispatch_reason = None, av_operator_proof = None\<rparr>"

abbreviation "demo_planner \<equiv> runtime_planner (\<lambda>_. []) (demo_pacing\<lparr>turn_end_task_cooldown_s := 0\<rparr>)"
abbreviation "demo_turn \<equiv> advance_in demo_env demo_planner ''a1'' ''w:1'' ''turn.end'' demo_opts"
abbreviation "demo_finish \<equiv> advance_in demo_env demo_planner ''a1'' ''w:1'' ''completion''
   (demo_opts\<lparr>av_from_task := Some ''t1''\<rparr>)"

theorem daemon_store_is_well_formed_witness:
  "\<exists>t. get_task ''t1'' demo_claimed = Some t \<and> logged_status ''t1'' (st_events demo_claimed) = Some (t_status t)"
proof -
  have "get_task ''t1'' demo_claimed \<noteq> None" by code_simp
  then obtain t where "get_task ''t1'' demo_claimed = Some t" by auto
  with daemon_store_is_well_formed [OF reachable_daemon [OF demo_reachable(2)]] show ?thesis by blast
qed

text \<open>
  C4: only who owns a task, or an operator, finishes it. A completion that goes through was made
  by a pane among the owners of the task, assigned or holding a live lease, or by an operator
  the allowlist granted when it was read; the task is then done, whatever it was before (a
  cancelled one too), its leases are gone, and who completed it is on record.
\<close>

theorem only_owner_or_operator_completes:
  assumes "advance_in env planner hex pane ''completion'' opts s = (ok adv, s')" "store_inv s"
    and "av_from_task opts = Some tid" "get_task tid s = Some t" "tid \<noteq> []" "t_status t \<noteq> ''done''"
  shows "(pane \<in> set (owners_of t (now_s env) s) \<or> granted (av_operator_proof opts) pane)
    \<and> get_task tid s' = Some (completed_row (now_s env) pane t)
    \<and> (\<forall>l \<in> set (st_leases s'). l_task_id l \<noteq> tid)"
  using assms(1)
proof (cases rule: advance_in_ok)
  case already
  then show ?thesis using assms(3-6) by (simp add: non_empty_str_def or_empty_def)
next
  case (ran from_task completion s1 plan s2)
  from ran(1) have s1: "s1 = complete_here (now_s env) pane t s"
    "pane \<in> set (owners_of t (now_s env) s) \<or> granted (av_operator_proof opts) pane"
    by (cases rule: advance_start_cases; use assms(3-6) in \<open>simp add: non_empty_str_def or_empty_def\<close>)+
  have inv: "store_inv s1" unfolding s1(1) by (rule store_inv_complete_here [OF assms(2,4)])
  have g1: "get_task tid s1 = Some (completed_row (now_s env) pane t)"
    unfolding s1(1) by (simp add: complete_here_get [OF assms(4)])
  from inv ran(2) have g2: "get_task tid s2 = get_task tid s1"
  proof (cases rule: advance_claim_cases)
    case (claimed d u)
    have u: "d_task d = u" using claimed(3) by (simp add: decorate_row_def Let_def)
    have "t_status u = ''done''" if "t_id u = tid"
    proof -
      from claimed(2) g1 have "Some (completed_row (now_s env) pane t) = Some u" by (simp add: u that)
      then show ?thesis by (metis completed_row_simps(2) option.inject)
    qed
    with claimed(4) have "t_id u \<noteq> tid" by auto
    then show ?thesis
      unfolding claimed(8) by (simp add: record_in_def claim_locked_get u split: option.split)
  qed simp
  have inv2: "store_inv s2" using advances_advance_claim [OF inv ran(2)] advances_inv by blast
  have "get_task tid s' = Some (completed_row (now_s env) pane t)" by (simp add: ran(3) g2 g1)
  moreover have "\<forall>l \<in> set (st_leases s'). l_task_id l \<noteq> tid"
    using store_inv_lease [OF inv2, where t = "completed_row (now_s env) pane t"] g1 g2
    by (force simp: ran(3) ends_claim_def)
  ultimately show ?thesis using s1(2) by blast
qed

theorem only_owner_or_operator_completes_witness:
  "\<exists>adv s'. demo_finish demo_claimed = (ok adv, s') \<and> map_option t_status (get_task ''t1'' s') = Some ''done''"
proof -
  have e: "is_ok (fst (demo_finish demo_claimed))"
    "map_option (\<lambda>t. t_status t = ''done'') (get_task ''t1'' demo_claimed) = Some False"
    by code_simp+
  from e(1) obtain adv s' where a: "demo_finish demo_claimed = (ok adv, s')"
    by (metis prod.exhaust_sel sum.collapse(2))
  from e(2) obtain t where t: "get_task ''t1'' demo_claimed = Some t" "t_status t \<noteq> ''done''" by auto
  from only_owner_or_operator_completes [OF a reachable_inv [OF demo_reachable(2)] _ t(1) _ t(2)] a
  show ?thesis by (auto simp: completed_row_def)
qed

text \<open>
  An allowlist that cannot be read stops the completion. When an operator's proof comes with
  the completion and the late read of the allowlist fails, nothing is done and the error is
  returned, also to a pane that owns the task.
\<close>

theorem unreadable_allowlist_refuses_completion:
  assumes "av_operator_proof opts = Some pf" "op_late_read pf = Inl e"
    and "av_from_task opts = Some tid" "tid \<noteq> []" "pane \<noteq> []"
    and "get_task tid s = Some t" "t_status t \<noteq> ''done''"
  shows "snd (advance_in env planner hex pane ''completion'' opts s) = s
    \<and> isl (fst (advance_in env planner hex pane ''completion'' opts s))"
proof (cases "advance_in env planner hex pane ''completion'' opts s")
  case (Pair res s')
  have "isl res"
  proof (cases res)
    case (Inr adv)
    with Pair have "advance_in env planner hex pane ''completion'' opts s = (ok adv, s')" by simp
    then show ?thesis
    proof (cases rule: advance_in_ok)
      case already
      then show ?thesis using assms by (simp add: non_empty_str_def or_empty_def)
    next
      case (ran from_task completion s1 plan s2)
      from ran(1) have "from_task = Some tid"
        by (cases rule: advance_start_cases) (use assms in \<open>simp_all add: non_empty_str_def\<close>)
      then show ?thesis using ran(4) assms by (simp add: late_check_def)
    qed
  qed simp
  then show ?thesis
    using Pair advance_rollback [of env planner hex pane "''completion''" opts s] by (cases res) auto
qed

theorem unreadable_allowlist_refuses_completion_witness:
  "\<exists>t. get_task ''t1'' demo_claimed = Some t \<and> ''w:1'' \<in> set (t_assignees t)
     \<and> isl (fst (advance_in demo_env demo_planner ''a1'' ''w:1'' ''completion''
          (demo_opts\<lparr>av_from_task := Some ''t1'',
             av_operator_proof := Some \<lparr>op_pane_id = ''w:1'', op_pane_info = None,
               op_fresh_read = Inl Busy, op_late_read = Inl Busy\<rparr>\<rparr>) demo_claimed))"
proof -
  have "map_option (\<lambda>t. (t_status t, t_assignees t)) (get_task ''t1'' demo_claimed) = Some (''in_progress'', [''w:1''])"
    by code_simp
  then obtain t where t: "get_task ''t1'' demo_claimed = Some t" "t_status t = ''in_progress''" "t_assignees t = [''w:1'']"
    by auto
  let ?pf = "\<lparr>op_pane_id = ''w:1'', op_pane_info = None, op_fresh_read = Inl Busy, op_late_read = Inl Busy\<rparr>"
  have "isl (fst (advance_in demo_env demo_planner ''a1'' ''w:1'' ''completion''
      (demo_opts\<lparr>av_from_task := Some ''t1'', av_operator_proof := Some ?pf\<rparr>) demo_claimed))"
    using unreadable_allowlist_refuses_completion
      [where pf = ?pf and tid = "''t1''" and t = t and s = demo_claimed and e = Busy] t by simp
  with t show ?thesis by auto
qed

text \<open>The handoff of a claim, as the pane reads it afterwards.\<close>

lemma claim_handoff_entry:
  fixes pane hex trigger tid :: string and from_task :: "string option" and now :: time and completion :: "time option"
    and opts :: advance_options
  defines "i \<equiv> \<lparr>ri_task_id = tid, ri_pane_id = pane, ri_from_task = from_task, ri_message_id = Some (''nj-'' @ hex),
      ri_attempt = 0, ri_reason = None, ri_now = now,
      ri_details = claim_handoff (''nj-'' @ hex) trigger opts from_task completion\<rparr>"
  obtains h where
    "\<And>w. handoff_entry w (handoff_event i t) = (if w = None \<or> w = Some pane then Some (''nj-'' @ hex, h) else None)"
    "jget h ''task_id'' = Some (JStr tid)" "jget h ''state'' = Some (JStr ''pending'')"
proof -
  let ?m = "meta_map (handoff_event i t)"
  let ?h = "jinsert ''at'' (JReal now) (jinsert ''pane_id'' (JStr pane) (jinsert ''task_id'' (JStr tid) ?m))"
  have m: "jget ?m ''message_id'' = Some (JStr (''nj-'' @ hex))" "jget ?m ''state'' = Some (JStr ''pending'')"
    by (simp_all add: i_def meta_map_def handoff_event_def handoff_meta_def claim_handoff_def jget_jextend)
  have e: "e_actor (handoff_event i t) = Some pane" "e_task_id (handoff_event i t) = tid" "e_at (handoff_event i t) = now"
    by (simp_all add: i_def handoff_event_def new_event_def)
  show ?thesis
  proof (rule that [of ?h])
    show "handoff_entry w (handoff_event i t) = (if w = None \<or> w = Some pane then Some (''nj-'' @ hex, ?h) else None)" for w
      using m e by (auto simp: handoff_entry_def Let_def as_str_def non_empty_str_def json_opt_str_def)
  qed (use m in simp_all)
qed

lemma handoff_table_quiet:
  assumes "st_events s' = st_events s @ es" "\<forall>e \<in> set es. e_event e \<noteq> NEXT_JOB_EVENT"
  shows "handoff_table w s' = handoff_table w s"
proof -
  have "filter (\<lambda>e. e_event e = NEXT_JOB_EVENT) es = []" using assms(2) by (simp add: filter_empty_conv)
  then show ?thesis using assms(1) by (simp add: handoff_table_def next_job_events_def)
qed

lemma or_empty_non_empty [simp]: "or_empty (non_empty_str v) = or_empty v"
  by (simp add: or_empty_def non_empty_str_def split: option.split)

lemma advance_start_frame:
  assumes "store_inv s" "advance_start env pane trigger opts s = ok (Inr (from_task, completion, s1))"
  shows "store_inv s1" "\<And>i. \<not> (trigger = ''completion'' \<and> or_empty (av_from_task opts) = i) \<Longrightarrow> get_task i s1 = get_task i s"
    "handoff_table w s1 = handoff_table w s"
proof -
  from assms(2) have "store_inv s1 \<and> (\<forall>i. \<not> (trigger = ''completion'' \<and> or_empty (av_from_task opts) = i) \<longrightarrow> get_task i s1 = get_task i s)
    \<and> handoff_table w s1 = handoff_table w s"
  proof (cases rule: advance_start_cases)
    case (completed t)
    then have s1: "s1 = complete_here (now_s env) pane t s" by simp
    obtain es where es:
      "complete_here (now_s env) pane t s =
         log_events es (upd_task (t_id t) (completed_row (now_s env) pane) (end_claims (t_id t) s))"
      "\<forall>e \<in> set es. e_task_id e = t_id t \<and> e_event e \<noteq> NEXT_JOB_EVENT" "logged_status (t_id t) es = Some ''done''"
      by (rule complete_here_events)
    have "handoff_table w s1 = handoff_table w s"
      by (rule handoff_table_quiet [of _ _ es]) (use es in \<open>auto simp: s1\<close>)
    then show ?thesis
      using store_inv_complete_here [OF assms(1) completed(2)] completed(1)
      by (simp add: s1 complete_here_get [OF completed(2)])
  qed (use assms(1) in auto)
  then show "store_inv s1" "\<And>i. \<not> (trigger = ''completion'' \<and> or_empty (av_from_task opts) = i) \<Longrightarrow> get_task i s1 = get_task i s"
    "handoff_table w s1 = handoff_table w s" by blast+
qed

lemma handoff_table_decision: "handoff_table w (log_event (decision_event now pane from_task plan) s) = handoff_table w s"
  by (simp add: handoff_table_log decision_event_def new_event_def NEXT_JOB_EVENT_def)

lemma handoff_table_claim: "handoff_table w (claim_locked d pane lease_s caller now s) = handoff_table w s"
  by (simp add: claim_locked_def Let_def handoff_table_log new_event_def NEXT_JOB_EVENT_def)
     (simp add: handoff_table_def next_job_events_def)

text \<open>The claim and its handoff, from the decision on.\<close>

lemma claim_effect:
  assumes t: "get_task (t_id (d_task d)) s1 = Some t" "d = decorate_row (now_s env) s1 (Some pane) t"
    and s2: "s2 = snd (record_in \<lparr>ri_task_id = t_id t, ri_pane_id = pane, ri_from_task = from_task,
        ri_message_id = Some (''nj-'' @ hex), ri_attempt = 0, ri_reason = None, ri_now = now_s env,
        ri_details = claim_handoff (''nj-'' @ hex) trigger opts from_task completion\<rparr>
      (claim_locked d pane lease_s caller (now_s env) s1))"
  shows "\<exists>u h. get_task (t_id t) s2 = Some u \<and> t_status u = ''in_progress'' \<and> pane \<in> set (t_assignees u)
     \<and> (\<exists>l \<in> set (st_leases s2). l_task_id l = t_id t \<and> l_pane_id l = pane \<and> l_expires_at l = now_s env + lease_s)
     \<and> map_of (handoff_table (Some pane) s2) (''nj-'' @ hex) = Some h
     \<and> jget h ''task_id'' = Some (JStr (t_id t)) \<and> jget h ''state'' = Some (JStr ''pending'')
     \<and> (\<forall>i. i \<noteq> t_id t \<longrightarrow> get_task i s2 = get_task i s1)"
proof -
  have dt: "d_task d = t" using t(2) by (simp add: decorate_row_def Let_def)
  let ?c = "claim_locked d pane lease_s caller (now_s env) s1"
  let ?i = "\<lparr>ri_task_id = t_id t, ri_pane_id = pane, ri_from_task = from_task,
        ri_message_id = Some (''nj-'' @ hex), ri_attempt = 0, ri_reason = None, ri_now = now_s env,
        ri_details = claim_handoff (''nj-'' @ hex) trigger opts from_task completion\<rparr>"
  obtain u where u: "get_task (t_id t) ?c = Some u" "t_status u = ''in_progress''" "pane \<in> set (t_assignees u)"
    using t(1) by (auto simp: claim_locked_get dt lease_assignees_def)
  have s2': "s2 = log_event (handoff_event ?i u) ?c" unfolding s2 using u(1) by (simp add: record_in_def)
  obtain h where h:
    "\<And>w. handoff_entry w (handoff_event ?i u) = (if w = None \<or> w = Some pane then Some (''nj-'' @ hex, h) else None)"
    "jget h ''task_id'' = Some (JStr (t_id t))" "jget h ''state'' = Some (JStr ''pending'')"
    by (rule claim_handoff_entry [where pane = pane and hex = hex and t = u]) (rule that; assumption)
  have "handoff_table (Some pane) s2 = AList.update (''nj-'' @ hex) h (handoff_table (Some pane) ?c)"
    unfolding s2' handoff_table_log h(1) learn_def by (simp add: handoff_event_def new_event_def)
  then have "map_of (handoff_table (Some pane) s2) (''nj-'' @ hex) = Some h" by (simp add: update_conv')
  moreover have "\<exists>l \<in> set (st_leases s2). l_task_id l = t_id t \<and> l_pane_id l = pane \<and> l_expires_at l = now_s env + lease_s"
    using claim_locked_lease [of d pane lease_s caller "now_s env" s1] by (simp add: s2' dt)
  moreover have "\<forall>i. i \<noteq> t_id t \<longrightarrow> get_task i s2 = get_task i s1" by (simp add: s2' claim_locked_get dt)
  moreover have "get_task (t_id t) s2 = Some u" by (simp add: s2' u(1))
  ultimately show ?thesis using u(2,3) h(2,3) by blast
qed

text \<open>
  C30: a claim comes with its handoff, and nothing else. When the lane is given a task, the task
  is in progress, the lane is among its assignees and holds a lease for the default length, and
  the lane's handoffs hold a pending one for it under the new message id. Apart from that task
  and the completed one no task changes; and without a claim no handoff does either.
\<close>

theorem claim_comes_with_its_handoff:
  assumes "store_inv s" "advance_in env planner hex pane trigger opts s = (ok adv, s')"
  shows "if as_str (jget (ad_plan adv) ''action'') = Some ''claim''
    then \<exists>tid t h. get_task tid s' = Some t \<and> t_status t = ''in_progress'' \<and> pane \<in> set (t_assignees t)
       \<and> (\<exists>l \<in> set (st_leases s'). l_task_id l = tid \<and> l_pane_id l = pane \<and> l_expires_at l = now_s env + default_lease_s env)
       \<and> handoff_of pane (''nj-'' @ hex) s' = Some h
       \<and> jget h ''task_id'' = Some (JStr tid) \<and> jget h ''state'' = Some (JStr ''pending'')
       \<and> (\<forall>i. i \<noteq> tid \<and> \<not> (trigger = ''completion'' \<and> or_empty (av_from_task opts) = i) \<longrightarrow> get_task i s' = get_task i s)
    else (\<forall>i. \<not> (trigger = ''completion'' \<and> or_empty (av_from_task opts) = i) \<longrightarrow> get_task i s' = get_task i s)
       \<and> handoff_table w s' = handoff_table w s"
  using assms(2)
proof (cases rule: advance_in_ok)
  case already
  then show ?thesis by (simp add: as_str_def)
next
  case (ran from_task completion s1 plan s2)
  note fr = advance_start_frame [OF assms(1) ran(1)]
  from fr(1) ran(2) show ?thesis
  proof (cases rule: advance_claim_cases)
    case kept
    then show ?thesis using fr(2,3) by (simp add: ran(3,5) handoff_table_decision)
  next
    case (claimed d t)
    obtain u h where u: "get_task (t_id t) s2 = Some u" "t_status u = ''in_progress''" "pane \<in> set (t_assignees u)"
      "\<exists>l \<in> set (st_leases s2). l_task_id l = t_id t \<and> l_pane_id l = pane \<and> l_expires_at l = now_s env + default_lease_s env"
      "handoff_of pane (''nj-'' @ hex) s' = Some h"
      "jget h ''task_id'' = Some (JStr (t_id t))" "jget h ''state'' = Some (JStr ''pending'')"
      and other: "\<And>i. i \<noteq> t_id t \<Longrightarrow> get_task i s2 = get_task i s1"
      using claim_effect [OF claimed(2,3,8)] unfolding handoff_of_def ran(3) handoff_table_decision by blast
    have "get_task (t_id t) s' = Some u" "st_leases s' = st_leases s2" by (simp_all add: ran(3) u(1))
    moreover have "\<forall>i. i \<noteq> t_id t \<and> \<not> (trigger = ''completion'' \<and> or_empty (av_from_task opts) = i)
        \<longrightarrow> get_task i s' = get_task i s"
      using other fr(2) by (simp add: ran(3))
    ultimately show ?thesis using u(2-7) claimed(7) unfolding ran(5) by auto
  qed
qed

theorem claim_comes_with_its_handoff_witness:
  "\<exists>adv s' t. demo_turn demo_assigned = (ok adv, s') \<and> get_task ''t1'' s' = Some t \<and> t_status t = ''in_progress''
     \<and> handoff_of ''w:1'' ''nj-a1'' s' \<noteq> None"
proof -
  have r: "reachable demo_assigned"
    unfolding demo_assigned_def by (rule reach_step [OF demo_reachable(1) step_exec])
  have "(case demo_turn demo_assigned of
      (Inl e, s') \<Rightarrow> False
    | (Inr adv, s') \<Rightarrow> as_str (jget (ad_plan adv) ''action'') = Some ''claim''
        \<and> map_option t_status (get_task ''t1'' s') = Some ''in_progress'')" by code_simp
  then obtain adv s' t where d: "demo_turn demo_assigned = (ok adv, s')"
    "as_str (jget (ad_plan adv) ''action'') = Some ''claim''"
    "get_task ''t1'' s' = Some t" "t_status t = ''in_progress''"
    by (auto split: prod.splits sum.splits)
  have "handoff_of ''w:1'' ''nj-a1'' s' \<noteq> None"
    using claim_comes_with_its_handoff [OF reachable_inv [OF r] d(1), where w = None] d(2) by auto
  with d show ?thesis by blast
qed

end
