(* ===== verification/Mailbox.thy ===== *)
theory Mailbox
  imports Task_Store
begin

text \<open>
  The inbox, its data and its readers (\<^verbatim>\<open>inbox.rs\<close>): the rows of the mail database, the
  names of mailboxes and panes, the retention rule, and the queries that count, list and show
  mail. The writers are in \<^verbatim>\<open>Mail_Store\<close>. A mailbox may be written with or without the pane
  it belongs to, as in \<^verbatim>\<open>vp (w9:pH)\<close>; the queries match both spellings with SQL's
  \<^verbatim>\<open>LIKE\<close>, which ignores the case of ASCII letters.
\<close>

section \<open>Rows\<close>

record message_row =
  m_id :: string
  m_mailbox :: string
  m_label :: "string option"
  m_pane :: "string option"
  m_sender :: "string option"
  m_subject :: "string option"
  m_body :: string
  m_state :: string
  m_created_at :: time
  m_read_at :: "time option"
  m_acked_at :: "time option"
  m_cancelled_at :: "time option"
  m_reason :: "string option"
  m_notify_state :: "string option"
  m_notify_reason :: "string option"
  m_archived_at :: "time option"
  m_digest_id :: "string option"
  m_digest_updated_at :: "time option"
  m_notify_at :: "time option"
  m_notify_transport_id :: "string option"
  m_notify_attempt :: "int option"
  m_transport :: "string option"
  m_reply_to :: "string option"
  m_external_id :: "string option"
  m_delivered_at :: "time option"
  m_delivery_transport :: "string option"

record attachment_row =
  at_id :: string
  at_message_id :: string
  at_filename :: string
  at_media_type :: string
  at_size :: int
  at_sha256 :: string
  at_created_at :: time

record receipt =
  rc_mailbox :: string
  rc_message_ids :: "string list"
  rc_delivered_at :: time

text \<open>
  The store: the database, and the blob directory as its file names with their contents.
  \<open>ml_counter\<close> is the row \<^verbatim>\<open>'message'\<close> of \<^verbatim>\<open>counters\<close>.
\<close>

record mail =
  ml_messages :: "message_row list"
  ml_attachments :: "attachment_row list"
  ml_deliveries :: "receipt list"
  ml_counter :: "nat option"
  ml_blobs :: "(string \<times> string) list"

definition empty_mail :: mail where
  "empty_mail = \<lparr>ml_messages = [], ml_attachments = [], ml_deliveries = [], ml_counter = None, ml_blobs = []\<rparr>"

abbreviation get_message :: "string \<Rightarrow> mail \<Rightarrow> message_row option" where
  "get_message mid m \<equiv> row_get m_id mid (ml_messages m)"

definition RETENTION_S :: time where "RETENTION_S = 7 * 24 * 3600"
definition MAX_ATTACHMENT_BYTES :: int where "MAX_ATTACHMENT_BYTES = 64 * 1024 * 1024"
definition MAX_BLOB_BYTES :: int where "MAX_BLOB_BYTES = 2 * 1024 * 1024 * 1024"
definition MAX_BODY_BYTES :: int where "MAX_BODY_BYTES = 8 * 1024 * 1024"

definition STATES :: "string list" where
  "STATES = [''queued'', ''read'', ''acked'', ''cancelled'', ''archived'', ''undeliverable'']"

definition UNREAD :: string where "UNREAD = ''queued''"

definition TRANSPORTS :: "string list" where
  "TRANSPORTS = [''web'', ''telegram'', ''report'']"

definition next_message_number :: "nat option \<Rightarrow> nat" where
  "next_message_number stored = (case stored of Some n \<Rightarrow> n | None \<Rightarrow> 0) + 1"

section \<open>Names of panes and mailboxes\<close>

text \<open>\<^verbatim>\<open>str::split_once\<close> and the split at the last opening bracket (\<^verbatim>\<open>rfind\<close>).\<close>

fun split_once :: "string \<Rightarrow> string \<Rightarrow> (string \<times> string) option" where
  "split_once p [] = (if p = [] then Some ([], []) else None)"
| "split_once p (c # s) =
     (if starts_with (c # s) p then Some ([], drop (length p) (c # s))
      else map_option (\<lambda>(a, b). (c # a, b)) (split_once p s))"

definition split_open :: "string \<Rightarrow> (string \<times> string) option" where
  "split_open s =
     (if CHR ''('' \<in> set s
      then Some (rev (tl (dropWhile (\<lambda>c. c \<noteq> CHR ''('') (rev s))), rev (takeWhile (\<lambda>c. c \<noteq> CHR ''('') (rev s)))
      else None)"

definition all_digits :: "string \<Rightarrow> bool" where
  "all_digits s \<longleftrightarrow> s \<noteq> [] \<and> list_all digit_char s"

definition token :: "string \<Rightarrow> bool" where
  "token s \<longleftrightarrow> s \<noteq> [] \<and> list_all word_char s"

definition matches_pane_id :: "string \<Rightarrow> bool" where
  "matches_pane_id s = (case split_once '':p'' s of None \<Rightarrow> False | Some (window, pane) \<Rightarrow> token window \<and> token pane)"

definition strip_pane_suffix :: "string \<Rightarrow> string option" where
  "strip_pane_suffix s =
     (let trimmed = trim_end s in
      if trimmed = [] \<or> last trimmed \<noteq> CHR '')'' then None
      else (case split_open trimmed of
          None \<Rightarrow> None
        | Some (front, back) \<Rightarrow>
            let inside = trim (butlast back) in
            if (inside \<noteq> [] \<and> hd inside = CHR ''%'' \<and> all_digits (tl inside)) \<or> matches_pane_id inside
            then Some (trim_end front) else None))"

definition normalise_mailbox :: "string \<Rightarrow> string" where
  "normalise_mailbox name =
     (let s = trim name in
      case strip_pane_suffix s of
        Some stripped \<Rightarrow> if stripped \<noteq> [] then stripped else s
      | None \<Rightarrow> s)"

text \<open>
  \<^verbatim>\<open>mailbox_where\<close>: the condition it builds, on the value of the column. The pattern is the
  escaped name, an opening bracket and \<^verbatim>\<open>%\<close>, so it matches a prefix.
\<close>

definition like_prefix :: "string \<Rightarrow> string \<Rightarrow> bool" where
  "like_prefix p s \<longleftrightarrow> map lower_char (take (length p) s) = map lower_char p"

definition mailbox_where :: "string \<Rightarrow> string \<Rightarrow> bool" where
  "mailbox_where mailbox column \<longleftrightarrow>
     (let plain = normalise_mailbox mailbox in column = plain \<or> like_prefix (plain @ '' ('') column)"

definition is_pane_token :: "string \<Rightarrow> bool" where
  "is_pane_token s = (if s \<noteq> [] \<and> hd s = CHR ''%'' then all_digits (tl s) else matches_pane_id s)"

definition is_pane_id :: "string \<Rightarrow> bool" where
  "is_pane_id s =
     (if s \<noteq> [] \<and> hd s = CHR ''%'' then all_digits (tl s)
      else (case split_once '':p'' s of
          None \<Rightarrow> False
        | Some (workspace, pane) \<Rightarrow>
            workspace \<noteq> [] \<and> hd workspace = CHR ''w'' \<and> all_digits (tl workspace) \<and> all_digits pane))"

text \<open>
  \<^verbatim>\<open>is_pane_mailbox\<close>: the regex \<^verbatim>\<open>\A(?:w\d+:p\d+|%\d+)\n?\z\<close>; \<open>is_nd\<close> tells whether a text
  is one or more Unicode decimal digits.
\<close>

definition is_pane_mailbox :: "(string \<Rightarrow> bool) \<Rightarrow> string \<Rightarrow> bool" where
  "is_pane_mailbox is_nd s =
     (let s = (if s \<noteq> [] \<and> last s = CHR 0x0A then butlast s else s) in
      if s = [] then False
      else if hd s = CHR ''%'' then is_nd (tl s)
      else hd s = CHR ''w'' \<and>
        (case split_once '':p'' (tl s) of None \<Rightarrow> False | Some (workspace, pane) \<Rightarrow> is_nd workspace \<and> is_nd pane))"

section \<open>Validation and retention\<close>

definition validate_transport :: "string option \<Rightarrow> string option result" where
  "validate_transport transport = (case transport of
       None \<Rightarrow> ok None
     | Some s \<Rightarrow>
         if s = [] then ok None
         else let t = to_lowercase (trim s) in
              if t \<in> set TRANSPORTS then ok (Some t)
              else refused (NotOneOf ''transport'' TRANSPORTS t))"

definition check_sizes :: "int \<Rightarrow> string \<Rightarrow> int \<Rightarrow> int \<Rightarrow> unit result" where
  "check_sizes body_bytes attachment_name attachment_bytes blob_total_bytes =
     (if body_bytes > MAX_BODY_BYTES then refused (Text ''body is larger than 8388608 bytes'')
      else if attachment_bytes > MAX_ATTACHMENT_BYTES then refused (AttachmentTooBig attachment_name attachment_bytes)
      else if blob_total_bytes > MAX_BLOB_BYTES then refused (Text ''attachment store is full; delete some mail first'')
      else ok ())"

definition retention_cutoff :: "time \<Rightarrow> time \<Rightarrow> time" where
  "retention_cutoff now retention_s = now - retention_s"

fun coalesce :: "'a option list \<Rightarrow> 'a option" where
  "coalesce [] = None"
| "coalesce (None # vs) = coalesce vs"
| "coalesce (Some v # vs) = Some v"

text \<open>\<^verbatim>\<open>PURGE_SELECTION\<close> as SQL reads it, and the same rule as \<^verbatim>\<open>is_expired\<close> states it.\<close>

definition purge_selected :: "time \<Rightarrow> message_row \<Rightarrow> bool" where
  "purge_selected cutoff r \<longleftrightarrow> m_state r \<noteq> ''queued''
     \<and> (case coalesce [m_acked_at r, m_cancelled_at r, m_read_at r, m_archived_at r, Some (m_created_at r)] of
          Some at1 \<Rightarrow> at1 < cutoff | None \<Rightarrow> False)"

definition opt_or :: "'a option \<Rightarrow> 'a option \<Rightarrow> 'a option" where
  "opt_or a b = (case a of Some x \<Rightarrow> Some x | None \<Rightarrow> b)"

definition is_expired ::
    "string \<Rightarrow> time \<Rightarrow> time option \<Rightarrow> time option \<Rightarrow> time option \<Rightarrow> time option \<Rightarrow> time \<Rightarrow> time \<Rightarrow> bool" where
  "is_expired state created_at read_at acked_at archived_at cancelled_at now retention_s =
     (if state = ''queued'' then False
      else let age_from = (case opt_or (opt_or (opt_or acked_at cancelled_at) read_at) archived_at of
                 Some at1 \<Rightarrow> at1 | None \<Rightarrow> created_at)
           in age_from < retention_cutoff now retention_s)"

lemma purge_rule: "purge_selected (retention_cutoff now retention) r =
   is_expired (m_state r) (m_created_at r) (m_read_at r) (m_acked_at r) (m_archived_at r) (m_cancelled_at r) now retention"
  by (auto simp: purge_selected_def is_expired_def opt_or_def Let_def split: option.split)

section \<open>Counting, listing and showing mail\<close>

definition has_state :: "string \<Rightarrow> message_row \<Rightarrow> bool" where
  "has_state state r \<longleftrightarrow> m_state r = state"

definition attachment_count :: "string \<Rightarrow> mail \<Rightarrow> int" where
  "attachment_count mid m = int (row_count (\<lambda>a. at_message_id a = mid) (ml_attachments m))"

definition mailboxes_for_pane :: "string \<Rightarrow> mail \<Rightarrow> string list" where
  "mailboxes_for_pane pane m =
     sort (remdups (map m_mailbox (filter (\<lambda>r. m_pane r = Some pane) (ml_messages m))))"

record counts =
  ct_mailbox :: string
  ct_unread :: int
  ct_total :: int
  ct_archived :: int
  ct_undeliverable :: int
  ct_oldest_unread_s :: "int option"
  ct_attachments_unread :: int
  ct_from_lanes :: int

definition waited :: "time \<Rightarrow> time \<Rightarrow> int" where
  "waited now since = as_i64 (now - since)"

definition oldest :: "message_row list \<Rightarrow> time option" where
  "oldest rows = (case map m_created_at (filter (has_state UNREAD) rows) of
       [] \<Rightarrow> None | t # ts \<Rightarrow> Some (fold min ts t))"

definition mail_count :: "mail \<Rightarrow> string \<Rightarrow> string list \<Rightarrow> time \<Rightarrow> counts" where
  "mail_count m mailbox lane_panes now =
     (let here = filter (\<lambda>r. mailbox_where mailbox (m_mailbox r)) (ml_messages m);
          rows = filter (\<lambda>r. m_state r \<noteq> ''cancelled'') here;
          n = (\<lambda>state. int (row_count (has_state state) rows));
          carriers = map m_id (filter (\<lambda>r. m_mailbox r \<in> set (map m_mailbox here) \<and> m_state r = UNREAD) (ml_messages m))
      in \<lparr>ct_mailbox = mailbox, ct_unread = n UNREAD, ct_total = int (length rows),
          ct_archived = n ''archived'', ct_undeliverable = n ''undeliverable'',
          ct_oldest_unread_s = map_option (waited now) (oldest rows),
          ct_attachments_unread = int (row_count (\<lambda>a. at_message_id a \<in> set carriers) (ml_attachments m)),
          ct_from_lanes = int (row_count (\<lambda>r. has_state UNREAD r
              \<and> (case m_sender r of Some p \<Rightarrow> p \<in> set lane_panes | None \<Rightarrow> False)) here)\<rparr>)"

text \<open>The sweep's gate: unread mail from somebody that may hold a lane back.\<close>

record gate =
  gt_fresh :: int
  gt_expired :: int

definition GATE_WINDOW_S :: time where "GATE_WINDOW_S = 600"

definition gate_unread :: "mail \<Rightarrow> string \<Rightarrow> time \<Rightarrow> time option \<Rightarrow> time \<Rightarrow> gate" where
  "gate_unread m mailbox window_s since now =
     (let rows = filter (\<lambda>r. mailbox_where mailbox (m_mailbox r) \<and> m_state r = UNREAD
                           \<and> m_sender r \<noteq> None \<and> m_sender r \<noteq> Some []) (ml_messages m);
          times = filter (\<lambda>at1. case since of None \<Rightarrow> True | Some s \<Rightarrow> s < at1) (map m_created_at rows);
          fresh = int (length (filter (\<lambda>at1. now - window_s \<le> at1) times))
      in \<lparr>gt_fresh = fresh, gt_expired = int (length times) - fresh\<rparr>)"

definition sweep_gate :: "mail \<Rightarrow> string \<Rightarrow> time option \<Rightarrow> time \<Rightarrow> int \<times> bool" where
  "sweep_gate m pane since now =
     (let g = gate_unread m pane GATE_WINDOW_S since now
      in (gt_fresh g, 0 < gt_expired g \<and> gt_fresh g = 0))"

record summary =
  su_message_id :: string
  su_mailbox :: string
  su_destination :: string
  su_sender :: "string option"
  su_subject :: "string option"
  su_state :: string
  su_created_at :: time
  su_waiting_s :: "int option"
  su_body_bytes :: int
  su_attachments :: int
  su_digest_id :: "string option"
  su_transport :: "string option"
  su_reply_to :: "string option"
  su_external_id :: "string option"
  su_delivered_at :: "time option"
  su_delivery_transport :: "string option"

text \<open>The columns every reader selects; how it names the destination and the wait differs.\<close>

definition summary_of :: "string \<Rightarrow> int \<Rightarrow> mail \<Rightarrow> message_row \<Rightarrow> summary" where
  "summary_of destination waiting m r =
     \<lparr>su_message_id = m_id r, su_mailbox = m_mailbox r, su_destination = destination,
      su_sender = m_sender r, su_subject = m_subject r, su_state = m_state r, su_created_at = m_created_at r,
      su_waiting_s = (if m_state r = UNREAD then Some waiting else None),
      su_body_bytes = int (length (m_body r)), su_attachments = attachment_count (m_id r) m,
      su_digest_id = m_digest_id r, su_transport = m_transport r, su_reply_to = m_reply_to r,
      su_external_id = m_external_id r, su_delivered_at = m_delivered_at r,
      su_delivery_transport = m_delivery_transport r\<rparr>"

definition label_or :: "message_row \<Rightarrow> string" where
  "label_or r = (case m_label r of Some l \<Rightarrow> l | None \<Rightarrow> m_mailbox r)"

definition non_empty_label_or :: "message_row \<Rightarrow> string" where
  "non_empty_label_or r = (case non_empty_str (m_label r) of Some l \<Rightarrow> l | None \<Rightarrow> m_mailbox r)"

text \<open>SQL's \<^verbatim>\<open>LIMIT\<close>: a negative number is no limit.\<close>

definition sql_limit :: "int \<Rightarrow> 'a list \<Rightarrow> 'a list" where
  "sql_limit n xs = (if n < 0 then xs else take (nat n) xs)"

definition list_signed :: "mail \<Rightarrow> string \<Rightarrow> bool \<Rightarrow> int \<Rightarrow> time \<Rightarrow> summary list" where
  "list_signed m mailbox unread_only limit now =
     map (\<lambda>r. summary_of (label_or r) (waited now (m_created_at r)) m r)
       (sql_limit limit (sort_key m_created_at
          (filter (\<lambda>r. mailbox_where mailbox (m_mailbox r) \<and> m_state r \<noteq> ''cancelled''
                     \<and> (unread_only \<longrightarrow> m_state r = UNREAD)) (ml_messages m))))"

definition mail_get :: "mail \<Rightarrow> string \<Rightarrow> time \<Rightarrow> (summary \<times> string) result" where
  "mail_get m mid now = (case get_message mid m of
       None \<Rightarrow> refused (NoMessage mid)
     | Some r \<Rightarrow> ok (summary_of (label_or r) (as_i64 (max (now - m_created_at r) 0)) m r, m_body r))"

record status =
  ss_message_id :: string
  ss_state :: string
  ss_mailbox :: string
  ss_destination :: string
  ss_pane :: "string option"
  ss_sender :: "string option"
  ss_created_at :: time
  ss_read_at :: "time option"
  ss_acked_at :: "time option"
  ss_archived_at :: "time option"
  ss_cancelled_at :: "time option"
  ss_waiting_s :: "int option"
  ss_body_bytes :: int
  ss_attachments :: int
  ss_attachment_bytes :: int
  ss_reason :: "string option"
  ss_notify_state :: "string option"
  ss_notify_reason :: "string option"
  ss_notify_at :: "time option"
  ss_notify_transport_id :: "string option"
  ss_notify_attempt :: "int option"

definition mail_status :: "mail \<Rightarrow> string \<Rightarrow> time \<Rightarrow> status result" where
  "mail_status m mid now = (case get_message mid m of
       None \<Rightarrow> refused (NoMessage mid)
     | Some r \<Rightarrow> ok
         \<lparr>ss_message_id = m_id r, ss_state = m_state r, ss_mailbox = m_mailbox r,
          ss_destination = non_empty_label_or r, ss_pane = m_pane r, ss_sender = m_sender r,
          ss_created_at = m_created_at r, ss_read_at = m_read_at r, ss_acked_at = m_acked_at r,
          ss_archived_at = m_archived_at r, ss_cancelled_at = m_cancelled_at r,
          ss_waiting_s = (if m_state r = UNREAD then Some (waited now (m_created_at r)) else None),
          ss_body_bytes = int (length (m_body r)), ss_attachments = attachment_count (m_id r) m,
          ss_attachment_bytes =
            (sum_list (map at_size (filter (\<lambda>a. at_message_id a = m_id r) (ml_attachments m)))),
          ss_reason = m_reason r, ss_notify_state = m_notify_state r, ss_notify_reason = m_notify_reason r,
          ss_notify_at = m_notify_at r, ss_notify_transport_id = m_notify_transport_id r,
          ss_notify_attempt = m_notify_attempt r\<rparr>)"

definition seen_latencies :: "mail \<Rightarrow> string \<Rightarrow> nat \<Rightarrow> time list" where
  "seen_latencies m mailbox limit =
     (let rows = filter (\<lambda>r. mailbox_where mailbox (m_mailbox r) \<and> m_read_at r \<noteq> None) (ml_messages m);
          newest = take limit (sort_key (\<lambda>r. - the (m_read_at r)) rows)
      in sort (map (\<lambda>r. max (the (m_read_at r) - m_created_at r) 0) newest))"

definition pending_delivery :: "mail \<Rightarrow> string \<Rightarrow> receipt option" where
  "pending_delivery m mailbox = row_get rc_mailbox mailbox (ml_deliveries m)"

end
