(* ===== verification/Mail_Store.thy ===== *)
theory Mail_Store
  imports Mailbox
begin

text \<open>
  The writers of the inbox (\<^verbatim>\<open>inbox_store.rs\<close>, \<^verbatim>\<open>inbox_store/retired.rs\<close>): sending,
  reading, acknowledging and retiring mail, the delivery receipt a crashed reader recovers
  from, retention, and attachments kept once per content. A writer call is one transaction.
  Attachments are files beside the database, so storing one, writing the message and
  collecting unreferenced files are steps of their own.
\<close>

section \<open>Files\<close>

text \<open>
  What the operations see of the machine: the regular files with their contents, the home
  directory, and the hexadecimal SHA-256 of a content (the crate \<^verbatim>\<open>sha2\<close>).
\<close>

record disk =
  fs_files :: "string \<rightharpoonup> string"
  fs_home :: "string option"
  fs_sha :: "string \<Rightarrow> string"

definition expand_user :: "disk \<Rightarrow> string \<Rightarrow> string" where
  "expand_user d path =
     (if path = ''~'' \<or> starts_with path ''~/''
      then (case fs_home d of
          None \<Rightarrow> path
        | Some home \<Rightarrow>
            let rest = dropWhile (\<lambda>c. c = CHR ''/'') (dropWhile (\<lambda>c. c = CHR ''~'') path)
            in if home \<noteq> [] \<and> last home \<noteq> CHR ''/'' then home @ ''/'' @ rest else home @ rest)
      else path)"

text \<open>The name of a path that is a regular file, and its extension.\<close>

definition file_name :: "string \<Rightarrow> string" where
  "file_name path = rev (takeWhile (\<lambda>c. c \<noteq> CHR ''/'') (rev path))"

definition extension :: "string \<Rightarrow> string" where
  "extension name =
     (let ext = rev (takeWhile (\<lambda>c. c \<noteq> CHR ''.'') (rev name))
      in if length name \<le> length ext + 1 then [] else ext)"

definition ends_with :: "string \<Rightarrow> string \<Rightarrow> bool" where
  "ends_with s p \<longleftrightarrow> starts_with (rev s) (rev p)"

definition media_types :: "(string \<times> string) list" where
  "media_types =
     [(''png'', ''image/png''), (''jpg'', ''image/jpeg''), (''jpeg'', ''image/jpeg''), (''gif'', ''image/gif''),
      (''webp'', ''image/webp''), (''svg'', ''image/svg+xml''), (''txt'', ''text/plain''), (''md'', ''text/markdown''),
      (''csv'', ''text/csv''), (''html'', ''text/html''), (''htm'', ''text/html''), (''json'', ''application/json''),
      (''pdf'', ''application/pdf''), (''zip'', ''application/zip''), (''tar'', ''application/x-tar'')]"

definition media_type :: "string \<Rightarrow> string" where
  "media_type path =
     (let name = to_lowercase (file_name path) in
      if ends_with name ''.tar.gz'' \<or> ends_with name ''.tgz'' then ''application/x-tar''
      else (case map_of media_types (to_lowercase (extension (file_name path))) of
          Some t \<Rightarrow> t | None \<Rightarrow> ''application/octet-stream''))"

record blob =
  bl_sha256 :: string
  bl_filename :: string
  bl_size :: int
  bl_media_type :: string

definition blob_bytes :: "mail \<Rightarrow> int" where
  "blob_bytes m =
     sum_list (map (\<lambda>(name, content). int (length content))
       (filter (\<lambda>(name, content). \<not> ends_with name ''.partial'') (ml_blobs m)))"

definition store_blob :: "disk \<Rightarrow> string \<Rightarrow> mail \<Rightarrow> blob result \<times> mail" where
  "store_blob d path m =
     (let path = expand_user d path in
      case fs_files d path of
        None \<Rightarrow> (refused (NoSuchFile path), m)
      | Some content \<Rightarrow>
          let name = file_name path; size = int (length content); sha = fs_sha d content;
              blob = \<lparr>bl_sha256 = sha, bl_filename = name, bl_size = size, bl_media_type = media_type path\<rparr>
          in (case check_sizes 0 name size 0 of
                Inl e \<Rightarrow> (Inl e, m)
              | Inr _ \<Rightarrow>
                  if map_of (ml_blobs m) sha \<noteq> None then (ok blob, m)
                  else (case check_sizes 0 [] 0 (blob_bytes m + size) of
                      Inl e \<Rightarrow> (Inl e, m)
                    | Inr _ \<Rightarrow> (ok blob, m\<lparr>ml_blobs := (sha, content) # ml_blobs m\<rparr>))))"

fun stage_blobs :: "disk \<Rightarrow> string list \<Rightarrow> mail \<Rightarrow> blob list result \<times> mail" where
  "stage_blobs d [] m = (ok [], m)"
| "stage_blobs d (p # ps) m =
     (case store_blob d p m of
        (Inl e, m) \<Rightarrow> (Inl e, m)
      | (Inr b, m) \<Rightarrow> (case stage_blobs d ps m of
            (Inl e, m) \<Rightarrow> (Inl e, m)
          | (Inr bs, m) \<Rightarrow> (ok (b # bs), m)))"

definition blob_keep :: "mail \<Rightarrow> string set" where
  "blob_keep m = set (map at_sha256 (ml_attachments m))"

definition sweep_blobs :: "string set \<Rightarrow> mail \<Rightarrow> mail" where
  "sweep_blobs keep m = m\<lparr>ml_blobs := filter (\<lambda>(name, content). name \<in> keep) (ml_blobs m)\<rparr>"

definition collect_blobs :: "mail \<Rightarrow> mail" where
  "collect_blobs m = sweep_blobs (blob_keep m) m"

section \<open>Sending\<close>

record outgoing =
  ou_mailbox :: string
  ou_body :: "string option"
  ou_subject :: "string option"
  ou_sender :: "string option"
  ou_label :: "string option"
  ou_pane :: "string option"
  ou_attachments :: "string list"
  ou_transport :: "string option"
  ou_reply_to :: "string option"
  ou_external_id :: "string option"

record full_mail =
  ms_summary :: summary
  ms_pane :: "string option"
  ms_body :: string
  ms_read_at :: "time option"
  ms_attachments :: "attachment_row list"

definition attachments_of :: "string \<Rightarrow> mail \<Rightarrow> attachment_row list" where
  "attachments_of mid m = filter (\<lambda>a. at_message_id a = mid) (ml_attachments m)"

definition full_message :: "time \<Rightarrow> mail \<Rightarrow> message_row \<Rightarrow> full_mail" where
  "full_message now m r =
     \<lparr>ms_summary = summary_of (non_empty_label_or r) (waited now (m_created_at r)) m r,
      ms_pane = m_pane r, ms_body = m_body r, ms_read_at = m_read_at r,
      ms_attachments = attachments_of (m_id r) m\<rparr>"

abbreviation ms_id :: "full_mail \<Rightarrow> string" where
  "ms_id x \<equiv> su_message_id (ms_summary x)"

definition message_id_of :: "nat \<Rightarrow> string" where
  "message_id_of n = ''i'' @ digits n"

text \<open>The columns an \<^verbatim>\<open>INSERT\<close> of the store names; the others are \<^verbatim>\<open>NULL\<close>.\<close>

definition queued_row ::
    "string \<Rightarrow> string \<Rightarrow> string \<Rightarrow> string option \<Rightarrow> string option \<Rightarrow> string option \<Rightarrow> string \<Rightarrow> time \<Rightarrow> message_row" where
  "queued_row mid mailbox label pane sender subject body now =
     \<lparr>m_id = mid, m_mailbox = mailbox, m_label = Some label, m_pane = pane, m_sender = sender,
      m_subject = subject, m_body = body, m_state = ''queued'', m_created_at = now, m_read_at = None,
      m_acked_at = None, m_cancelled_at = None, m_reason = None, m_notify_state = None,
      m_notify_reason = None, m_archived_at = None, m_digest_id = None, m_digest_updated_at = None,
      m_notify_at = None, m_notify_transport_id = None, m_notify_attempt = None, m_transport = None,
      m_reply_to = None, m_external_id = None, m_delivered_at = None, m_delivery_transport = None\<rparr>"

text \<open>
  The unique columns: the id, the digest id, and the external id within a mailbox. A statement
  that would break one fails.
\<close>

definition external_keys :: "message_row list \<Rightarrow> (string \<times> string option) list" where
  "external_keys rows = map (\<lambda>r. (m_mailbox r, m_external_id r)) (filter (\<lambda>r. m_external_id r \<noteq> None) rows)"

definition unique_rows :: "message_row list \<Rightarrow> bool" where
  "unique_rows rows \<longleftrightarrow> distinct (map m_id rows) \<and> distinct (external_keys rows)
     \<and> distinct (filter (\<lambda>d. d \<noteq> None) (map m_digest_id rows))"

definition write_messages :: "message_row list \<Rightarrow> mail \<Rightarrow> mail result" where
  "write_messages rows m =
     (if unique_rows rows then ok (m\<lparr>ml_messages := rows\<rparr>) else refused (Text ''UNIQUE constraint failed: messages''))"

fun insert_attachments :: "time \<Rightarrow> string \<Rightarrow> nat \<Rightarrow> blob list \<Rightarrow> mail \<Rightarrow> mail result" where
  "insert_attachments now mid n [] m = ok m"
| "insert_attachments now mid n (b # bs) m =
     (let a = \<lparr>at_id = mid @ ''-'' @ digits (n + 1), at_message_id = mid, at_filename = bl_filename b,
               at_media_type = bl_media_type b, at_size = bl_size b, at_sha256 = bl_sha256 b, at_created_at = now\<rparr>
      in if row_get at_id (at_id a) (ml_attachments m) \<noteq> None
         then refused (Text ''UNIQUE constraint failed: attachments.id'')
         else insert_attachments now mid (n + 1) bs (m\<lparr>ml_attachments := ml_attachments m @ [a]\<rparr>))"

definition next_message_id :: "mail \<Rightarrow> string \<times> mail" where
  "next_message_id m = (let n = next_message_number (ml_counter m) in (message_id_of n, m\<lparr>ml_counter := Some n\<rparr>))"

definition body_text :: "string option \<Rightarrow> string" where
  "body_text body = (case body of Some b \<Rightarrow> b | None \<Rightarrow> [])"

text \<open>The transaction of \<^verbatim>\<open>send\<close>, after its attachments are stored.\<close>

definition file_message ::
    "env \<Rightarrow> string \<Rightarrow> string option \<Rightarrow> outgoing \<Rightarrow> blob list \<Rightarrow> mail \<Rightarrow> (full_mail \<times> mail) result" where
  "file_message env mailbox transport out stored m =
     (let now = now_s env;
          label = (case non_empty_str (ou_label out) of Some l \<Rightarrow> l | None \<Rightarrow> mailbox);
          body = body_text (ou_body out) in
      case next_message_id m of (mid, m) \<Rightarrow>
        let row = (queued_row mid mailbox label (ou_pane out) (ou_sender out) (ou_subject out) body now)
              \<lparr>m_transport := transport, m_reply_to := ou_reply_to out,
               m_external_id := non_empty_str (ou_external_id out)\<rparr>
        in try_bind (write_messages (ml_messages m @ [row]) m) (\<lambda>m.
           try_bind (insert_attachments now mid 0 stored m) (\<lambda>m.
             ok (full_message now m row, m))))"

definition send :: "env \<Rightarrow> disk \<Rightarrow> outgoing \<Rightarrow> mail \<Rightarrow> full_mail result \<times> mail" where
  "send env d out m =
     (let mailbox = trim (ou_mailbox out); body = body_text (ou_body out) in
      if mailbox = [] then (refused (Text ''a mailbox is required''), m)
      else (case validate_transport (ou_transport out) of
          Inl e \<Rightarrow> (Inl e, m)
        | Inr transport \<Rightarrow> (case check_sizes (int (length body)) [] 0 0 of
              Inl e \<Rightarrow> (Inl e, m)
            | Inr _ \<Rightarrow>
                if trim body = [] \<and> ou_attachments out = []
                then (refused (Text ''a message needs a body or an attachment''), m)
                else (case stage_blobs d (ou_attachments out) m of
                    (Inl e, m1) \<Rightarrow> (Inl e, m1)
                  | (Inr stored, m1) \<Rightarrow> (case file_message env mailbox transport out stored m1 of
                        Inl e \<Rightarrow> (Inl e, m1)
                      | Inr (msg, m2) \<Rightarrow> (ok msg, m2))))))"

section \<open>Digests and next-job mail\<close>

record digest =
  dg_mailbox :: string
  dg_id :: string
  dg_body :: string
  dg_subject :: "string option"
  dg_sender :: "string option"
  dg_label :: "string option"
  dg_pane :: "string option"

definition refreshed :: "digest \<Rightarrow> string \<Rightarrow> time \<Rightarrow> message_row \<Rightarrow> message_row" where
  "refreshed g label now r = r
     \<lparr>m_mailbox := dg_mailbox g, m_label := Some label, m_pane := dg_pane g, m_sender := dg_sender g,
      m_subject := dg_subject g, m_body := dg_body g, m_state := ''queued'', m_read_at := None,
      m_acked_at := None, m_archived_at := None, m_cancelled_at := None, m_reason := None,
      m_notify_state := None, m_notify_reason := None, m_digest_updated_at := Some now\<rparr>"

definition upsert_digest :: "env \<Rightarrow> digest \<Rightarrow> mail \<Rightarrow> string result \<times> mail" where
  "upsert_digest env g m =
     (let now = now_s env;
          label = (case non_empty_str (dg_label g) of Some l \<Rightarrow> l | None \<Rightarrow> dg_mailbox g)
      in if trim (dg_body g) = [] then (refused (Text ''a digest needs a body''), m)
         else (case check_sizes (int (length (dg_body g))) [] 0 0 of
             Inl e \<Rightarrow> (Inl e, m)
           | Inr _ \<Rightarrow> (case find (\<lambda>r. m_digest_id r = Some (dg_id g)) (ml_messages m) of
                 Some r \<Rightarrow>
                   (case write_messages (row_update (\<lambda>r. m_digest_id r = Some (dg_id g)) (refreshed g label now)
                            (ml_messages m)) m of
                      Inl e \<Rightarrow> (Inl e, m) | Inr m' \<Rightarrow> (ok (m_id r), m'))
               | None \<Rightarrow>
                   (case next_message_id m of (mid, m1) \<Rightarrow>
                     let row = (queued_row mid (dg_mailbox g) label (dg_pane g) (dg_sender g) (dg_subject g) (dg_body g) now)
                           \<lparr>m_digest_id := Some (dg_id g), m_digest_updated_at := Some now\<rparr>
                     in (case write_messages (ml_messages m1 @ [row]) m1 of
                           Inl e \<Rightarrow> (Inl e, m) | Inr m' \<Rightarrow> (ok mid, m'))))))"

definition digest_exists :: "string \<Rightarrow> mail \<Rightarrow> bool" where
  "digest_exists d m \<longleftrightarrow> find (\<lambda>r. m_digest_id r = Some d) (ml_messages m) \<noteq> None"

definition ensure_next_job ::
    "env \<Rightarrow> string \<Rightarrow> string \<Rightarrow> string \<Rightarrow> string \<Rightarrow> string \<Rightarrow> mail \<Rightarrow> status result \<times> mail" where
  "ensure_next_job env mid mailbox pane body subject m =
     (if \<not> starts_with mid ''nj-'' then (refused (Text ''next-job message id must start with nj-''), m)
      else
        let row = queued_row mid mailbox mailbox (Some pane) (Some ''next-job'') (Some subject) body (now_s env);
            m = (if get_message mid m = None then m\<lparr>ml_messages := ml_messages m @ [row]\<rparr> else m)
        in (case get_message mid m of
              None \<Rightarrow> (refused (Text ''Query returned no rows''), m)
            | Some r \<Rightarrow>
                if m_mailbox r \<noteq> mailbox \<or> m_pane r \<noteq> Some pane
                then (refused (Text ''next-job recipient changed''), m)
                else (mail_status m mid (now_s env), m)))"

section \<open>Reading\<close>

definition mark_one :: "time \<Rightarrow> string \<Rightarrow> mail \<Rightarrow> mail" where
  "mark_one now mid m = m\<lparr>ml_messages := row_update (\<lambda>r. m_id r = mid \<and> m_state r = ''queued'')
     (\<lambda>r. r\<lparr>m_state := ''read'', m_read_at := Some now\<rparr>) (ml_messages m)\<rparr>"

definition mail_read :: "env \<Rightarrow> string \<Rightarrow> int \<Rightarrow> bool \<Rightarrow> bool \<Rightarrow> mail \<Rightarrow> full_mail list \<times> mail" where
  "mail_read env mailbox limit peek mark m =
     (let now = now_s env;
          rows = sql_limit limit (sort_key m_created_at
                   (filter (\<lambda>r. m_mailbox r = mailbox \<and> m_state r = ''queued'') (ml_messages m)));
          messages = map (full_message now m) rows
      in if \<not> peek \<and> mark \<and> messages \<noteq> []
         then (map (\<lambda>x. x\<lparr>ms_summary := (ms_summary x)\<lparr>su_state := ''read''\<rparr>, ms_read_at := Some now\<rparr>) messages,
               fold (mark_one now) (map ms_id messages) m)
         else (messages, m))"

fun mark_read_loop :: "time \<Rightarrow> string list \<Rightarrow> nat \<times> mail \<Rightarrow> nat \<times> mail" where
  "mark_read_loop now [] acc = acc"
| "mark_read_loop now (mid # ids) (changed, m) =
     mark_read_loop now ids
       (changed + row_count (\<lambda>r. m_id r = mid \<and> m_state r = ''queued'') (ml_messages m), mark_one now mid m)"

definition mark_read :: "env \<Rightarrow> string list \<Rightarrow> time option \<Rightarrow> mail \<Rightarrow> nat \<times> mail" where
  "mark_read env ids now m =
     (if ids = [] then (0, m)
      else mark_read_loop (case now of Some t \<Rightarrow> t | None \<Rightarrow> now_s env) ids (0, m))"

section \<open>The delivery receipt\<close>

definition record_delivery :: "env \<Rightarrow> string \<Rightarrow> string list \<Rightarrow> time option \<Rightarrow> mail \<Rightarrow> nat \<times> mail" where
  "record_delivery env mailbox ids now m =
     (let ids = filter (\<lambda>i. trim i \<noteq> []) ids;
          now = (case now of Some t \<Rightarrow> t | None \<Rightarrow> now_s env);
          row = \<lparr>rc_mailbox = mailbox, rc_message_ids = ids, rc_delivered_at = now\<rparr>
      in if ids = [] then (0, m)
         else (length ids, m\<lparr>ml_deliveries := row_upsert rc_mailbox (\<lambda>_. row) row (ml_deliveries m)\<rparr>))"

definition drop_receipt :: "string \<Rightarrow> mail \<Rightarrow> mail" where
  "drop_receipt mailbox m = m\<lparr>ml_deliveries := row_delete (\<lambda>r. rc_mailbox r = mailbox) (ml_deliveries m)\<rparr>"

definition shrink_receipt :: "string \<Rightarrow> string list \<Rightarrow> mail \<Rightarrow> mail" where
  "shrink_receipt mailbox ids m = m\<lparr>ml_deliveries :=
     row_update (\<lambda>r. rc_mailbox r = mailbox) (\<lambda>r. r\<lparr>rc_message_ids := ids\<rparr>) (ml_deliveries m)\<rparr>"

definition recover_delivery :: "env \<Rightarrow> string \<Rightarrow> mail \<Rightarrow> full_mail list \<times> mail" where
  "recover_delivery env mailbox m =
     (case pending_delivery m mailbox of
        None \<Rightarrow> ([], m)
      | Some receipt \<Rightarrow>
          let messages = map (full_message (now_s env) m)
                (sort_key m_created_at (filter (\<lambda>r. m_id r \<in> set (rc_message_ids receipt)) (ml_messages m)));
              survivors = map ms_id messages
          in (messages,
              if set (rc_message_ids receipt) \<noteq> set survivors
              then (if survivors = [] then drop_receipt mailbox m else shrink_receipt mailbox survivors m)
              else m))"

definition note_acked :: "string \<Rightarrow> mail \<Rightarrow> string list \<times> mail" where
  "note_acked mailbox m =
     (case pending_delivery m mailbox of
        None \<Rightarrow> ([], m)
      | Some receipt \<Rightarrow>
          let remaining = map m_id (filter (\<lambda>r. m_id r \<in> set (rc_message_ids receipt) \<and> m_state r \<noteq> ''acked'')
                            (ml_messages m))
          in (remaining, if remaining = [] then drop_receipt mailbox m else shrink_receipt mailbox remaining m))"

section \<open>Acknowledging, cancelling, archiving, deleting\<close>

definition clean_ids :: "string list \<Rightarrow> string list result" where
  "clean_ids ids =
     (let ids = filter (\<lambda>i. i \<noteq> []) (map trim ids) in
      if ids = [] then refused (Text ''at least one message id is required'') else ok ids)"

record transition =
  tr_state :: string
  tr_changed :: "string list"
  tr_unchanged :: "(string \<times> string) list"

text \<open>The rows are written by \<open>write\<close>: the state, its stamp and, for an ack, the read stamp.\<close>

fun transition_loop ::
    "string list \<Rightarrow> (message_row \<Rightarrow> message_row) \<Rightarrow> string option \<Rightarrow> string list
     \<Rightarrow> string list \<times> (string \<times> string) list \<times> mail \<Rightarrow> (string list \<times> (string \<times> string) list \<times> mail) result" where
  "transition_loop allowed write mailbox [] acc = ok acc"
| "transition_loop allowed write mailbox (mid # ids) (changed, unchanged, m) =
     (case get_message mid m of
        None \<Rightarrow> refused (NoMessage mid)
      | Some r \<Rightarrow>
          if (case mailbox of Some box \<Rightarrow> normalise_mailbox (m_mailbox r) \<noteq> normalise_mailbox box | None \<Rightarrow> False)
          then refused (NotInMailbox mid (case mailbox of Some box \<Rightarrow> box | None \<Rightarrow> []))
          else if m_state r \<notin> set allowed
          then transition_loop allowed write mailbox ids (changed, unchanged @ [(mid, m_state r)], m)
          else transition_loop allowed write mailbox ids
                 (changed @ [mid], unchanged,
                  m\<lparr>ml_messages := row_update (\<lambda>r. m_id r = mid) write (ml_messages m)\<rparr>))"

definition mail_transition ::
    "string list \<Rightarrow> string \<Rightarrow> (message_row \<Rightarrow> message_row) \<Rightarrow> string list \<Rightarrow> string option \<Rightarrow> mail
     \<Rightarrow> transition result \<times> mail" where
  "mail_transition ids state write allowed mailbox m =
     (case clean_ids ids of
        Inl e \<Rightarrow> (Inl e, m)
      | Inr ids \<Rightarrow> (case transition_loop allowed write (non_empty_str mailbox) ids ([], [], m) of
            Inl e \<Rightarrow> (Inl e, m)
          | Inr (changed, unchanged, m') \<Rightarrow>
              (ok \<lparr>tr_state = state, tr_changed = changed, tr_unchanged = unchanged\<rparr>, m')))"

definition acked_row :: "time \<Rightarrow> message_row \<Rightarrow> message_row" where
  "acked_row now r = r\<lparr>m_state := ''acked'', m_acked_at := Some now, m_read_at := opt_or (m_read_at r) (Some now)\<rparr>"

definition cancelled_row :: "time \<Rightarrow> message_row \<Rightarrow> message_row" where
  "cancelled_row now r = r\<lparr>m_state := ''cancelled'', m_cancelled_at := Some now\<rparr>"

definition ack :: "env \<Rightarrow> string list \<Rightarrow> string option \<Rightarrow> mail \<Rightarrow> transition result \<times> mail" where
  "ack env ids mailbox m = mail_transition ids ''acked'' (acked_row (now_s env)) [''queued'', ''read''] mailbox m"

definition cancel :: "env \<Rightarrow> string list \<Rightarrow> mail \<Rightarrow> transition result \<times> mail" where
  "cancel env ids m = mail_transition ids ''cancelled'' (cancelled_row (now_s env)) [''queued''] None m"

record archived =
  ar_mailbox :: string
  ar_archived :: nat
  ar_states :: "string list"
  ar_before :: "time option"

definition archived_row :: "time \<Rightarrow> message_row \<Rightarrow> message_row" where
  "archived_row now r = r\<lparr>m_state := ''archived'', m_archived_at := Some now, m_read_at := opt_or (m_read_at r) (Some now)\<rparr>"

definition archive :: "env \<Rightarrow> string \<Rightarrow> time option \<Rightarrow> string list option \<Rightarrow> mail \<Rightarrow> archived result \<times> mail" where
  "archive env mailbox before states m =
     (let mailbox = trim mailbox; now = now_s env in
      if mailbox = [] then (refused (Text ''a mailbox is required''), m)
      else
        let requested = (case states of None \<Rightarrow> [''queued'', ''acked''] | Some l \<Rightarrow> l);
            allowed = filter (\<lambda>s. s \<in> set STATES \<and> s \<notin> {''cancelled'', ''archived'', ''undeliverable''}) requested;
            here = (\<lambda>r. mailbox_where mailbox (m_mailbox r) \<and> m_state r \<in> set allowed
                      \<and> (case before of Some t \<Rightarrow> m_created_at r < t | None \<Rightarrow> True))
        in if allowed = [] then (refused (Text ''state must be one of queued, read, acked''), m)
           else (ok \<lparr>ar_mailbox = mailbox, ar_archived = row_count here (ml_messages m),
                     ar_states = allowed, ar_before = before\<rparr>,
                 m\<lparr>ml_messages := row_update here (archived_row now) (ml_messages m)\<rparr>))"

definition drop_message :: "string \<Rightarrow> mail \<Rightarrow> mail" where
  "drop_message mid m = m\<lparr>ml_attachments := row_delete (\<lambda>a. at_message_id a = mid) (ml_attachments m),
     ml_messages := row_delete (\<lambda>r. m_id r = mid) (ml_messages m)\<rparr>"

definition mail_delete :: "string list \<Rightarrow> mail \<Rightarrow> string list result \<times> mail" where
  "mail_delete ids m =
     (case clean_ids ids of
        Inl e \<Rightarrow> (Inl e, m)
      | Inr ids \<Rightarrow> (case find (\<lambda>mid. get_message mid m = None) ids of
            Some mid \<Rightarrow> (refused (NoMessage mid), m)
          | None \<Rightarrow> (ok ids, collect_blobs (fold drop_message ids m))))"

text \<open>The first half of \<^verbatim>\<open>purge\<close>, its transaction, and the whole of it.\<close>

definition purge_ids :: "time \<Rightarrow> mail \<Rightarrow> string list" where
  "purge_ids cutoff m = map m_id (filter (purge_selected cutoff) (ml_messages m))"

definition purge :: "env \<Rightarrow> time option \<Rightarrow> mail \<Rightarrow> nat \<times> mail" where
  "purge env older_than_s m =
     (let cutoff = retention_cutoff (now_s env) (case older_than_s of Some s \<Rightarrow> s | None \<Rightarrow> RETENTION_S);
          ids = purge_ids cutoff m;
          m = fold drop_message ids m
      in (length ids, if 0 < length ids then collect_blobs m else m))"

section \<open>Maintenance\<close>

definition rename_mailbox :: "string \<Rightarrow> string \<Rightarrow> mail \<Rightarrow> nat result \<times> mail" where
  "rename_mailbox old new m =
     (case write_messages (row_update (\<lambda>r. m_mailbox r = old) (\<lambda>r. r\<lparr>m_mailbox := new, m_label := Some new\<rparr>)
               (ml_messages m)) m of
        Inl e \<Rightarrow> (Inl e, m)
      | Inr m' \<Rightarrow> (ok (row_count (\<lambda>r. m_mailbox r = old) (ml_messages m)), m'))"

definition undeliverable_row :: "message_row \<Rightarrow> message_row" where
  "undeliverable_row r = r\<lparr>m_state := ''undeliverable'', m_reason := Some ''target pane no longer exists''\<rparr>"

record undeliverable =
  un_count :: nat
  un_panes :: "string list"
  un_mailboxes :: "string list option"

definition mark_undeliverable :: "env \<Rightarrow> string set \<Rightarrow> mail \<Rightarrow> undeliverable \<times> mail" where
  "mark_undeliverable env live_panes m =
     (let alive = live_panes - {[]} in
      if alive = {} then (\<lparr>un_count = 0, un_panes = [], un_mailboxes = None\<rparr>, m)
      else
        let dead_panes = sort (remdups (filter (\<lambda>p. p \<notin> alive)
              (map (\<lambda>r. the (m_pane r)) (filter (\<lambda>r. m_state r = ''queued'' \<and> m_pane r \<noteq> None) (ml_messages m)))));
            lost = (\<lambda>r. m_state r = ''queued'' \<and> (case m_pane r of Some p \<Rightarrow> p \<in> set dead_panes | None \<Rightarrow> False));
            n1 = row_count lost (ml_messages m);
            rows1 = row_update lost undeliverable_row (ml_messages m);
            dead_mailboxes = sort (remdups (filter (\<lambda>b. is_pane_mailbox (is_digits env) b \<and> b \<notin> alive)
              (map m_mailbox (filter (\<lambda>r. m_state r = ''queued'') rows1))));
            lost2 = (\<lambda>r. m_state r = ''queued'' \<and> m_mailbox r \<in> set dead_mailboxes);
            n2 = row_count lost2 rows1
        in (\<lparr>un_count = n1 + n2, un_panes = dead_panes, un_mailboxes = Some dead_mailboxes\<rparr>,
            m\<lparr>ml_messages := row_update lost2 undeliverable_row rows1\<rparr>))"

definition auto_archive_undeliverable :: "env \<Rightarrow> time option \<Rightarrow> time option \<Rightarrow> mail \<Rightarrow> nat \<times> mail" where
  "auto_archive_undeliverable env age_s now m =
     (let now = (case now of Some t \<Rightarrow> t | None \<Rightarrow> now_s env);
          cutoff = now - (case age_s of Some a \<Rightarrow> a | None \<Rightarrow> 86400);
          old = (\<lambda>r. m_state r = ''undeliverable'' \<and> m_created_at r < cutoff \<and> m_archived_at r = None)
      in (row_count old (ml_messages m),
          m\<lparr>ml_messages := row_update old
              (\<lambda>r. r\<lparr>m_state := ''archived'', m_archived_at := Some now,
                     m_reason := opt_or (m_reason r) (Some ''undeliverable older than 24h'')\<rparr>) (ml_messages m)\<rparr>))"

text \<open>\<open>preview\<close> and \<open>fresh\<close> are what the two calls of \<^verbatim>\<open>authorize\<close> give.\<close>

definition archive_retired ::
    "env \<Rightarrow> time \<Rightarrow> time option \<Rightarrow> string option \<Rightarrow> string list result \<Rightarrow> string list result \<Rightarrow> mail \<Rightarrow> nat result \<times> mail" where
  "archive_retired env age_s now reason preview fresh m =
     (let now = (case now of Some t \<Rightarrow> t | None \<Rightarrow> now_s env); cutoff = now - age_s;
          reason = (case non_empty_str reason of Some r \<Rightarrow> r | None \<Rightarrow> ''mailbox of a retired pane'')
      in (case preview of
            Inl e \<Rightarrow> (Inl e, m)
          | Inr p \<Rightarrow>
              if p = [] then (ok 0, m)
              else (case fresh of
                  Inl e \<Rightarrow> (Inl e, m)
                | Inr f \<Rightarrow>
                    let boxes = set p \<inter> set f;
                        old = (\<lambda>r. m_mailbox r \<in> boxes \<and> (m_state r = ''queued'' \<or> m_state r = ''undeliverable'')
                                 \<and> m_created_at r < cutoff \<and> m_archived_at r = None)
                    in if boxes = {} then (ok 0, m)
                       else (ok (row_count old (ml_messages m)),
                             m\<lparr>ml_messages := row_update old
                                 (\<lambda>r. (archived_row now r)\<lparr>m_reason := opt_or (m_reason r) (Some reason)\<rparr>)
                                 (ml_messages m)\<rparr>))))"

definition record_notify ::
    "env \<Rightarrow> string \<Rightarrow> string \<Rightarrow> string option \<Rightarrow> string option \<Rightarrow> int option \<Rightarrow> mail \<Rightarrow> mail" where
  "record_notify env mid state reason transport_id attempt m =
     m\<lparr>ml_messages := row_update (\<lambda>r. m_id r = mid)
       (\<lambda>r. r\<lparr>m_notify_state := Some state, m_notify_reason := reason, m_notify_at := Some (now_s env),
              m_notify_transport_id := opt_or transport_id (m_notify_transport_id r),
              m_notify_attempt := opt_or attempt (m_notify_attempt r)\<rparr>) (ml_messages m)\<rparr>"

section \<open>Fetching an attachment\<close>

record fetched =
  ft_attachment_id :: string
  ft_filename :: string
  ft_target :: string
  ft_content :: string
  ft_size :: int
  ft_media_type :: string
  ft_message_id :: string

text \<open>The lookups of \<^verbatim>\<open>fetch\<close>; \<open>ft_content\<close> is what is copied to the destination.\<close>

definition fetch :: "string \<Rightarrow> mail \<Rightarrow> fetched result" where
  "fetch aid m =
     (case row_get at_id aid (ml_attachments m) of
        None \<Rightarrow> refused (NoAttachment aid)
      | Some a \<Rightarrow> (case map_of (ml_blobs m) (at_sha256 a) of
            None \<Rightarrow> refused (AttachmentMissing aid)
          | Some content \<Rightarrow>
              ok \<lparr>ft_attachment_id = aid,
                  ft_filename = at_filename a, ft_target = (if at_filename a \<noteq> [] then at_filename a else at_sha256 a),
                  ft_content = content, ft_size = at_size a, ft_media_type = at_media_type a,
                  ft_message_id = at_message_id a\<rparr>))"

end
