(* ===== verification/Mail_Machine.thy ===== *)
theory Mail_Machine
  imports Mail_Store
begin

text \<open>
  The inbox as a machine: its operations as the commands of one state, the well-formedness of
  the mail database, and what every command does to it. A command rewrites rows in place,
  appends new messages and deletes messages; the skeleton of the message table, ids and times
  of creation, records the last two.
\<close>

datatype mail_command =
    Mail_Send disk outgoing
  | Mail_Digest digest
  | Mail_Next_Job string string string string string
  | Mail_Read string int bool bool
  | Mail_Mark_Read "string list" "time option"
  | Mail_Record string "string list" "time option"
  | Mail_Recover string
  | Mail_Note_Acked string
  | Mail_Ack "string list" "string option"
  | Mail_Cancel "string list"
  | Mail_Archive string "time option" "string list option"
  | Mail_Delete "string list"
  | Mail_Purge "time option"
  | Mail_Rename string string
  | Mail_Undeliverable "string set"
  | Mail_Auto_Archive "time option" "time option"
  | Mail_Retire time "time option" "string option" "string list result" "string list result"
  | Mail_Notify string string "string option" "string option" "int option"

fun mail_exec :: "env \<Rightarrow> mail_command \<Rightarrow> mail \<Rightarrow> mail" where
  "mail_exec env (Mail_Send d out) m = snd (send env d out m)"
| "mail_exec env (Mail_Digest g) m = snd (upsert_digest env g m)"
| "mail_exec env (Mail_Next_Job mid mailbox pane body subject) m = snd (ensure_next_job env mid mailbox pane body subject m)"
| "mail_exec env (Mail_Read mailbox limit peek mark) m = snd (mail_read env mailbox limit peek mark m)"
| "mail_exec env (Mail_Mark_Read ids now) m = snd (mark_read env ids now m)"
| "mail_exec env (Mail_Record mailbox ids now) m = snd (record_delivery env mailbox ids now m)"
| "mail_exec env (Mail_Recover mailbox) m = snd (recover_delivery env mailbox m)"
| "mail_exec env (Mail_Note_Acked mailbox) m = snd (note_acked mailbox m)"
| "mail_exec env (Mail_Ack ids mailbox) m = snd (ack env ids mailbox m)"
| "mail_exec env (Mail_Cancel ids) m = snd (cancel env ids m)"
| "mail_exec env (Mail_Archive mailbox before states) m = snd (archive env mailbox before states m)"
| "mail_exec env (Mail_Delete ids) m = snd (mail_delete ids m)"
| "mail_exec env (Mail_Purge older) m = snd (purge env older m)"
| "mail_exec env (Mail_Rename old new) m = snd (rename_mailbox old new m)"
| "mail_exec env (Mail_Undeliverable alive) m = snd (mark_undeliverable env alive m)"
| "mail_exec env (Mail_Auto_Archive age now) m = snd (auto_archive_undeliverable env age now m)"
| "mail_exec env (Mail_Retire age now reason preview fresh) m = snd (archive_retired env age now reason preview fresh m)"
| "mail_exec env (Mail_Notify mid state reason transport attempt) m = record_notify env mid state reason transport attempt m"

section \<open>Well-formed mail\<close>

text \<open>The stamps of a message tell its state.\<close>

definition stamps_ok :: "message_row \<Rightarrow> bool" where
  "stamps_ok r \<longleftrightarrow> m_state r \<in> set STATES
     \<and> (m_state r = ''queued'' \<longrightarrow> m_read_at r = None \<and> m_acked_at r = None \<and> m_cancelled_at r = None \<and> m_archived_at r = None)
     \<and> (m_state r = ''undeliverable'' \<longrightarrow> m_read_at r = None \<and> m_acked_at r = None \<and> m_archived_at r = None)
     \<and> (m_state r = ''read'' \<longrightarrow> m_read_at r \<noteq> None \<and> m_acked_at r = None)
     \<and> (m_state r = ''acked'' \<longrightarrow> m_read_at r \<noteq> None \<and> m_acked_at r \<noteq> None)
     \<and> (m_state r = ''cancelled'' \<longrightarrow> m_cancelled_at r \<noteq> None)
     \<and> (m_state r = ''archived'' \<longrightarrow> m_archived_at r \<noteq> None)"

definition sent_id :: "mail \<Rightarrow> string \<Rightarrow> bool" where
  "sent_id m i \<longleftrightarrow> (\<exists>n k. ml_counter m = Some n \<and> 1 \<le> k \<and> k \<le> n \<and> i = message_id_of k)"

definition attachment_ok :: "mail \<Rightarrow> attachment_row \<Rightarrow> bool" where
  "attachment_ok m a \<longleftrightarrow> at_message_id a \<in> m_id ` set (ml_messages m) \<and> sent_id m (at_message_id a)
     \<and> (\<exists>k. at_id a = at_message_id a @ ''-'' @ digits k)"

definition mail_inv :: "mail \<Rightarrow> bool" where
  "mail_inv m \<longleftrightarrow> unique_rows (ml_messages m)
     \<and> (\<forall>r \<in> set (ml_messages m). stamps_ok r \<and> (sent_id m (m_id r) \<or> starts_with (m_id r) ''nj-''))
     \<and> distinct (map at_id (ml_attachments m)) \<and> (\<forall>a \<in> set (ml_attachments m). attachment_ok m a)"

definition skeleton :: "mail \<Rightarrow> (string \<times> time) list" where
  "skeleton m = map (\<lambda>r. (m_id r, m_created_at r)) (ml_messages m)"

lemma skeleton_ids: "map fst (skeleton m) = map m_id (ml_messages m)"
  by (simp add: skeleton_def comp_def)

lemma skeleton_id_set: "fst ` set (skeleton m) = m_id ` set (ml_messages m)"
  by (metis skeleton_ids list.set_map)

lemma inv_empty: "mail_inv empty_mail"
  by (simp add: mail_inv_def empty_mail_def unique_rows_def external_keys_def)

lemma inv_frame:
  assumes "ml_messages m' = ml_messages m" "ml_attachments m' = ml_attachments m" "ml_counter m' = ml_counter m"
  shows "mail_inv m' = mail_inv m" "skeleton m' = skeleton m"
  using assms by (simp_all add: mail_inv_def attachment_ok_def sent_id_def skeleton_def)

section \<open>Rewriting rows in place\<close>

definition row_step :: "message_row \<Rightarrow> message_row \<Rightarrow> bool" where
  "row_step r r' \<longleftrightarrow> m_id r' = m_id r \<and> m_created_at r' = m_created_at r \<and> (stamps_ok r \<longrightarrow> stamps_ok r')"

definition same_keys :: "message_row \<Rightarrow> message_row \<Rightarrow> bool" where
  "same_keys r r' \<longleftrightarrow> m_mailbox r' = m_mailbox r \<and> m_external_id r' = m_external_id r \<and> m_digest_id r' = m_digest_id r"

definition in_place :: "mail \<Rightarrow> mail \<Rightarrow> bool" where
  "in_place m m' \<longleftrightarrow> list_all2 row_step (ml_messages m) (ml_messages m') \<and> unique_rows (ml_messages m')
     \<and> ml_attachments m' = ml_attachments m \<and> ml_counter m' = ml_counter m"

lemma row_step_refl [simp]: "row_step r r"
  by (simp add: row_step_def)

lemma in_place_refl: "mail_inv m \<Longrightarrow> in_place m m"
  by (simp add: in_place_def mail_inv_def list.rel_refl)

lemma in_place_trans: "in_place a b \<Longrightarrow> in_place b c \<Longrightarrow> in_place a c"
proof -
  assume ab: "in_place a b" and bc: "in_place b c"
  have "list_all2 row_step (ml_messages a) (ml_messages c)"
    using ab bc unfolding in_place_def
    by (auto intro: list_all2_trans [of row_step row_step row_step] simp: row_step_def)
  with ab bc show ?thesis by (simp add: in_place_def)
qed

lemma steps_skeleton: "list_all2 row_step rows rows' \<Longrightarrow>
   map (\<lambda>r. (m_id r, m_created_at r)) rows' = map (\<lambda>r. (m_id r, m_created_at r)) rows"
  by (induction rule: list_all2_induct) (simp_all add: row_step_def)

lemma in_place_inv:
  assumes "mail_inv m" "in_place m m'"
  shows "mail_inv m'" "skeleton m' = skeleton m"
proof -
  have all2: "list_all2 row_step (ml_messages m) (ml_messages m')" using assms(2) by (simp add: in_place_def)
  show sk: "skeleton m' = skeleton m" using steps_skeleton [OF all2] by (simp add: skeleton_def)
  have rows: "\<exists>r \<in> set (ml_messages m). row_step r r'" if "r' \<in> set (ml_messages m')" for r'
    using all2 that by (fastforce simp: list_all2_conv_all_nth in_set_conv_nth)
  have "m_id ` set (ml_messages m') = m_id ` set (ml_messages m)" using sk skeleton_id_set by metis
  moreover have "stamps_ok r' \<and> (sent_id m (m_id r') \<or> starts_with (m_id r') ''nj-'')"
    if "r' \<in> set (ml_messages m')" for r'
    using rows [OF that] assms(1) by (auto simp: mail_inv_def row_step_def)
  ultimately show "mail_inv m'"
    using assms by (simp add: mail_inv_def in_place_def attachment_ok_def sent_id_def)
qed

lemma unique_update:
  assumes "\<And>r. r \<in> set rows \<Longrightarrow> P r \<Longrightarrow> m_id (f r) = m_id r \<and> same_keys r (f r)"
  shows "unique_rows (row_update P f rows) = unique_rows rows"
proof -
  have ids: "map m_id (row_update P f rows) = map m_id rows" "map m_digest_id (row_update P f rows) = map m_digest_id rows"
    using assms by (auto simp: row_update_def same_keys_def)
  have "external_keys (row_update P f rows) = external_keys rows"
    using assms unfolding external_keys_def
  proof (induction rows)
    case (Cons r rows)
    have "m_external_id (if P r then f r else r) = m_external_id r" "m_mailbox (if P r then f r else r) = m_mailbox r"
      using Cons.prems [of r] by (auto simp: same_keys_def)
    with Cons show ?case by (simp add: row_update_def)
  qed (simp add: row_update_def)
  with ids show ?thesis by (simp add: unique_rows_def)
qed

lemma in_place_update:
  assumes "mail_inv m" "\<And>r. P r \<Longrightarrow> row_step r (f r) \<and> same_keys r (f r)"
  shows "in_place m (m\<lparr>ml_messages := row_update P f (ml_messages m)\<rparr>)"
proof -
  have "list_all2 row_step (ml_messages m) (row_update P f (ml_messages m))"
    using assms(2) by (auto simp: row_update_def list_all2_conv_all_nth)
  moreover have "unique_rows (row_update P f (ml_messages m))"
    using assms by (subst unique_update) (auto simp: mail_inv_def row_step_def)
  ultimately show ?thesis by (simp add: in_place_def)
qed

lemma in_place_write:
  assumes "mail_inv m" "write_messages (row_update P f (ml_messages m)) m = ok m'" "\<And>r. P r \<Longrightarrow> row_step r (f r)"
  shows "in_place m m'"
  using assms by (auto simp: write_messages_def in_place_def row_update_def list_all2_conv_all_nth split: if_splits)

text \<open>The rewritings of the code.\<close>

lemma read_step: "m_state r = ''queued'' \<Longrightarrow> row_step r (r\<lparr>m_state := ''read'', m_read_at := Some now\<rparr>)"
  by (simp add: row_step_def stamps_ok_def STATES_def)

lemma acked_step: "row_step r (acked_row now r)"
  by (cases "m_read_at r") (simp_all add: row_step_def stamps_ok_def STATES_def acked_row_def opt_or_def)

lemma cancelled_step: "row_step r (cancelled_row now r)"
  by (simp add: row_step_def stamps_ok_def STATES_def cancelled_row_def)

lemma archived_step: "row_step r (archived_row now r)" "row_step r ((archived_row now r)\<lparr>m_reason := why\<rparr>)"
  by (simp_all add: row_step_def stamps_ok_def STATES_def archived_row_def)

lemma undeliverable_step: "m_state r = ''queued'' \<Longrightarrow> row_step r (undeliverable_row r)"
  by (simp add: row_step_def stamps_ok_def STATES_def undeliverable_row_def)

lemma auto_archive_step: "row_step r (r\<lparr>m_state := ''archived'', m_archived_at := Some now, m_reason := why\<rparr>)"
  by (simp add: row_step_def stamps_ok_def STATES_def)

lemma refreshed_step: "row_step r (refreshed g label now r)"
  by (simp add: row_step_def stamps_ok_def STATES_def refreshed_def)

lemma column_step:
  "row_step r (r\<lparr>m_mailbox := box, m_label := l\<rparr>)"
  "row_step r (r\<lparr>m_notify_state := a, m_notify_reason := b, m_notify_at := c, m_notify_transport_id := d, m_notify_attempt := e\<rparr>)"
  by (simp_all add: row_step_def stamps_ok_def)

lemmas mail_steps = read_step acked_step cancelled_step archived_step undeliverable_step auto_archive_step
  refreshed_step column_step

lemma keys_of_steps [simp]:
  "same_keys r (r\<lparr>m_state := st, m_read_at := t\<rparr>)" "same_keys r (acked_row now r)" "same_keys r (cancelled_row now r)"
  "same_keys r (archived_row now r)" "same_keys r ((archived_row now r)\<lparr>m_reason := why\<rparr>)"
  "same_keys r (undeliverable_row r)"
  "same_keys r (r\<lparr>m_state := st, m_archived_at := t, m_reason := why\<rparr>)"
  "same_keys r (r\<lparr>m_notify_state := a, m_notify_reason := b, m_notify_at := c, m_notify_transport_id := d, m_notify_attempt := e\<rparr>)"
  by (simp_all add: same_keys_def acked_row_def cancelled_row_def archived_row_def undeliverable_row_def)

section \<open>What each command does to the messages\<close>

lemma in_place_mark: "mail_inv m \<Longrightarrow> in_place m (mark_one now mid m)"
  unfolding mark_one_def by (rule in_place_update) (simp_all add: mail_steps)

lemma in_place_fold:
  assumes "mail_inv m" "\<And>x m. mail_inv m \<Longrightarrow> in_place m (f x m)"
  shows "in_place m (fold f xs m)"
  using assms(1)
proof (induction xs arbitrary: m)
  case Nil
  then show ?case by (simp add: in_place_refl)
next
  case (Cons x xs)
  have "in_place m (f x m)" using Cons.prems by (rule assms(2))
  moreover have "in_place (f x m) (fold f xs (f x m))"
    using Cons.IH in_place_inv(1) [OF Cons.prems calculation] by blast
  ultimately show ?case by (simp add: in_place_trans)
qed

lemma in_place_marks: "mail_inv m \<Longrightarrow> in_place m (fold (mark_one now) ids m)"
  by (rule in_place_fold) (auto intro: in_place_mark)

lemma mark_read_loop_fold: "snd (mark_read_loop now ids (n, m)) = fold (mark_one now) ids m"
  by (induction ids arbitrary: n m) simp_all

lemma mark_read_snd: "snd (mark_read env ids now m)
   = fold (mark_one (case now of Some t \<Rightarrow> t | None \<Rightarrow> now_s env)) ids m"
  by (simp add: mark_read_def mark_read_loop_fold)

lemma mail_read_snd: "snd (mail_read env mailbox limit peek mark m) =
   (if \<not> peek \<and> mark then fold (mark_one (now_s env))
      (map m_id (sql_limit limit (sort_key m_created_at
         (filter (\<lambda>r. m_mailbox r = mailbox \<and> m_state r = ''queued'') (ml_messages m))))) m else m)"
  by (simp add: mail_read_def Let_def full_message_def summary_of_def comp_def)

lemma in_place_transition:
  assumes "mail_inv m" "\<And>r. row_step r (write r) \<and> same_keys r (write r)"
    and "transition_loop allowed write mailbox ids (changed, unchanged, m) = ok (changed', unchanged', m')"
  shows "in_place m m'"
  using assms(1,3)
proof (induction ids arbitrary: changed unchanged m)
  case Nil
  then show ?case by (simp add: in_place_refl)
next
  case (Cons mid ids)
  let ?m = "m\<lparr>ml_messages := row_update (\<lambda>r. m_id r = mid) write (ml_messages m)\<rparr>"
  have step: "in_place m ?m" by (rule in_place_update [OF Cons.prems(1)]) (use assms(2) in blast)
  have step_inv: "mail_inv ?m" by (rule in_place_inv(1) [OF Cons.prems(1) step])
  from Cons.prems(2) obtain r where r: "get_message mid m = Some r"
    by (auto split: option.splits)
  show ?case
  proof (cases "m_state r \<in> set allowed")
    case True
    then have "transition_loop allowed write mailbox ids (changed @ [mid], unchanged, ?m) = ok (changed', unchanged', m')"
      using Cons.prems(2) r by (auto split: if_splits)
    then show ?thesis using Cons.IH [OF step_inv] step in_place_trans by blast
  next
    case False
    then show ?thesis using Cons.prems r Cons.IH [OF Cons.prems(1)] by (auto split: if_splits)
  qed
qed

lemma in_place_mail_transition:
  assumes "mail_inv m" "\<And>r. row_step r (write r) \<and> same_keys r (write r)"
  shows "in_place m (snd (mail_transition ids state write allowed mailbox m))"
  using in_place_refl [OF assms(1)] in_place_transition [OF assms]
  by (auto simp: mail_transition_def split: sum.split)

lemma unique_rows_filtered: "unique_rows rows \<longleftrightarrow> distinct (map m_id rows)
   \<and> distinct (map (\<lambda>r. (m_mailbox r, m_external_id r)) (filter (\<lambda>r. m_external_id r \<noteq> None) rows))
   \<and> distinct (map m_digest_id (filter (\<lambda>r. m_digest_id r \<noteq> None) rows))"
  unfolding unique_rows_def external_keys_def filter_map comp_def ..

lemma drop_inv:
  assumes "mail_inv m"
  shows "mail_inv (drop_message mid m)"
    "skeleton (drop_message mid m) = filter (\<lambda>p. fst p \<noteq> mid) (skeleton m)"
    "ml_counter (drop_message mid m) = ml_counter m"
proof -
  show "skeleton (drop_message mid m) = filter (\<lambda>p. fst p \<noteq> mid) (skeleton m)"
    by (simp add: skeleton_def drop_message_def row_delete_def filter_map comp_def)
  show "ml_counter (drop_message mid m) = ml_counter m" by (simp add: drop_message_def)
  have "unique_rows (filter P rows)" if "unique_rows rows" for P rows
    using that distinct_map_filter [of m_id rows P]
      distinct_map_filter [of "\<lambda>r. (m_mailbox r, m_external_id r)" "filter (\<lambda>r. m_external_id r \<noteq> None) rows" P]
      distinct_map_filter [of m_digest_id "filter (\<lambda>r. m_digest_id r \<noteq> None) rows" P]
    by (simp add: unique_rows_filtered conj_commute)
  then show "mail_inv (drop_message mid m)"
    using assms
    by (auto simp: mail_inv_def drop_message_def row_delete_def attachment_ok_def sent_id_def
        intro!: distinct_map_filter)
qed

lemma drops_inv:
  assumes "mail_inv m"
  shows "mail_inv (fold drop_message ids m)"
    "skeleton (fold drop_message ids m) = filter (\<lambda>p. fst p \<notin> set ids) (skeleton m)"
    "ml_counter (fold drop_message ids m) = ml_counter m"
proof -
  have "mail_inv (fold drop_message ids m)
      \<and> skeleton (fold drop_message ids m) = filter (\<lambda>p. fst p \<notin> set ids) (skeleton m)
      \<and> ml_counter (fold drop_message ids m) = ml_counter m" using assms
  proof (induction ids arbitrary: m)
    case (Cons i ids)
    have "(\<lambda>p. fst p \<notin> set ids \<and> fst p \<noteq> i) = (\<lambda>p. fst p \<noteq> i \<and> fst p \<notin> set ids)" by auto
    then show ?case using Cons.IH [OF drop_inv(1) [OF Cons.prems, of i]] drop_inv [OF Cons.prems, of i]
      by simp
  qed simp
  then show "mail_inv (fold drop_message ids m)"
    "skeleton (fold drop_message ids m) = filter (\<lambda>p. fst p \<notin> set ids) (skeleton m)"
    "ml_counter (fold drop_message ids m) = ml_counter m" by simp_all
qed

lemma message_id_inject [simp]: "message_id_of j = message_id_of k \<longleftrightarrow> j = k"
  by (simp add: message_id_of_def digits_inject)

lemma message_id_next_job: "\<not> starts_with (message_id_of k) ''nj-''"
  by (simp add: message_id_of_def starts_with_def)

text \<open>Appending a row under the next number, and the attachments with it.\<close>

lemma append_inv:
  assumes "mail_inv m" "next_message_id m = (mid, m1)"
    and "write_messages (ml_messages m1 @ [row]) m1 = ok m2" "m_id row = mid" "stamps_ok row"
  shows "mail_inv m2" "skeleton m2 = skeleton m @ [(mid, m_created_at row)]" "sent_id m2 mid" "\<not> sent_id m mid"
    "sent_id m i \<Longrightarrow> sent_id m2 i" "ml_messages m2 = ml_messages m @ [row]"
proof -
  define n where "n = next_message_number (ml_counter m)"
  have m1: "m1 = m\<lparr>ml_counter := Some n\<rparr>" and mid: "mid = message_id_of n"
    using assms(2) by (auto simp: next_message_id_def n_def Let_def)
  have m2: "m2 = m\<lparr>ml_counter := Some n, ml_messages := ml_messages m @ [row]\<rparr>"
    and uni: "unique_rows (ml_messages m @ [row])"
    using assms(3) by (auto simp: write_messages_def m1 split: if_splits)
  have n: "1 \<le> n" "ml_counter m = Some k \<Longrightarrow> n = Suc k" for k
    by (simp_all add: n_def next_message_number_def split: option.split)
  show new: "sent_id m2 mid" using n(1) by (simp add: sent_id_def m2 mid)
  show "\<not> sent_id m mid" using n(2) by (auto simp: sent_id_def mid)
  show old: "sent_id m2 i" if "sent_id m i" for i
    using that n(2) by (auto simp: sent_id_def m2)
  show "ml_messages m2 = ml_messages m @ [row]" by (simp add: m2)
  show "skeleton m2 = skeleton m @ [(mid, m_created_at row)]" by (simp add: skeleton_def m2 assms(4))
  show "mail_inv m2"
    using assms(1,4,5) uni old new by (auto simp: mail_inv_def m2 attachment_ok_def)
qed

lemma insert_attachments_inv:
  assumes "mail_inv m" "insert_attachments now mid n bs m = ok m'" "sent_id m mid" "mid \<in> m_id ` set (ml_messages m)"
  shows "mail_inv m' \<and> ml_messages m' = ml_messages m \<and> ml_counter m' = ml_counter m"
  using assms
proof (induction now mid n bs m rule: insert_attachments.induct)
  case (2 now mid n b bs m)
  let ?a = "\<lparr>at_id = mid @ ''-'' @ digits (n + 1), at_message_id = mid, at_filename = bl_filename b,
     at_media_type = bl_media_type b, at_size = bl_size b, at_sha256 = bl_sha256 b, at_created_at = now\<rparr>"
  let ?m = "m\<lparr>ml_attachments := ml_attachments m @ [?a]\<rparr>"
  have free: "row_get at_id (mid @ ''-'' @ digits (n + 1)) (ml_attachments m) = None"
    and rest: "insert_attachments now mid (n + 1) bs ?m = ok m'"
    using 2(3) by (auto simp: Let_def split: if_splits)
  have "attachment_ok ?m ?a" using 2(4,5) unfolding attachment_ok_def by (auto simp: sent_id_def)
  moreover have "attachment_ok ?m a" if "attachment_ok m a" for a
    using that by (simp add: attachment_ok_def sent_id_def)
  ultimately have "mail_inv ?m"
    using 2(2) free by (auto simp: mail_inv_def sent_id_def row_get_def find_eq_None_iff)
  from 2(1) [OF refl _ this rest] free 2(4,5) show ?case by (simp add: sent_id_def)
qed simp

section \<open>Every command\<close>

text \<open>
  What a command may do: keep the mail well formed, delete some messages, and add messages
  under ids that were never given out (or under the id of a next job).
\<close>

definition moves :: "(string \<Rightarrow> bool) \<Rightarrow> mail \<Rightarrow> mail \<Rightarrow> bool" where
  "moves named m m' \<longleftrightarrow> mail_inv m' \<and> (\<forall>i. sent_id m i \<longrightarrow> sent_id m' i)
     \<and> (\<exists>P news. skeleton m' = filter P (skeleton m) @ news
          \<and> (\<forall>p \<in> set news. (sent_id m' (fst p) \<and> \<not> sent_id m (fst p)) \<or> named (fst p)))"

lemma moves_same:
  assumes "mail_inv m'" "skeleton m' = skeleton m" "ml_counter m' = ml_counter m"
  shows "moves named m m'"
proof -
  have "skeleton m' = filter (\<lambda>_. True) (skeleton m) @ []" using assms(2) by simp
  moreover have "sent_id m' i = sent_id m i" for i using assms(3) by (simp add: sent_id_def)
  ultimately show ?thesis unfolding moves_def using assms(1) by (metis empty_iff list.set(1))
qed

lemma moves_in_place: "mail_inv m \<Longrightarrow> in_place m m' \<Longrightarrow> moves named m m'"
  using in_place_inv by (auto intro!: moves_same simp: in_place_def)

lemma moves_update:
  assumes "mail_inv m" "\<And>r. P r \<Longrightarrow> row_step r (f r) \<and> same_keys r (f r)"
  shows "moves named m (m\<lparr>ml_messages := row_update P f (ml_messages m)\<rparr>)"
  by (rule moves_in_place [OF assms(1) in_place_update [OF assms]])

lemma moves_transition:
  assumes "mail_inv m" "\<And>r. row_step r (write r) \<and> same_keys r (write r)"
  shows "moves named m (snd (mail_transition ids state write allowed mailbox m))"
  by (rule moves_in_place [OF assms(1) in_place_mail_transition [OF assms]])

lemma moves_frame:
  assumes "mail_inv m" "ml_messages m' = ml_messages m" "ml_attachments m' = ml_attachments m" "ml_counter m' = ml_counter m"
  shows "moves named m m'"
  using assms inv_frame [OF assms(2-4)] by (auto intro: moves_same)

lemma moves_refl: "mail_inv m \<Longrightarrow> moves named m m"
  by (rule moves_frame) simp_all

lemma moves_drop:
  assumes "mail_inv m"
  shows "moves named m (fold drop_message ids m)" "moves named m (collect_blobs (fold drop_message ids m))"
proof -
  have "skeleton (fold drop_message ids m) = filter (\<lambda>p. fst p \<notin> set ids) (skeleton m) @ []"
    using drops_inv(2) [OF assms] by simp
  moreover have "sent_id (fold drop_message ids m) i = sent_id m i" for i
    using drops_inv(3) [OF assms] by (simp add: sent_id_def)
  ultimately show "moves named m (fold drop_message ids m)"
    unfolding moves_def using drops_inv(1) [OF assms] by (metis empty_iff list.set(1))
  then show "moves named m (collect_blobs (fold drop_message ids m))"
    using inv_frame [of "collect_blobs (fold drop_message ids m)" "fold drop_message ids m"]
    by (simp add: moves_def collect_blobs_def sweep_blobs_def sent_id_def)
qed

lemma store_blob_only: "\<exists>b. snd (store_blob d p m) = m\<lparr>ml_blobs := b\<rparr>"
proof -
  have "\<exists>b. m = m\<lparr>ml_blobs := b\<rparr>" by (rule exI [of _ "ml_blobs m"]) simp
  then show ?thesis by (auto simp: store_blob_def Let_def split: option.split sum.split)
qed

lemma stage_blobs_only: "\<exists>b. snd (stage_blobs d ps m) = m\<lparr>ml_blobs := b\<rparr>"
proof (induction d ps m rule: stage_blobs.induct)
  case (1 d m)
  show ?case by (rule exI [of _ "ml_blobs m"]) simp
next
  case (2 d p ps m)
  obtain res m1 where st: "store_blob d p m = (res, m1)" by fastforce
  then obtain b where m1: "m1 = m\<lparr>ml_blobs := b\<rparr>" using store_blob_only [of d p m] by auto
  obtain res2 m2 where st2: "stage_blobs d ps m1 = (res2, m2)" by fastforce
  show ?case
  proof (cases res)
    case (Inl e)
    then show ?thesis using st m1 by auto
  next
    case (Inr b1)
    from 2 [OF st [symmetric] Inr] st2 obtain b2 where "m2 = m1\<lparr>ml_blobs := b2\<rparr>" by auto
    then show ?thesis using st Inr st2 m1 by (auto split: sum.split)
  qed
qed

lemma stage_frame:
  "ml_messages (snd (stage_blobs d ps m)) = ml_messages m"
  "ml_attachments (snd (stage_blobs d ps m)) = ml_attachments m"
  "ml_counter (snd (stage_blobs d ps m)) = ml_counter m"
  "ml_deliveries (snd (stage_blobs d ps m)) = ml_deliveries m"
  using stage_blobs_only [of d ps m] by auto

lemma queued_stamps [simp]: "stamps_ok (queued_row mid mailbox label pane sender subject body now)"
  "m_id (queued_row mid mailbox label pane sender subject body now) = mid"
  "m_state (queued_row mid mailbox label pane sender subject body now) = ''queued''"
  by (simp_all add: stamps_ok_def queued_row_def STATES_def)

lemma file_message_ok:
  assumes "mail_inv m" "file_message env mailbox transport out stored m = ok (msg, m')"
  obtains mid row where "mail_inv m'" "ml_messages m' = ml_messages m @ [row]" "m_id row = mid" "ms_id msg = mid"
    "m_state row = ''queued''" "m_body row = body_text (ou_body out)" "m_mailbox row = mailbox"
    "sent_id m' mid" "\<not> sent_id m mid" "\<And>i. sent_id m i \<Longrightarrow> sent_id m' i"
    "skeleton m' = skeleton m @ [(mid, m_created_at row)]"
proof -
  obtain mid m1 where nxt: "next_message_id m = (mid, m1)" by fastforce
  define row where "row = (queued_row mid mailbox (case non_empty_str (ou_label out) of Some l \<Rightarrow> l | None \<Rightarrow> mailbox)
      (ou_pane out) (ou_sender out) (ou_subject out) (body_text (ou_body out)) (now_s env))
      \<lparr>m_transport := transport, m_reply_to := ou_reply_to out, m_external_id := non_empty_str (ou_external_id out)\<rparr>"
  have row: "m_id row = mid" "stamps_ok row" "m_state row = ''queued''" "m_body row = body_text (ou_body out)" "m_mailbox row = mailbox"
    by (simp_all add: row_def stamps_ok_def queued_row_def STATES_def)
  from assms(2) obtain m2 where w: "write_messages (ml_messages m1 @ [row]) m1 = ok m2"
    and i: "insert_attachments (now_s env) mid 0 stored m2 = ok m'" and msg: "msg = full_message (now_s env) m' row"
    by (auto simp: file_message_def Let_def nxt row_def [symmetric] try_bind_Inr)
  note app = append_inv [OF assms(1) nxt w row(1,2)]
  have "mid \<in> m_id ` set (ml_messages m2)" using app(6) row(1) by auto
  from insert_attachments_inv [OF app(1) i app(3) this]
  have m': "mail_inv m'" "ml_messages m' = ml_messages m2" "ml_counter m' = ml_counter m2" by simp_all
  have sent: "sent_id m' i = sent_id m2 i" for i using m'(3) by (simp add: sent_id_def)
  show ?thesis
    by (rule that [OF m'(1) _ row(1) _ row(3-5)])
      (use app m' sent row in \<open>simp_all add: skeleton_def msg full_message_def summary_of_def\<close>)
qed

lemma moves_send: "mail_inv m \<Longrightarrow> moves named m (snd (send env d out m))"
proof -
  assume inv: "mail_inv m"
  let ?m = "snd (stage_blobs d (ou_attachments out) m)"
  have staged: "mail_inv ?m" "skeleton ?m = skeleton m"
    using inv inv_frame [OF stage_frame(1-3), of d "ou_attachments out" m] by simp_all
  have sent: "sent_id ?m i = sent_id m i" for i using stage_frame(3) by (simp add: sent_id_def)
  have stage: "moves named m ?m" using inv by (intro moves_frame) (simp_all add: stage_frame)
  have filed: "moves named m m'" if "file_message env mailbox transport out stored ?m = ok (msg, m')"
    for mailbox transport stored msg m'
    using staged(1) that
  proof (rule file_message_ok)
    fix mid row
    assume *: "mail_inv m'" "sent_id m' mid" "\<not> sent_id ?m mid" "\<And>i. sent_id ?m i \<Longrightarrow> sent_id m' i"
      "skeleton m' = skeleton ?m @ [(mid, m_created_at row)]"
    have "skeleton m' = filter (\<lambda>_. True) (skeleton m) @ [(mid, m_created_at row)]" using *(5) staged(2) by simp
    moreover have "\<forall>p \<in> set [(mid, m_created_at row)]. (sent_id m' (fst p) \<and> \<not> sent_id m (fst p)) \<or> named (fst p)"
      using *(2,3) sent by simp
    ultimately show "moves named m m'" unfolding moves_def using *(1,4) sent by blast
  qed
  show ?thesis
    using moves_refl [OF inv] stage filed
    by (auto simp: send_def Let_def split: sum.split prod.split)
qed

lemma moves_append:
  assumes "mail_inv m" "next_message_id m = (mid, m1)"
    and "write_messages (ml_messages m1 @ [row]) m1 = ok m2" "m_id row = mid" "stamps_ok row"
  shows "moves named m m2"
proof -
  note app = append_inv [OF assms]
  have "skeleton m2 = filter (\<lambda>_. True) (skeleton m) @ [(mid, m_created_at row)]" using app(2) by simp
  then show ?thesis unfolding moves_def using app(1,3,4,5)
    by (metis (no_types, lifting) fst_conv list.set(1,2) singletonD)
qed

lemma moves_digest: "mail_inv m \<Longrightarrow> moves named m (snd (upsert_digest env g m))"
proof -
  assume inv: "mail_inv m"
  have new: "moves named m m2" if "next_message_id m = (mid, m1)"
    "write_messages (ml_messages m1 @ [(queued_row mid mailbox label pane sender subject body now)
       \<lparr>m_digest_id := dig, m_digest_updated_at := upd\<rparr>]) m1 = ok m2" for mid m1 m2 mailbox label pane sender subject body now dig upd
    by (rule moves_append [OF inv that]) (simp_all add: stamps_ok_def queued_row_def STATES_def)
  have old: "moves named m m2" if "write_messages (row_update P (refreshed g label now) (ml_messages m)) m = ok m2" for P label now m2
    by (rule moves_in_place [OF inv in_place_write [OF inv that]]) (simp add: refreshed_step)
  show ?thesis
    using moves_refl [OF inv] new old
    by (auto simp: upsert_digest_def Let_def split: sum.split prod.split option.split)
qed

lemma unique_append:
  assumes "unique_rows rows" "\<forall>r \<in> set rows. m_id r \<noteq> m_id row" "m_external_id row = None" "m_digest_id row = None"
  shows "unique_rows (rows @ [row])"
  using assms by (auto simp: unique_rows_filtered)

fun names_next_job :: "mail_command \<Rightarrow> string \<Rightarrow> bool" where
  "names_next_job (Mail_Next_Job mid mailbox pane body subject) i \<longleftrightarrow> i = mid"
| "names_next_job c i \<longleftrightarrow> False"

lemma moves_next_job:
  assumes "mail_inv m"
  shows "moves (\<lambda>i. i = mid) m (snd (ensure_next_job env mid mailbox pane body subject m))"
proof -
  let ?row = "queued_row mid mailbox mailbox (Some pane) (Some ''next-job'') (Some subject) body (now_s env)"
  let ?m = "m\<lparr>ml_messages := ml_messages m @ [?row]\<rparr>"
  have "moves (\<lambda>i. i = mid) m ?m" if nj: "starts_with mid ''nj-''" and free: "get_message mid m = None"
  proof -
    have "unique_rows (ml_messages m @ [?row])"
      by (rule unique_append) (use assms free in \<open>auto simp: mail_inv_def row_get_def find_eq_None_iff queued_row_def\<close>)
    then have "mail_inv ?m" using assms nj by (auto simp: mail_inv_def attachment_ok_def sent_id_def)
    moreover have "skeleton ?m = filter (\<lambda>_. True) (skeleton m) @ [(mid, m_created_at ?row)]"
      by (simp add: skeleton_def)
    moreover have "sent_id ?m i = sent_id m i" for i by (simp add: sent_id_def)
    ultimately show ?thesis unfolding moves_def by (metis fst_conv list.set(1,2) singletonD)
  qed
  then show ?thesis
    using moves_refl [OF assms] by (auto simp: ensure_next_job_def Let_def split: option.split)
qed

lemma in_place_undeliverable: "mail_inv m \<Longrightarrow> in_place m (snd (mark_undeliverable env alive m))"
proof -
  assume inv: "mail_inv m"
  define up where "up P m = m\<lparr>ml_messages := row_update P undeliverable_row (ml_messages m)\<rparr>" for P and m :: mail
  have step: "in_place m (up (\<lambda>r. m_state r = ''queued'' \<and> Q r) m)" if "mail_inv m" for Q m
    unfolding up_def by (rule in_place_update [OF that]) (simp add: undeliverable_step)
  have "in_place m (up (\<lambda>r. m_state r = ''queued'' \<and> Q r) (up (\<lambda>r. m_state r = ''queued'' \<and> P r) m))" for P Q
    using step [OF inv] step [OF in_place_inv(1) [OF inv step [OF inv]]] in_place_trans by blast
  then show ?thesis
    using in_place_refl [OF inv] by (simp add: mark_undeliverable_def Let_def up_def)
qed

theorem exec_moves: "mail_inv m \<Longrightarrow> moves (names_next_job c) m (mail_exec env c m)"
proof (cases c)
  case (Mail_Read mailbox limit peek mark)
  assume inv: "mail_inv m"
  then show ?thesis using Mail_Read in_place_marks [OF inv]
    by (auto simp: mail_read_snd intro: moves_in_place moves_refl)
next
  case (Mail_Mark_Read ids now)
  assume inv: "mail_inv m"
  then show ?thesis using Mail_Mark_Read in_place_marks [OF inv]
    by (auto simp: mark_read_snd intro: moves_in_place)
next
  case (Mail_Undeliverable alive)
  assume inv: "mail_inv m"
  then show ?thesis using Mail_Undeliverable in_place_undeliverable [OF inv] by (auto intro: moves_in_place)
next
  case (Mail_Next_Job mid mailbox pane body subject)
  assume inv: "mail_inv m"
  have "names_next_job c = (\<lambda>i. i = mid)" by (auto simp: Mail_Next_Job)
  with moves_next_job [OF inv] Mail_Next_Job show ?thesis by simp
next
  case (Mail_Rename old new)
  assume inv: "mail_inv m"
  then have "in_place m m'" if "write_messages (row_update P (\<lambda>r. r\<lparr>m_mailbox := new, m_label := Some new\<rparr>) (ml_messages m)) m = ok m'" for P m'
    using in_place_write [OF inv that] by (simp add: column_step)
  then show ?thesis using Mail_Rename inv
    by (auto simp: rename_mailbox_def intro: moves_in_place moves_refl split: sum.split)
next
  case (Mail_Delete ids)
  assume "mail_inv m"
  then show ?thesis using Mail_Delete
    by (auto simp: mail_delete_def intro: moves_drop moves_refl split: sum.split option.split)
next
  case (Mail_Purge older)
  assume "mail_inv m"
  then show ?thesis using Mail_Purge moves_drop moves_refl
    by (simp add: purge_def Let_def)
qed (auto simp: moves_send moves_digest record_delivery_def recover_delivery_def note_acked_def drop_receipt_def
    shrink_receipt_def ack_def cancel_def archive_def auto_archive_undeliverable_def archive_retired_def record_notify_def
    Let_def mail_steps intro!: moves_update moves_transition intro: moves_frame moves_refl
    split: option.split sum.split)

inductive mail_reachable :: "mail \<Rightarrow> bool" where
  mail_start: "mail_reachable empty_mail"
| mail_next: "mail_reachable m \<Longrightarrow> mail_reachable (mail_exec env c m)"

lemma reachable_mail_inv: "mail_reachable m \<Longrightarrow> mail_inv m"
  by (induction rule: mail_reachable.induct) (use inv_empty exec_moves in \<open>auto simp: moves_def\<close>)

end
