(* ===== verification/Mail_Effects.thy ===== *)
theory Mail_Effects
  imports Mail_Machine
begin

text \<open>
  What the inbox guarantees: the stamps of a message tell its state, unread mail is taken only
  by who names it, a delivered batch can be replayed until it is acknowledged, an
  acknowledgement is confined to its mailbox, and an attachment comes back as it was sent.
\<close>

section \<open>Looking a message up after a write\<close>

lemma get_update_where:
  assumes "\<And>r. m_id (f r) = m_id r"
  shows "row_get m_id mid (row_update P f rows) = map_option (\<lambda>r. if P r then f r else r) (row_get m_id mid rows)"
  unfolding row_get_def row_update_def using assms by (intro find_map_cong) simp

lemma get_message_in: "get_message mid m = Some r \<Longrightarrow> r \<in> set (ml_messages m) \<and> m_id r = mid"
  using find_SomeD by (fastforce simp: row_get_def)

lemma get_message_iff: "mail_inv m \<Longrightarrow> get_message mid m = Some r \<longleftrightarrow> r \<in> set (ml_messages m) \<and> m_id r = mid"
  using get_message_in [of mid m r] distinct_find_unique [of m_id "ml_messages m" r]
  by (auto simp: mail_inv_def unique_rows_def row_get_def)

lemma get_untouched:
  assumes "row_get m_id mid rows = Some r" "\<not> P r" "\<And>r. m_id (f r) = m_id r"
  shows "row_get m_id mid (row_update P f rows) = Some r"
  using assms by (simp add: get_update_where)

lemma get_append: "row_get m_id mid rows = Some r \<Longrightarrow> row_get m_id mid (rows @ xs) = Some r"
  by (simp add: row_get_def find_append)

lemma get_drop: "get_message mid (drop_message i m) = (if mid = i then None else get_message mid m)"
  by (simp add: drop_message_def row_get_delete)

lemma get_drops: "get_message mid (fold drop_message ids m) = (if mid \<in> set ids then None else get_message mid m)"
  by (induction ids arbitrary: m) (simp_all add: get_drop)

lemma get_marks: "get_message mid (fold (mark_one now) ids m) =
   (if mid \<in> set ids then map_option (\<lambda>r. if m_state r = ''queued'' then r\<lparr>m_state := ''read'', m_read_at := Some now\<rparr> else r)
      (get_message mid m) else get_message mid m)"
proof (induction ids arbitrary: m)
  case (Cons i ids)
  have one: "get_message mid (mark_one now i m) = map_option (\<lambda>r. if m_id r = i \<and> m_state r = ''queued''
      then r\<lparr>m_state := ''read'', m_read_at := Some now\<rparr> else r) (get_message mid m)"
    unfolding mark_one_def by (simp add: get_update_where)
  show ?case
  proof (cases "get_message mid m")
    case None
    with one show ?thesis by (auto simp: Cons.IH)
  next
    case (Some r)
    then have "m_id r = mid" using get_message_in by blast
    with one Some Cons.IH [of "mark_one now i m"] show ?thesis by (cases "mid = i") simp_all
  qed
qed simp

lemma get_message_None: "get_message mid m = None \<longleftrightarrow> mid \<notin> m_id ` set (ml_messages m)"
  by (auto simp: row_get_def find_eq_None_iff)

section \<open>The stamps of a message\<close>

text \<open>
  C33: the columns of a message tell where it is. Whatever commands ran, every message is in a
  known state; unread mail carries no stamp of having been read, acknowledged, cancelled or
  archived; read and acknowledged mail carries the time it was read, so counting the missing
  stamps never reports handled mail as waiting; and every attachment belongs to a stored message.
\<close>

theorem message_stamps_tell_state:
  assumes "mail_reachable m" "get_message mid m = Some r"
  shows "m_state r \<in> set STATES
    \<and> (m_state r = UNREAD \<longrightarrow> m_read_at r = None \<and> m_acked_at r = None \<and> m_cancelled_at r = None \<and> m_archived_at r = None)
    \<and> (m_state r = ''read'' \<or> m_state r = ''acked'' \<longrightarrow> m_read_at r \<noteq> None)
    \<and> (\<forall>a \<in> set (ml_attachments m). get_message (at_message_id a) m \<noteq> None)"
proof -
  have inv: "mail_inv m" by (rule reachable_mail_inv [OF assms(1)])
  then have "stamps_ok r" using get_message_in [OF assms(2)] by (auto simp: mail_inv_def)
  moreover have "get_message (at_message_id a) m \<noteq> None" if "a \<in> set (ml_attachments m)" for a
    using inv that by (auto simp: mail_inv_def attachment_ok_def get_message_None)
  ultimately show ?thesis by (auto simp: stamps_ok_def UNREAD_def)
qed

definition mail_clock :: "time \<Rightarrow> env" where
  "mail_clock t = \<lparr>now_s = t, default_lease_s = 60, is_digits = (\<lambda>_. False)\<rparr>"

definition demo_disk :: disk where
  "demo_disk = \<lparr>fs_files = [''/f'' \<mapsto> ''data''], fs_home = None, fs_sha = (\<lambda>c. c)\<rparr>"

definition demo_letter :: "string \<Rightarrow> string list \<Rightarrow> outgoing" where
  "demo_letter box files = \<lparr>ou_mailbox = box, ou_body = Some ''hello'', ou_subject = None, ou_sender = Some ''w1:p1'',
     ou_label = None, ou_pane = None, ou_attachments = files, ou_transport = None, ou_reply_to = None, ou_external_id = None\<rparr>"

definition demo_mail :: mail where
  "demo_mail = mail_exec (mail_clock 1) (Mail_Send demo_disk (demo_letter ''pm (par-a)'' [''/f''])) empty_mail"

lemma demo_mail_reachable: "mail_reachable demo_mail"
  unfolding demo_mail_def by (intro mail_reachable.intros)

theorem message_stamps_tell_state_witness:
  "\<exists>r. get_message ''i1'' demo_mail = Some r \<and> m_state r = UNREAD \<and> m_read_at r = None"
proof -
  have e: "map_option m_state (get_message ''i1'' demo_mail) = Some UNREAD" by code_simp
  then obtain r where "get_message ''i1'' demo_mail = Some r" "m_state r = UNREAD" by auto
  with message_stamps_tell_state [OF demo_mail_reachable this(1)] show ?thesis by blast
qed

section \<open>Unread mail\<close>

text \<open>The commands that may take an unread message from its reader.\<close>

fun takes :: "env \<Rightarrow> mail_command \<Rightarrow> message_row \<Rightarrow> bool" where
  "takes env (Mail_Read mailbox limit peek mark) r \<longleftrightarrow> \<not> peek \<and> mark \<and> mailbox = m_mailbox r"
| "takes env (Mail_Mark_Read ids now) r \<longleftrightarrow> m_id r \<in> set ids"
| "takes env (Mail_Ack ids mailbox) r \<longleftrightarrow> m_id r \<in> trim ` set ids
     \<and> (case non_empty_str mailbox of None \<Rightarrow> True | Some b \<Rightarrow> normalise_mailbox (m_mailbox r) = normalise_mailbox b)"
| "takes env (Mail_Cancel ids) r \<longleftrightarrow> m_id r \<in> trim ` set ids"
| "takes env (Mail_Delete ids) r \<longleftrightarrow> m_id r \<in> trim ` set ids"
| "takes env (Mail_Archive mailbox before states) r \<longleftrightarrow> mailbox_where (trim mailbox) (m_mailbox r)"
| "takes env (Mail_Undeliverable alive) r \<longleftrightarrow>
     (case m_pane r of Some p \<Rightarrow> p \<notin> alive \<or> p = [] | None \<Rightarrow> False)
     \<or> is_pane_mailbox (is_digits env) (m_mailbox r) \<and> m_mailbox r \<notin> alive"
| "takes env (Mail_Retire age now reason preview fresh) r \<longleftrightarrow>
     (case (preview, fresh) of (Inr p, Inr f) \<Rightarrow> m_mailbox r \<in> set p \<inter> set f | _ \<Rightarrow> False)"
| "takes env c r \<longleftrightarrow> False"

definition still_unread :: "mail_command \<Rightarrow> message_row \<Rightarrow> mail \<Rightarrow> bool" where
  "still_unread c r m \<longleftrightarrow> (case get_message (m_id r) m of None \<Rightarrow> False
     | Some r' \<Rightarrow> m_state r' = UNREAD
         \<and> (m_body r' = m_body r \<or> (case c of Mail_Digest g \<Rightarrow> m_digest_id r = Some (dg_id g) | _ \<Rightarrow> False)))"

lemma still_unread_same: "get_message (m_id r) m = Some r \<Longrightarrow> m_state r = UNREAD \<Longrightarrow> still_unread c r m"
  by (simp add: still_unread_def)

lemma still_unread_update:
  assumes "get_message (m_id r) m = Some r" "m_state r = UNREAD" "\<And>x. m_id (f x) = m_id x"
    and "P r \<Longrightarrow> m_state (f r) = UNREAD \<and> m_body (f r) = m_body r"
  shows "still_unread c r (m\<lparr>ml_messages := row_update P f (ml_messages m)\<rparr>)"
  using assms(1,2,4) by (simp add: still_unread_def get_update_where [OF assms(3)])

lemma transition_other:
  assumes "transition_loop allowed write mailbox ids (changed, unchanged, m) = ok (changed', unchanged', m')"
    and "\<And>x. m_id (write x) = m_id x" "get_message mid m = Some r"
    and "mid \<notin> set ids \<or> (case mailbox of None \<Rightarrow> False | Some b \<Rightarrow> normalise_mailbox (m_mailbox r) \<noteq> normalise_mailbox b)"
  shows "get_message mid m' = Some r"
  using assms(1,3,4)
proof (induction ids arbitrary: changed unchanged m)
  case (Cons i ids)
  from Cons.prems(1) obtain x where x: "get_message i m = Some x" by (auto split: option.splits)
  have i: "i \<noteq> mid"
  proof
    assume "i = mid"
    with x Cons.prems(2) have "x = r" by simp
    with Cons.prems x \<open>i = mid\<close> show False by (auto split: option.splits if_splits)
  qed
  let ?m = "m\<lparr>ml_messages := row_update (\<lambda>r. m_id r = i) write (ml_messages m)\<rparr>"
  have same: "get_message mid ?m = Some r"
    using Cons.prems(2) i get_message_in [OF Cons.prems(2)] by (simp add: get_update_where [OF assms(2)])
  have tail: "mid \<notin> set ids \<or> (case mailbox of None \<Rightarrow> False | Some b \<Rightarrow> normalise_mailbox (m_mailbox r) \<noteq> normalise_mailbox b)"
    using Cons.prems(3) by auto
  show ?case
  proof (cases "m_state x \<in> set allowed")
    case True
    then have "transition_loop allowed write mailbox ids (changed @ [i], unchanged, ?m) = ok (changed', unchanged', m')"
      using Cons.prems(1) x by (auto split: if_splits)
    from Cons.IH [OF this same tail] show ?thesis .
  next
    case False
    then have "transition_loop allowed write mailbox ids (changed, unchanged @ [(i, m_state x)], m) = ok (changed', unchanged', m')"
      using Cons.prems(1) x by (auto split: if_splits)
    from Cons.IH [OF this Cons.prems(2) tail] show ?thesis .
  qed
qed simp

lemma clean_ids_set: "clean_ids ids = ok ids' \<Longrightarrow> set ids' \<subseteq> trim ` set ids"
  by (auto simp: clean_ids_def Let_def split: if_splits)

lemma mail_transition_other:
  assumes "\<And>x. m_id (write x) = m_id x" "get_message mid m = Some r"
    and "mid \<notin> trim ` set ids
      \<or> (case non_empty_str mailbox of None \<Rightarrow> False | Some b \<Rightarrow> normalise_mailbox (m_mailbox r) \<noteq> normalise_mailbox b)"
  shows "get_message mid (snd (mail_transition ids state write allowed mailbox m)) = Some r"
proof (cases "clean_ids ids")
  case (Inr ids')
  then have *: "mid \<notin> set ids' \<or> (case non_empty_str mailbox of None \<Rightarrow> False
      | Some b \<Rightarrow> normalise_mailbox (m_mailbox r) \<noteq> normalise_mailbox b)"
    using assms(3) clean_ids_set [OF Inr] by auto
  show ?thesis
    using transition_other [OF _ assms(1,2) *] assms(2) Inr
    by (auto simp: mail_transition_def split: sum.split)
qed (simp add: mail_transition_def assms(2))

lemma unread_after_send:
  assumes "get_message mid m = Some r"
  shows "get_message mid (snd (send env d out m)) = Some r"
proof -
  have ins: "ml_messages m' = ml_messages x" if "insert_attachments now i n bs x = ok m'" for now i n bs x m'
    using that by (induction now i n bs x rule: insert_attachments.induct) (auto simp: Let_def split: if_splits)
  have "get_message mid m' = Some r" if "file_message env box transport stored x y = ok (msg, m')" "ml_messages y = ml_messages m"
    for box transport stored x y msg m'
    using that assms get_append [of mid "ml_messages m" r]
    by (auto simp: file_message_def Let_def next_message_id_def try_bind_Inr write_messages_def dest!: ins split: if_splits)
  then show ?thesis
    using assms stage_frame(1) [of d "ou_attachments out" m]
    by (auto simp: send_def Let_def split: sum.split prod.split)
qed

lemma unread_after_digest:
  assumes "get_message (m_id r) m = Some r" "m_state r = UNREAD"
  shows "still_unread (Mail_Digest g) r (snd (upsert_digest env g m))"
proof -
  have w: "ml_messages m' = rows" if "write_messages rows x = ok m'" for rows x m'
    using that by (auto simp: write_messages_def split: if_splits)
  have upd: "still_unread (Mail_Digest g) r m'"
    if "ml_messages m' = row_update (\<lambda>x. m_digest_id x = Some (dg_id g)) (refreshed g l now) (ml_messages m)" for m' l now
    using assms that unfolding still_unread_def by (simp add: get_update_where refreshed_def UNREAD_def)
  have app: "still_unread (Mail_Digest g) r m'" if "ml_messages m' = ml_messages m @ [x]" for m' x
    using assms get_append [OF assms(1)] that by (simp add: still_unread_def)
  show ?thesis
    using still_unread_same [OF assms] upd app
    by (auto simp: upsert_digest_def Let_def next_message_id_def dest!: w split: sum.split option.split)
qed

lemma unread_after_read:
  assumes "mail_inv m" "get_message (m_id r) m = Some r" "\<not> peek \<and> mark \<longrightarrow> mailbox \<noteq> m_mailbox r"
  shows "get_message (m_id r) (snd (mail_read env mailbox limit peek mark m)) = Some r"
proof -
  let ?rows = "sql_limit limit (sort_key m_created_at
      (filter (\<lambda>r. m_mailbox r = mailbox \<and> m_state r = ''queued'') (ml_messages m)))"
  have "m_mailbox r = mailbox" if "m_id r \<in> m_id ` set ?rows"
  proof -
    from that obtain x where x: "x \<in> set (ml_messages m)" "m_mailbox x = mailbox" "m_id x = m_id r"
      by (auto simp: sql_limit_def dest!: in_set_takeD split: if_splits)
    then have "get_message (m_id r) m = Some x" by (simp add: get_message_iff [OF assms(1)])
    with assms(2) x(2) show ?thesis by simp
  qed
  with assms(2,3) show ?thesis by (auto simp: mail_read_snd get_marks)
qed

lemma unread_after_purge:
  assumes "mail_inv m" "get_message (m_id r) m = Some r" "m_state r = UNREAD"
  shows "get_message (m_id r) (snd (purge env older m)) = Some r"
proof -
  have "m_id r \<notin> set (purge_ids cutoff m)" for cutoff
  proof
    assume "m_id r \<in> set (purge_ids cutoff m)"
    then obtain x where x: "x \<in> set (ml_messages m)" "purge_selected cutoff x" "m_id x = m_id r"
      by (auto simp: purge_ids_def)
    then have "get_message (m_id r) m = Some x" by (simp add: get_message_iff [OF assms(1)])
    with assms(2,3) x(2) show False by (simp add: purge_selected_def UNREAD_def)
  qed
  then show ?thesis using assms(2) by (simp add: purge_def Let_def collect_blobs_def sweep_blobs_def get_drops)
qed

lemma unread_after_rename:
  assumes "get_message (m_id r) m = Some r" "m_state r = UNREAD"
  shows "still_unread c r (snd (rename_mailbox old new m))"
proof -
  have "still_unread c r m'"
    if "write_messages (row_update P (\<lambda>r. r\<lparr>m_mailbox := new, m_label := Some new\<rparr>) (ml_messages m)) m = ok m'" for P m'
  proof -
    have "m' = m\<lparr>ml_messages := row_update P (\<lambda>r. r\<lparr>m_mailbox := new, m_label := Some new\<rparr>) (ml_messages m)\<rparr>"
      using that by (auto simp: write_messages_def split: if_splits)
    then show ?thesis using assms by (auto intro!: still_unread_update)
  qed
  then show ?thesis using still_unread_same [OF assms] by (auto simp: rename_mailbox_def split: sum.split)
qed

lemma unread_after_undeliverable:
  assumes "get_message (m_id r) m = Some r" "\<not> takes env (Mail_Undeliverable alive) r"
  shows "get_message (m_id r) (snd (mark_undeliverable env alive m)) = Some r"
proof -
  have pane: "p \<in> alive - {[]}" if "m_pane r = Some p" for p using assms(2) that by simp
  have box: "m_mailbox r \<in> alive - {[]}" if "is_pane_mailbox (is_digits env) (m_mailbox r)"
    using assms(2) that by (auto simp: is_pane_mailbox_def)
  show ?thesis
    unfolding mark_undeliverable_def Let_def
    using assms(1) pane box
    by (auto intro!: get_untouched simp: undeliverable_row_def split: option.splits)
qed

lemma unread_after_delete:
  assumes "get_message (m_id r) m = Some r" "m_id r \<notin> trim ` set ids"
  shows "get_message (m_id r) (snd (mail_delete ids m)) = Some r"
proof (cases "clean_ids ids")
  case (Inr ids')
  then have "m_id r \<notin> set ids'" using clean_ids_set assms(2) by blast
  then show ?thesis using assms(1) Inr
    by (simp add: mail_delete_def collect_blobs_def sweep_blobs_def get_drops split: option.split)
qed (simp add: mail_delete_def assms(1))

text \<open>
  C16: What takes unread mail. A message nobody has read stays unread, with its text, through
  every command but these: a consuming read of exactly its mailbox; a mark, a cancellation or a
  deletion that names its id; an acknowledgement that names its id and its mailbox or none; an
  archive whose name matches its mailbox, which the code does by a prefix: it takes the mail of
  that mailbox, and also of every mailbox that begins with its name and an opening bracket, in
  any case of letters; the retirement of its mailbox; and the disappearance of the pane it is
  for. Retention never takes it, however old it is. Its text is only replaced by a digest
  published again under the same digest id, and then it is still unread.
\<close>

theorem unread_mail_is_only_taken_by_name:
  assumes "mail_reachable m" "get_message mid m = Some r" "m_state r = UNREAD" "\<not> takes env c r"
  shows "still_unread c r (mail_exec env c m)"
proof -
  have inv: "mail_inv m" by (rule reachable_mail_inv [OF assms(1)])
  have mid: "get_message (m_id r) m = Some r" using assms(2) get_message_in by blast
  note same = still_unread_same [OF _ assms(3)]
  note upd = still_unread_update [OF mid assms(3)]
  show ?thesis
  proof (cases c)
    case (Mail_Next_Job i mailbox pane body subject)
    then show ?thesis using mid get_append [OF mid]
      by (auto simp: ensure_next_job_def Let_def intro!: same split: option.split)
  next
    case (Mail_Ack ids mailbox)
    have "m_id r \<notin> trim ` set ids \<or> (case non_empty_str mailbox of None \<Rightarrow> False
        | Some b \<Rightarrow> normalise_mailbox (m_mailbox r) \<noteq> normalise_mailbox b)"
      using assms(4) Mail_Ack by (auto split: option.splits)
    then show ?thesis using Mail_Ack
      by (auto simp: ack_def acked_row_def intro!: same mail_transition_other [OF _ mid])
  next
    case (Mail_Cancel ids)
    then show ?thesis using assms(4)
      by (auto simp: cancel_def cancelled_row_def intro!: same mail_transition_other [OF _ mid])
  next
    case (Mail_Archive mailbox before states)
    then show ?thesis using assms(4) same [OF mid]
      by (auto simp: archive_def Let_def archived_row_def intro!: upd)
  next
    case (Mail_Retire age now reason preview fresh)
    then show ?thesis using assms(4) same [OF mid]
      by (auto simp: archive_retired_def Let_def archived_row_def intro!: upd split: sum.split)
  next
    case (Mail_Notify i state reason transport attempt)
    then show ?thesis using assms(3) by (auto simp: record_notify_def intro!: upd)
  next
    case (Mail_Auto_Archive age now)
    then show ?thesis using mid assms(3)
      by (auto simp: auto_archive_undeliverable_def Let_def UNREAD_def intro!: same get_untouched)
  next
    case (Mail_Undeliverable alive)
    then show ?thesis using same [OF unread_after_undeliverable [OF mid]] assms(4) by simp
  next
    case (Mail_Read mailbox limit peek mark)
    then show ?thesis using same [OF unread_after_read [OF inv mid]] assms(4) by auto
  qed (use mid assms(3,4) in \<open>auto simp: unread_after_send unread_after_digest unread_after_purge [OF inv]
      unread_after_rename unread_after_delete mark_read_snd get_marks
      record_delivery_def recover_delivery_def note_acked_def drop_receipt_def
      shrink_receipt_def Let_def UNREAD_def
      intro!: same split: option.split\<close>)
qed

theorem unread_mail_is_only_taken_by_name_witness:
  "\<exists>r. get_message ''i1'' demo_mail = Some r
     \<and> still_unread (Mail_Purge None) r (mail_exec (mail_clock 1000000000) (Mail_Purge None) demo_mail)"
proof -
  have "map_option m_state (get_message ''i1'' demo_mail) = Some UNREAD" by code_simp
  then obtain r where r: "get_message ''i1'' demo_mail = Some r" "m_state r = UNREAD" by auto
  have "\<not> takes (mail_clock 1000000000) (Mail_Purge None) r" by simp
  from unread_mail_is_only_taken_by_name [OF demo_mail_reachable r this] r show ?thesis by blast
qed

section \<open>Replaying a delivered batch\<close>

lemma sort_key_map: "sort_key f (map g xs) = map g (sort_key (\<lambda>x. f (g x)) xs)"
proof -
  have ins: "insort_key f (g x) (map g ys) = map g (insort_key (\<lambda>x. f (g x)) x ys)" for x ys
    by (induction ys) auto
  show ?thesis by (induction xs) (simp_all add: ins)
qed

lemma map_filter_distinct:
  assumes "distinct (map f xs)"
  shows "map f (filter P xs) = filter (\<lambda>y. y \<in> f ` set (filter P xs)) (map f xs)"
proof -
  have "P x \<longleftrightarrow> f x \<in> f ` set (filter P xs)" if "x \<in> set xs" for x
    using assms that by (auto simp: distinct_map inj_on_def)
  then have "filter P xs = filter (\<lambda>x. f x \<in> f ` set (filter P xs)) xs" by (intro filter_cong) simp_all
  then show ?thesis by (metis (no_types, lifting) filter_map comp_def filter_cong)
qed

text \<open>The messages of a set of ids in queue order.\<close>

definition queue_order :: "string set \<Rightarrow> mail \<Rightarrow> string list" where
  "queue_order ids m = map fst (sort_key snd (filter (\<lambda>p. fst p \<in> ids) (skeleton m)))"

definition present :: "mail \<Rightarrow> string \<Rightarrow> bool" where
  "present m i \<longleftrightarrow> i \<in> fst ` set (skeleton m)"

lemma present_get: "present m i \<longleftrightarrow> get_message i m \<noteq> None"
  by (simp add: present_def skeleton_id_set get_message_None)

lemma queue_order_rows:
  "queue_order ids m = map m_id (sort_key m_created_at (filter (\<lambda>r. m_id r \<in> ids) (ml_messages m)))"
  by (simp add: queue_order_def skeleton_def filter_map sort_key_map comp_def)

lemma queue_order_set: "set (queue_order ids m) = {i \<in> ids. present m i}"
  by (auto simp: queue_order_rows present_def skeleton_id_set)

lemma queue_order_distinct: "mail_inv m \<Longrightarrow> distinct (queue_order ids m)"
  unfolding queue_order_rows mail_inv_def unique_rows_def
  by (metis (no_types, lifting) distinct_map distinct_map_filter distinct_sort set_sort)

lemma filter_take_ids:
  assumes "distinct (map f xs)"
  shows "filter (\<lambda>x. f x \<in> f ` set (take n xs)) xs = take n xs"
proof -
  have inj: "inj_on f (set xs)" and d: "distinct xs" using assms by (auto simp: distinct_map)
  have "f x \<in> f ` set (take n xs) \<longleftrightarrow> x \<in> set (take n xs)" if "x \<in> set xs" for x
    using inj that by (auto dest: inj_onD in_set_takeD)
  then have "filter (\<lambda>x. f x \<in> f ` set (take n xs)) xs = filter (\<lambda>x. x \<in> set (take n xs)) xs"
    by (intro filter_cong) simp_all
  also have "\<dots> = take n xs"
  proof -
    have "set (take n xs) \<inter> set (drop n xs) = {}"
      using d by (metis append_take_drop_id distinct_append)
    then have "filter (\<lambda>x. x \<in> set (take n xs)) (drop n xs) = []" by (auto simp: filter_empty_conv)
    then show ?thesis
      by (metis (no_types, lifting) append.right_neutral append_take_drop_id filter_True filter_append)
  qed
  finally show ?thesis .
qed

text \<open>The batch a read takes is a prefix of its mailbox's queue.\<close>

lemma read_batch:
  assumes "mail_inv m" "mail_read env mailbox limit peek mark m = (msgs, m1)"
  shows "queue_order (set (map ms_id msgs)) m = map ms_id msgs"
proof -
  define queue where "queue = sort_key m_created_at
     (filter (\<lambda>r. m_mailbox r = mailbox \<and> m_state r = ''queued'') (ml_messages m))"
  define batch where "batch = sql_limit limit queue"
  have ids: "map ms_id msgs = map m_id batch"
    using assms(2) by (auto simp: mail_read_def Let_def batch_def queue_def full_message_def summary_of_def comp_def split: if_splits)
  have d: "distinct (map m_id (ml_messages m))" using assms(1) by (simp add: mail_inv_def unique_rows_def)
  have dq: "distinct (map m_id queue)"
    unfolding queue_def using d by (metis (no_types, lifting) distinct_map distinct_map_filter distinct_sort set_sort)
  have pre: "filter (\<lambda>r. m_id r \<in> m_id ` set batch) queue = batch"
    using filter_take_ids [OF dq] filter_True [of queue "\<lambda>r. m_id r \<in> m_id ` set queue"]
    by (simp add: batch_def sql_limit_def)
  have sub: "set batch \<subseteq> set queue" by (auto simp: batch_def sql_limit_def dest: in_set_takeD split: if_splits)
  have "m_mailbox r = mailbox \<and> m_state r = ''queued''" if "r \<in> set (ml_messages m)" "m_id r \<in> m_id ` set batch" for r
  proof -
    from that(2) obtain x where x: "x \<in> set queue" "m_id r = m_id x" using sub by auto
    then have "x \<in> set (ml_messages m)" "m_mailbox x = mailbox" "m_state x = ''queued''" by (auto simp: queue_def)
    moreover from this x(2) that(1) d have "r = x" by (auto simp: distinct_map inj_on_def)
    ultimately show ?thesis by simp
  qed
  then have "filter (\<lambda>r. m_id r \<in> m_id ` set batch) (ml_messages m)
      = filter (\<lambda>r. m_id r \<in> m_id ` set batch) (filter (\<lambda>r. m_mailbox r = mailbox \<and> m_state r = ''queued'') (ml_messages m))"
    by (auto intro: filter_cong)
  then have "sort_key m_created_at (filter (\<lambda>r. m_id r \<in> m_id ` set batch) (ml_messages m))
      = filter (\<lambda>r. m_id r \<in> m_id ` set batch) queue"
    by (simp only: queue_def filter_sort)
  with pre ids show ?thesis by (simp add: queue_order_rows)
qed

text \<open>The commands that write another batch for the mailbox, or a message of the batch anew.\<close>

fun disturbs :: "string \<Rightarrow> string set \<Rightarrow> mail_command \<Rightarrow> bool" where
  "disturbs mailbox ids (Mail_Record b new now) \<longleftrightarrow> b = mailbox"
| "disturbs mailbox ids (Mail_Note_Acked b) \<longleftrightarrow> b = mailbox"
| "disturbs mailbox ids (Mail_Next_Job i b pane body subject) \<longleftrightarrow> i \<in> ids"
| "disturbs mailbox ids c \<longleftrightarrow> False"

text \<open>The receipt of a mailbox tracks a batch.\<close>

definition tracks :: "string \<Rightarrow> string list \<Rightarrow> mail \<Rightarrow> bool" where
  "tracks mailbox ids m \<longleftrightarrow> mail_inv m \<and> (\<forall>i \<in> set ids. sent_id m i \<or> starts_with i ''nj-'')
     \<and> queue_order (set ids) m = filter (present m) ids
     \<and> (case pending_delivery m mailbox of
          None \<Rightarrow> \<forall>i \<in> set ids. \<not> present m i
        | Some rc \<Rightarrow> set (rc_message_ids rc) \<subseteq> set ids
            \<and> (\<forall>i \<in> set ids. present m i \<longrightarrow> i \<in> set (rc_message_ids rc)))"

lemma tracks_moves:
  assumes "tracks mailbox ids m" "moves named m m'" "\<forall>i \<in> set ids. \<not> named i"
  shows "\<forall>i \<in> set ids. present m' i \<longrightarrow> present m i" "queue_order (set ids) m' = filter (present m') ids"
    "\<forall>i \<in> set ids. sent_id m' i \<or> starts_with i ''nj-''" "mail_inv m'"
proof -
  let ?S = "sort_key snd (filter (\<lambda>p. fst p \<in> set ids) (skeleton m))"
  have inv: "mail_inv m" and known: "\<forall>i \<in> set ids. sent_id m i \<or> starts_with i ''nj-''"
    and order: "map fst ?S = filter (present m) ids"
    using assms(1) by (simp_all add: tracks_def queue_order_def)
  from assms(2) obtain P news where sk: "skeleton m' = filter P (skeleton m) @ news"
    and news: "\<forall>p \<in> set news. (sent_id m' (fst p) \<and> \<not> sent_id m (fst p)) \<or> named (fst p)"
    by (auto simp: moves_def)
  have "fst p \<notin> set ids" if "p \<in> set news" for p
    using news known assms(3) that message_id_next_job by (metis sent_id_def)
  then have none: "filter (\<lambda>p. fst p \<in> set ids) news = []" by (simp add: filter_empty_conv)
  have here: "present m' i \<longleftrightarrow> i \<in> fst ` set (filter P ?S)" if "i \<in> set ids" for i
    using that none by (force simp: present_def sk filter_empty_conv)
  then show sub: "\<forall>i \<in> set ids. present m' i \<longrightarrow> present m i" by (auto simp: present_def)
  have "distinct (map fst ?S)" using queue_order_distinct [OF inv] by (simp add: queue_order_def)
  from map_filter_distinct [OF this, of P]
  have "map fst (filter P ?S) = filter (\<lambda>i. i \<in> fst ` set (filter P ?S)) (filter (present m) ids)"
    by (simp only: order)
  also have "\<dots> = filter (present m') ids"
    unfolding filter_filter using here sub by (intro filter_cong) auto
  finally show "queue_order (set ids) m' = filter (present m') ids"
    by (simp add: queue_order_def sk none filter_sort filter_filter conj_commute)
  show "\<forall>i \<in> set ids. sent_id m' i \<or> starts_with i ''nj-''" "mail_inv m'"
    using known assms(2) by (auto simp: moves_def)
qed

lemma deliveries_frame:
  "ml_deliveries (fold (mark_one now) xs m) = ml_deliveries m"
  "ml_deliveries (fold drop_message xs m) = ml_deliveries m"
  "ml_deliveries (snd (mail_transition xs state write allowed box m)) = ml_deliveries m"
proof -
  show "ml_deliveries (fold (mark_one now) xs m) = ml_deliveries m"
    by (induction xs arbitrary: m) (simp_all add: mark_one_def)
  show "ml_deliveries (fold drop_message xs m) = ml_deliveries m"
    by (induction xs arbitrary: m) (simp_all add: drop_message_def)
  have "ml_deliveries m' = ml_deliveries m"
    if "transition_loop allowed write mb ids (a, b, m) = ok (a', b', m')" for mb ids a b a' b' m m'
    using that
    by (induction allowed "write" mb ids "(a, b, m)" arbitrary: a b m rule: transition_loop.induct)
      (auto split: option.splits if_splits)
  then show "ml_deliveries (snd (mail_transition xs state write allowed box m)) = ml_deliveries m"
    by (auto simp: mail_transition_def split: sum.split)
qed

lemma deliveries_send: "ml_deliveries (snd (send env d out m)) = ml_deliveries m"
proof -
  have ins: "ml_deliveries m' = ml_deliveries x" if "insert_attachments now i n bs x = ok m'" for now i n bs x m'
    using that by (induction now i n bs x rule: insert_attachments.induct) (auto simp: Let_def split: if_splits)
  have "ml_deliveries m' = ml_deliveries y" if "file_message env box transport x stored y = ok (msg, m')" for box transport x stored y msg m'
    using that
    by (auto simp: file_message_def Let_def next_message_id_def try_bind_Inr write_messages_def dest!: ins split: if_splits)
  then show ?thesis using stage_frame(4) [of d "ou_attachments out" m]
    by (auto simp: send_def Let_def split: sum.split prod.split)
qed

lemma row_get_other: "k \<noteq> k' \<Longrightarrow> (\<And>r. key r = k' \<Longrightarrow> key (f r) = k') \<Longrightarrow>
   row_get key k (row_update (\<lambda>r. key r = k') f rows) = row_get key k rows"
  by (induction rows) (auto simp: row_get_def row_update_def)

lemma pending_other:
  assumes "\<not> disturbs mailbox ids c" "c \<noteq> Mail_Recover mailbox"
  shows "pending_delivery (mail_exec env c m) mailbox = pending_delivery m mailbox"
proof -
  have w: "ml_deliveries m' = ml_deliveries x" if "write_messages rows x = ok m'" for rows x m'
    using that by (auto simp: write_messages_def split: if_splits)
  have touched: "row_get rc_mailbox mailbox (ml_deliveries (drop_receipt b m)) = row_get rc_mailbox mailbox (ml_deliveries m)"
    "row_get rc_mailbox mailbox (ml_deliveries (shrink_receipt b i m)) = row_get rc_mailbox mailbox (ml_deliveries m)" if "b \<noteq> mailbox" for b i
    using that by (simp_all add: drop_receipt_def shrink_receipt_def row_get_delete row_get_other)
  have upserted: "row_get rc_mailbox mailbox (row_upsert rc_mailbox (\<lambda>_. r) r rows) = row_get rc_mailbox mailbox rows"
    if "rc_mailbox r \<noteq> mailbox" for r rows
    using that by (auto simp: row_upsert_def row_get_other) (auto simp: row_get_def find_append split: option.split)
  show ?thesis
    using assms unfolding pending_delivery_def
    by (cases c)
      (auto simp: deliveries_send deliveries_frame mail_read_snd mark_read_snd collect_blobs_def sweep_blobs_def
        record_delivery_def recover_delivery_def note_acked_def touched upserted upsert_digest_def next_message_id_def
        ensure_next_job_def ack_def cancel_def archive_def mail_delete_def purge_def rename_mailbox_def
        mark_undeliverable_def auto_archive_undeliverable_def archive_retired_def record_notify_def Let_def
        dest!: w split: option.split sum.split)
qed

lemma recover_tracks:
  assumes "tracks mailbox ids m"
  shows "map ms_id (fst (recover_delivery env mailbox m)) = filter (present m) ids"
    "tracks mailbox ids (snd (recover_delivery env mailbox m))"
proof -
  have order: "queue_order (set ids) m = filter (present m) ids" using assms by (simp add: tracks_def)
  show replay: "map ms_id (fst (recover_delivery env mailbox m)) = filter (present m) ids"
  proof (cases "pending_delivery m mailbox")
    case None
    then show ?thesis using assms by (auto simp: tracks_def recover_delivery_def filter_empty_conv)
  next
    case (Some rc)
    have "m_id r \<in> set (rc_message_ids rc) \<longleftrightarrow> m_id r \<in> set ids" if "r \<in> set (ml_messages m)" for r
      using that assms Some by (auto simp: tracks_def present_def skeleton_id_set)
    then have "filter (\<lambda>r. m_id r \<in> set (rc_message_ids rc)) (ml_messages m) = filter (\<lambda>r. m_id r \<in> set ids) (ml_messages m)"
      by (intro filter_cong) simp_all
    with order Some show ?thesis
      by (simp add: recover_delivery_def Let_def full_message_def summary_of_def comp_def queue_order_rows)
  qed
  let ?m = "snd (recover_delivery env mailbox m)"
  have frame: "ml_messages ?m = ml_messages m" "ml_attachments ?m = ml_attachments m" "ml_counter ?m = ml_counter m"
    by (auto simp: recover_delivery_def Let_def drop_receipt_def shrink_receipt_def split: option.split)
  have same: "present ?m = present m" "sent_id ?m = sent_id m" "queue_order (set ids) ?m = queue_order (set ids) m"
    using inv_frame(2) [OF frame] frame(3) by (simp_all add: present_def fun_eq_iff sent_id_def queue_order_def)
  have "case pending_delivery ?m mailbox of None \<Rightarrow> \<forall>i \<in> set ids. \<not> present m i
      | Some rc \<Rightarrow> set (rc_message_ids rc) \<subseteq> set ids \<and> (\<forall>i \<in> set ids. present m i \<longrightarrow> i \<in> set (rc_message_ids rc))"
  proof (cases "pending_delivery m mailbox")
    case None
    then show ?thesis using assms by (simp add: tracks_def recover_delivery_def)
  next
    case (Some rc)
    define found where "found = map ms_id (fst (recover_delivery env mailbox m))"
    have "?m = (if set (rc_message_ids rc) \<noteq> set found
        then (if found = [] then drop_receipt mailbox m else shrink_receipt mailbox found m) else m)"
      by (simp only: found_def recover_delivery_def Some option.case Let_def fst_conv snd_conv)
    then have "pending_delivery ?m mailbox = (if set (rc_message_ids rc) = set found then Some rc
        else if found = [] then None else Some (rc\<lparr>rc_message_ids := found\<rparr>))"
      using Some by (simp add: pending_delivery_def drop_receipt_def shrink_receipt_def row_get_delete row_get_update)
    then show ?thesis using assms Some replay
      by (auto simp: found_def [symmetric] tracks_def filter_empty_conv split: if_splits)
  qed
  then show "tracks mailbox ids ?m"
    using assms inv_frame(1) [OF frame] unfolding tracks_def same by simp
qed

lemma tracks_exec:
  assumes "tracks mailbox ids m" "\<not> disturbs mailbox (set ids) c"
  shows "tracks mailbox ids (mail_exec env c m)"
proof (cases "c = Mail_Recover mailbox")
  case True
  then show ?thesis using recover_tracks(2) [OF assms(1)] by simp
next
  case False
  have "mail_inv m" using assms(1) by (simp add: tracks_def)
  from exec_moves [OF this] have mv: "moves (names_next_job c) m (mail_exec env c m)" .
  have "\<forall>i \<in> set ids. \<not> names_next_job c i" using assms(2) by (cases c) auto
  note t = tracks_moves [OF assms(1) mv this]
  have "case pending_delivery m mailbox of None \<Rightarrow> \<forall>i \<in> set ids. \<not> present m i
      | Some rc \<Rightarrow> set (rc_message_ids rc) \<subseteq> set ids \<and> (\<forall>i \<in> set ids. present m i \<longrightarrow> i \<in> set (rc_message_ids rc))"
    using assms(1) by (simp add: tracks_def)
  then show ?thesis
    unfolding tracks_def pending_other [OF assms(2) False] using t by (auto split: option.splits)
qed

lemma row_get_upsert: "row_get key (key r) (row_upsert key (\<lambda>_. r) r rows) = Some r"
proof (cases "row_get key (key r) rows")
  case None
  then show ?thesis by (simp add: row_upsert_def) (simp add: row_get_def find_append)
next
  case (Some x)
  have "row_get key k (row_update (\<lambda>x. key x = k) (\<lambda>_. r) xs) = Some r" if "key r = k" "row_get key k xs \<noteq> None" for k xs
    using that by (induction xs) (auto simp: row_get_def row_update_def)
  with Some show ?thesis by (simp add: row_upsert_def)
qed

lemma tracks_fold:
  assumes "tracks mailbox ids m" "list_all (\<lambda>(e, c). \<not> disturbs mailbox (set ids) c) cs"
  shows "tracks mailbox ids (fold (\<lambda>(e, c). mail_exec e c) cs m)"
  using assms by (induction cs arbitrary: m) (auto intro: tracks_exec)

text \<open>Ids are never blank, so a receipt records the whole batch.\<close>

lemma strip_front_last:
  assumes "\<forall>w \<in> set ws. c \<notin> set w"
  shows "strip_front ws (s @ [c]) \<noteq> []"
proof (induction "length s" arbitrary: s rule: less_induct)
  case less
  let ?n = "front_width ws (s @ [c])"
  have fw: "n = 0 \<or> (\<exists>w \<in> set ws. take (length w) x = w \<and> n = length w)" if "n = front_width ws x" for n x
    using that by (induction ws) (auto split: if_splits)
  show ?case
  proof (cases "?n = 0")
    case True
    then show ?thesis by (simp add: strip_front.simps [of ws "s @ [c]"])
  next
    case False
    with fw [OF refl, of "s @ [c]"] obtain w where w: "w \<in> set ws" "take (length w) (s @ [c]) = w" "?n = length w" by auto
    have "length w \<le> length s"
    proof (rule ccontr)
      assume "\<not> length w \<le> length s"
      then have "take (length w) (s @ [c]) = s @ [c]" by simp
      with w(1,2) assms show False by (metis in_set_conv_decomp)
    qed
    then have "drop ?n (s @ [c]) = drop ?n s @ [c]" using w(3) by simp
    then have "strip_front ws (s @ [c]) = strip_front ws (drop ?n s @ [c])"
      using False by (subst strip_front.simps) (simp add: Let_def)
    moreover have "length s - ?n < length s" using False \<open>length w \<le> length s\<close> w(3) by linarith
    then have "length (drop ?n s) < length s" by simp
    ultimately show ?thesis using less by metis
  qed
qed

lemma trim_not_blank:
  assumes "\<forall>w \<in> set white_space. c \<notin> set w"
  shows "trim (c # s) \<noteq> []"
proof -
  have "front_width ws (c # s) = 0" if "\<forall>w \<in> set ws. c \<notin> set w" for ws
    using that by (induction ws) (auto simp: take_Cons' neq_Nil_conv)
  then have "trim_start (c # s) = c # s"
    using assms by (simp add: trim_start_def strip_front.simps [of white_space])
  moreover have "strip_front (map rev white_space) (rev s @ [c]) \<noteq> []"
    using assms by (intro strip_front_last) simp
  ultimately show ?thesis by (simp add: trim_def trim_end_def)
qed

lemma message_id_not_blank: "mail_inv m \<Longrightarrow> r \<in> set (ml_messages m) \<Longrightarrow> trim (m_id r) \<noteq> []"
proof -
  assume "mail_inv m" "r \<in> set (ml_messages m)"
  then consider n where "m_id r = CHR ''i'' # digits n" | s where "m_id r = CHR ''n'' # s"
    by (auto simp: mail_inv_def sent_id_def message_id_of_def starts_with_def) (metis append_Cons append_take_drop_id)
  then show ?thesis by cases (simp_all add: trim_not_blank white_space_def)
qed

text \<open>
  C14: a delivered batch can be replayed until it is settled. After a consuming read of a
  mailbox whose batch is recorded as delivered, a reader that crashed and recovers gets the
  very messages of the batch that still exist, in the order they were read, whatever other
  mail was sent, read, acknowledged, archived, purged or deleted and however often it recovered;
  only a newer batch of the mailbox, or settling it, replaces the receipt.
\<close>

theorem delivered_batch_is_replayed:
  assumes "mail_reachable m" "mail_read env mailbox limit False True m = (msgs, m1)" "msgs \<noteq> []"
    and "record_delivery env2 mailbox (map ms_id msgs) now m1 = (n, m2)"
    and "list_all (\<lambda>(e, c). \<not> disturbs mailbox (set (map ms_id msgs)) c) cs"
    and "m3 = fold (\<lambda>(e, c). mail_exec e c) cs m2"
  shows "map ms_id (fst (recover_delivery env' mailbox m3))
    = filter (\<lambda>i. get_message i m3 \<noteq> None) (map ms_id msgs)"
proof -
  let ?ids = "map ms_id msgs"
  have inv: "mail_inv m" by (rule reachable_mail_inv [OF assms(1)])
  have step: "in_place m m1"
    using in_place_marks [OF inv] mail_read_snd [of env mailbox limit False True m] by (simp add: assms(2))
  note p1 = in_place_inv [OF inv step]
  have order: "queue_order (set ?ids) m1 = ?ids" using read_batch [OF inv assms(2)] p1(2) by (simp add: queue_order_def)
  then have here: "\<forall>i \<in> set ?ids. present m1 i" using queue_order_set [of "set ?ids" m1] by auto
  have row: "\<exists>r \<in> set (ml_messages m1). m_id r = i" if "i \<in> set ?ids" for i
    using here that by (fastforce simp: present_def skeleton_id_set)
  have "filter (\<lambda>i. trim i \<noteq> []) ?ids = ?ids"
    using message_id_not_blank [OF p1(1)] row by (intro filter_True) metis
  then have m2: "m2 = m1\<lparr>ml_deliveries := row_upsert rc_mailbox
      (\<lambda>_. \<lparr>rc_mailbox = mailbox, rc_message_ids = ?ids, rc_delivered_at = (case now of Some t \<Rightarrow> t | None \<Rightarrow> now_s env2)\<rparr>)
      \<lparr>rc_mailbox = mailbox, rc_message_ids = ?ids, rc_delivered_at = (case now of Some t \<Rightarrow> t | None \<Rightarrow> now_s env2)\<rparr>
      (ml_deliveries m1)\<rparr>"
    using assms(3,4) by (simp add: record_delivery_def Let_def)
  have f: "mail_inv m2 = mail_inv m1" "skeleton m2 = skeleton m1" by (rule inv_frame; simp add: m2)+
  have known: "\<forall>i \<in> set ?ids. sent_id m2 i \<or> starts_with i ''nj-''"
    using row p1(1) by (fastforce simp: mail_inv_def sent_id_def m2)
  have rc: "pending_delivery m2 mailbox = Some \<lparr>rc_mailbox = mailbox, rc_message_ids = ?ids,
      rc_delivered_at = (case now of Some t \<Rightarrow> t | None \<Rightarrow> now_s env2)\<rparr>"
    using row_get_upsert [of rc_mailbox "\<lparr>rc_mailbox = mailbox, rc_message_ids = ?ids,
      rc_delivered_at = (case now of Some t \<Rightarrow> t | None \<Rightarrow> now_s env2)\<rparr>"] by (simp add: pending_delivery_def m2)
  have "filter (present m2) ?ids = ?ids" using here f(2) by (intro filter_True) (simp add: present_def)
  then have "tracks mailbox ?ids m2"
    using p1(1) f order known rc by (simp add: tracks_def queue_order_def)
  then have "tracks mailbox ?ids (fold (\<lambda>(e, c). mail_exec e c) cs m2)" using assms(5)
    by (rule tracks_fold)
  from recover_tracks(1) [OF this [folded assms(6)]] show ?thesis
    by (simp add: present_get [abs_def])
qed

definition demo_day :: "(env \<times> mail_command) list" where
  "demo_day = [(mail_clock 6, Mail_Send demo_disk (demo_letter ''pm'' [])), (mail_clock 7, Mail_Recover ''pm''),
     (mail_clock 8, Mail_Ack [''i2''] None), (mail_clock 9, Mail_Delete [''i3''])]"

definition demo_box :: mail where
  "demo_box = fold (\<lambda>(e, c). mail_exec e c)
     [(mail_clock 2, Mail_Send demo_disk (demo_letter ''pm'' [])), (mail_clock 3, Mail_Send demo_disk (demo_letter ''pm'' []))]
     demo_mail"

lemma demo_box_reachable: "mail_reachable demo_box"
  unfolding demo_box_def demo_mail_def by (simp del: mail_exec.simps) (intro mail_reachable.intros)

theorem delivered_batch_is_replayed_witness:
  "\<exists>msgs m1 n m2. mail_read (mail_clock 4) ''pm'' 10 False True demo_box = (msgs, m1)
     \<and> record_delivery (mail_clock 5) ''pm'' (map ms_id msgs) None m1 = (n, m2)
     \<and> map ms_id (fst (recover_delivery (mail_clock 10) ''pm'' (fold (\<lambda>(e, c). mail_exec e c) demo_day m2))) = [''i2'']"
proof -
  obtain msgs m1 where r: "mail_read (mail_clock 4) ''pm'' 10 False True demo_box = (msgs, m1)" by fastforce
  obtain n m2 where d: "record_delivery (mail_clock 5) ''pm'' (map ms_id msgs) None m1 = (n, m2)" by fastforce
  have ids: "map ms_id (fst (mail_read (mail_clock 4) ''pm'' 10 False True demo_box)) = [''i2'', ''i3'']" by code_simp
  then have msgs: "map ms_id msgs = [''i2'', ''i3'']" "msgs \<noteq> []" using r by auto
  have calm: "list_all (\<lambda>(e, c). \<not> disturbs ''pm'' (set (map ms_id msgs)) c) demo_day" by (simp add: demo_day_def)
  from delivered_batch_is_replayed [OF demo_box_reachable r msgs(2) d calm, of _ "mail_clock 10"]
  have replay: "map ms_id (fst (recover_delivery (mail_clock 10) ''pm'' (fold (\<lambda>(e, c). mail_exec e c) demo_day m2)))
      = filter (\<lambda>i. get_message i (fold (\<lambda>(e, c). mail_exec e c) demo_day m2) \<noteq> None) (map ms_id msgs)" by blast
  have "filter (\<lambda>i. get_message i (fold (\<lambda>(e, c). mail_exec e c) demo_day
      (snd (record_delivery (mail_clock 5) ''pm'' [''i2'', ''i3''] None
         (snd (mail_read (mail_clock 4) ''pm'' 10 False True demo_box))))) \<noteq> None) [''i2'', ''i3''] = [''i2'']" by code_simp
  then have "filter (\<lambda>i. get_message i (fold (\<lambda>(e, c). mail_exec e c) demo_day m2) \<noteq> None) [''i2'', ''i3''] = [''i2'']"
    using d [unfolded msgs(1)] r by simp
  with replay show ?thesis using r d msgs by (metis (no_types, lifting))
qed

end
