(* ===== verification/Mail_Outcomes.thy ===== *)
theory Mail_Outcomes
  imports Mail_Effects
begin

text \<open>
  What single operations of the inbox promise: an acknowledgement covers every id it names or
  does nothing, and never leaves its mailbox; an attachment comes back as it was sent. Two
  places where the code does less than it means to are shown on concrete mail.
\<close>

section \<open>Acknowledging\<close>

definition wrong_box :: "string option \<Rightarrow> message_row \<Rightarrow> bool" where
  "wrong_box mailbox r \<longleftrightarrow> (case mailbox of Some box \<Rightarrow> normalise_mailbox (m_mailbox r) \<noteq> normalise_mailbox box | None \<Rightarrow> False)"

lemma transition_loop_Cons: "transition_loop allowed write mailbox (mid # ids) (changed, unchanged, m) =
   (case get_message mid m of None \<Rightarrow> refused (NoMessage mid)
    | Some r \<Rightarrow> if wrong_box mailbox r then refused (NotInMailbox mid (case mailbox of Some box \<Rightarrow> box | None \<Rightarrow> []))
        else if m_state r \<notin> set allowed
        then transition_loop allowed write mailbox ids (changed, unchanged @ [(mid, m_state r)], m)
        else transition_loop allowed write mailbox ids (changed @ [mid], unchanged,
               m\<lparr>ml_messages := row_update (\<lambda>r. m_id r = mid) write (ml_messages m)\<rparr>))"
  by (auto simp: wrong_box_def split: option.split)

lemma transition_refused:
  assumes "\<And>x. m_id (write x) = m_id x" "\<And>x. m_mailbox (write x) = m_mailbox x"
  shows "is_ok (transition_loop allowed write mailbox ids (changed, unchanged, m))
    \<longleftrightarrow> (\<forall>i \<in> set ids. \<exists>r. get_message i m = Some r \<and> \<not> wrong_box mailbox r)"
proof (induction ids arbitrary: changed unchanged m)
  case (Cons i ids)
  let ?m = "m\<lparr>ml_messages := row_update (\<lambda>r. m_id r = i) write (ml_messages m)\<rparr>"
  have box: "wrong_box mailbox (write x) = wrong_box mailbox x" for x by (auto simp: wrong_box_def assms(2) split: option.split)
  have same: "(\<exists>r. get_message j ?m = Some r \<and> \<not> wrong_box mailbox r) \<longleftrightarrow> (\<exists>r. get_message j m = Some r \<and> \<not> wrong_box mailbox r)" for j
    by (cases "get_message j m") (simp_all add: get_update_where [OF assms(1)] box)
  show ?case
    using same by (cases "get_message i m") (simp_all add: transition_loop_Cons Cons.IH del: transition_loop.simps)
qed simp

lemma transition_effect:
  assumes "\<And>x. m_id (write x) = m_id x" "\<And>x. m_state (write x) \<notin> set allowed"
    and "transition_loop allowed write mailbox ids (changed, unchanged, m) = ok (changed', unchanged', m')"
  shows "set changed' = set changed \<union> {i \<in> set ids. \<exists>r. get_message i m = Some r \<and> m_state r \<in> set allowed}
    \<and> get_message mid m' = map_option (\<lambda>r. if mid \<in> set ids \<and> m_state r \<in> set allowed then write r else r) (get_message mid m)
    \<and> m'\<lparr>ml_messages := []\<rparr> = m\<lparr>ml_messages := []\<rparr>"
  using assms(3)
proof (induction ids arbitrary: changed unchanged m)
  case Nil
  then show ?case by (auto simp: map_option_case split: option.split)
next
  case (Cons i ids)
  from Cons.prems obtain r where r: "get_message i m = Some r" "\<not> wrong_box mailbox r"
    by (auto simp: transition_loop_Cons simp del: transition_loop.simps split: option.splits if_splits)
  show ?case
  proof (cases "m_state r \<in> set allowed")
    case True
    let ?m = "m\<lparr>ml_messages := row_update (\<lambda>r. m_id r = i) write (ml_messages m)\<rparr>"
    have g: "row_get m_id j (row_update (\<lambda>r. m_id r = i) write (ml_messages m)) = map_option (\<lambda>x. if j = i then write x else x) (get_message j m)" for j
      using get_message_in [of j m] by (cases "get_message j m") (auto simp: get_update_where [OF assms(1)])
    have "transition_loop allowed write mailbox ids (changed @ [i], unchanged, ?m) = ok (changed', unchanged', m')"
      using Cons.prems r True by (simp add: transition_loop_Cons del: transition_loop.simps)
    note IH = Cons.IH [OF this]
    have still: "(\<exists>x. get_message j ?m = Some x \<and> m_state x \<in> set allowed)
        \<longleftrightarrow> j \<noteq> i \<and> (\<exists>x. get_message j m = Some x \<and> m_state x \<in> set allowed)" for j
      using assms(2) by (auto simp: g split: if_splits)
    have set: "set changed' = set (changed @ [i]) \<union> {j \<in> set ids. j \<noteq> i \<and> (\<exists>x. get_message j m = Some x \<and> m_state x \<in> set allowed)}"
      using IH unfolding still by blast
    have row: "get_message mid m' = map_option (\<lambda>x. if mid \<in> set ids \<and> m_state x \<in> set allowed then write x else x)
        (map_option (\<lambda>x. if mid = i then write x else x) (get_message mid m))"
      using IH by (simp add: g)
    have "m'\<lparr>ml_messages := []\<rparr> = m\<lparr>ml_messages := []\<rparr>" using IH by simp
    moreover have "get_message mid m' = map_option (\<lambda>x. if mid \<in> set (i # ids) \<and> m_state x \<in> set allowed then write x else x)
        (get_message mid m)"
      using row r True assms(2) by (cases "get_message mid m") auto
    moreover have "set changed' = set changed \<union> {j \<in> set (i # ids). \<exists>x. get_message j m = Some x \<and> m_state x \<in> set allowed}"
      using set r True by auto
    ultimately show ?thesis by blast
  next
    case False
    then have "transition_loop allowed write mailbox ids (changed, unchanged @ [(i, m_state r)], m) = ok (changed', unchanged', m')"
      using Cons.prems r by (simp add: transition_loop_Cons del: transition_loop.simps)
    note IH = Cons.IH [OF this]
    have "{j \<in> set (i # ids). \<exists>x. get_message j m = Some x \<and> m_state x \<in> set allowed}
        = {j \<in> set ids. \<exists>x. get_message j m = Some x \<and> m_state x \<in> set allowed}"
      using r False by auto
    moreover have "map_option (\<lambda>x. if mid \<in> set (i # ids) \<and> m_state x \<in> set allowed then write x else x) (get_message mid m)
        = map_option (\<lambda>x. if mid \<in> set ids \<and> m_state x \<in> set allowed then write x else x) (get_message mid m)"
      using r False by (cases "get_message mid m") auto
    ultimately show ?thesis using IH by metis
  qed
qed

text \<open>
  C28: an acknowledgement settles all it names or nothing, inside its mailbox. It goes through
  exactly when it names an id and every id it names is a message of the mailbox, in either
  spelling; otherwise nothing changes. When it goes through, the unread and read messages it
  names are acknowledged now and carry a time of reading, and every other message, the
  attachments and the receipts stay as they were.
\<close>

theorem ack_settles_all_or_nothing:
  fixes res :: "transition result"
  assumes "ack env ids mailbox m = (res, m')"
  defines "named \<equiv> trim ` set ids - {[]}"
  defines "open_of \<equiv> (\<lambda>i. case get_message i m of Some r \<Rightarrow> m_state r \<in> {''queued'', ''read''} | None \<Rightarrow> False)"
  shows "(is_ok res \<longleftrightarrow> named \<noteq> {} \<and> (\<forall>i \<in> named. \<exists>r. get_message i m = Some r \<and> \<not> wrong_box (non_empty_str mailbox) r))
    \<and> (case res of Inl e \<Rightarrow> m' = m
       | Inr tr \<Rightarrow> set (tr_changed tr) = {i \<in> named. open_of i}
           \<and> get_message mid m' = map_option (\<lambda>r. if mid \<in> named \<and> open_of mid then acked_row (now_s env) r else r) (get_message mid m)
           \<and> m'\<lparr>ml_messages := []\<rparr> = m\<lparr>ml_messages := []\<rparr>)"
proof -
  have frame: "m_id (acked_row (now_s env) x) = m_id x" "m_mailbox (acked_row (now_s env) x) = m_mailbox x"
    "m_state (acked_row (now_s env) x) \<notin> set [''queued'', ''read'']" for x by (simp_all add: acked_row_def)
  have named: "named = set (filter (\<lambda>i. i \<noteq> []) (map trim ids))" by (auto simp: named_def)
  show ?thesis
  proof (cases "filter (\<lambda>i. i \<noteq> []) (map trim ids) = []")
    case True
    then have "named = {}" by (simp only: named) simp
    with True assms(1) show ?thesis by (auto simp: ack_def mail_transition_def clean_ids_def)
  next
    case False
    then have ne: "named \<noteq> {}" by (simp only: named set_empty not_False_eq_True)
    let ?ids = "filter (\<lambda>i. i \<noteq> []) (map trim ids)"
    let ?loop = "transition_loop [''queued'', ''read''] (acked_row (now_s env)) (non_empty_str mailbox) ?ids ([], [], m)"
    have res: "ack env ids mailbox m = (case ?loop of Inl e \<Rightarrow> (Inl e, m) | Inr (changed, unchanged, m') \<Rightarrow>
        (ok \<lparr>tr_state = ''acked'', tr_changed = changed, tr_unchanged = unchanged\<rparr>, m'))"
      using False by (simp add: ack_def mail_transition_def clean_ids_def)
    note goes = transition_refused [OF frame(1,2), of "[''queued'', ''read'']" "non_empty_str mailbox" ?ids "[]" "[]" m,
      folded named]
    show ?thesis
    proof (cases ?loop)
      case (Inl e)
      then show ?thesis using goes ne assms(1) res by auto
    next
      case (Inr x)
      obtain changed unchanged m1 where x: "x = (changed, unchanged, m1)" by (cases x)
      from transition_effect [OF frame(1,3) Inr [unfolded x], of mid, folded named] goes ne assms(1) res Inr x
      show ?thesis by (auto simp: open_of_def split: option.splits)
    qed
  qed
qed

section \<open>Attachments\<close>

text \<open>What \<open>store_blob\<close> makes of a file, and when the blob directory holds contents under their hash.\<close>

definition file_content :: "disk \<Rightarrow> string \<Rightarrow> string" where
  "file_content d p = the (fs_files d (expand_user d p))"

definition blob_of :: "disk \<Rightarrow> string \<Rightarrow> blob" where
  "blob_of d p = \<lparr>bl_sha256 = fs_sha d (file_content d p), bl_filename = file_name (expand_user d p),
     bl_size = int (length (file_content d p)), bl_media_type = media_type (expand_user d p)\<rparr>"

definition blobs_named :: "(string \<Rightarrow> string) \<Rightarrow> mail \<Rightarrow> bool" where
  "blobs_named sha m \<longleftrightarrow> (\<forall>(name, content) \<in> set (ml_blobs m). name = sha content)"

lemma store_blob_effect:
  assumes "store_blob d p m = (res, m')"
  shows "m'\<lparr>ml_blobs := []\<rparr> = m\<lparr>ml_blobs := []\<rparr>"
    "set (ml_blobs m) \<subseteq> set (ml_blobs m')" "\<forall>(name, c) \<in> set (ml_blobs m'). (name, c) \<in> set (ml_blobs m) \<or> c \<in> ran (fs_files d)"
    "map_of (ml_blobs m) n = Some c \<Longrightarrow> map_of (ml_blobs m') n = Some c"
    "blobs_named (fs_sha d) m \<Longrightarrow> blobs_named (fs_sha d) m'"
    "res = ok b \<Longrightarrow> b = blob_of d p \<and> fs_files d (expand_user d p) \<noteq> None \<and> map_of (ml_blobs m') (bl_sha256 b) \<noteq> None"
  using assms
  by (auto simp: store_blob_def Let_def blob_of_def file_content_def blobs_named_def ranI split: option.splits sum.splits if_splits)

lemma stage_blobs_effect:
  assumes "stage_blobs d ps m = (res, m')"
  shows "m'\<lparr>ml_blobs := []\<rparr> = m\<lparr>ml_blobs := []\<rparr>
    \<and> (\<forall>(name, c) \<in> set (ml_blobs m'). (name, c) \<in> set (ml_blobs m) \<or> c \<in> ran (fs_files d))
    \<and> (\<forall>n. map_of (ml_blobs m) n \<noteq> None \<longrightarrow> map_of (ml_blobs m') n = map_of (ml_blobs m) n)
    \<and> (blobs_named (fs_sha d) m \<longrightarrow> blobs_named (fs_sha d) m')
    \<and> (\<forall>bs. res = ok bs \<longrightarrow> bs = map (blob_of d) ps
         \<and> (\<forall>p \<in> set ps. fs_files d (expand_user d p) \<noteq> None \<and> map_of (ml_blobs m') (bl_sha256 (blob_of d p)) \<noteq> None))"
  using assms
proof (induction ps arbitrary: m res m')
  case (Cons p ps)
  obtain r1 m1 where one: "store_blob d p m = (r1, m1)" by fastforce
  note e = store_blob_effect [OF one]
  show ?case
  proof (cases r1)
    case (Inl err)
    then show ?thesis using Cons.prems one e by auto
  next
    case (Inr b)
    obtain r2 m2 where rest: "stage_blobs d ps m1 = (r2, m2)" by fastforce
    have m2: "m' = m2" "res = (case r2 of Inl x \<Rightarrow> Inl x | Inr bs \<Rightarrow> ok (b # bs))"
      using Cons.prems one Inr rest by (auto split: sum.splits)
    note IH = Cons.IH [OF rest]
    have kept: "map_of (ml_blobs m') n = map_of (ml_blobs m) n" if "map_of (ml_blobs m) n \<noteq> None" for n
      using IH that e(4) [of n] by (auto simp: m2)
    have "map_of (ml_blobs m2) (bl_sha256 b) = map_of (ml_blobs m1) (bl_sha256 b)" using IH e(6) [OF Inr] by blast
    then have here: "map_of (ml_blobs m') (bl_sha256 b) \<noteq> None" using e(6) [OF Inr] by (auto simp: m2)
    have from_disk: "\<forall>(name, c) \<in> set (ml_blobs m'). (name, c) \<in> set (ml_blobs m) \<or> c \<in> ran (fs_files d)"
      using IH e(3) by (auto simp: m2)
    show ?thesis
      using IH e(1,5) e(6) [OF Inr] from_disk here kept m2
      by (intro conjI allI impI) (auto split: sum.splits)
  qed
qed auto

definition attached :: "time \<Rightarrow> string \<Rightarrow> nat \<Rightarrow> blob \<Rightarrow> attachment_row" where
  "attached now mid n b = \<lparr>at_id = mid @ ''-'' @ digits n, at_message_id = mid, at_filename = bl_filename b,
     at_media_type = bl_media_type b, at_size = bl_size b, at_sha256 = bl_sha256 b, at_created_at = now\<rparr>"

lemma insert_attachments_effect:
  assumes "insert_attachments now mid n bs m = ok m'"
  shows "m'\<lparr>ml_attachments := []\<rparr> = m\<lparr>ml_attachments := []\<rparr>
    \<and> (\<forall>i a. row_get at_id i (ml_attachments m) = Some a \<longrightarrow> row_get at_id i (ml_attachments m') = Some a)
    \<and> (\<forall>k < length bs. row_get at_id (mid @ ''-'' @ digits (n + 1 + k)) (ml_attachments m') = Some (attached now mid (n + 1 + k) (bs ! k)))
    \<and> (\<forall>a \<in> set (ml_attachments m'). a \<in> set (ml_attachments m) \<or> (\<exists>b \<in> set bs. at_sha256 a = bl_sha256 b))"
  using assms
proof (induction bs arbitrary: n m)
  case (Cons b bs)
  let ?a = "attached now mid (n + 1) b"
  let ?m = "m\<lparr>ml_attachments := ml_attachments m @ [?a]\<rparr>"
  have free: "row_get at_id (at_id ?a) (ml_attachments m) = None"
    and rest: "insert_attachments now mid (n + 1) bs ?m = ok m'"
    using Cons.prems by (simp_all add: attached_def Let_def split: if_splits)
  note IH = Cons.IH [OF rest]
  have old: "row_get at_id i (ml_attachments ?m) = Some a" if "row_get at_id i (ml_attachments m) = Some a" for i a
    using that by (simp add: row_get_def find_append)
  have new: "row_get at_id (mid @ ''-'' @ digits (n + 1)) (ml_attachments ?m) = Some ?a"
    using free by (simp add: row_get_def find_append attached_def)
  have "row_get at_id (mid @ ''-'' @ digits (n + 1 + k)) (ml_attachments m') = Some (attached now mid (n + 1 + k) ((b # bs) ! k))"
    if "k < length (b # bs)" for k
    using IH new that by (cases k) (auto simp del: digits.simps)
  moreover have "a \<in> set (ml_attachments m) \<or> (\<exists>x \<in> set (b # bs). at_sha256 a = bl_sha256 x)" if "a \<in> set (ml_attachments m')" for a
    using IH that by (auto simp: attached_def)
  ultimately show ?case using IH old by auto
qed simp

text \<open>
  C34: an attachment comes back as it was sent. When the blob directory holds contents under
  their hash and no two contents in play share one, every file named in a message that was sent
  can be fetched under the message's id and its position, with the content, the name and the
  size the file had.
\<close>

theorem sent_attachment_comes_back:
  assumes "send env d out m = (ok msg, m')" "k < length (ou_attachments out)"
    and "blobs_named (fs_sha d) m" "inj_on (fs_sha d) (snd ` set (ml_blobs m) \<union> ran (fs_files d))"
  defines "p \<equiv> ou_attachments out ! k"
  shows "\<exists>f. fetch (ms_id msg @ ''-'' @ digits (Suc k)) m' = ok f \<and> fs_files d (expand_user d p) = Some (ft_content f)
    \<and> ft_filename f = file_name (expand_user d p) \<and> ft_size f = int (length (ft_content f)) \<and> ft_message_id f = ms_id msg"
proof -
  from assms(1) obtain transport stored m1 where st: "stage_blobs d (ou_attachments out) m = (ok stored, m1)"
    and fm: "file_message env (trim (ou_mailbox out)) transport out stored m1 = ok (msg, m')"
    by (auto simp: send_def Let_def split: sum.splits prod.splits if_splits)
  note staged = stage_blobs_effect [OF st]
  have stored: "stored = map (blob_of d) (ou_attachments out)" using staged by simp
  from fm obtain x mid where ins: "insert_attachments (now_s env) mid 0 stored x = ok m'"
    and x: "ml_blobs x = ml_blobs m1" and msg: "ms_id msg = mid"
    by (auto simp: file_message_def Let_def next_message_id_def try_bind_Inr write_messages_def full_message_def
          summary_of_def queued_row_def split: if_splits)
  note e = insert_attachments_effect [OF ins]
  have p: "p \<in> set (ou_attachments out)" using assms(2) by (simp add: p_def)
  have row: "row_get at_id (ms_id msg @ ''-'' @ digits (Suc k)) (ml_attachments m') = Some (attached (now_s env) mid (Suc k) (blob_of d p))"
    using e assms(2) by (simp add: msg stored p_def)
  have "ml_blobs (m'\<lparr>ml_attachments := []\<rparr>) = ml_blobs (x\<lparr>ml_attachments := []\<rparr>)" using e by (simp only:)
  then have blobs: "ml_blobs m' = ml_blobs m1" using x by simp
  from staged p obtain c sent where c: "map_of (ml_blobs m1) (fs_sha d (file_content d p)) = Some c"
    and sent: "fs_files d (expand_user d p) = Some sent" by (fastforce simp: blob_of_def)
  from c have c_in: "(fs_sha d (file_content d p), c) \<in> set (ml_blobs m1)" by (rule map_of_SomeD)
  then have "fs_sha d c = fs_sha d (file_content d p)" using staged assms(3) by (auto simp: blobs_named_def)
  moreover have "c \<in> snd ` set (ml_blobs m) \<union> ran (fs_files d)" using c_in staged by force
  moreover have "file_content d p \<in> ran (fs_files d)" using sent by (simp add: file_content_def ranI)
  ultimately have "c = file_content d p" using assms(4) by (auto dest: inj_onD)
  then show ?thesis using row blobs c sent
    by (simp add: fetch_def attached_def blob_of_def msg file_content_def)
qed

theorem sent_attachment_comes_back_witness:
  "\<exists>msg m' f. send (mail_clock 1) demo_disk (demo_letter ''pm'' [''/f'']) empty_mail = (ok msg, m')
     \<and> fetch (ms_id msg @ ''-'' @ digits 1) m' = ok f \<and> ft_content f = ''data''"
proof -
  have "is_ok (fst (send (mail_clock 1) demo_disk (demo_letter ''pm'' [''/f'']) empty_mail))" by code_simp
  then obtain msg m' where s: "send (mail_clock 1) demo_disk (demo_letter ''pm'' [''/f'']) empty_mail = (ok msg, m')"
    by (metis isl_def prod.collapse sum.exhaust_sel)
  have h: "0 < length (ou_attachments (demo_letter ''pm'' [''/f'']))" "blobs_named (fs_sha demo_disk) empty_mail"
    "inj_on (fs_sha demo_disk) (snd ` set (ml_blobs empty_mail) \<union> ran (fs_files demo_disk))"
    by (simp_all add: demo_letter_def blobs_named_def empty_mail_def demo_disk_def inj_on_def)
  have "fs_files demo_disk (expand_user demo_disk ''/f'') = Some ''data''" by code_simp
  with sent_attachment_comes_back [OF s h] s show ?thesis by (auto simp: demo_letter_def)
qed

theorem ack_settles_all_or_nothing_witness:
  "\<exists>res m'. ack (mail_clock 5) [''i1'', ''i9''] (Some ''pm'') demo_mail = (res, m') \<and> \<not> is_ok res \<and> m' = demo_mail"
proof -
  obtain res m' where a: "ack (mail_clock 5) [''i1'', ''i9''] (Some ''pm'') demo_mail = (res, m')" by fastforce
  have "isl (fst (ack (mail_clock 5) [''i1'', ''i9''] (Some ''pm'') demo_mail))" by code_simp
  then have "isl res" using a by simp
  with ack_settles_all_or_nothing [OF a, of "''i1''"] a show ?thesis by (cases res) auto
qed

text \<open>The attachments of a store that can be fetched; no command takes one apart.\<close>

definition all_readable :: "mail \<Rightarrow> bool" where
  "all_readable m \<longleftrightarrow> (\<forall>a \<in> set (ml_attachments m). map_of (ml_blobs m) (at_sha256 a) \<noteq> None)"

lemma readable_frame: "ml_attachments m' = ml_attachments m \<Longrightarrow> ml_blobs m' = ml_blobs m \<Longrightarrow> all_readable m' = all_readable m"
  by (simp add: all_readable_def)

lemma readable_drops:
  assumes "all_readable m"
  shows "all_readable (fold drop_message ids m)"
  using assms
proof (induction ids arbitrary: m)
  case (Cons i ids)
  have "all_readable (drop_message i m)" using Cons.prems by (auto simp: all_readable_def drop_message_def row_delete_def)
  then show ?case using Cons.IH by simp
qed simp

lemma map_of_filter_in: "map_of xs n \<noteq> None \<Longrightarrow> P n \<Longrightarrow> map_of (filter (\<lambda>(n, c). P n) xs) n \<noteq> None"
  by (induction xs) (auto split: if_splits)

lemma readable_collect: "all_readable m \<Longrightarrow> all_readable (collect_blobs m)"
  unfolding all_readable_def collect_blobs_def sweep_blobs_def blob_keep_def
  using map_of_filter_in [of "ml_blobs m" _ "\<lambda>n. n \<in> at_sha256 ` set (ml_attachments m)"] by simp

lemma readable_send:
  assumes "all_readable m"
  shows "all_readable (snd (send env d out m))"
proof -
  obtain res m1 where st: "stage_blobs d (ou_attachments out) m = (res, m1)" by fastforce
  note staged = stage_blobs_effect [OF st]
  have "ml_attachments (m1\<lparr>ml_blobs := []\<rparr>) = ml_attachments (m\<lparr>ml_blobs := []\<rparr>)" using staged by (simp only:)
  then have att: "ml_attachments m1 = ml_attachments m" by simp
  have old: "all_readable m1" using assms staged by (auto simp: all_readable_def att)
  have "all_readable m2" if "file_message env box transport out stored m1 = ok (msg, m2)" "res = ok stored" for box transport stored msg m2
  proof -
    from that(1) obtain x mid where ins: "insert_attachments (now_s env) mid 0 stored x = ok m2"
      and x: "ml_blobs x = ml_blobs m1" "ml_attachments x = ml_attachments m1"
      by (auto simp: file_message_def Let_def next_message_id_def try_bind_Inr write_messages_def split: if_splits)
    note e = insert_attachments_effect [OF ins]
    have "ml_blobs (m2\<lparr>ml_attachments := []\<rparr>) = ml_blobs (x\<lparr>ml_attachments := []\<rparr>)" using e by (simp only:)
    then have blobs: "ml_blobs m2 = ml_blobs m1" using x by simp
    have "map_of (ml_blobs m1) (bl_sha256 b) \<noteq> None" if "b \<in> set stored" for b
      using staged \<open>res = ok stored\<close> that by auto
    then show ?thesis using e old unfolding all_readable_def blobs x(2) by (metis (no_types, lifting))
  qed
  then show ?thesis using assms old st by (auto simp: send_def Let_def split: sum.split prod.split)
qed

lemma readable_marks: "all_readable (fold (mark_one now) ids m) = all_readable m"
proof (induction ids arbitrary: m)
  case (Cons i ids)
  then show ?case using readable_frame [of "mark_one now i m" m] by (simp add: mark_one_def)
qed simp

lemma readable_transition: "all_readable (snd (mail_transition ids state write allowed mailbox m)) = all_readable m"
proof -
  have "all_readable m' = all_readable m" if "transition_loop allowed write box is (c, u, m) = ok (c', u', m')" for box "is" c u m c' u' m'
    using that
  proof (induction "is" arbitrary: c u m)
    case (Cons i "is")
    then show ?case using readable_frame [of "m\<lparr>ml_messages := row_update (\<lambda>r. m_id r = i) write (ml_messages m)\<rparr>" m]
      by (auto split: option.splits if_splits)
  qed simp
  then show ?thesis by (auto simp: mail_transition_def split: sum.split)
qed

lemma readable_exec:
  assumes "all_readable m"
  shows "all_readable (mail_exec env c m)"
proof -
  have w: "all_readable m' = all_readable x" if "write_messages rows x = ok m'" for rows x m'
    using that by (auto simp: write_messages_def all_readable_def split: if_splits)
  have f: "all_readable (x\<lparr>ml_messages := rows\<rparr>) = all_readable x" "all_readable (x\<lparr>ml_deliveries := rcs\<rparr>) = all_readable x"
    "all_readable (x\<lparr>ml_counter := n\<rparr>) = all_readable x" for x rows rcs n by (simp_all add: all_readable_def)
  show ?thesis
    using assms
    by (cases c)
      (auto simp: readable_send mail_read_snd mark_read_snd readable_marks readable_collect readable_drops readable_transition f
        record_delivery_def recover_delivery_def note_acked_def drop_receipt_def shrink_receipt_def upsert_digest_def
        next_message_id_def ensure_next_job_def ack_def cancel_def archive_def mail_delete_def purge_def rename_mailbox_def
        mark_undeliverable_def auto_archive_undeliverable_def archive_retired_def record_notify_def Let_def
        dest!: w split: option.split sum.split)
qed

text \<open>
  Every attachment can be fetched. Whatever commands ran, one after the other, the content
  of every attachment a message lists is still in the blob directory, and fetching it by its id
  gives it, although files are shared between messages and unreferenced ones are collected.
\<close>

theorem attachments_can_be_fetched:
  assumes "mail_reachable m" "a \<in> set (ml_attachments m)"
  shows "\<exists>f. fetch (at_id a) m = ok f \<and> ft_message_id f = at_message_id a \<and> (at_sha256 a, ft_content f) \<in> set (ml_blobs m)"
proof -
  have start: "all_readable empty_mail" by (simp add: all_readable_def empty_mail_def)
  from assms(1) have "all_readable m" by induction (simp_all add: start readable_exec del: mail_exec.simps)
  then obtain c where c: "map_of (ml_blobs m) (at_sha256 a) = Some c" using assms(2) by (auto simp: all_readable_def)
  have "row_get at_id (at_id a) (ml_attachments m) = Some a"
    using reachable_mail_inv [OF assms(1)] assms(2) distinct_find_unique [of at_id "ml_attachments m" a]
    by (simp add: mail_inv_def row_get_def)
  with c show ?thesis by (auto simp: fetch_def dest: map_of_SomeD)
qed

theorem attachments_can_be_fetched_witness:
  "\<exists>a \<in> set (ml_attachments demo_mail). \<exists>f. fetch (at_id a) demo_mail = ok f"
proof -
  have "map at_id (ml_attachments demo_mail) = [''i1-1'']" by code_simp
  then obtain a where "a \<in> set (ml_attachments demo_mail)" by fastforce
  with attachments_can_be_fetched [OF demo_mail_reachable this] show ?thesis by blast
qed

section \<open>Where the code falls short\<close>

definition two_boxes :: mail where
  "two_boxes = mail_exec (mail_clock 1) (Mail_Send demo_disk (demo_letter ''PM (par-a)'' [])) empty_mail"

text \<open>
  Archiving a mailbox reaches others. The rows of a mailbox are matched by the prefix
  \<^verbatim>\<open>name (\<close>, while the rule for two spellings strips a trailing pane id only, so archiving
  the mail of \<open>pm\<close> archives the unread mail of \<open>PM (par-a)\<close>, which is another mailbox: its
  own acknowledgements refuse that name.
\<close>

theorem archive_reaches_another_mailbox:
  "normalise_mailbox ''PM (par-a)'' \<noteq> normalise_mailbox ''pm''
    \<and> map m_state (ml_messages two_boxes) = [UNREAD]
    \<and> map (\<lambda>r. (m_mailbox r, m_state r)) (ml_messages (snd (archive (mail_clock 2) ''pm'' None None two_boxes)))
        = [(''PM (par-a)'', ''archived'')]
    \<and> fst (ack (mail_clock 2) [''i1''] (Some ''pm'') two_boxes) = refused (NotInMailbox ''i1'' ''pm'')"
  by code_simp

definition half_sent :: mail where
  "half_sent = snd (stage_blobs demo_disk [''/f''] empty_mail)"

text \<open>
  Collecting blobs can take a message's attachment. A send stores its files before the
  transaction that writes the rows naming them; a purge or deletion that collects unreferenced
  blobs between the two removes the file, and the message is then filed with an attachment
  nobody can fetch. Without the collection the same steps leave it readable.
\<close>

theorem collection_takes_an_attachment_being_sent:
  "fst (stage_blobs demo_disk [''/f''] empty_mail) = ok [blob_of demo_disk ''/f'']
    \<and> map_sum id (\<lambda>(msg, m). fetch ''i1-1'' m)
        (file_message (mail_clock 1) ''pm'' None (demo_letter ''pm'' [''/f'']) [blob_of demo_disk ''/f''] (collect_blobs half_sent))
        = ok (refused (AttachmentMissing ''i1-1''))
    \<and> map_sum id (\<lambda>(msg, m). is_ok (fetch ''i1-1'' m))
        (file_message (mail_clock 1) ''pm'' None (demo_letter ''pm'' [''/f'']) [blob_of demo_disk ''/f''] half_sent) = ok True"
  by code_simp

end
