(* ===== verification/Program.thy ===== *)
theory Program
  imports Prelude
begin

text \<open>
  Asynchronous code as a program over a shared world. A program is done with a value, or makes
  one step on the world and goes on; between two steps other programs may run, and a crash
  drops the rest. The steps of a program are the durable writes and the reads of the code
  between which it awaits. \<open>keeps\<close> is the proof rule: under assertions that every step of the
  others leaves true, each step of the program stays within a guarantee.
\<close>

datatype ('w, 'a) program = Done 'a | Step "'w \<Rightarrow> 'w \<times> ('w, 'a) program"

primrec bind_program :: "('w, 'a) program \<Rightarrow> ('a \<Rightarrow> ('w, 'b) program) \<Rightarrow> ('w, 'b) program" where
  "bind_program (Done x) f = f x"
| "bind_program (Step g) f = Step (\<lambda>w. map_prod id (\<lambda>p. bind_program p f) (g w))"

definition ask :: "('w \<Rightarrow> 'a) \<Rightarrow> ('w, 'a) program" where
  "ask f = Step (\<lambda>w. (w, Done (f w)))"

definition change :: "('w \<Rightarrow> 'a \<times> 'w) \<Rightarrow> ('w, 'a) program" where
  "change f = Step (\<lambda>w. case f w of (x, w') \<Rightarrow> (w', Done x))"

text \<open>The \<^verbatim>\<open>?\<close> of the code on the result of an awaited call.\<close>

definition bind_ok :: "('w, 'a result) program \<Rightarrow> ('a \<Rightarrow> ('w, 'b result) program) \<Rightarrow> ('w, 'b result) program" where
  "bind_ok p f = bind_program p (\<lambda>r. case r of Inl e \<Rightarrow> Done (Inl e) | Inr x \<Rightarrow> f x)"

text \<open>A run to the end with nothing in between.\<close>

primrec run_program :: "('w, 'a) program \<Rightarrow> 'w \<Rightarrow> 'a \<times> 'w" where
  "run_program (Done x) = (\<lambda>w. (x, w))"
| "run_program (Step g) = (\<lambda>w. case map_prod id run_program (g w) of (w', r) \<Rightarrow> r w')"

lemma program_induct [case_names Done Step]:
  assumes "\<And>x. P (Done x)" "\<And>g. (\<And>w. P (snd (g w))) \<Longrightarrow> P (Step g)"
  shows "P p"
proof (induction p)
  case (Step g)
  have "P (snd (g w))" for w
    by (rule Step [OF rangeI]) (simp add: prod_set_defs)
  then show ?case by (rule assms(2))
qed (rule assms(1))

lemma run_Step: "run_program (Step g) w = run_program (snd (g w)) (fst (g w))"
  by (simp add: map_prod_def case_prod_beta)

declare run_program.simps(2) [simp del]

lemma run_bind: "run_program (bind_program p f) w = (case run_program p w of (x, w') \<Rightarrow> run_program (f x) w')"
  by (induction p arbitrary: w rule: program_induct) (simp_all add: run_Step)

lemma run_ask [simp]: "run_program (ask f) w = (f w, w)"
  by (simp add: ask_def run_Step)

lemma run_change [simp]: "run_program (change f) w = f w"
  by (simp add: change_def run_Step split: prod.split)

lemma run_bind_ok: "run_program (bind_ok p f) w =
   (case run_program p w of (Inl e, w') \<Rightarrow> (Inl e, w') | (Inr x, w') \<Rightarrow> run_program (f x) w')"
  by (simp add: bind_ok_def run_bind split: prod.split sum.split)

section \<open>Rely and guarantee\<close>

text \<open>
  \<open>safe R G Q p w\<close>: run from \<open>w\<close> with moves of \<open>R\<close> by others before each step and after the
  last, every step of \<open>p\<close> is in \<open>G\<close>, and a value \<open>x\<close> is given where \<open>Q x\<close> holds. It is the
  weakest precondition of the program under interference: it is computed, not searched for,
  so a proof runs the program symbolically.
\<close>

primrec safe ::
    "('w \<Rightarrow> 'w \<Rightarrow> bool) \<Rightarrow> ('w \<Rightarrow> 'w \<Rightarrow> bool) \<Rightarrow> ('a \<Rightarrow> 'w \<Rightarrow> bool) \<Rightarrow> ('w, 'a) program \<Rightarrow> 'w \<Rightarrow> bool" where
  "safe R G Q (Done x) = (\<lambda>w. \<forall>w'. R w w' \<longrightarrow> Q x w')"
| "safe R G Q (Step g) = (\<lambda>w. \<forall>w'. R w w' \<longrightarrow>
     (case map_prod id (safe R G Q) (g w') of (w'', rest) \<Rightarrow> G w' w'' \<and> rest w''))"

lemma safe_Step: "safe R G Q (Step g) w \<longleftrightarrow>
    (\<forall>w'. R w w' \<longrightarrow> G w' (fst (g w')) \<and> safe R G Q (snd (g w')) (fst (g w')))"
  by (simp add: map_prod_def case_prod_beta)

declare safe.simps(2) [simp del]

lemma safe_moved: "transp R \<Longrightarrow> safe R G Q p w \<Longrightarrow> R w w' \<Longrightarrow> safe R G Q p w'"
  by (cases p) (auto simp: safe_Step dest: transpD)

lemma safe_post:
  assumes "\<And>x w. Q x w \<Longrightarrow> Q' x w"
  shows "safe R G Q p w \<Longrightarrow> safe R G Q' p w"
  by (induction p arbitrary: w rule: program_induct) (auto simp: safe_Step assms)

lemma safe_bind:
  assumes "reflp R" "\<And>x w. Q x w \<Longrightarrow> safe R G Q' (f x) w"
  shows "safe R G Q p w \<Longrightarrow> safe R G Q' (bind_program p f) w"
  by (induction p arbitrary: w rule: program_induct) (auto simp: safe_Step assms(2) reflpD [OF assms(1)])

text \<open>A run without interference is one of the runs.\<close>

lemma safe_run:
  assumes "reflp R" "\<And>u v x. T u v \<Longrightarrow> G v x \<Longrightarrow> T u x"
  shows "T w0 w \<Longrightarrow> safe R G Q p w \<Longrightarrow> T w0 (snd (run_program p w)) \<and> Q (fst (run_program p w)) (snd (run_program p w))"
proof (induction p arbitrary: w rule: program_induct)
  case (Done x)
  then show ?case using assms(1) by (simp add: reflpD)
next
  case (Step g)
  then have "G w (fst (g w))" "safe R G Q (snd (g w)) (fst (g w))"
    using assms(1) by (auto simp: safe_Step reflpD)
  moreover have "T w0 (fst (g w))" by (rule assms(2) [OF Step.prems(1) calculation(1)])
  ultimately show ?case unfolding run_Step by (intro Step.IH)
qed

end
