(* ===== verification/Dispatch_Gate.thy ===== *)
theory Dispatch_Gate
  imports Program Allocation Mail_Store Advance
begin

text \<open>
  The permission to give work to a lane, and the durable mail of a handoff
  (\<^verbatim>\<open>tasks/next_job_runtime.rs\<close>). The world holds the task store, the inbox, the clock and
  what the daemon reads from outside: its environment, the allowlist file, the terminals and
  the registry of retired panes. Each read or write between two awaits is one step.
\<close>

section \<open>The world\<close>

text \<open>
  Library behaviour the code relies on: \<^verbatim>\<open>str::to_lowercase\<close>, the text of a JSON number and
  the \<^verbatim>\<open>Display\<close> of an error.
\<close>

record text_lib =
  tl_lower :: "string \<Rightarrow> string"
  tl_number :: "json \<Rightarrow> string"
  tl_show :: "dunk_error \<Rightarrow> string"

type_synonym process_env = "string \<rightharpoonup> string"

datatype lane_config = Config_Missing | Config_Unreadable | Config_Json json

text \<open>
  What the terminal backend does to one guarded send: the fleet's typing lock, the looks for a
  dead session before and after the guard, the recorded process, the composer, the text, the
  durable receipt, the submit key and the confirmation.
\<close>

record terminal =
  tm_lock_error :: "string option"
  tm_dead :: "string option"
  tm_process_gone :: bool
  tm_box :: "string option"
  tm_dead_late :: "string option"
  tm_input :: "bool \<times> string"
  tm_receipt :: bool
  tm_key :: "bool \<times> string"
  tm_confirm :: "bool \<times> string"

text \<open>
  \<open>os_lanes\<close> is \<^verbatim>\<open>resolve_lanes\<close>, \<open>os_registry\<close> the parsed registry file at the path of the
  environment, \<open>os_mailbox\<close> and \<open>os_own_mailbox\<close> the mailbox resolution of the backend,
  \<open>os_queued\<close> whether the outbox holds a queued message for a pane, \<open>os_uuid\<close> the random part
  of a new message id. \<open>None\<close> and errors are failed reads; \<open>os_status_error\<close> is a failed read
  of a receipt, \<open>os_notify_error\<close> a failed write of one, and \<open>os_worker_error\<close> what takes down
  the blocking worker that holds the terminal.
\<close>

record outside =
  os_env :: "process_env option"
  os_lanes :: "json list option"
  os_config :: lane_config
  os_registry :: "(string \<rightharpoonup> json) option"
  os_mailbox :: "string \<Rightarrow> (string \<times> string option) result"
  os_own_mailbox :: "string \<Rightarrow> string option"
  os_lane_panes :: "string list"
  os_queued :: "string \<Rightarrow> bool"
  os_turn_active :: "string \<Rightarrow> bool"
  os_alive :: "int \<Rightarrow> string option \<Rightarrow> bool"
  os_pid :: int
  os_start :: "string option"
  os_uuid :: string
  os_pacing :: pacing
  os_factory :: "unit result"
  os_worker_error :: "string option"
  os_status_error :: "dunk_error option"
  os_notify_error :: "dunk_error option"
  os_terminal :: terminal

record typed_line =
  ty_pane :: string
  ty_message :: string
  ty_transport :: string
  ty_text :: string

record world =
  wd_desk :: desk
  wd_mail :: mail
  wd_env :: env
  wd_outside :: outside
  wd_typed :: "typed_line list"

text \<open>
  \<open>wd_typed\<close> is the history of the texts that reached a terminal: the pane, the handoff's
  message id, the id of the transport and the text. It is a ghost: no code reads it.
\<close>

abbreviation wd_store :: "world \<Rightarrow> store" where
  "wd_store w \<equiv> dk_store (wd_desk w)"

section \<open>The allowlist of lanes\<close>

fun split_at :: "char \<Rightarrow> string \<Rightarrow> string list" where
  "split_at sep [] = [[]]"
| "split_at sep (c # s) =
     (if c = sep then [] # split_at sep s else (c # hd (split_at sep s)) # tl (split_at sep s))"

definition listed_names :: "string \<Rightarrow> string list" where
  "listed_names s = filter (\<lambda>n. n \<noteq> []) (map trim (split_at (CHR '','') s))"

fun array_entries :: "text_lib \<Rightarrow> json list \<Rightarrow> string list option" where
  "array_entries lib [] = Some []"
| "array_entries lib (v # vs) =
     (case (case v of
              JStr s \<Rightarrow> Some s
            | JInt _ \<Rightarrow> Some (tl_number lib v)
            | JReal _ \<Rightarrow> Some (tl_number lib v)
            | JBool b \<Rightarrow> Some (if b then ''True'' else ''False'')
            | JNull \<Rightarrow> Some ''None''
            | _ \<Rightarrow> None) of
        None \<Rightarrow> None
      | Some s \<Rightarrow> map_option ((@) (listed_names s)) (array_entries lib vs))"

fun config_entries :: "text_lib \<Rightarrow> json \<Rightarrow> string list option" where
  "config_entries lib JNull = Some []"
| "config_entries lib (JBool b) = (if b then None else Some [])"
| "config_entries lib (JInt i) = (if i = 0 then Some [] else None)"
| "config_entries lib (JReal r) = (if r = 0 then Some [] else None)"
| "config_entries lib (JObj m) = (if m = [] then Some [] else None)"
| "config_entries lib (JStr s) = Some (listed_names s)"
| "config_entries lib (JArr vs) = array_entries lib vs"

definition dispatch_entries :: "text_lib \<Rightarrow> lane_config \<Rightarrow> process_env \<Rightarrow> string list option" where
  "dispatch_entries lib config env =
     (case (case config of
              Config_Unreadable \<Rightarrow> None
            | Config_Missing \<Rightarrow> Some []
            | Config_Json loaded \<Rightarrow> config_entries lib
                (case loaded of
                   JObj m \<Rightarrow> (case jget m ''lanes'' of Some v \<Rightarrow> v | None \<Rightarrow> JNull)
                 | _ \<Rightarrow> loaded)) of
        None \<Rightarrow> None
      | Some entries \<Rightarrow>
          Some (if entries = [] then listed_names (or_empty (env ''DUNKINGSHEEP_DISPATCH_LANES'')) else entries))"

text \<open>The panes an entry names: those with its id or its agent's name, in any case.\<close>

definition lane_match :: "text_lib \<Rightarrow> string \<Rightarrow> json \<Rightarrow> string option" where
  "lane_match lib entry lane =
     (case non_empty_str (as_str (vget lane ''pane_id'')) of
        None \<Rightarrow> None
      | Some pane \<Rightarrow>
          if tl_lower lib pane = tl_lower lib entry
             \<or> tl_lower lib (or_empty (as_str (vget lane ''agent_name''))) = tl_lower lib entry
          then Some pane else None)"

definition dispatch_allowlist :: "text_lib \<Rightarrow> string list \<Rightarrow> json list \<Rightarrow> string set" where
  "dispatch_allowlist lib entries lanes =
     fold (\<lambda>entry resolved.
         case List.map_filter (lane_match lib entry) lanes of
           [] \<Rightarrow> insert entry resolved
         | matches \<Rightarrow> resolved \<union> set matches)
       entries {}"

section \<open>Retired panes\<close>

text \<open>
  The derived deserialisation of \<^verbatim>\<open>panes::Retired\<close>: an object with its fields, or the array of
  them in order.
\<close>

definition json_strings :: "json \<Rightarrow> bool" where
  "json_strings v = (case v of JArr xs \<Rightarrow> list_all (\<lambda>x. as_str (Some x) \<noteq> None) xs | _ \<Rightarrow> False)"

definition retired_fields :: "json option \<Rightarrow> json option \<Rightarrow> json option \<Rightarrow> json option \<Rightarrow> json option \<Rightarrow> json option \<Rightarrow> bool" where
  "retired_fields pane reason by_whom labels mailboxes retired_at \<longleftrightarrow>
     as_str pane \<noteq> None \<and> as_str reason \<noteq> None
     \<and> (by_whom = None \<or> by_whom = Some JNull \<or> as_str by_whom \<noteq> None)
     \<and> (case labels of None \<Rightarrow> True | Some v \<Rightarrow> json_strings v)
     \<and> (case mailboxes of None \<Rightarrow> True | Some v \<Rightarrow> json_strings v)
     \<and> as_f64 retired_at \<noteq> None"

definition is_retired :: "json \<Rightarrow> bool" where
  "is_retired v =
     (case v of
        JObj m \<Rightarrow> retired_fields (jget m ''pane_id'') (jget m ''reason'') (jget m ''by'')
            (jget m ''labels'') (jget m ''mailboxes'') (jget m ''retired_at'')
      | JArr [a, b, c, d, e, f] \<Rightarrow> retired_fields (Some a) (Some b) (Some c) (Some d) (Some e) (Some f)
      | _ \<Rightarrow> False)"

definition retirement_status :: "string \<Rightarrow> (string \<rightharpoonup> json) option \<Rightarrow> bool option" where
  "retirement_status pane registry =
     (case registry of
        None \<Rightarrow> None
      | Some records \<Rightarrow> (case records (trim pane) of
            None \<Rightarrow> Some False
          | Some r \<Rightarrow> if is_retired r then Some True else None))"

section \<open>The gate\<close>

definition dispatch_off :: "process_env \<Rightarrow> bool" where
  "dispatch_off env =
     (to_lowercase (trim (case env ''DUNKINGSHEEP_TURN_END_DISPATCH'' of Some v \<Rightarrow> v | None \<Rightarrow> ''1''))
        \<in> {''0'', ''false'', ''no'', ''off''})"

fun lane_present :: "string \<Rightarrow> json list \<Rightarrow> bool option" where
  "lane_present pane [] = Some False"
| "lane_present pane (lane # lanes) =
     (case vget lane ''pane_id'' of
        None \<Rightarrow> None
      | Some i \<Rightarrow> if as_str (Some i) = Some pane then Some True else lane_present pane lanes)"

text \<open>The workers \<^verbatim>\<open>allocation_status\<close> lists; it fails while its tables are missing.\<close>

definition listed_workers :: "desk \<Rightarrow> worker_row list option" where
  "listed_workers d = (if st_offers (dk_store d) = None then None else Some (sort_key w_pane_id (dk_workers d)))"

abbreviation unknown :: "(world, string option) program" where
  "unknown \<equiv> Done (Some ''readiness_unknown'')"

definition gate_with :: "text_lib \<Rightarrow> string \<Rightarrow> json list option \<Rightarrow> process_env \<Rightarrow> (world, string option) program" where
  "gate_with lib pane lanes env =
     (if dispatch_off env then Done (Some ''disabled'')
      else bind_program (case lanes of Some ls \<Rightarrow> Done (Some ls) | None \<Rightarrow> ask (\<lambda>w. os_lanes (wd_outside w))) (\<lambda>lanes.
        case lanes of None \<Rightarrow> unknown
        | Some lanes \<Rightarrow> bind_program (ask (\<lambda>w. listed_workers (wd_desk w))) (\<lambda>workers.
            case workers of None \<Rightarrow> unknown
            | Some workers \<Rightarrow>
                let registered = list_ex (\<lambda>r. w_pane_id r = pane \<and> w_enabled r) workers in
                bind_program (ask (\<lambda>w. dispatch_entries lib (os_config (wd_outside w)) env)) (\<lambda>wanted.
                  case wanted of None \<Rightarrow> unknown
                  | Some wanted \<Rightarrow>
                      if pane \<notin> dispatch_allowlist lib wanted lanes \<and> \<not> registered
                      then Done (Some ''not_allowed'')
                      else (case lane_present pane lanes of
                          None \<Rightarrow> unknown
                        | Some False \<Rightarrow> Done (Some ''unavailable_lane'')
                        | Some True \<Rightarrow>
                            bind_program (ask (\<lambda>w. retirement_status pane (os_registry (wd_outside w)))) (\<lambda>retired.
                              case retired of
                                Some True \<Rightarrow> Done (Some ''unavailable_lane'')
                              | Some False \<Rightarrow> Done None
                              | None \<Rightarrow> unknown))))))"

definition gate :: "text_lib \<Rightarrow> string \<Rightarrow> (world, string option) program" where
  "gate lib pane =
     bind_program (ask (\<lambda>w. os_env (wd_outside w))) (\<lambda>env.
       case env of None \<Rightarrow> unknown | Some env \<Rightarrow> gate_with lib pane None env)"

section \<open>The mail of a handoff\<close>

datatype materialise_error = Dispatch_Paused string | Not_Materialised dunk_error

definition field_of :: "handoff \<Rightarrow> string \<Rightarrow> string result" where
  "field_of h name =
     (case as_str (jget h name) of
        Some v \<Rightarrow> ok v
      | None \<Rightarrow> refused (Text (''missing next-job '' @ name)))"

definition job_source :: "handoff \<Rightarrow> string" where
  "job_source h =
     (case non_empty_str (as_str (jget h ''from_task'')) of
        Some s \<Rightarrow> s
      | None \<Rightarrow> (case as_str (jget h ''trigger'') of Some s \<Rightarrow> s | None \<Rightarrow> ''None''))"

definition newline :: string where "newline = [CHR 0x0A]"

definition job_body :: "task_row \<Rightarrow> string \<Rightarrow> string \<Rightarrow> string \<Rightarrow> string" where
  "job_body t pane mid source =
     ''TASK '' @ t_id t @ '' ['' @ t_priority t @ ''] '' @ t_title t @ newline @ newline
     @ t_body t @ newline @ newline
     @ ''Already atomically claimed for '' @ pane @ ''; start this job now.'' @ newline
     @ ''heartbeat: dunkingsheep task heartbeat '' @ t_id t @ newline
     @ ''complete: dunkingsheep task complete '' @ t_id t @ newline
     @ ''handoff: '' @ mid @ '' from '' @ source"

definition job_subject :: "task_row \<Rightarrow> string" where
  "job_subject t = ''TASK '' @ t_id t @ '': '' @ t_title t"

text \<open>The \<^verbatim>\<open>?\<close> of \<^verbatim>\<open>materialise_with\<close>, which turns every error into its second kind.\<close>

definition try_job ::
    "'a result \<Rightarrow> ('a \<Rightarrow> (world, materialise_error + 'b) program) \<Rightarrow> (world, materialise_error + 'b) program" where
  "try_job r f = (case r of Inl e \<Rightarrow> Done (Inl (Not_Materialised e)) | Inr x \<Rightarrow> f x)"

definition materialise_with ::
    "text_lib \<Rightarrow> handoff \<Rightarrow> process_env \<Rightarrow> (world, materialise_error + status) program" where
  "materialise_with lib h env =
     try_job (field_of h ''pane_id'') (\<lambda>pane.
     bind_program (gate_with lib pane None env) (\<lambda>reason.
       case reason of Some r \<Rightarrow> Done (Inl (Dispatch_Paused r))
       | None \<Rightarrow>
     bind_program (ask (\<lambda>w. os_mailbox (wd_outside w) pane)) (\<lambda>r. try_job r (\<lambda>(mailbox, actual).
       if actual \<noteq> Some pane then Done (Inl (Not_Materialised (Refused (Text ''next-job pane changed''))))
       else
     try_job (field_of h ''task_id'') (\<lambda>tid. try_job (field_of h ''message_id'') (\<lambda>mid.
     bind_program (ask (\<lambda>w. task_get tid (wd_store w))) (\<lambda>r. try_job r (\<lambda>t.
     bind_program
       (change (\<lambda>w. case ensure_next_job (wd_env w) mid mailbox pane (job_body t pane mid (job_source h))
                           (job_subject t) (wd_mail w)
                    of (r, m) \<Rightarrow> (r, w\<lparr>wd_mail := m\<rparr>)))
       (\<lambda>r. try_job r (\<lambda>status. Done (Inr status)))))))))))"

definition materialise :: "text_lib \<Rightarrow> handoff \<Rightarrow> (world, materialise_error + status) program" where
  "materialise lib h =
     bind_program (ask (\<lambda>w. os_env (wd_outside w))) (\<lambda>env.
       case env of None \<Rightarrow> Done (Inl (Dispatch_Paused ''readiness_unknown''))
       | Some env \<Rightarrow> materialise_with lib h env)"

end
