(* ===== verification/Delivery.thy ===== *)
theory Delivery
  imports Dispatch_Gate
begin

text \<open>
  The delivery of a handoff (\<^verbatim>\<open>tasks/next_job_runtime.rs\<close> and the guarded send of
  \<^verbatim>\<open>flock/sends.rs\<close>): reserve an attempt, write the mail, pass the gate, type one line into the
  lane, record the receipt and bind the turn that answers it. Every write is durable and the
  process may stop between any two of them; a restart finds the handoff in the state
  \<^verbatim>\<open>sending\<close> and decides from the receipt.
\<close>

section \<open>One guarded send\<close>

definition SUBMIT_GAPS :: "real list" where "SUBMIT_GAPS = [2 / 10, 1, 3, 6]"
definition SUBMIT_ATTEMPTS :: nat where "SUBMIT_ATTEMPTS = length SUBMIT_GAPS"
definition BOX_HOLD :: string where "BOX_HOLD = ''the box would not clear (text left untouched)''"

text \<open>
  \<^verbatim>\<open>submit_text\<close> under the typing guard, with the box not checked and Enter pressed: whether
  the text went into the pane, and the action. \<open>Confirm\<close> is the action whose confirmation is
  left to the caller.
\<close>

datatype send_action = Completed bool string | Confirm

definition submit_text :: "terminal \<Rightarrow> bool \<times> send_action" where
  "submit_text t =
     (case tm_dead_late t of
        Some dead \<Rightarrow> (False, Completed False (''agent session is dead ('' @ dead @ ''); not submitting into a dead composer''))
      | None \<Rightarrow>
          if \<not> fst (tm_input t) then (False, Completed False (snd (tm_input t)))
          else if \<not> tm_receipt t then (True, Completed False ''typed but not submitted: durable attempt receipt failed'')
          else if \<not> fst (tm_key t) then (True, Completed False (snd (tm_key t)))
          else (True, Confirm))"

text \<open>
  \<^verbatim>\<open>send_guarded\<close> after its permission: whether the text went in, and the answer (delivered,
  ok, detail).
\<close>

definition guarded_send :: "terminal \<Rightarrow> bool \<times> bool \<times> bool option \<times> string" where
  "guarded_send t =
     (case tm_dead t of
        Some marker \<Rightarrow> (False, False, None, ''dead session ('' @ marker @ '')'')
      | None \<Rightarrow>
          if tm_process_gone t then (False, False, None, ''the lane'' @ [CHR 0x27] @ ''s recorded process is gone'')
          else (case tm_box t of
              Some reason \<Rightarrow> (False, False, None, BOX_HOLD @ '' ('' @ reason @ '')'')
            | None \<Rightarrow> (case submit_text t of
                  (typed, Confirm) \<Rightarrow> (typed, True, Some (fst (tm_confirm t)), snd (tm_confirm t))
                | (typed, Completed good detail) \<Rightarrow>
                    if \<not> good \<and> starts_with detail BOX_HOLD then (typed, False, None, detail)
                    else (typed, True, Some good, detail))))"

text \<open>The step that types: it leaves its mark in the history.\<close>

definition type_line ::
    "string \<Rightarrow> string \<Rightarrow> string \<Rightarrow> string \<Rightarrow> (world, bool \<times> bool option \<times> string) program" where
  "type_line pane mid transport_id line = change (\<lambda>w.
     case guarded_send (os_terminal (wd_outside w)) of (typed, answer) \<Rightarrow>
       (answer, if typed
                then w\<lparr>wd_typed := wd_typed w @
                         [\<lparr>ty_pane = pane, ty_message = mid, ty_transport = transport_id, ty_text = line\<rparr>]\<rparr>
                else w))"

definition send_guarded ::
    "text_lib \<Rightarrow> string \<Rightarrow> string \<Rightarrow> string \<Rightarrow> string \<Rightarrow> (world, bool \<times> bool option \<times> string) program" where
  "send_guarded lib pane mid transport_id line =
     bind_program (ask (\<lambda>w. tm_lock_error (os_terminal (wd_outside w)))) (\<lambda>lock.
       case lock of Some e \<Rightarrow> Done (False, None, e)
       | None \<Rightarrow> bind_program (gate lib pane) (\<lambda>held.
           case held of Some reason \<Rightarrow> Done (False, None, reason)
           | None \<Rightarrow> type_line pane mid transport_id line))"

section \<open>Records\<close>

definition record_next_job_notify ::
    "string \<Rightarrow> string \<Rightarrow> string option \<Rightarrow> string option \<Rightarrow> int option \<Rightarrow> (world, unit result) program" where
  "record_next_job_notify mid state reason transport_id attempt = change (\<lambda>w.
     case os_notify_error (wd_outside w) of
       Some e \<Rightarrow> (Inl e, w)
     | None \<Rightarrow> (ok (), w\<lparr>wd_mail := record_notify (wd_env w) mid state reason transport_id attempt (wd_mail w)\<rparr>))"

definition read_status :: "string \<Rightarrow> world \<Rightarrow> status result" where
  "read_status mid w =
     (case os_status_error (wd_outside w) of
        Some e \<Rightarrow> Inl e
      | None \<Rightarrow> mail_status (wd_mail w) mid (now_s (wd_env w)))"

definition update_job :: "handoff \<Rightarrow> json_map option \<Rightarrow> json_map \<Rightarrow> (world, handoff option result) program" where
  "update_job h expected changes = change (\<lambda>w.
     case update_next_job (wd_env w) h expected changes (wd_store w) of
       (r, s) \<Rightarrow> (r, w\<lparr>wd_desk := in_store (\<lambda>_. s) (wd_desk w)\<rparr>))"

definition set_state :: "string \<Rightarrow> json \<Rightarrow> json_map" where
  "set_state state reason = [(''state'', JStr state), (''reason'', reason)]"

text \<open>The receipt first, then the handoff: the order of every branch that gives an answer.\<close>

definition settle ::
    "handoff \<Rightarrow> string \<Rightarrow> string \<Rightarrow> string \<Rightarrow> string \<Rightarrow> string option \<Rightarrow> int option
     \<Rightarrow> (world, handoff option result) program" where
  "settle h mid notify state reason transport_id attempt =
     bind_ok (record_next_job_notify mid notify (Some reason) transport_id attempt) (\<lambda>_.
       update_job h None (set_state state (JStr reason)))"

section \<open>Binding a turn\<close>

definition job_attempt :: "handoff \<Rightarrow> int option" where
  "job_attempt h = json_i64 (jget h ''attempt'')"

definition job_state :: "handoff \<Rightarrow> string" where
  "job_state h = or_empty (as_str (jget h ''state''))"

definition final_states :: "string list" where
  "final_states = [''started'', ''undeliverable'', ''cancelled'']"

text \<open>The message id, the turn id, its start and the turn of a handoff that can be bound.\<close>

definition bindable :: "handoff \<Rightarrow> (string \<times> string \<times> time \<times> json_map) option" where
  "bindable h =
     (if as_str (jget h ''state'') \<noteq> Some ''sent'' then None
      else case as_f64 (jget h ''delivered_at'') of None \<Rightarrow> None | Some delivered \<Rightarrow>
        if delivered = 0 then None
        else case as_str (jget h ''message_id'') of None \<Rightarrow> None | Some mid \<Rightarrow>
          (case jget h ''observed_turn'' of
             Some (JObj turn) \<Rightarrow>
               (case non_empty_str (as_str (jget turn ''turn_id'')) of None \<Rightarrow> None | Some turn_id \<Rightarrow>
                  if as_str (jget turn ''handoff_id'') \<noteq> Some mid then None
                  else (case as_f64 (jget turn ''started_at'') of None \<Rightarrow> None | Some started_at \<Rightarrow>
                     (case as_f64 (jget h ''attempt_at'') of None \<Rightarrow> None | Some attempt_at \<Rightarrow>
                        if started_at < attempt_at then None else Some (mid, turn_id, started_at, turn))))
           | _ \<Rightarrow> None))"

definition or_null :: "json option \<Rightarrow> json" where
  "or_null v = (case v of Some x \<Rightarrow> x | None \<Rightarrow> JNull)"

definition started_changes :: "string \<Rightarrow> time \<Rightarrow> json_map \<Rightarrow> json_map" where
  "started_changes turn_id started_at turn =
     [(''state'', JStr ''started''), (''turn_id'', JStr turn_id), (''turn_started_at'', JReal started_at),
      (''turn_source'', or_null (jget turn ''source'')), (''turn_caller'', or_null (jget turn ''caller''))]"

fun bind_turns :: "handoff list \<Rightarrow> (world, unit result) program" where
  "bind_turns [] = Done (ok ())"
| "bind_turns (h # hs) =
     (case bindable h of
        None \<Rightarrow> bind_turns hs
      | Some (mid, turn_id, started_at, turn) \<Rightarrow>
          bind_ok (ask (read_status mid)) (\<lambda>receipt.
            if ss_notify_state receipt \<noteq> Some ''sent'' then bind_turns hs
            else bind_ok (update_job h None (started_changes turn_id started_at turn)) (\<lambda>_. bind_turns hs)))"

definition bind_turn_locked :: "string \<Rightarrow> (world, unit result) program" where
  "bind_turn_locked pane = bind_program (ask (\<lambda>w. handoffs_in (Some pane) (wd_store w))) bind_turns"

text \<open>\<^verbatim>\<open>bind_turn\<close>: \<open>free\<close> is whether the pane's lock could be taken.\<close>

definition bind_turn :: "bool \<Rightarrow> string \<Rightarrow> (world, unit result) program" where
  "bind_turn free pane = (if free then bind_turn_locked pane else Done (ok ()))"

record turn_state =
  ts_started_at :: time
  ts_turn_id :: string
  ts_source :: "string option"
  ts_caller :: "json option"
  ts_handoff_id :: "string option"

definition observed_turn :: "turn_state \<Rightarrow> string \<Rightarrow> json" where
  "observed_turn turn mid = JObj
     [(''turn_id'', JStr (ts_turn_id turn)), (''started_at'', JReal (ts_started_at turn)),
      (''source'', json_opt_str (ts_source turn)), (''caller'', or_null (ts_caller turn)),
      (''handoff_id'', JStr mid)]"

definition observes :: "turn_state \<Rightarrow> string \<Rightarrow> handoff \<Rightarrow> bool" where
  "observes turn mid h \<longleftrightarrow>
     as_str (jget h ''message_id'') = Some mid
     \<and> (job_state h = ''sending'' \<or> job_state h = ''sent'')
     \<and> (case as_f64 (jget h ''attempt_at'') of None \<Rightarrow> False | Some at0 \<Rightarrow> \<not> ts_started_at turn < at0)"

fun observe_all :: "turn_state \<Rightarrow> string \<Rightarrow> handoff list \<Rightarrow> (world, unit result) program" where
  "observe_all turn mid [] = Done (ok ())"
| "observe_all turn mid (h # hs) =
     (if \<not> observes turn mid h then observe_all turn mid hs
      else case job_attempt h of
        None \<Rightarrow> observe_all turn mid hs
      | Some attempt \<Rightarrow>
          bind_ok (update_job h (Some [(''attempt'', JInt attempt), (''observed_turn'', JNull)])
                     [(''observed_turn'', observed_turn turn mid)])
            (\<lambda>_. observe_all turn mid hs))"

definition observe_turn :: "bool \<Rightarrow> string \<Rightarrow> turn_state \<Rightarrow> (world, unit result) program" where
  "observe_turn free pane turn =
     (case non_empty_str (ts_handoff_id turn) of
        None \<Rightarrow> Done (ok ())
      | Some mid \<Rightarrow>
          bind_program (ask (\<lambda>w. handoffs_in (Some pane) (wd_store w))) (\<lambda>hs.
          bind_ok (observe_all turn mid hs) (\<lambda>_. bind_turn free pane)))"

section \<open>Delivering\<close>

datatype transport_result = Held string | Sent string time | Undeliverable string string

text \<open>
  The closure the terminal worker runs: the guarded send, then its receipt. \<open>Sent\<close> carries the
  transport and the time of the delivery. The closure may answer, fail at its receipt, or go
  down with its worker: before the send, after it, or after the receipt.
\<close>

datatype sent_result = Worked transport_result | Sender_Failed dunk_error | Worker_Failed string

definition in_worker :: "(world, sent_result) program \<Rightarrow> (world, sent_result) program" where
  "in_worker p = bind_program (ask (\<lambda>w. os_worker_error (wd_outside w))) (\<lambda>worker.
     case worker of Some e \<Rightarrow> Done (Worker_Failed e) | None \<Rightarrow> p)"

definition with_receipt ::
    "string \<Rightarrow> string \<Rightarrow> string option \<Rightarrow> string \<Rightarrow> int \<Rightarrow> transport_result \<Rightarrow> (world, sent_result) program" where
  "with_receipt mid state reason transport_id attempt answer =
     bind_program (record_next_job_notify mid state reason (Some transport_id) (Some attempt)) (\<lambda>r.
       case r of
         Inl e \<Rightarrow> Done (Sender_Failed e)
       | Inr _ \<Rightarrow> in_worker (Done (Worked answer)))"

definition transport ::
    "text_lib \<Rightarrow> string \<Rightarrow> string \<Rightarrow> string \<Rightarrow> int \<Rightarrow> string \<Rightarrow> (world, sent_result) program" where
  "transport lib pane mid transport_id attempt line =
     in_worker (bind_program (send_guarded lib pane mid transport_id line) (\<lambda>(delivered, good, detail).
     in_worker (
       if \<not> delivered then with_receipt mid ''queued'' (Some detail) transport_id attempt (Held detail)
       else bind_program (ask (\<lambda>w. now_s (wd_env w))) (\<lambda>finished_at.
         if good = Some True
         then with_receipt mid ''sent'' None transport_id attempt (Sent transport_id finished_at)
         else with_receipt mid ''undeliverable'' (Some detail) transport_id attempt
                (Undeliverable transport_id detail)))))"

text \<open>What the handoff is told of the transport.\<close>

definition outcome_changes :: "transport_result \<Rightarrow> json_map" where
  "outcome_changes r =
     (let (state, reason, transport_id, delivered_at) =
        (case r of
           Held reason \<Rightarrow> (''pending'', reason, None, None)
         | Sent tid t \<Rightarrow> (''sent'', [], Some tid, Some t)
         | Undeliverable tid reason \<Rightarrow> (''undeliverable'', reason, Some tid, None))
      in [(''state'', JStr state), (''reason'', if reason = [] then JNull else JStr reason),
          (''transport_id'', json_opt_str transport_id),
          (''delivered_at'', case delivered_at of Some t \<Rightarrow> JReal t | None \<Rightarrow> JNull)])"

definition transport_id_of :: "string \<Rightarrow> int \<Rightarrow> string" where
  "transport_id_of mid attempt =
     mid @ '':'' @ (if attempt < 0 then ''-'' @ digits (nat (- attempt)) else digits (nat attempt))"

text \<open>The line that is typed.\<close>

definition job_line :: "string \<Rightarrow> string \<Rightarrow> string" where
  "job_line task mid =
     ''[inbox] TASK '' @ task @ '' is already claimed for you. Read dunkingsheep inbox read and execute it now. Handoff ''
     @ mid @ ''.''"

text \<open>From the reservation on: the attempt is counted and the handoff is in \<^verbatim>\<open>sending\<close>.\<close>

definition deliver_line ::
    "text_lib \<Rightarrow> string \<Rightarrow> string \<Rightarrow> string \<Rightarrow> handoff \<Rightarrow> int \<Rightarrow> (world, handoff option result) program" where
  "deliver_line lib pane mid task reserved attempt =
     (let transport_id = transport_id_of mid attempt in
      bind_ok (record_next_job_notify mid ''queued'' None (Some transport_id) (Some attempt)) (\<lambda>_.
      bind_ok (ask (\<lambda>w. os_factory (wd_outside w))) (\<lambda>_.
      bind_program (transport lib pane mid transport_id attempt (job_line task mid)) (\<lambda>sent.
        case sent of
          Worker_Failed e \<Rightarrow> settle reserved mid ''undeliverable'' ''undeliverable''
            (''delivery_error: terminal worker failed: '' @ e) (Some transport_id) (Some attempt)
        | Sender_Failed e \<Rightarrow> settle reserved mid ''undeliverable'' ''undeliverable''
            (''delivery_error: '' @ tl_show lib e) (Some transport_id) (Some attempt)
        | Worked r \<Rightarrow>
            bind_ok (update_job reserved None (outcome_changes r)) (\<lambda>updated.
              case r of
                Sent _ _ \<Rightarrow> bind_ok (bind_turn_locked pane) (\<lambda>_. Done (ok updated))
              | _ \<Rightarrow> Done (ok updated))))))"

definition deliver_reserved ::
    "text_lib \<Rightarrow> string \<Rightarrow> string \<Rightarrow> string \<Rightarrow> handoff \<Rightarrow> int \<Rightarrow> (world, handoff option result) program" where
  "deliver_reserved lib pane mid task reserved attempt =
     bind_program (materialise lib reserved) (\<lambda>m.
       case m of
         Inl (Dispatch_Paused reason) \<Rightarrow> settle reserved mid ''queued'' ''pending'' reason None (Some attempt)
       | Inl (Not_Materialised e) \<Rightarrow>
           settle reserved mid ''undeliverable'' ''undeliverable'' (''delivery_error: '' @ tl_show lib e) None (Some attempt)
       | Inr _ \<Rightarrow>
           bind_program (gate lib pane) (\<lambda>final_reason.
             case final_reason of
               Some reason \<Rightarrow> settle reserved mid ''queued'' ''pending'' reason None (Some attempt)
             | None \<Rightarrow> deliver_line lib pane mid task reserved attempt))"

definition saturating_succ :: "int \<Rightarrow> int" where
  "saturating_succ i = min (2 ^ 63 - 1) (i + 1)"

definition reservation :: "world \<Rightarrow> int \<Rightarrow> json_map" where
  "reservation w attempt =
     [(''state'', JStr ''sending''), (''attempt'', JInt (saturating_succ attempt)),
      (''attempt_at'', JReal (now_s (wd_env w))),
      (''transport_owner'', JObj [(''pid'', JInt (os_pid (wd_outside w))),
                                  (''start'', json_opt_str (os_start (wd_outside w)))])]"

definition claim_holds :: "decorated \<Rightarrow> string \<Rightarrow> bool" where
  "claim_holds d pane \<longleftrightarrow> pane \<in> set (d_assignees d) \<and> t_block_reason (d_task d) = None
     \<and> blocked_by (d_deps d) = [] \<and> pane \<in> set (d_claimed_by d)"

text \<open>A pending handoff: gate, turn, retry, claim, reservation.\<close>

definition deliver_pending ::
    "text_lib \<Rightarrow> string \<Rightarrow> string \<Rightarrow> string \<Rightarrow> handoff \<Rightarrow> decorated \<Rightarrow> (world, handoff option result) program" where
  "deliver_pending lib pane mid task h d =
     bind_program (gate lib pane) (\<lambda>reason.
       case reason of
         Some reason \<Rightarrow>
           if as_str (jget h ''reason'') = Some reason then Done (ok (Some h))
           else bind_ok (record_next_job_notify mid ''queued'' (Some reason) None (job_attempt h)) (\<lambda>_.
             update_job h None [(''reason'', JStr reason)])
       | None \<Rightarrow>
     bind_program (ask (\<lambda>w. os_turn_active (wd_outside w) pane)) (\<lambda>active.
       if active then Done (ok (Some h))
       else case job_attempt h of
         None \<Rightarrow> Done (refused (Text ''missing next-job attempt''))
       | Some attempt \<Rightarrow>
     bind_program (ask (\<lambda>w. delivery_retry_plan (os_pacing (wd_outside w)) attempt (as_f64 (jget h ''attempt_at''))
         (now_s (wd_env w)) (int SUBMIT_ATTEMPTS) None)) (\<lambda>retry.
       if as_str (jget retry ''action'') = Some ''wait'' then Done (ok (Some h))
       else if as_str (jget retry ''action'') = Some ''stop''
       then settle h mid ''undeliverable'' ''undeliverable''
              (case as_str (jget retry ''reason'') of Some r \<Rightarrow> r | None \<Rightarrow> ''retry_exhausted'') None (Some attempt)
       else if \<not> claim_holds d pane
       then settle h mid ''undeliverable'' ''undeliverable'' ''claim_no_longer_valid'' None (Some attempt)
       else
     bind_program (ask (\<lambda>w. reservation w attempt)) (\<lambda>changes.
     bind_ok (update_job h
         (Some [(''state'', or_null (jget h ''state'')), (''attempt'', JInt attempt)]) changes) (\<lambda>reserved.
       case reserved of
         None \<Rightarrow> Done (ok None)
       | Some reserved \<Rightarrow> deliver_reserved lib pane mid task reserved (saturating_succ attempt))))))"

text \<open>A handoff a stopped process left in \<^verbatim>\<open>sending\<close>: what its receipt tells.\<close>

definition owner_alive :: "world \<Rightarrow> handoff \<Rightarrow> bool" where
  "owner_alive w h =
     (case jget h ''transport_owner'' of
        None \<Rightarrow> False
      | Some owner \<Rightarrow> (case json_i64 (vget owner ''pid'') of
            None \<Rightarrow> False
          | Some pid \<Rightarrow> os_alive (wd_outside w) pid (as_str (vget owner ''start''))))"

definition deliver_interrupted :: "string \<Rightarrow> string \<Rightarrow> handoff \<Rightarrow> (world, handoff option result) program" where
  "deliver_interrupted pane mid h =
     bind_program (ask (\<lambda>w. owner_alive w h)) (\<lambda>live.
       if live then Done (ok (Some h))
       else
     bind_program (ask (read_status mid)) (\<lambda>receipt.
       case receipt of
         Inl _ \<Rightarrow> update_job h None (set_state ''pending'' (JStr ''interrupted_before_inbox''))
       | Inr receipt \<Rightarrow>
           let attempt = (case job_attempt h of Some i \<Rightarrow> i | None \<Rightarrow> 0) in
           if ss_notify_attempt receipt \<noteq> Some attempt
           then update_job h None (set_state ''pending'' (JStr ''interrupted_before_transport''))
           else if ss_notify_state receipt = Some ''sent''
           then bind_ok (update_job h None
                   [(''state'', JStr ''sent''), (''reason'', JNull),
                    (''transport_id'', json_opt_str (ss_notify_transport_id receipt)),
                    (''delivered_at'', case ss_notify_at receipt of Some t \<Rightarrow> JReal t | None \<Rightarrow> JNull)]) (\<lambda>updated.
                 case updated of
                   None \<Rightarrow> Done (ok None)
                 | Some h \<Rightarrow> bind_ok (bind_turn_locked pane) (\<lambda>_. Done (ok (Some h))))
           else settle h mid ''undeliverable'' ''undeliverable'' ''delivery_interrupted'' None (Some attempt)))"

text \<open>\<^verbatim>\<open>deliver\<close>, under the pane's lock.\<close>

definition deliver :: "text_lib \<Rightarrow> handoff \<Rightarrow> bool \<Rightarrow> (world, handoff option result) program" where
  "deliver lib given restart =
     bind_ok (Done (field_of given ''pane_id'')) (\<lambda>pane.
     bind_ok (Done (field_of given ''message_id'')) (\<lambda>mid.
     bind_program (ask (\<lambda>w. find (\<lambda>row. as_str (jget row ''message_id'') = Some mid)
         (handoffs_in (Some pane) (wd_store w)))) (\<lambda>found.
       case found of
         None \<Rightarrow> Done (ok None)
       | Some h \<Rightarrow>
           if job_state h \<in> set final_states then Done (ok (Some h))
           else
     bind_ok (Done (field_of h ''task_id'')) (\<lambda>tid.
     bind_ok (ask (\<lambda>w. decorate (now_s (wd_env w)) tid (Some pane) (wd_store w))) (\<lambda>d.
       if t_status (d_task d) = ''done'' \<or> t_status (d_task d) = ''cancelled''
       then update_job h None (set_state ''cancelled'' (JStr ''task_finished''))
       else if job_state h = ''sending''
       then (if restart then deliver_interrupted pane mid h else Done (ok (Some h)))
       else if job_state h = ''sent''
       then bind_ok (bind_turn_locked pane) (\<lambda>_. Done (ok (Some h)))
       else deliver_pending lib pane mid tid h d)))))"

text \<open>\<^verbatim>\<open>tick\<close>: every handoff in the order of the journal; an error of one stops no other.\<close>

fun deliver_all :: "text_lib \<Rightarrow> bool \<Rightarrow> handoff list \<Rightarrow> (world, unit) program" where
  "deliver_all lib restart [] = Done ()"
| "deliver_all lib restart (h # hs) =
     (if job_state h \<in> set final_states then deliver_all lib restart hs
      else bind_program (deliver lib h restart) (\<lambda>_. deliver_all lib restart hs))"

definition tick :: "text_lib \<Rightarrow> bool \<Rightarrow> (world, unit) program" where
  "tick lib restart = bind_program (ask (\<lambda>w. handoffs_in None (wd_store w))) (deliver_all lib restart)"

end
