(* ===== verification/Delivery_View.thy ===== *)
theory Delivery_View
  imports Delivery Next_Job_Effects
begin

text \<open>
  What a delivery can do to one handoff, whatever runs beside it and wherever the process
  stops. The view of a handoff is what its protocol rests on; a program is \<open>can\<close> at a view when
  each of its steps takes good views to good views, with steps of others that leave the view
  alone in between.
\<close>

section \<open>Programs that only look\<close>

primrec quiet :: "('w, 'a) program \<Rightarrow> bool" where
  "quiet (Done x) = True"
| "quiet (Step g) = (\<forall>w. case map_prod id quiet (g w) of (w', rest) \<Rightarrow> w' = w \<and> rest)"

lemma quiet_Step: "quiet (Step g) \<longleftrightarrow> (\<forall>w. fst (g w) = w \<and> quiet (snd (g w)))"
  by (simp add: map_prod_def case_prod_beta)

declare quiet.simps(2) [simp del]

lemma quiet_ask [simp]: "quiet (ask f)"
  by (simp add: ask_def quiet_Step)

lemma quiet_bind: "quiet p \<Longrightarrow> (\<And>x. quiet (f x)) \<Longrightarrow> quiet (bind_program p f)"
  by (induction p rule: program_induct) (auto simp: quiet_Step)

lemma quiet_gate_with: "quiet (gate_with lib pane lanes env)"
  unfolding gate_with_def Let_def
  by (auto intro!: quiet_bind split: option.split bool.split)

lemma quiet_gate [simp]: "quiet (gate lib pane)"
  unfolding gate_def by (auto intro!: quiet_bind quiet_gate_with split: option.split)

section \<open>The view of a handoff\<close>

record view =
  vw_metas :: bool
  vw_alone :: bool
  vw_state :: "string option"
  vw_attempt :: "int option"
  vw_watched :: bool
  vw_note :: "(string option \<times> int option) option"
  vw_typed :: nat
  vw_key_text :: bool
  vw_readable :: bool
  vw_lane :: bool

definition job :: "string \<Rightarrow> string \<Rightarrow> world \<Rightarrow> handoff option" where
  "job pane mid w = handoff_of pane mid (wd_store w)"

definition typed_count :: "string \<Rightarrow> world \<Rightarrow> nat" where
  "typed_count mid w = length (filter (\<lambda>l. ty_message l = mid) (wd_typed w))"

text \<open>The typed lines of a handoff are in its lane and have the text of a handoff.\<close>

definition lines_in_lane :: "string \<Rightarrow> string \<Rightarrow> world \<Rightarrow> bool" where
  "lines_in_lane pane mid w =
     list_all (\<lambda>l. ty_message l = mid \<longrightarrow> ty_pane l = pane \<and> (\<exists>task. ty_text l = job_line task mid)) (wd_typed w)"

definition note_of :: "string \<Rightarrow> mail \<Rightarrow> (string option \<times> int option) option" where
  "note_of mid m = map_option (\<lambda>r. (m_notify_state r, m_notify_attempt r)) (get_message mid m)"

definition has_key :: "string \<Rightarrow> handoff \<Rightarrow> bool" where
  "has_key k h \<longleftrightarrow> jget h k \<noteq> None"

definition view :: "string \<Rightarrow> string \<Rightarrow> world \<Rightarrow> view" where
  "view pane mid w =
     \<lparr>vw_metas = metas_ok (wd_store w),
      vw_alone = (\<forall>p. p \<noteq> pane \<longrightarrow> job p mid w = None),
      vw_state = map_option job_state (job pane mid w),
      vw_attempt = Option.bind (job pane mid w) job_attempt,
      vw_watched = (case job pane mid w of None \<Rightarrow> False | Some h \<Rightarrow> has_key ''observed_turn'' h),
      vw_note = note_of mid (wd_mail w),
      vw_typed = typed_count mid w,
      vw_key_text = (\<not> starts_with (snd (tm_key (os_terminal (wd_outside w)))) BOX_HOLD),
      vw_readable = (os_status_error (wd_outside w) = None),
      vw_lane = lines_in_lane pane mid w\<rparr>"

text \<open>
  A good view: at most one line was typed, in the lane, and when one was the handoff is settled
  or its receipt tells the attempt; what is sent was typed; what has started was seen; and the
  attempts are within their bound. Besides, the events hold JSON objects, no other pane has a
  handoff with this id, receipts can be read, and the terminal does not report a failed key in
  the words of a held box.
\<close>

definition typed_states :: "string list" where
  "typed_states = [''sent'', ''started'', ''undeliverable'', ''cancelled'']"

lemma typed_set [simp]: "''sending'' \<notin> set typed_states" "''pending'' \<notin> set typed_states"
  "''sent'' \<in> set typed_states" "''started'' \<in> set typed_states"
  "''undeliverable'' \<in> set typed_states" "''cancelled'' \<in> set typed_states"
  by (simp_all add: typed_states_def)

definition good_state :: "string \<Rightarrow> int \<Rightarrow> bool \<Rightarrow> (string option \<times> int option) option \<Rightarrow> nat \<Rightarrow> bool" where
  "good_state st a watched note n \<longleftrightarrow>
     0 \<le> a \<and> a \<le> int SUBMIT_ATTEMPTS \<and> n \<le> 1
     \<and> (n = 1 \<longrightarrow> st \<in> set typed_states
                  \<or> st = ''sending'' \<and> (\<exists>r. note = Some (r, Some a)))
     \<and> ((\<exists>i. note = Some (Some ''sent'', i)) \<longrightarrow> n = 1)
     \<and> (st = ''sent'' \<or> st = ''started'' \<longrightarrow> n = 1)
     \<and> (st = ''started'' \<longrightarrow> watched)"

definition view_ok :: "view \<Rightarrow> bool" where
  "view_ok v \<longleftrightarrow> vw_metas v \<and> vw_alone v \<and> vw_key_text v \<and> vw_readable v \<and> vw_lane v \<and> vw_typed v \<le> 1
     \<and> (\<forall>st. vw_state v = Some st \<longrightarrow>
          (\<exists>a. vw_attempt v = Some a \<and> good_state st a (vw_watched v) (vw_note v) (vw_typed v)))"

definition view_step :: "view \<Rightarrow> view \<Rightarrow> bool" where
  "view_step v v' \<longleftrightarrow> view_ok v'
     \<and> (\<forall>st \<in> set final_states. vw_state v = Some st \<longrightarrow> vw_state v' = Some st)
     \<and> vw_typed v \<le> vw_typed v' \<and> (vw_watched v' = vw_watched v)
     \<and> (vw_state v' = None \<longleftrightarrow> vw_state v = None)
     \<and> (\<forall>a b. vw_attempt v = Some a \<longrightarrow> vw_attempt v' = Some b \<longrightarrow> a \<le> b)"

lemma view_step_refl: "view_ok v \<Longrightarrow> view_step v v"
  by (simp add: view_step_def)

lemma view_step_ok: "view_step v v' \<Longrightarrow> view_ok v'"
  by (simp add: view_step_def)

lemma view_okE:
  assumes "view_ok v" "vw_state v = Some st"
  obtains a where "vw_attempt v = Some a" "good_state st a (vw_watched v) (vw_note v) (vw_typed v)"
  using assms by (auto simp: view_ok_def)

lemma view_ok_state:
  "view_ok v \<Longrightarrow> vw_state v = Some st \<Longrightarrow> vw_attempt v = Some a
   \<Longrightarrow> good_state st a (vw_watched v) (vw_note v) (vw_typed v)"
  by (simp add: view_ok_def)

lemma view_stepI:
  assumes "view_ok v" "vw_state v = Some st" "vw_attempt v = Some a"
    and "vw_metas v' = vw_metas v" "vw_alone v' = vw_alone v" "vw_key_text v' = vw_key_text v" "vw_watched v' = vw_watched v"
      "vw_readable v' = vw_readable v" "vw_lane v' = vw_lane v"
    and "vw_state v' = Some st'" "vw_attempt v' = Some a'" "good_state st' a' (vw_watched v) (vw_note v') (vw_typed v')"
    and "st \<in> set final_states \<Longrightarrow> st' = st" "a \<le> a'" "vw_typed v \<le> vw_typed v'"
  shows "view_step v v'"
proof -
  have "vw_typed v' \<le> 1" using assms(12) by (simp add: good_state_def)
  then show ?thesis using assms by (simp add: view_step_def view_ok_def)
qed

section \<open>Symbolic execution over views\<close>

definition same_view :: "string \<Rightarrow> string \<Rightarrow> world \<Rightarrow> world \<Rightarrow> bool" where
  "same_view pane mid w w' \<longleftrightarrow> view pane mid w' = view pane mid w"

definition moves_view :: "string \<Rightarrow> string \<Rightarrow> world \<Rightarrow> world \<Rightarrow> bool" where
  "moves_view pane mid w w' \<longleftrightarrow> view_step (view pane mid w) (view pane mid w')"

definition ends :: "string \<Rightarrow> string \<Rightarrow> ('a \<Rightarrow> view \<Rightarrow> bool) \<Rightarrow> (world, 'a) program \<Rightarrow> view \<Rightarrow> bool" where
  "ends pane mid Q p v \<longleftrightarrow> (\<forall>w. view pane mid w = v \<longrightarrow>
     safe (same_view pane mid) (moves_view pane mid) (\<lambda>x w. Q x (view pane mid w)) p w)"

abbreviation can :: "string \<Rightarrow> string \<Rightarrow> (world, 'a) program \<Rightarrow> view \<Rightarrow> bool" where
  "can pane mid \<equiv> ends pane mid (\<lambda>_. view_ok)"

lemma same_view_refl: "reflp (same_view pane mid)"
  by (simp add: reflp_def same_view_def)

lemma can_Done: "Q x v \<Longrightarrow> ends pane mid Q (Done x) v"
  by (simp add: ends_def same_view_def)

lemma can_end: "view_ok v \<Longrightarrow> can pane mid (Done x) v"
  by (rule can_Done)

lemma can_Step:
  assumes "\<And>w. view pane mid w = v \<Longrightarrow> view_step v (view pane mid (fst (g w)))"
    "\<And>w. view pane mid w = v \<Longrightarrow> ends pane mid Q (snd (g w)) (view pane mid (fst (g w)))"
  shows "ends pane mid Q (Step g) v"
  using assms by (auto simp: ends_def safe_Step same_view_def moves_view_def)

lemma can_ask_bind:
  assumes "view_ok v" "\<And>w. view pane mid w = v \<Longrightarrow> ends pane mid Q (k (f w)) v"
  shows "ends pane mid Q (bind_program (ask f) k) v"
  unfolding ask_def bind_program.simps
  by (rule can_Step) (use assms in \<open>simp_all add: view_step_refl\<close>)

lemma can_ask_bind0:
  "view_ok v \<Longrightarrow> (\<And>w. ends pane mid Q (k (f w)) v) \<Longrightarrow> ends pane mid Q (bind_program (ask f) k) v"
  by (rule can_ask_bind)

lemma can_change_bind:
  assumes "\<And>w. view pane mid w = v \<Longrightarrow> view_step v (view pane mid (snd (f w)))"
    "\<And>w. view pane mid w = v \<Longrightarrow> ends pane mid Q (k (fst (f w))) (view pane mid (snd (f w)))"
  shows "ends pane mid Q (bind_program (change f) k) v"
  unfolding change_def bind_program.simps
  by (rule can_Step) (use assms in \<open>simp_all add: case_prod_beta\<close>)

lemma can_bind:
  assumes "ends pane mid Q p v" "\<And>x v'. Q x v' \<Longrightarrow> ends pane mid Q' (k x) v'"
  shows "ends pane mid Q' (bind_program p k) v"
  unfolding ends_def
proof (intro allI impI)
  fix w assume "view pane mid w = v"
  then have "safe (same_view pane mid) (moves_view pane mid) (\<lambda>x w. Q x (view pane mid w)) p w"
    using assms(1) by (simp add: ends_def)
  then show "safe (same_view pane mid) (moves_view pane mid) (\<lambda>x w. Q' x (view pane mid w)) (bind_program p k) w"
    by (rule safe_bind [OF same_view_refl, rotated]) (use assms(2) in \<open>simp add: ends_def\<close>)
qed

lemma can_quiet_bind:
  assumes "quiet p" "view_ok v" "\<And>x. ends pane mid Q (k x) v"
  shows "ends pane mid Q (bind_program p k) v"
  using assms(1)
proof (induction p rule: program_induct)
  case (Step g)
  have g: "fst (g w) = w" "quiet (snd (g w))" for w using Step.prems by (simp_all add: quiet_Step)
  show ?case
    unfolding bind_program.simps
  proof (rule can_Step)
    fix w assume w: "view pane mid w = v"
    then show "view_step v (view pane mid (fst (map_prod id (\<lambda>p. bind_program p k) (g w))))"
      by (simp add: g assms(2) view_step_refl)
    show "ends pane mid Q (snd (map_prod id (\<lambda>p. bind_program p k) (g w)))
        (view pane mid (fst (map_prod id (\<lambda>p. bind_program p k) (g w))))"
      using Step.IH [OF g(2)] w by (simp add: g)
  qed
qed (use assms in simp)

section \<open>What each write does to a view\<close>

lemma note_of_notify:
  "note_of mid (record_notify env m state reason tid attempt mail) =
     (if m = mid then map_option (\<lambda>(s, a). (Some state, opt_or attempt a)) (note_of mid mail) else note_of mid mail)"
  by (simp add: note_of_def record_notify_def row_get_update [where key = m_id] option.map_comp o_def)

lemma view_notify:
  "view pane mid (w\<lparr>wd_mail := record_notify env m state reason tid attempt (wd_mail w)\<rparr>) =
     (if m = mid then (view pane mid w)\<lparr>vw_note := map_option (\<lambda>(s, a). (Some state, opt_or attempt a)) (vw_note (view pane mid w))\<rparr>
      else view pane mid w)"
  by (simp add: view_def note_of_notify job_def typed_count_def lines_in_lane_def)

lemma metas_ok_log: "metas_ok s \<Longrightarrow> distinct (map fst (meta_map e)) \<Longrightarrow> metas_ok (log_event e s)"
  by (simp add: metas_ok_def)

lemma distinct_handoff_event: "distinct (map fst (meta_map (handoff_event i t)))"
  by (simp add: handoff_event_def meta_map_def handoff_meta_def distinct_jextend distinct_jinsert)

lemma update_keeps_metas:
  assumes "metas_ok s" "update_next_job env h expected changes s = (r, s')"
  shows "metas_ok s'"
  using assms(2) by (cases rule: update_cases) (use assms(1) in \<open>auto intro!: metas_ok_log distinct_handoff_event\<close>)

text \<open>The keys a program of this module changes leave the identity of the handoff alone.\<close>

definition plain_keys :: "json_map \<Rightarrow> bool" where
  "plain_keys changes \<longleftrightarrow> list_all (\<lambda>(k, v). k \<notin> {''task_id'', ''pane_id'', ''message_id'', ''at''}) changes"

lemma plain_keysD: "plain_keys changes \<Longrightarrow> k \<in> {''task_id'', ''pane_id'', ''message_id'', ''at''} \<Longrightarrow> k \<notin> fst ` set changes"
  by (auto simp: plain_keys_def list_all_iff)

lemma json_key_state: "jget h k = jget h' k \<Longrightarrow> as_str (jget h k) = as_str (jget h' k)"
  by simp

lemma job_here:
  assumes "job pane mid w = Some h"
  shows "as_str (jget h ''pane_id'') = Some pane" "as_str (jget h ''message_id'') = Some mid"
    "as_str (jget h ''task_id'') \<noteq> None" "jget h ''state'' \<noteq> None"
  using assms unfolding job_def handoff_of_def by (auto elim!: table_row simp: as_str_def)

text \<open>
  How an update ends, seen from a handoff: nothing was written, or the named handoff has its
  changes; and the view follows when it is the one looked at.
\<close>

lemma update_view:
  assumes run: "update_next_job (wd_env w) h expected changes (wd_store w) = (r, s')"
    and h: "as_str (jget h ''pane_id'') = Some p" "as_str (jget h ''message_id'') = Some m"
    and plain: "plain_keys changes" and ok: "view_ok (view pane mid w)"
  defines "w' \<equiv> w\<lparr>wd_desk := in_store (\<lambda>_. s') (wd_desk w)\<rparr>"
  obtains (kept) "view pane mid w' = view pane mid w" "\<And>h'. r \<noteq> ok (Some h')"
  | (elsewhere) h' where "r = ok (Some h')" "(p, m) \<noteq> (pane, mid)" "view pane mid w' = view pane mid w"
  | (here) old h' where "r = ok (Some h')" "p = pane" "m = mid" "job pane mid w = Some old" "h' = jextend old changes"
      "\<And>wish. expected = Some wish \<Longrightarrow> list_all (\<lambda>(k, v). jget old k = Some v) wish"
      "view pane mid w' = (view pane mid w)\<lparr>vw_state := Some (job_state h'), vw_attempt := job_attempt h',
          vw_watched := has_key ''observed_turn'' h'\<rparr>"
proof (cases "\<exists>h'. r = ok (Some h')")
  case False
  have "s' = wd_store w" using run by (cases rule: update_cases) (use False in auto)
  then have "view pane mid w' = view pane mid w"
    by (simp add: w'_def view_def job_def in_store_def typed_count_def lines_in_lane_def)
  with False show ?thesis by (intro kept) auto
next
  case True
  then obtain h' where r: "r = ok (Some h')" by blast
  have metas: "metas_ok (wd_store w)" and alone: "\<And>q. q \<noteq> pane \<Longrightarrow> job q mid w = None"
    using ok by (auto simp: view_ok_def view_def)
  have keys: "''task_id'' \<notin> fst ` set changes" "''pane_id'' \<notin> fst ` set changes"
    "''message_id'' \<notin> fst ` set changes" "''at'' \<notin> fst ` set changes"
    using plain_keysD [OF plain] by simp_all
  have m': "metas_ok s'" by (rule update_keeps_metas [OF metas run])
  have store: "wd_store w' = s'" "wd_mail w' = wd_mail w" "wd_typed w' = wd_typed w" "wd_outside w' = wd_outside w"
    by (simp_all add: w'_def in_store_def)
  obtain old new where u: "handoff_of p m (wd_store w) = Some old" "h' = jextend old changes"
    "handoff_of p m s' = Some new"
    "\<And>k v. k \<noteq> ''at'' \<Longrightarrow> jget h' k = Some v \<Longrightarrow> jget new k = Some v"
    "\<And>k. k \<notin> set record_keys \<Longrightarrow> jget h' k = None \<Longrightarrow> jget new k = None"
    "\<And>q n. (q, n) \<noteq> (p, m) \<Longrightarrow> handoff_of q n s' = handoff_of q n (wd_store w)"
    by (rule handoff_progress [OF metas run [unfolded r] h keys(1-3)]) blast
  show ?thesis
  proof (cases "(p, m) = (pane, mid)")
    case False
    have "m \<noteq> mid \<or> p = pane" using u(1) alone by (force simp: job_def)
    then have "view pane mid w' = view pane mid w"
      using False u(6) by (auto simp: view_def job_def store typed_count_def lines_in_lane_def m' metas)
    with False r show ?thesis by (intro elsewhere)
  next
    case True
    then have old: "job pane mid w = Some old" using u(1) by (simp add: job_def)
    have st: "jget h' ''state'' \<noteq> None" using job_here(4) [OF old] by (auto simp: u(2) jget_jextend split: option.split)
    have att: "jget h' ''attempt'' \<noteq> None"
    proof -
      have "job_attempt old \<noteq> None" using ok old by (auto simp: view_ok_def view_def)
      then show ?thesis by (auto simp: u(2) jget_jextend job_attempt_def json_i64_def split: option.splits)
    qed
    have "jget new ''state'' = jget h' ''state''" "jget new ''attempt'' = jget h' ''attempt''"
      using st att u(4) by fastforce+
    moreover have "has_key ''observed_turn'' new = has_key ''observed_turn'' h'"
      using u(4) [of "''observed_turn''"] u(5) [of "''observed_turn''"]
      by (cases "jget h' ''observed_turn''") (auto simp: has_key_def record_keys_def)
    ultimately have "view pane mid w' = (view pane mid w)\<lparr>vw_state := Some (job_state h'), vw_attempt := job_attempt h',
          vw_watched := has_key ''observed_turn'' h'\<rparr>"
      using True u(3,6) old by (auto simp: view_def job_def store typed_count_def lines_in_lane_def m' metas job_state_def job_attempt_def)
    moreover have "list_all (\<lambda>(k, v). jget old k = Some v) wish" if "expected = Some wish" for wish
      using run r that u(1) h by (cases rule: update_cases) (auto simp: or_empty_def)
    ultimately show ?thesis using True r old u(2) by (intro here) auto
  qed
qed

section \<open>The writes as steps\<close>

lemma bind_Done [simp]: "bind_program p Done = p"
  by (induction p rule: program_induct) (auto simp: map_prod_def case_prod_beta fun_eq_iff)

lemma job_jextend:
  "job_state (jextend h changes) =
     (case map_of (rev changes) ''state'' of Some v \<Rightarrow> or_empty (as_str (Some v)) | None \<Rightarrow> job_state h)"
  "job_attempt (jextend h changes) =
     (case map_of (rev changes) ''attempt'' of Some v \<Rightarrow> json_i64 (Some v) | None \<Rightarrow> job_attempt h)"
  "has_key k (jextend h changes) \<longleftrightarrow> k \<in> fst ` set changes \<or> has_key k h"
  by (auto simp: job_state_def job_attempt_def has_key_def jget_jextend map_of_eq_None_iff split: option.splits)
     (metis fst_conv image_eqI map_of_SomeD set_rev)+

lemma view_job:
  assumes "job pane mid w = Some h"
  shows "vw_state (view pane mid w) = Some (job_state h)" "vw_attempt (view pane mid w) = job_attempt h"
    "vw_watched (view pane mid w) = has_key ''observed_turn'' h"
  using assms by (simp_all add: view_def)

text \<open>A handoff read from the lane names itself.\<close>

definition names :: "string \<Rightarrow> string \<Rightarrow> handoff \<Rightarrow> bool" where
  "names pane mid h \<longleftrightarrow> as_str (jget h ''pane_id'') = Some pane \<and> as_str (jget h ''message_id'') = Some mid"

lemma names_jextend: "names pane mid h \<Longrightarrow> plain_keys changes \<Longrightarrow> names pane mid (jextend h changes)"
  by (auto simp: names_def jextend_untouched plain_keysD)

lemma update_names:
  assumes "update_next_job env h expected changes s = (ok (Some h'), s')" "names p m h" "plain_keys changes"
  shows "names p m h'"
  using assms(1)
proof (cases rule: update_cases)
  case (written old t)
  then have "handoff_of p m s = Some old" using assms(2) by (simp add: names_def or_empty_def)
  then have "names p m old" unfolding handoff_of_def by (auto elim!: table_row simp: names_def as_str_def)
  then show ?thesis using written(3) names_jextend [OF _ assms(3)] by simp
qed auto

text \<open>
  An update of a handoff named by its pane and message id: either it is the one looked at and
  the view moves as the changes say, or the view stays.
\<close>

lemma can_update_bind:
  assumes ok: "view_ok v" and h: "as_str (jget h ''pane_id'') = Some p" "as_str (jget h ''message_id'') = Some m"
    and plain: "plain_keys changes"
    and kept: "\<And>r. \<not> (p = pane \<and> m = mid \<and> (\<exists>h'. r = ok (Some h'))) \<Longrightarrow>
      (\<And>h'. r = ok (Some h') \<Longrightarrow> names p m h') \<Longrightarrow> ends pane mid Q (k r) v"
    and here: "\<And>w old. p = pane \<Longrightarrow> m = mid \<Longrightarrow> view pane mid w = v \<Longrightarrow> job pane mid w = Some old \<Longrightarrow>
      (\<And>wish. expected = Some wish \<Longrightarrow> list_all (\<lambda>(k, v). jget old k = Some v) wish) \<Longrightarrow>
      (let h' = jextend old changes;
           v' = v\<lparr>vw_state := Some (job_state h'), vw_attempt := job_attempt h', vw_watched := has_key ''observed_turn'' h'\<rparr>
       in view_step v v' \<and> ends pane mid Q (k (ok (Some h'))) v')"
  shows "ends pane mid Q (bind_program (update_job h expected changes) k) v"
  unfolding update_job_def
proof (rule can_change_bind)
  fix w assume w: "view pane mid w = v"
  obtain r s' where run: "update_next_job (wd_env w) h expected changes (wd_store w) = (r, s')" by fastforce
  let ?f = "\<lambda>w. case update_next_job (wd_env w) h expected changes (wd_store w) of
       (r, s) \<Rightarrow> (r, w\<lparr>wd_desk := in_store (\<lambda>_. s) (wd_desk w)\<rparr>)"
  have okw: "view_ok (view pane mid w)" using ok w by simp
  have nm: "names p m h'" if "r = ok (Some h')" for h'
    using update_names [OF _ _ plain, of "wd_env w" h expected "wd_store w"] run that h by (simp add: names_def)
  have f: "?f w = (r, w\<lparr>wd_desk := in_store (\<lambda>_. s') (wd_desk w)\<rparr>)" by (simp add: run)
  have "view_step v (view pane mid (snd (?f w))) \<and> ends pane mid Q (k (fst (?f w))) (view pane mid (snd (?f w)))"
    using run h plain okw
  proof (cases rule: update_view)
    case kept
    then show ?thesis using assms(5) [OF _ nm] ok w by (auto simp: f view_step_refl)
  next
    case (elsewhere h')
    then show ?thesis using assms(5) [OF _ nm] ok w by (auto simp: f view_step_refl)
  next
    case (here old h')
    then show ?thesis using assms(6) [OF here(2,3) w here(4,6)] w by (simp add: f Let_def)
  qed
  then show "view_step v (view pane mid (snd (?f w)))" "ends pane mid Q (k (fst (?f w))) (view pane mid (snd (?f w)))"
    by blast+
qed

lemma can_notify_bind:
  assumes "view_ok v" "m = mid \<Longrightarrow> view_step v (v\<lparr>vw_note := map_option (\<lambda>(s, a). (Some state, opt_or attempt a)) (vw_note v)\<rparr>)"
    and "m = mid \<Longrightarrow> ends pane mid Q (k (ok ())) (v\<lparr>vw_note := map_option (\<lambda>(s, a). (Some state, opt_or attempt a)) (vw_note v)\<rparr>)"
    and "m \<noteq> mid \<Longrightarrow> ends pane mid Q (k (ok ())) v" "\<And>e. ends pane mid Q (k (Inl e)) v"
  shows "ends pane mid Q (bind_program (record_next_job_notify m state reason tid attempt) k) v"
  unfolding record_next_job_notify_def
  by (rule can_change_bind) (use assms in \<open>auto simp: view_notify view_step_refl split: option.split\<close>)

lemma can_notify_ok:
  assumes "view_ok v" "m = mid \<Longrightarrow> view_step v (v\<lparr>vw_note := map_option (\<lambda>(s, a). (Some state, opt_or attempt a)) (vw_note v)\<rparr>)"
    and "m = mid \<Longrightarrow> can pane mid (k ()) (v\<lparr>vw_note := map_option (\<lambda>(s, a). (Some state, opt_or attempt a)) (vw_note v)\<rparr>)"
    and "m \<noteq> mid \<Longrightarrow> can pane mid (k ()) v"
  shows "can pane mid (bind_ok (record_next_job_notify m state reason tid attempt) k) v"
  unfolding bind_ok_def by (rule can_notify_bind) (use assms in \<open>auto intro: can_end\<close>)

section \<open>Programs that keep every view good\<close>

definition steady :: "string \<Rightarrow> string \<Rightarrow> (world, 'a) program \<Rightarrow> bool" where
  "steady pane mid p \<longleftrightarrow> (\<forall>v. view_ok v \<longrightarrow> can pane mid p v)"

lemma steady_Done [simp]: "steady pane mid (Done x)"
  by (simp add: steady_def can_Done)

lemma steady_bind: "steady pane mid p \<Longrightarrow> (\<And>x. steady pane mid (k x)) \<Longrightarrow> steady pane mid (bind_program p k)"
  unfolding steady_def by (blast intro: can_bind)

lemma steady_ask_bind: "(\<And>w. steady pane mid (k (f w))) \<Longrightarrow> steady pane mid (bind_program (ask f) k)"
  by (simp add: steady_def can_ask_bind0)

lemma steady_bind_ok: "steady pane mid p \<Longrightarrow> (\<And>x. steady pane mid (k x)) \<Longrightarrow> steady pane mid (bind_ok p k)"
  unfolding bind_ok_def by (rule steady_bind) (auto split: sum.split)

lemma steady_quiet:
  assumes "quiet p"
  shows "steady pane mid p"
  unfolding steady_def using can_quiet_bind [OF assms, where k = Done] by (simp add: can_Done)

lemma steady_ask [simp]: "steady pane mid (ask f)"
  by (rule steady_quiet) simp

lemma steady_gate [simp]: "steady pane mid (gate lib p)"
  by (rule steady_quiet) simp

lemma steady_update_other:
  assumes "as_str (jget h ''pane_id'') = Some p" "as_str (jget h ''message_id'') = Some m" "(p, m) \<noteq> (pane, mid)"
    "plain_keys changes"
  shows "steady pane mid (update_job h expected changes)"
  unfolding steady_def
  by (intro allI impI) (rule can_update_bind [where k = Done, simplified], use assms in \<open>auto intro: can_Done\<close>)

lemma steady_notify_other: "m \<noteq> mid \<Longrightarrow> steady pane mid (record_next_job_notify m state reason tid attempt)"
  unfolding steady_def
  by (intro allI impI) (rule can_notify_bind [where k = Done, simplified], auto intro: can_Done)

section \<open>Binding keeps views good\<close>

lemma listed_handoff:
  assumes "h \<in> set (handoffs_in (Some p) s)"
  obtains m where "handoff_of p m s = Some h" "as_str (jget h ''pane_id'') = Some p"
    "as_str (jget h ''message_id'') = Some m"
proof -
  obtain m where m: "(m, h) \<in> set (handoff_table (Some p) s)" using assms by (auto simp: handoffs_in_table)
  then have h: "handoff_of p m s = Some h"
    by (simp add: handoff_of_def map_of_eq_Some_iff [OF distinct_handoff_table])
  show ?thesis by (rule that [OF h]) (use h in \<open>auto simp: handoff_of_def as_str_def elim!: table_row\<close>)
qed

lemma distinct_messages: "distinct (map (\<lambda>h. as_str (jget h ''message_id'')) (handoffs_in wanted s))"
proof -
  have "map (\<lambda>h. as_str (jget h ''message_id'')) (handoffs_in wanted s) = map (Some \<circ> fst) (handoff_table wanted s)"
    using table_message by (auto simp: handoffs_in_table)
  then show ?thesis using distinct_handoff_table [of wanted s] by (simp add: distinct_map inj_on_def)
qed

text \<open>A handoff that was read fits a view when it is another one, or tells the view's state.\<close>

definition fits :: "string \<Rightarrow> string \<Rightarrow> view \<Rightarrow> handoff \<Rightarrow> bool" where
  "fits pane mid v h \<longleftrightarrow> (\<exists>p m. as_str (jget h ''pane_id'') = Some p \<and> as_str (jget h ''message_id'') = Some m
     \<and> (m = mid \<longrightarrow> p = pane \<and> vw_state v = Some (job_state h) \<and> vw_attempt v = job_attempt h
                    \<and> vw_watched v = has_key ''observed_turn'' h))"

lemma fits_listed:
  assumes "view_ok (view pane mid w)" "h \<in> set (handoffs_in (Some p) (wd_store w))"
  shows "fits pane mid (view pane mid w) h"
proof -
  obtain m where m: "handoff_of p m (wd_store w) = Some h" "as_str (jget h ''pane_id'') = Some p"
    "as_str (jget h ''message_id'') = Some m"
    by (rule listed_handoff [OF assms(2)])
  have "\<forall>q. q \<noteq> pane \<longrightarrow> job q mid w = None" using assms(1) by (simp add: view_ok_def view_def)
  then have "p = pane" "job pane mid w = Some h" if "m = mid"
    using m(1) that by (metis job_def option.distinct(1))+
  then show ?thesis using m(2,3) by (auto simp: fits_def view_job)
qed

lemma bindable_Some:
  assumes "bindable h = Some (m, turn_id, started_at, turn)"
  shows "job_state h = ''sent''" "as_str (jget h ''message_id'') = Some m" "has_key ''observed_turn'' h"
  using assms by (auto simp: bindable_def job_state_def has_key_def or_empty_def split: if_splits option.splits json.splits)

lemma started_step:
  assumes "view_ok v" "vw_state v = Some ''sent''" "vw_watched v"
  shows "view_step v (v\<lparr>vw_state := Some ''started''\<rparr>)"
  using assms by (auto simp: view_step_def view_ok_def good_state_def final_states_def)

lemma can_bind_turns:
  assumes "view_ok v" "distinct (map (\<lambda>h. as_str (jget h ''message_id'')) hs)" "\<forall>h \<in> set hs. fits pane mid v h"
  shows "can pane mid (bind_turns hs) v"
  using assms
proof (induction hs arbitrary: v)
  case (Cons h hs)
  have IH: "can pane mid (bind_turns hs) v" using Cons by simp
  show ?case
  proof (cases "bindable h")
    case None
    with IH show ?thesis by simp
  next
    case (Some b)
    obtain m turn_id started_at turn where b: "bindable h = Some (m, turn_id, started_at, turn)"
      using Some by (cases b) auto
    note h = bindable_Some [OF b]
    obtain p where p: "as_str (jget h ''pane_id'') = Some p"
      "m = mid \<longrightarrow> p = pane \<and> vw_state v = Some ''sent'' \<and> vw_attempt v = job_attempt h \<and> vw_watched v"
      using Cons.prems(3) h by (auto simp: fits_def)
    have plain: "plain_keys (started_changes turn_id started_at turn)"
      by (simp add: started_changes_def plain_keys_def)
    have upd: "can pane mid (bind_program (update_job h None (started_changes turn_id started_at turn))
        (\<lambda>r. case r of Inl e \<Rightarrow> Done (Inl e) | Inr x \<Rightarrow> bind_turns hs)) v"
    proof (rule can_update_bind [OF Cons.prems(1) p(1) h(2) plain])
      fix r :: "handoff option result"
      show "can pane mid (case r of Inl e \<Rightarrow> Done (Inl e) | Inr x \<Rightarrow> bind_turns hs) v"
        using IH by (auto intro: can_Done Cons.prems(1) split: sum.split)
    next
      fix w old
      assume here: "p = pane" "m = mid" "view pane mid w = v" "job pane mid w = Some old"
      let ?v = "v\<lparr>vw_state := Some ''started''\<rparr>"
      have v: "vw_attempt v = job_attempt old" "vw_watched v = has_key ''observed_turn'' old"
        using view_job [OF here(4)] here(3) by auto
      have step: "view_step v ?v" using p(2) here(2) Cons.prems(1) by (intro started_step) auto
      have "fits pane mid ?v g" if "g \<in> set hs" for g
      proof -
        have "as_str (jget g ''message_id'') \<noteq> Some mid"
          using Cons.prems(2) h(2) here(2) that by (force simp: image_iff)
        then show ?thesis using Cons.prems(3) that by (auto simp: fits_def)
      qed
      then have "can pane mid (bind_turns hs) ?v"
        using Cons.IH [OF view_step_ok [OF step]] Cons.prems(2) by simp
      moreover have "v\<lparr>vw_state := Some (job_state (jextend old (started_changes turn_id started_at turn))),
          vw_attempt := job_attempt (jextend old (started_changes turn_id started_at turn)),
          vw_watched := has_key ''observed_turn'' (jextend old (started_changes turn_id started_at turn))\<rparr> = ?v"
        unfolding job_jextend using v by (simp add: started_changes_def as_str_def or_empty_def)
      ultimately show "let h' = jextend old (started_changes turn_id started_at turn);
            v' = v\<lparr>vw_state := Some (job_state h'), vw_attempt := job_attempt h', vw_watched := has_key ''observed_turn'' h'\<rparr>
        in view_step v v' \<and> can pane mid (case ok (Some h') of Inl e \<Rightarrow> Done (Inl e) | Inr x \<Rightarrow> bind_turns hs) v'"
        using step by (simp add: Let_def)
    qed
    show ?thesis
      unfolding bind_turns.simps b option.case prod.case bind_ok_def
      by (rule can_ask_bind [OF Cons.prems(1)])
         (use IH upd Cons.prems(1) in \<open>auto intro: can_Done simp: bind_ok_def split: sum.split\<close>)
  qed
qed (simp add: can_Done)

lemma steady_bind_turn_locked: "steady pane mid (bind_turn_locked p)"
  unfolding steady_def bind_turn_locked_def
proof (intro allI impI)
  fix v assume v: "view_ok v"
  show "can pane mid (bind_program (ask (\<lambda>w. handoffs_in (Some p) (wd_store w))) bind_turns) v"
    by (rule can_ask_bind [OF v]) (use v fits_listed in \<open>auto intro!: can_bind_turns distinct_messages\<close>)
qed

lemma steady_bind_turn: "steady pane mid (bind_turn free p)"
  by (simp add: bind_turn_def steady_bind_turn_locked)

end
