(* ===== verification/Delivery_Line.thy ===== *)
theory Delivery_Line
  imports Delivery_View
begin

text \<open>
  The parts of a delivery as steps of the view: the mail of the handoff, the states it moves
  through, the settled answers and the typing of the line.
\<close>

section \<open>Materialising\<close>

lemma ends_try_job:
  "(\<And>e. Q (Inl (Not_Materialised e)) v) \<Longrightarrow> (\<And>x. r = Inr x \<Longrightarrow> ends pane mid Q (f x) v)
   \<Longrightarrow> ends pane mid Q (try_job r f) v"
  by (cases r) (simp_all add: try_job_def can_Done)

lemma row_get_append: "row_get key k (xs @ [r]) = (case row_get key k xs of Some x \<Rightarrow> Some x | None \<Rightarrow> if key r = k then Some r else None)"
  by (simp add: row_get_def find_append split: option.split)

lemma ensure_next_job_mail:
  "snd (ensure_next_job env m mailbox pane body subject mail) \<in>
     {mail, mail\<lparr>ml_messages := ml_messages mail @
        [queued_row m mailbox mailbox (Some pane) (Some ''next-job'') (Some subject) body (now_s env)]\<rparr>}"
  by (simp add: ensure_next_job_def Let_def split: option.split)

definition noted :: "view \<Rightarrow> view" where
  "noted v = (if vw_note v = None then v\<lparr>vw_note := Some (None, None)\<rparr> else v)"

lemma view_mail:
  "view pane mid (w\<lparr>wd_mail := m\<rparr>) = (view pane mid w)\<lparr>vw_note := note_of mid m\<rparr>"
  by (simp add: view_def job_def typed_count_def lines_in_lane_def)

lemma view_note: "vw_note (view pane mid w) = note_of mid (wd_mail w)"
  by (simp add: view_def)

lemma view_ensure:
  assumes "view pane mid w = v"
  shows "view pane mid (w\<lparr>wd_mail := snd (ensure_next_job env m mailbox p body subject (wd_mail w))\<rparr>) = v
     \<or> m = mid \<and> view pane mid (w\<lparr>wd_mail := snd (ensure_next_job env m mailbox p body subject (wd_mail w))\<rparr>) = noted v"
proof -
  let ?r = "queued_row m mailbox mailbox (Some p) (Some ''next-job'') (Some subject) body (now_s env)"
  have r: "m_id ?r = m" "m_notify_state ?r = None" "m_notify_attempt ?r = None" by (simp_all add: queued_row_def)
  have nt: "vw_note v = note_of mid (wd_mail w)" using assms view_note [of pane mid w] by simp
  have "note_of mid (wd_mail w\<lparr>ml_messages := ml_messages (wd_mail w) @ [?r]\<rparr>) =
      (if m = mid \<and> vw_note v = None then Some (None, None) else vw_note v)"
    unfolding nt note_of_def using r by (auto simp: row_get_append split: option.split)
  then have "view pane mid (w\<lparr>wd_mail := wd_mail w\<lparr>ml_messages := ml_messages (wd_mail w) @ [?r]\<rparr>\<rparr>) =
      (if m = mid then noted v else v)"
    using nt by (simp add: view_mail assms noted_def)
  moreover have "view pane mid (w\<lparr>wd_mail := wd_mail w\<rparr>) = v" using assms by simp
  moreover have "snd (ensure_next_job env m mailbox p body subject (wd_mail w)) = wd_mail w
      \<or> snd (ensure_next_job env m mailbox p body subject (wd_mail w)) =
          wd_mail w\<lparr>ml_messages := ml_messages (wd_mail w) @ [?r]\<rparr>"
    using ensure_next_job_mail [of env m mailbox p body subject "wd_mail w"] by simp
  ultimately show ?thesis by (elim disjE) (simp_all only: split: if_split, blast+)
qed

lemma ensured_note:
  assumes "is_ok (fst (ensure_next_job env mid mailbox p body subject (wd_mail w)))"
  shows "vw_note (view pane mid (w\<lparr>wd_mail := snd (ensure_next_job env mid mailbox p body subject (wd_mail w))\<rparr>)) \<noteq> None"
  using assms by (auto simp: view_note note_of_def ensure_next_job_def Let_def split: option.splits if_splits)

lemma noted_step:
  assumes "view_ok v"
  shows "view_step v (noted v)"
proof (cases "vw_note v = None \<and> vw_state v \<noteq> None")
  case True
  then obtain st a where "vw_state v = Some st" "vw_attempt v = Some a" "good_state st a (vw_watched v) None (vw_typed v)"
    using assms by (auto simp: view_ok_def)
  then show ?thesis using True assms by (intro view_stepI [of v st a _ st a]) (auto simp: noted_def good_state_def)
next
  case False
  then show ?thesis using assms by (auto simp: noted_def view_step_def view_ok_def)
qed

text \<open>
  Writing the mail changes no view of another handoff, and of its own at most adds the receipt.
\<close>

lemma ends_materialise_with:
  assumes ok: "view_ok v"
    and Q: "\<And>e. Q (Inl e) v" "\<And>e. as_str (jget h ''message_id'') = Some mid \<Longrightarrow> Q (Inl e) (noted v)"
      "\<And>s v'. v' = v \<or> v' = noted v \<and> as_str (jget h ''message_id'') = Some mid \<Longrightarrow>
         as_str (jget h ''message_id'') = Some mid \<longrightarrow> vw_note v' \<noteq> None \<Longrightarrow> Q (Inr s) v'"
  shows "ends pane mid Q (materialise_with lib h env) v"
  unfolding materialise_with_def
proof (rule ends_try_job [where Q = Q, OF Q(1)], rule can_quiet_bind [OF quiet_gate_with ok])
  fix p and reason :: "string option"
  let ?file = "\<lambda>tid m mailbox t. change (\<lambda>w. case ensure_next_job (wd_env w) m mailbox p (job_body t p m (job_source h))
      (job_subject t) (wd_mail w) of (r, m) \<Rightarrow> (r, w\<lparr>wd_mail := m\<rparr>))"
  have filed: "ends pane mid Q (bind_program (?file tid m mailbox t) (\<lambda>r. try_job r (\<lambda>status. Done (Inr status)))) v"
    if "field_of h ''message_id'' = Inr m" for tid m mailbox t
  proof -
    have m: "as_str (jget h ''message_id'') = Some m" using that by (auto simp: field_of_def split: option.splits)
    show ?thesis
    proof (rule can_change_bind)
      fix w assume w: "view pane mid w = v"
      let ?e = "ensure_next_job (wd_env w) m mailbox p (job_body t p m (job_source h)) (job_subject t) (wd_mail w)"
      let ?v = "view pane mid (w\<lparr>wd_mail := snd ?e\<rparr>)"
      have v: "?v = v \<or> m = mid \<and> ?v = noted v" by (rule view_ensure [OF w])
      have "m = mid \<longrightarrow> is_ok (fst ?e) \<longrightarrow> vw_note ?v \<noteq> None" using ensured_note by blast
      then have "Q (Inr s) ?v" if "fst ?e = Inr s" for s using v m that by (intro Q(3)) auto
      moreover have "Q (Inl e) ?v" for e using v m Q(1,2) by metis
      moreover have "view_step v ?v" using v ok by (auto simp: view_step_refl noted_step)
      ultimately show "view_step v (view pane mid (snd (case ?e of (r, m) \<Rightarrow> (r, w\<lparr>wd_mail := m\<rparr>))))"
        "ends pane mid Q (try_job (fst (case ?e of (r, m) \<Rightarrow> (r, w\<lparr>wd_mail := m\<rparr>))) (\<lambda>status. Done (Inr status)))
          (view pane mid (snd (case ?e of (r, m) \<Rightarrow> (r, w\<lparr>wd_mail := m\<rparr>))))"
        by (auto simp: case_prod_beta intro!: ends_try_job can_Done)
    qed
  qed
  show "ends pane mid Q (case reason of Some r \<Rightarrow> Done (Inl (Dispatch_Paused r))
       | None \<Rightarrow>
     bind_program (ask (\<lambda>w. os_mailbox (wd_outside w) p)) (\<lambda>r. try_job r (\<lambda>(mailbox, actual).
       if actual \<noteq> Some p then Done (Inl (Not_Materialised (Refused (Text ''next-job pane changed''))))
       else
     try_job (field_of h ''task_id'') (\<lambda>tid. try_job (field_of h ''message_id'') (\<lambda>m.
     bind_program (ask (\<lambda>w. task_get tid (wd_store w))) (\<lambda>r. try_job r (\<lambda>t.
     bind_program (?file tid m mailbox t) (\<lambda>r. try_job r (\<lambda>status. Done (Inr status)))))))))) v"
    by (auto split: option.split intro!: can_Done Q(1) can_ask_bind0 [OF ok] ends_try_job filed)
qed

lemma ends_materialise:
  assumes ok: "view_ok v"
    and Q: "\<And>e. Q (Inl e) v" "\<And>e. as_str (jget h ''message_id'') = Some mid \<Longrightarrow> Q (Inl e) (noted v)"
      "\<And>s v'. v' = v \<or> v' = noted v \<and> as_str (jget h ''message_id'') = Some mid \<Longrightarrow>
         as_str (jget h ''message_id'') = Some mid \<longrightarrow> vw_note v' \<noteq> None \<Longrightarrow> Q (Inr s) v'"
  shows "ends pane mid Q (materialise lib h) v"
  unfolding materialise_def
proof (rule can_ask_bind0 [OF ok])
  fix w
  show "ends pane mid Q (case os_env (wd_outside w) of None \<Rightarrow> Done (Inl (Dispatch_Paused ''readiness_unknown''))
      | Some env \<Rightarrow> materialise_with lib h env) v"
    by (cases "os_env (wd_outside w)") (simp_all add: can_Done Q(1) ends_materialise_with [OF ok Q])
qed

lemma steady_materialise_other:
  "as_str (jget h ''message_id'') \<noteq> Some mid \<Longrightarrow> steady pane mid (materialise lib h)"
  unfolding steady_def by (intro allI impI ends_materialise) auto

section \<open>The handoff itself\<close>

text \<open>The steps of its protocol, as steps of the view.\<close>

lemma final_set: "set final_states = {''started'', ''undeliverable'', ''cancelled''}"
  by (simp add: final_states_def)

lemma good_stateD:
  assumes "good_state st a watched note n"
  shows "0 \<le> a" "a \<le> int SUBMIT_ATTEMPTS" "n \<le> 1" "note = Some (Some ''sent'', i) \<Longrightarrow> n = 1"
    "st = ''sent'' \<Longrightarrow> n = 1"
    "n = 1 \<Longrightarrow> st \<notin> set typed_states \<Longrightarrow> st = ''sending'' \<and> (\<exists>r. note = Some (r, Some a))"
  using assms unfolding good_state_def by blast+

lemma note_step:
  assumes "view_ok v" "vw_state v = Some st" "vw_attempt v = Some a" "notify = ''sent'' \<longrightarrow> vw_typed v = 1"
  shows "view_step v (v\<lparr>vw_note := map_option (\<lambda>(s, x). (Some notify, opt_or (Some a) x)) (vw_note v)\<rparr>)"
proof -
  let ?n = "map_option (\<lambda>(s, x). (Some notify, opt_or (Some a) x)) (vw_note v)"
  have g: "good_state st a (vw_watched v) (vw_note v) (vw_typed v)"
    by (rule view_ok_state [OF assms(1-3)])
  have "\<exists>r. ?n = Some (r, Some a)" if "\<exists>r. vw_note v = Some (r, Some a)" using that by (auto simp: opt_or_def)
  moreover have "vw_typed v = 1" if "\<exists>i. ?n = Some (Some ''sent'', i)" using that assms(4) by auto
  ultimately have "good_state st a (vw_watched v) ?n (vw_typed v)" using g unfolding good_state_def by blast
  then show ?thesis by (intro view_stepI [OF assms(1-3), of _ st a]) (simp_all add: assms(2,3))
qed

lemma state_step:
  assumes "view_ok v" "vw_state v = Some st" "st \<notin> set final_states"
    and "ns \<in> {''undeliverable'', ''cancelled''} \<or> ns = ''pending'' \<and> vw_typed v = 0 \<or> ns = ''sent'' \<and> vw_typed v = 1"
  shows "view_step v (v\<lparr>vw_state := Some ns\<rparr>)"
proof -
  obtain a where a: "vw_attempt v = Some a" "good_state st a (vw_watched v) (vw_note v) (vw_typed v)"
    using assms(1,2) by (rule view_okE)
  have n: "\<exists>i. vw_note v = Some (Some ''sent'', i) \<Longrightarrow> vw_typed v = 1" using good_stateD(4) [OF a(2)] by blast
  then have n0: "\<forall>i. vw_note v \<noteq> Some (Some ''sent'', i)" if "vw_typed v = 0" using that by auto
  from assms(4) have "good_state ns a (vw_watched v) (vw_note v) (vw_typed v)"
    using good_stateD(1-3) [OF a(2)] n by (elim insertE disjE conjE emptyE) (simp_all add: good_state_def n0 typed_set)
  with a assms show ?thesis by (intro view_stepI [OF assms(1,2) a(1), of _ ns a]) simp_all
qed

lemma reserve_step:
  assumes "view_ok v" "vw_state v = Some st" "vw_attempt v = Some a" "a < int SUBMIT_ATTEMPTS"
    and "st \<notin> set final_states" "st \<noteq> ''sending''" "st \<noteq> ''sent''"
  shows "vw_typed v = 0" "view_step v (v\<lparr>vw_state := Some ''sending'', vw_attempt := Some (a + 1)\<rparr>)"
proof -
  have g: "good_state st a (vw_watched v) (vw_note v) (vw_typed v)"
    by (rule view_ok_state [OF assms(1-3)])
  have "vw_typed v \<noteq> 1" using good_stateD(6) [OF g] assms(5-7) by (auto simp: typed_states_def final_set)
  then show t: "vw_typed v = 0" using good_stateD(3) [OF g] by simp
  have "\<nexists>i. vw_note v = Some (Some ''sent'', i)" using good_stateD(4) [OF g] t by fastforce
  then have "good_state ''sending'' (a + 1) (vw_watched v) (vw_note v) 0"
    using good_stateD(1) [OF g] assms(4) by (simp add: good_state_def typed_set)
  then show "view_step v (v\<lparr>vw_state := Some ''sending'', vw_attempt := Some (a + 1)\<rparr>)"
    using assms(5) by (intro view_stepI [OF assms(1-3), of _ "''sending''" "a + 1"]) (simp_all add: t)
qed

lemma type_step:
  assumes "view_ok v" "vw_state v = Some ''sending''" "vw_attempt v = Some a" "vw_note v = Some (r, Some a)"
    "vw_typed v = 0"
  shows "view_step v (v\<lparr>vw_typed := 1\<rparr>)"
proof -
  have g: "good_state ''sending'' a (vw_watched v) (vw_note v) (vw_typed v)"
    by (rule view_ok_state [OF assms(1-3)])
  have "good_state ''sending'' a (vw_watched v) (vw_note v) 1"
    using good_stateD(1,2) [OF g] assms(4) by (simp add: good_state_def)
  then show ?thesis by (intro view_stepI [OF assms(1-3), of _ "''sending''" a]) (simp_all add: assms)
qed

definition only_state :: "json_map \<Rightarrow> string \<Rightarrow> bool" where
  "only_state changes ns \<longleftrightarrow> plain_keys changes \<and> list_all (\<lambda>(k, v). k \<noteq> ''attempt'' \<and> k \<noteq> ''observed_turn'') changes
     \<and> map_of (rev changes) ''state'' = Some (JStr ns)"

lemma can_set_state:
  assumes ok: "view_ok v" and h: "names pane mid h" and ch: "only_state changes ns"
    and step: "view_step v (v\<lparr>vw_state := Some ns\<rparr>)"
    and kept: "\<And>r. \<forall>h'. r \<noteq> ok (Some h') \<Longrightarrow> ends pane mid Q (k r) v"
    and made: "\<And>h'. names pane mid h' \<Longrightarrow> ends pane mid Q (k (ok (Some h'))) (v\<lparr>vw_state := Some ns\<rparr>)"
  shows "ends pane mid Q (bind_program (update_job h None changes) k) v"
proof -
  have plain: "plain_keys changes" and st: "map_of (rev changes) ''state'' = Some (JStr ns)"
    and keys: "''attempt'' \<notin> fst ` set changes" "''observed_turn'' \<notin> fst ` set changes"
    using ch by (auto simp: only_state_def list_all_iff)
  show ?thesis
  proof (rule can_update_bind [OF ok _ _ plain])
    show "as_str (jget h ''pane_id'') = Some pane" "as_str (jget h ''message_id'') = Some mid"
      using h by (simp_all add: names_def)
  next
    fix r :: "handoff option result"
    assume "\<not> (pane = pane \<and> mid = mid \<and> (\<exists>h'. r = ok (Some h')))"
    then show "ends pane mid Q (k r) v" by (intro kept) auto
  next
    fix w old
    assume w: "view pane mid w = v" "job pane mid w = Some old"
    have "map_of (rev changes) ''attempt'' = None" using keys(1) by (simp add: map_of_eq_None_iff)
    then have "v\<lparr>vw_state := Some (job_state (jextend old changes)), vw_attempt := job_attempt (jextend old changes),
        vw_watched := has_key ''observed_turn'' (jextend old changes)\<rparr> = v\<lparr>vw_state := Some ns\<rparr>"
      unfolding job_jextend using view_job [OF w(2)] w(1) keys(2) st by (auto simp: as_str_def or_empty_def)
    moreover have "names pane mid (jextend old changes)"
      using job_here [OF w(2)] by (intro names_jextend [OF _ plain]) (simp add: names_def)
    ultimately show "let h' = jextend old changes;
          v' = v\<lparr>vw_state := Some (job_state h'), vw_attempt := job_attempt h', vw_watched := has_key ''observed_turn'' h'\<rparr>
        in view_step v v' \<and> ends pane mid Q (k (ok (Some h'))) v'"
      using step made by (simp add: Let_def)
  qed
qed

lemma can_set_state_end:
  assumes "view_ok v" "names pane mid h" "only_state changes ns" "view_step v (v\<lparr>vw_state := Some ns\<rparr>)"
  shows "can pane mid (update_job h None changes) v"
  by (subst bind_Done [symmetric], rule can_set_state [OF assms])
     (auto intro!: can_Done assms(1) view_step_ok [OF assms(4)])

lemma only_set_state [simp]: "only_state (set_state ns r) ns"
  by (simp add: only_state_def set_state_def plain_keys_def)

lemma can_settle:
  assumes ok: "view_ok v" and st: "vw_state v = Some st" "st \<notin> set final_states" "vw_attempt v = Some a"
    and h: "names pane mid h" and n: "notify \<noteq> ''sent''"
    and ns: "ns = ''undeliverable'' \<or> ns = ''pending'' \<and> vw_typed v = 0"
  shows "can pane mid (settle h mid notify ns reason tid (Some a)) v"
proof -
  let ?v = "v\<lparr>vw_note := map_option (\<lambda>(s, x). (Some notify, opt_or (Some a) x)) (vw_note v)\<rparr>"
  have step: "view_step v ?v" using note_step [OF ok st(1,3)] n by simp
  have ok': "view_ok ?v" by (rule view_step_ok [OF step])
  have "can pane mid (update_job h None (set_state ns (JStr reason))) ?v"
    by (rule can_set_state_end [OF ok' h only_set_state])
       (rule state_step [OF ok'], use st ns in auto)
  then show ?thesis
    unfolding settle_def by (intro can_notify_ok [OF ok]) (use step in auto)
qed

section \<open>Typing the line\<close>

lemma guarded_send_typed:
  assumes "guarded_send t = (typed, delivered, good, detail)" "\<not> starts_with (snd (tm_key t)) BOX_HOLD"
  shows "typed \<Longrightarrow> delivered" "good = Some True \<Longrightarrow> typed"
proof -
  have late: "\<not> starts_with (''agent session is dead ('' @ d @ ''); not submitting into a dead composer'') BOX_HOLD"
    "\<not> starts_with ''typed but not submitted: durable attempt receipt failed'' BOX_HOLD" for d
    by (simp_all add: starts_with_def BOX_HOLD_def)
  show "typed \<Longrightarrow> delivered" "good = Some True \<Longrightarrow> typed"
    using assms late by (auto simp: guarded_send_def submit_text_def split: option.splits if_splits prod.splits send_action.splits)
qed

lemma view_type:
  "m \<noteq> mid \<Longrightarrow> view pane mid (w\<lparr>wd_typed := wd_typed w @ [\<lparr>ty_pane = p, ty_message = m, ty_transport = t, ty_text = x\<rparr>]\<rparr>) =
     view pane mid w"
  "view pane mid (w\<lparr>wd_typed := wd_typed w @
        [\<lparr>ty_pane = pane, ty_message = mid, ty_transport = t, ty_text = job_line task mid\<rparr>]\<rparr>) =
     (view pane mid w)\<lparr>vw_typed := Suc (vw_typed (view pane mid w))\<rparr>"
  by (auto simp: view_def job_def typed_count_def lines_in_lane_def)

lemma view_key_text: "vw_key_text (view pane mid w) \<longleftrightarrow> \<not> starts_with (snd (tm_key (os_terminal (wd_outside w)))) BOX_HOLD"
  by (simp add: view_def)

lemma steady_type_other: "m \<noteq> mid \<Longrightarrow> steady pane mid (type_line p m tid x)"
  unfolding steady_def type_line_def
proof (intro allI impI)
  fix v assume "m \<noteq> mid" "view_ok v"
  then show "can pane mid (change (\<lambda>w. case guarded_send (os_terminal (wd_outside w)) of (typed, answer) \<Rightarrow>
       (answer, if typed then w\<lparr>wd_typed := wd_typed w @
          [\<lparr>ty_pane = p, ty_message = m, ty_transport = tid, ty_text = x\<rparr>]\<rparr> else w))) v"
    by (subst bind_Done [symmetric], intro can_change_bind)
       (auto simp: view_type view_step_refl case_prod_beta intro: can_Done)
qed

text \<open>
  The reserved handoff with its receipt written: what typing leaves, by the answer.
\<close>

definition reserved_at :: "int \<Rightarrow> view \<Rightarrow> bool" where
  "reserved_at a v \<longleftrightarrow> view_ok v \<and> vw_state v = Some ''sending'' \<and> vw_attempt v = Some a
     \<and> (\<exists>r. vw_note v = Some (r, Some a))"

lemma ends_send_guarded:
  assumes v: "reserved_at a v" "vw_typed v = 0"
  shows "ends pane mid (\<lambda>(delivered, good, detail) v'. reserved_at a v'
      \<and> (\<not> delivered \<longrightarrow> vw_typed v' = 0) \<and> (good = Some True \<longrightarrow> vw_typed v' = 1))
    (send_guarded lib pane mid tid (job_line task mid)) v"
proof -
  have ok: "view_ok v" using v(1) by (simp add: reserved_at_def)
  obtain r where r: "vw_state v = Some ''sending''" "vw_attempt v = Some a" "vw_note v = Some (r, Some a)"
    using v(1) by (auto simp: reserved_at_def)
  let ?Q = "\<lambda>(delivered, good, detail) v'. reserved_at a v'
      \<and> (\<not> delivered \<longrightarrow> vw_typed v' = 0) \<and> (good = Some True \<longrightarrow> vw_typed v' = 1)"
  have line: "ends pane mid ?Q (type_line pane mid tid (job_line task mid)) v"
    unfolding type_line_def
  proof (subst bind_Done [symmetric], rule can_change_bind)
    fix w assume w: "view pane mid w = v"
    obtain typed delivered good detail where g: "guarded_send (os_terminal (wd_outside w)) = (typed, delivered, good, detail)"
      by (metis prod_cases4)
    have "\<not> starts_with (snd (tm_key (os_terminal (wd_outside w)))) BOX_HOLD"
      using ok w view_key_text by (auto simp: view_ok_def)
    note gt = guarded_send_typed [OF g this]
    have step: "view_step v (v\<lparr>vw_typed := 1\<rparr>)" by (rule type_step [OF ok r v(2)])
    then have "reserved_at a (v\<lparr>vw_typed := 1\<rparr>)" using r by (simp add: reserved_at_def view_step_ok)
    then show "view_step v (view pane mid (snd (case guarded_send (os_terminal (wd_outside w)) of (typed, answer) \<Rightarrow>
       (answer, if typed then w\<lparr>wd_typed := wd_typed w @
          [\<lparr>ty_pane = pane, ty_message = mid, ty_transport = tid, ty_text = job_line task mid\<rparr>]\<rparr> else w))))"
      "ends pane mid ?Q (Done (fst (case guarded_send (os_terminal (wd_outside w)) of (typed, answer) \<Rightarrow>
       (answer, if typed then w\<lparr>wd_typed := wd_typed w @
          [\<lparr>ty_pane = pane, ty_message = mid, ty_transport = tid, ty_text = job_line task mid\<rparr>]\<rparr> else w))))
       (view pane mid (snd (case guarded_send (os_terminal (wd_outside w)) of (typed, answer) \<Rightarrow>
       (answer, if typed then w\<lparr>wd_typed := wd_typed w @
          [\<lparr>ty_pane = pane, ty_message = mid, ty_transport = tid, ty_text = job_line task mid\<rparr>]\<rparr> else w))))"
      using gt step v ok by (auto simp: g view_type w view_step_refl intro!: can_Done)
  qed
  show ?thesis
    unfolding send_guarded_def
  proof (rule can_ask_bind0 [OF ok])
    fix w
    show "ends pane mid ?Q (case tm_lock_error (os_terminal (wd_outside w)) of Some e \<Rightarrow> Done (False, None, e)
       | None \<Rightarrow> bind_program (gate lib pane) (\<lambda>held.
           case held of Some reason \<Rightarrow> Done (False, None, reason)
           | None \<Rightarrow> type_line pane mid tid (job_line task mid))) v"
      using v line by (auto intro!: can_Done can_quiet_bind ok split: option.split)
  qed
qed

text \<open>The receipt of an attempt, written again: the view stays reserved.\<close>

lemma reserved_note:
  assumes "reserved_at a v" "notify = ''sent'' \<longrightarrow> vw_typed v = 1"
  defines "v' \<equiv> v\<lparr>vw_note := map_option (\<lambda>(s, x). (Some notify, opt_or (Some a) x)) (vw_note v)\<rparr>"
  shows "view_step v v'" "reserved_at a v'" "vw_typed v' = vw_typed v"
proof -
  have r: "view_ok v" "vw_state v = Some ''sending''" "vw_attempt v = Some a" "\<exists>r. vw_note v = Some (r, Some a)"
    using assms(1) by (simp_all add: reserved_at_def)
  show s: "view_step v v'" unfolding v'_def by (rule note_step [OF r(1-3) assms(2)])
  show "reserved_at a v'" using view_step_ok [OF s] r by (auto simp: reserved_at_def v'_def opt_or_def)
  show "vw_typed v' = vw_typed v" by (simp add: v'_def)
qed

lemma can_reserved_notify:
  assumes "reserved_at a v" "notify = ''sent'' \<longrightarrow> vw_typed v = 1" "\<And>e. ends pane mid Q (k (Inl e)) v"
    "\<And>v'. reserved_at a v' \<Longrightarrow> vw_typed v' = vw_typed v \<Longrightarrow> ends pane mid Q (k (ok ())) v'"
  shows "ends pane mid Q (bind_program (record_next_job_notify mid notify reason tid (Some a)) k) v"
proof (rule can_notify_bind)
  show "view_ok v" using assms(1) by (simp add: reserved_at_def)
qed (use reserved_note [OF assms(1,2)] assms(3,4) in auto)

text \<open>What the worker answers agrees with what was typed; of a failed worker nothing is known.\<close>

definition answer_true :: "sent_result \<Rightarrow> view \<Rightarrow> bool" where
  "answer_true r v = (case r of
       Worked (Held reason) \<Rightarrow> vw_typed v = 0
     | Worked (Sent tid t) \<Rightarrow> vw_typed v = 1
     | _ \<Rightarrow> True)"

lemma ends_in_worker:
  assumes "reserved_at a v" "ends pane mid (\<lambda>r v'. reserved_at a v' \<and> answer_true r v') p v"
  shows "ends pane mid (\<lambda>r v'. reserved_at a v' \<and> answer_true r v') (in_worker p) v"
proof -
  have "view_ok v" using assms(1) by (simp add: reserved_at_def)
  then show ?thesis
    unfolding in_worker_def
    by (rule can_ask_bind0) (use assms in \<open>auto intro!: can_Done simp: answer_true_def split: option.split\<close>)
qed

lemma ends_with_receipt:
  assumes v: "reserved_at a v" "notify = ''sent'' \<longrightarrow> vw_typed v = 1" and x: "answer_true (Worked x) v"
  shows "ends pane mid (\<lambda>r v'. reserved_at a v' \<and> answer_true r v') (with_receipt mid notify reason tid a x) v"
  unfolding with_receipt_def
proof (rule can_reserved_notify [OF v], goal_cases)
  case (1 e)
  show ?case using v(1) by (simp add: can_Done answer_true_def)
next
  case (2 v')
  then have "view_ok v'" "answer_true (Worked x) v'"
    using x by (simp_all add: reserved_at_def answer_true_def split: transport_result.splits)
  then show ?case unfolding sum.case by (intro ends_in_worker [OF 2(1)] can_Done) (use 2(1) in simp)
qed

lemma ends_transport:
  assumes v: "reserved_at a v" "vw_typed v = 0"
  shows "ends pane mid (\<lambda>r v'. reserved_at a v' \<and> answer_true r v') (transport lib pane mid tid a (job_line task mid)) v"
proof -
  let ?Q = "\<lambda>r v'. reserved_at a v' \<and> answer_true r v'"

  have okv: "view_ok u" if "reserved_at a u" for u using that by (simp add: reserved_at_def)
  show ?thesis
    unfolding transport_def
  proof (rule ends_in_worker [OF v(1)], rule can_bind [OF ends_send_guarded [OF v]], goal_cases)
    case (1 x v')
    obtain delivered good detail where x: "x = (delivered, good, detail)" by (cases x)
    from 1 have v': "reserved_at a v'" "\<not> delivered \<longrightarrow> vw_typed v' = 0" "good = Some True \<longrightarrow> vw_typed v' = 1"
      by (simp_all add: x)
    have "ends pane mid ?Q (with_receipt mid ''queued'' (Some detail) tid a (Held detail)) v'" if "\<not> delivered"
      by (rule ends_with_receipt [OF v'(1)]) (use v' that in \<open>simp_all add: answer_true_def\<close>)
    moreover have "ends pane mid ?Q (with_receipt mid ''sent'' None tid a (Sent tid now)) v'" if "good = Some True" for now
      by (rule ends_with_receipt [OF v'(1)]) (use v' that in \<open>simp_all add: answer_true_def\<close>)
    moreover have "ends pane mid ?Q (with_receipt mid ''undeliverable'' (Some detail) tid a (Undeliverable tid detail)) v'"
      by (rule ends_with_receipt [OF v'(1)]) (simp_all add: answer_true_def)
    ultimately show ?case
      unfolding x prod.case
      by (intro ends_in_worker [OF v'(1)]) (auto intro!: can_ask_bind0 okv v'(1))
  qed
qed

lemma can_deliver_line:
  assumes ok: "view_ok v" and st: "vw_state v = Some ''sending''" "vw_attempt v = Some a" "vw_note v \<noteq> None" "vw_typed v = 0"
    and h: "names pane mid h"
  shows "can pane mid (deliver_line lib pane mid task h a) v"
proof -
  let ?v = "v\<lparr>vw_note := map_option (\<lambda>(s, x). (Some ''queued'', opt_or (Some a) x)) (vw_note v)\<rparr>"
  have step: "view_step v ?v" using note_step [OF ok st(1,2)] by simp
  have r: "reserved_at a ?v" "vw_typed ?v = 0"
    using view_step_ok [OF step] st by (auto simp: reserved_at_def opt_or_def)
  have ok': "view_ok ?v" by (rule view_step_ok [OF step])
  have settled: "can pane mid (settle h mid ''undeliverable'' ''undeliverable'' why tid (Some a)) v'"
    if "reserved_at a v'" for why tid v'
    by (rule can_settle [OF _ _ _ _ h]) (use that in \<open>auto simp: final_set reserved_at_def\<close>)
  have upd: "can pane mid (bind_ok (update_job h None (outcome_changes r)) (\<lambda>updated.
         (case r of Sent _ _ \<Rightarrow> bind_ok (bind_turn_locked pane) (\<lambda>_. Done (ok updated)) | _ \<Rightarrow> Done (ok updated)))) v'"
    if v': "reserved_at a v'" "answer_true (Worked r) v'" for r v'
    unfolding bind_ok_def [of "update_job h None (outcome_changes r)"]
  proof -
    have okv: "view_ok v'" and st': "vw_state v' = Some ''sending''" using v'(1) by (simp_all add: reserved_at_def)
    let ?ns = "case r of Held _ \<Rightarrow> ''pending'' | Sent _ _ \<Rightarrow> ''sent'' | Undeliverable _ _ \<Rightarrow> ''undeliverable''"
    have ch: "only_state (outcome_changes r) ?ns"
      by (cases r) (simp_all add: outcome_changes_def only_state_def plain_keys_def)
    have s: "view_step v' (v'\<lparr>vw_state := Some ?ns\<rparr>)"
      by (rule state_step [OF okv st']) (use v'(2) in \<open>auto simp: final_set answer_true_def split: transport_result.splits\<close>)
    have tail: "can pane mid (case r of Sent _ _ \<Rightarrow> bind_ok (bind_turn_locked pane) (\<lambda>_. Done (ok updated))
        | _ \<Rightarrow> Done (ok updated)) u" if "view_ok u" for updated u
    proof -
      have "steady pane mid (bind_ok (bind_turn_locked pane) (\<lambda>_. Done (ok updated)))"
        by (rule steady_bind_ok [OF steady_bind_turn_locked]) simp
      then show ?thesis using that by (cases r) (simp_all add: steady_def can_Done)
    qed
    show "can pane mid (bind_program (update_job h None (outcome_changes r)) (\<lambda>x. case x of Inl e \<Rightarrow> Done (Inl e)
        | Inr updated \<Rightarrow> (case r of Sent _ _ \<Rightarrow> bind_ok (bind_turn_locked pane) (\<lambda>_. Done (ok updated))
            | _ \<Rightarrow> Done (ok updated)))) v'"
      by (rule can_set_state [OF okv h ch s])
         (use tail okv view_step_ok [OF s] in \<open>auto intro: can_Done split: sum.split\<close>)
  qed
  show ?thesis
    unfolding deliver_line_def Let_def
  proof (rule can_notify_ok [OF ok step], goal_cases)
    case 1
    show ?case
      unfolding bind_ok_def [of "ask _"]
    proof (rule can_ask_bind0 [OF ok'], goal_cases)
      case (1 w)
      show ?case
      proof (cases "os_factory (wd_outside w)")
        case (Inr u)
        show ?thesis
          unfolding Inr sum.case
        proof (rule can_bind [OF ends_transport [OF r]], goal_cases)
          case (1 x v')
          then show ?case by (cases x) (simp_all only: sent_result.case settled upd)
        qed
      qed (simp add: can_Done ok')
    qed
  qed simp
qed

end
