(* ===== verification/Next_Job_Runtime.thy ===== *)
theory Next_Job_Runtime
  imports Delivery
begin

text \<open>
  The advance of one lane as the daemon runs it, and the recovery at its start
  (\<^verbatim>\<open>tasks/next_job_runtime.rs\<close>): read the gate and the lane's mail, run the transaction of
  \<^verbatim>\<open>tasks/advance.rs\<close>, then write the mail of the handoff it journaled. After a restart only
  the decisions that were refused for a passing reason are taken again.
\<close>

section \<open>The caller\<close>

record job_caller =
  jc_pane_id :: "string option"
  jc_pid :: "int option"
  jc_start :: "string option"
  jc_name :: "string option"
  jc_source :: string

definition caller_map :: "job_caller option \<Rightarrow> json_map" where
  "caller_map c =
     (case c of
        None \<Rightarrow> []
      | Some c \<Rightarrow>
          [(''pane_id'', json_opt_str (jc_pane_id c)), (''pid'', json_opt_int (jc_pid c)),
           (''start'', json_opt_str (jc_start c)), (''name'', json_opt_str (jc_name c)),
           (''source'', JStr (jc_source c))])"

definition caller_source :: "string option \<Rightarrow> string" where
  "caller_source v =
     (case v of
        Some s \<Rightarrow> if s = ''agent'' \<or> s = ''session'' \<or> s = ''peer'' then s else ''none''
      | None \<Rightarrow> ''none'')"

definition caller_from_map :: "json option \<Rightarrow> job_caller option" where
  "caller_from_map v =
     (case v of
        Some (JObj m) \<Rightarrow>
          if m = [] then None
          else Some \<lparr>jc_pane_id = as_str (jget m ''pane_id''), jc_pid = json_i64 (jget m ''pid''),
                     jc_start = as_str (jget m ''start''), jc_name = as_str (jget m ''name''),
                     jc_source = caller_source (as_str (jget m ''source''))\<rparr>
      | _ \<Rightarrow> None)"

section \<open>Advancing a lane\<close>

definition unread_count :: "string \<Rightarrow> world \<Rightarrow> int option" where
  "unread_count pane w =
     map_option (\<lambda>mailbox. ct_unread (mail_count (wd_mail w) mailbox (sort_dedup (os_lane_panes (wd_outside w)))
                                       (now_s (wd_env w))))
       (os_own_mailbox (wd_outside w) pane)"

record advance_request =
  ar_pane :: string
  ar_trigger :: string
  ar_from_task :: "string option"
  ar_caller :: "job_caller option"
  ar_operator_proof :: "operator_proof option"
  ar_dispatch_reason :: "string option"
  ar_unread :: "int option"
  ar_pending_delivery :: bool

definition request_options :: "advance_request \<Rightarrow> advance_options" where
  "request_options r =
     \<lparr>av_from_task = ar_from_task r, av_caller = caller_map (ar_caller r),
      av_unread = (case ar_unread r of Some n \<Rightarrow> n | None \<Rightarrow> - 1),
      av_pending_delivery = ar_pending_delivery r, av_dispatch_reason = ar_dispatch_reason r,
      av_operator_proof = ar_operator_proof r\<rparr>"

definition run_advance :: "text_lib \<Rightarrow> advance_request \<Rightarrow> (world, advance result) program" where
  "run_advance lib r = change (\<lambda>w.
     case advance_next_job (wd_env w) (runtime_planner (tl_number lib) (os_pacing (wd_outside w)))
            (os_uuid (wd_outside w)) (ar_pane r) (ar_trigger r) (request_options r) (wd_store w) of
       (adv, s) \<Rightarrow> (adv, w\<lparr>wd_desk := in_store (\<lambda>_. s) (wd_desk w)\<rparr>))"

text \<open>
  The claim and its handoff are committed: a pause is noted on the handoff, any other failure
  of the mail is left to the delivery.
\<close>

definition advance_with_materialiser :: "text_lib \<Rightarrow> advance_request \<Rightarrow> (world, advance result) program" where
  "advance_with_materialiser lib r =
     bind_ok (run_advance lib r) (\<lambda>adv.
       case jget (ad_plan adv) ''handoff'' of
         Some (JObj h) \<Rightarrow>
           bind_program (materialise lib h) (\<lambda>m.
             case m of
               Inr _ \<Rightarrow> Done (ok adv)
             | Inl (Dispatch_Paused reason) \<Rightarrow>
                 bind_ok (update_job h None [(''reason'', JStr reason)]) (\<lambda>updated.
                   if updated = None
                   then Done (refused (Text ''committed next-job handoff disappeared while recording dispatch pause''))
                   else Done (ok adv))
             | Inl (Not_Materialised _) \<Rightarrow> Done (ok adv))
       | _ \<Rightarrow> Done (ok adv))"

definition advance_lane ::
    "text_lib \<Rightarrow> string \<Rightarrow> string \<Rightarrow> string option \<Rightarrow> job_caller option \<Rightarrow> operator_proof option
     \<Rightarrow> (world, advance result) program" where
  "advance_lane lib pane trigger from_task caller operator_proof =
     bind_program (gate lib pane) (\<lambda>reason.
     bind_program (if reason \<noteq> None then Done None else ask (unread_count pane)) (\<lambda>unread.
     bind_program (ask (\<lambda>w. os_queued (wd_outside w) pane)) (\<lambda>queued.
       advance_with_materialiser lib
         \<lparr>ar_pane = pane, ar_trigger = trigger, ar_from_task = from_task, ar_caller = caller,
          ar_operator_proof = operator_proof, ar_dispatch_reason = reason, ar_unread = unread,
          ar_pending_delivery = queued\<rparr>)))"

section \<open>Recovery\<close>

definition retry_reasons :: "string list" where
  "retry_reasons = [''unread_unknown'', ''unread_mail'', ''pending_delivery'', ''disabled'', ''not_allowed'',
     ''unavailable_lane'', ''readiness_unknown'']"

fun recover_decisions :: "text_lib \<Rightarrow> (string \<times> json) list \<Rightarrow> (world, unit result) program" where
  "recover_decisions lib [] = Done (ok ())"
| "recover_decisions lib ((pane, plan) # ds) =
     (if (case as_str (vget plan ''reason'') of Some r \<Rightarrow> r \<in> set retry_reasons | None \<Rightarrow> False)
      then bind_ok (advance_lane lib pane ''restart'' (as_str (vget plan ''from_task''))
             (caller_from_map (vget plan ''caller'')) None) (\<lambda>_. recover_decisions lib ds)
      else recover_decisions lib ds)"

definition recover :: "text_lib \<Rightarrow> (world, unit result) program" where
  "recover lib =
     bind_ok (ask (\<lambda>w. next_job_decisions (wd_store w))) (\<lambda>ds.
     bind_ok (recover_decisions lib ds) (\<lambda>_.
     bind_program (tick lib True) (\<lambda>_. Done (ok ()))))"

end
