(* ===== verification/Delivery_Effects.thy ===== *)
theory Delivery_Effects
  imports Delivery_Line Next_Job_Runtime Advance_Effects
begin

text \<open>
  A whole delivery, a tick and an observed turn keep every handoff's view good, and what follows
  for a lane whose process may stop anywhere: one line at most, nothing sent that was not
  typed, bounded attempts, and no handoff that ever starts.
\<close>

section \<open>A whole delivery\<close>

lemma noted_simps [simp]:
  "vw_state (noted v) = vw_state v" "vw_attempt (noted v) = vw_attempt v" "vw_typed (noted v) = vw_typed v"
  "vw_note (noted v) \<noteq> None"
  by (auto simp: noted_def)

lemma can_deliver_reserved:
  assumes ok: "view_ok v" and st: "vw_state v = Some ''sending''" "vw_attempt v = Some a" "vw_typed v = 0"
    and h: "names pane mid h"
  shows "can pane mid (deliver_reserved lib pane mid task h a) v"
  unfolding deliver_reserved_def
proof (rule can_bind [where Q = "\<lambda>r v'. (v' = v \<or> v' = noted v) \<and> (\<not> isl r \<longrightarrow> vw_note v' \<noteq> None)"])
  have mid: "as_str (jget h ''message_id'') = Some mid" using h by (simp add: names_def)
  show "ends pane mid (\<lambda>r v'. (v' = v \<or> v' = noted v) \<and> (\<not> isl r \<longrightarrow> vw_note v' \<noteq> None)) (materialise lib h) v"
    by (rule ends_materialise [OF ok]) (use mid in auto)
next
  fix m :: "materialise_error + status" and v'
  assume m: "(v' = v \<or> v' = noted v) \<and> (\<not> isl m \<longrightarrow> vw_note v' \<noteq> None)"
  then have v': "view_ok v'" "vw_state v' = Some ''sending''" "vw_attempt v' = Some a" "vw_typed v' = 0"
    using ok st view_step_ok [OF noted_step [OF ok]] by auto
  have settled: "can pane mid (settle h mid notify ns reason tid (Some a)) v'"
    if "notify \<noteq> ''sent''" "ns = ''undeliverable'' \<or> ns = ''pending''" for notify ns reason tid
    by (rule can_settle [OF v'(1,2) _ v'(3) h that(1)]) (use that v' in \<open>auto simp: final_set\<close>)
  show "can pane mid (case m of
         Inl (Dispatch_Paused reason) \<Rightarrow> settle h mid ''queued'' ''pending'' reason None (Some a)
       | Inl (Not_Materialised e) \<Rightarrow>
           settle h mid ''undeliverable'' ''undeliverable'' (''delivery_error: '' @ tl_show lib e) None (Some a)
       | Inr _ \<Rightarrow>
           bind_program (gate lib pane) (\<lambda>final_reason.
             case final_reason of
               Some reason \<Rightarrow> settle h mid ''queued'' ''pending'' reason None (Some a)
             | None \<Rightarrow> deliver_line lib pane mid task h a)) v'"
  proof (cases m)
    case (Inl e)
    then show ?thesis by (cases e) (simp_all add: settled)
  next
    case (Inr s)
    have "can pane mid (deliver_line lib pane mid task h a) v'"
      by (rule can_deliver_line [OF v'(1-3) _ v'(4) h]) (use m Inr in auto)
    then show ?thesis
      unfolding Inr sum.case
      by (intro can_quiet_bind v'(1)) (auto simp: settled split: option.split)
  qed
qed

text \<open>What a delivery read of its handoff is what the view says.\<close>

lemma own_view:
  assumes "view_ok v" "view pane mid w = v" "job pane mid w = Some h"
  obtains a where "names pane mid h" "vw_state v = Some (job_state h)" "vw_attempt v = Some a" "job_attempt h = Some a"
proof -
  have "names pane mid h" using job_here [OF assms(3)] by (simp add: names_def)
  moreover have "vw_state v = Some (job_state h)" "vw_attempt v = job_attempt h"
    using view_job [OF assms(3)] assms(2) by auto
  moreover obtain a where "vw_attempt v = Some a" using view_okE [OF assms(1) calculation(2)] by blast
  ultimately show ?thesis by (intro that [of a]) auto
qed

lemma can_reason:
  assumes ok: "view_ok v" and h: "names pane mid h"
  shows "can pane mid (update_job h None [(''reason'', r)]) v"
proof (subst bind_Done [symmetric], rule can_update_bind [OF ok])
  show "as_str (jget h ''pane_id'') = Some pane" "as_str (jget h ''message_id'') = Some mid"
    using h by (simp_all add: names_def)
  show "plain_keys [(''reason'', r)]" by (simp add: plain_keys_def)
next
  fix w old assume w: "view pane mid w = v" "job pane mid w = Some old"
  have "v\<lparr>vw_state := Some (job_state (jextend old [(''reason'', r)])), vw_attempt := job_attempt (jextend old [(''reason'', r)]),
      vw_watched := has_key ''observed_turn'' (jextend old [(''reason'', r)])\<rparr> = v"
    unfolding job_jextend using view_job [OF w(2)] w(1) by auto
  then show "let h' = jextend old [(''reason'', r)];
        v' = v\<lparr>vw_state := Some (job_state h'), vw_attempt := job_attempt h', vw_watched := has_key ''observed_turn'' h'\<rparr>
      in view_step v v' \<and> can pane mid (Done (ok (Some h'))) v'"
    using ok by (simp add: Let_def view_step_refl can_Done)
qed (simp add: can_Done ok)

lemma retry_bound:
  assumes "as_str (jget (delivery_retry_plan p a prev now m gap) ''action'') \<noteq> Some ''stop''"
  shows "a < m"
  using assms by (auto simp: delivery_retry_plan_def Let_def as_str_def split: if_splits)

lemma saturating_succ_small: "0 \<le> a \<Longrightarrow> a < int SUBMIT_ATTEMPTS \<Longrightarrow> saturating_succ a = a + 1"
  by (simp add: saturating_succ_def SUBMIT_ATTEMPTS_def SUBMIT_GAPS_def)

lemma can_reserve:
  assumes ok: "view_ok v" and h: "names pane mid h" "vw_state v = Some (job_state h)" "vw_attempt v = Some a"
    and st: "job_state h \<notin> set final_states" "job_state h \<noteq> ''sending''" "job_state h \<noteq> ''sent''"
    and a: "a < int SUBMIT_ATTEMPTS"
  shows "can pane mid (bind_ok (update_job h expected (reservation w0 a)) (\<lambda>reserved.
       case reserved of
         None \<Rightarrow> Done (ok None)
       | Some reserved \<Rightarrow> deliver_reserved lib pane mid task reserved (saturating_succ a))) v"
  unfolding bind_ok_def
proof (rule can_update_bind [OF ok])
  show "as_str (jget h ''pane_id'') = Some pane" "as_str (jget h ''message_id'') = Some mid"
    using h(1) by (simp_all add: names_def)
  show plain: "plain_keys (reservation w0 a)" by (simp add: plain_keys_def reservation_def)
  note r = reserve_step [OF ok h(2,3) a st]
  have "0 \<le> a" using view_ok_state [OF ok h(2,3)] good_stateD(1) by blast
  then have succ: "saturating_succ a = a + 1" "json_i64 (Some (JInt (a + 1))) = Some (a + 1)"
    using a by (simp_all add: saturating_succ_small json_i64_def SUBMIT_ATTEMPTS_def SUBMIT_GAPS_def)
  fix w old assume w: "view pane mid w = v" "job pane mid w = Some old"
  let ?v = "v\<lparr>vw_state := Some ''sending'', vw_attempt := Some (a + 1)\<rparr>"
  have "v\<lparr>vw_state := Some (job_state (jextend old (reservation w0 a))),
      vw_attempt := job_attempt (jextend old (reservation w0 a)),
      vw_watched := has_key ''observed_turn'' (jextend old (reservation w0 a))\<rparr> = ?v"
    unfolding job_jextend using view_job [OF w(2)] w(1) succ by (auto simp: reservation_def as_str_def or_empty_def)
  moreover have "names pane mid (jextend old (reservation w0 a))"
    using job_here [OF w(2)] by (intro names_jextend [OF _ plain]) (simp add: names_def)
  then have "can pane mid (deliver_reserved lib pane mid task (jextend old (reservation w0 a)) (a + 1)) ?v"
    by (intro can_deliver_reserved) (use view_step_ok [OF r(2)] r(1) in simp_all)
  ultimately show "let h' = jextend old (reservation w0 a);
        v' = v\<lparr>vw_state := Some (job_state h'), vw_attempt := job_attempt h', vw_watched := has_key ''observed_turn'' h'\<rparr>
      in view_step v v' \<and> can pane mid (case ok (Some h') of Inl e \<Rightarrow> Done (Inl e) | Inr reserved \<Rightarrow>
          (case reserved of None \<Rightarrow> Done (ok None)
           | Some reserved \<Rightarrow> deliver_reserved lib pane mid task reserved (saturating_succ a))) v'"
    using r(2) by (simp add: Let_def succ)
next
  fix r :: "handoff option result"
  assume "\<not> (pane = pane \<and> mid = mid \<and> (\<exists>h'. r = ok (Some h')))"
  then show "can pane mid (case r of Inl e \<Rightarrow> Done (Inl e) | Inr reserved \<Rightarrow>
      (case reserved of None \<Rightarrow> Done (ok None)
       | Some reserved \<Rightarrow> deliver_reserved lib pane mid task reserved (saturating_succ a))) v"
    by (auto intro: can_Done ok split: sum.split option.split)
qed

lemma can_deliver_pending:
  assumes ok: "view_ok v" and h: "names pane mid h" "vw_state v = Some (job_state h)" "vw_attempt v = Some a" "job_attempt h = Some a"
    and st: "job_state h \<notin> set final_states" "job_state h \<noteq> ''sending''" "job_state h \<noteq> ''sent''"
  shows "can pane mid (deliver_pending lib pane mid task h d) v"
proof -
  have end0: "can pane mid (Done (ok x) :: (world, handoff option result) program) v" for x by (rule can_end [OF ok])
  have settled: "can pane mid (settle h mid ''undeliverable'' ''undeliverable'' r tid (Some a)) v" for r tid
    by (rule can_settle [OF ok h(2) st(1) h(3,1)]) auto
  have held: "can pane mid (bind_ok (record_next_job_notify mid ''queued'' (Some r) None (Some a))
      (\<lambda>_. update_job h None [(''reason'', JStr r)])) v" for r
  proof -
    have s: "view_step v (v\<lparr>vw_note := map_option (\<lambda>(s, x). (Some ''queued'', opt_or (Some a) x)) (vw_note v)\<rparr>)"
      using note_step [OF ok h(2,3)] by simp
    show ?thesis by (rule can_notify_ok [OF ok s]) (simp_all add: can_reason [OF view_step_ok [OF s] h(1)])
  qed
  have attempt: "can pane mid (bind_program (ask (\<lambda>w. delivery_retry_plan (os_pacing (wd_outside w)) a (as_f64 (jget h ''attempt_at''))
         (now_s (wd_env w)) (int SUBMIT_ATTEMPTS) None)) (\<lambda>retry.
       if as_str (jget retry ''action'') = Some ''wait'' then Done (ok (Some h))
       else if as_str (jget retry ''action'') = Some ''stop''
       then settle h mid ''undeliverable'' ''undeliverable''
              (case as_str (jget retry ''reason'') of Some r \<Rightarrow> r | None \<Rightarrow> ''retry_exhausted'') None (Some a)
       else if \<not> claim_holds d pane
       then settle h mid ''undeliverable'' ''undeliverable'' ''claim_no_longer_valid'' None (Some a)
       else
     bind_program (ask (\<lambda>w. reservation w a)) (\<lambda>changes.
     bind_ok (update_job h
         (Some [(''state'', or_null (jget h ''state'')), (''attempt'', JInt a)]) changes) (\<lambda>reserved.
       case reserved of
         None \<Rightarrow> Done (ok None)
       | Some reserved \<Rightarrow> deliver_reserved lib pane mid task reserved (saturating_succ a))))) v" (is "can _ _ (bind_program (ask ?p) ?k) v")
  proof (rule can_ask_bind0 [OF ok])
    fix w
    let ?a = "as_str (jget (?p w) ''action'')"
    show "can pane mid (?k (?p w)) v"
    proof (cases "?a = Some ''wait'' \<or> ?a = Some ''stop'' \<or> \<not> claim_holds d pane")
      case True
      then show ?thesis using end0 settled by (simp only: split: if_split) blast
    next
      case False
      then have n: "?a \<noteq> Some ''wait''" "?a \<noteq> Some ''stop''" "claim_holds d pane" by blast+
      then have a: "a < int SUBMIT_ATTEMPTS" by (intro retry_bound [of _ a])
      show ?thesis
        by (simp only: n if_False simp_thms)
           (rule can_ask_bind0 [OF ok], rule can_reserve [OF ok h(1-3) st a])
    qed
  qed
  show ?thesis
    unfolding deliver_pending_def
  proof (rule can_quiet_bind [OF quiet_gate ok])
    fix reason
    show "can pane mid (case reason of
         Some reason \<Rightarrow>
           if as_str (jget h ''reason'') = Some reason then Done (ok (Some h))
           else bind_ok (record_next_job_notify mid ''queued'' (Some reason) None (job_attempt h)) (\<lambda>_.
             update_job h None [(''reason'', JStr reason)])
       | None \<Rightarrow>
     bind_program (ask (\<lambda>w. os_turn_active (wd_outside w) pane)) (\<lambda>active.
       if active then Done (ok (Some h))
       else case job_attempt h of
         None \<Rightarrow> Done (refused (Text ''missing next-job attempt''))
       | Some attempt \<Rightarrow>
     bind_program (ask (\<lambda>w. delivery_retry_plan (os_pacing (wd_outside w)) attempt (as_f64 (jget h ''attempt_at''))
         (now_s (wd_env w)) (int SUBMIT_ATTEMPTS) None)) (\<lambda>retry.
       if as_str (jget retry ''action'') = Some ''wait'' then Done (ok (Some h))
       else if as_str (jget retry ''action'') = Some ''stop''
       then settle h mid ''undeliverable'' ''undeliverable''
              (case as_str (jget retry ''reason'') of Some r \<Rightarrow> r | None \<Rightarrow> ''retry_exhausted'') None (Some attempt)
       else if \<not> claim_holds d pane
       then settle h mid ''undeliverable'' ''undeliverable'' ''claim_no_longer_valid'' None (Some attempt)
       else
     bind_program (ask (\<lambda>w. reservation w attempt)) (\<lambda>changes.
     bind_ok (update_job h
         (Some [(''state'', or_null (jget h ''state'')), (''attempt'', JInt attempt)]) changes) (\<lambda>reserved.
       case reserved of
         None \<Rightarrow> Done (ok None)
       | Some reserved \<Rightarrow> deliver_reserved lib pane mid task reserved (saturating_succ attempt)))))) v"
    proof (cases reason)
      case None
      show ?thesis
        unfolding None h(4) option.case
        by (rule can_ask_bind0 [OF ok]) (use end0 attempt in \<open>simp only: split: if_split, blast\<close>)
    next
      case (Some r)
      show ?thesis
        unfolding Some h(4) option.case using end0 held by (simp only: split: if_split) blast
    qed
  qed
qed

lemma can_deliver_interrupted:
  assumes ok: "view_ok v" and h: "names pane mid h" "vw_state v = Some (job_state h)" "vw_attempt v = Some a" "job_attempt h = Some a"
    and st: "job_state h = ''sending''"
  shows "can pane mid (deliver_interrupted pane mid h) v"
proof -
  have f: "job_state h \<notin> set final_states" by (simp add: st final_set)
  have sv: "vw_state v = Some ''sending''" using h(2) st by simp
  note g = view_ok_state [OF ok h(2,3)]
  have t0: "vw_typed v = 0" if "\<nexists>r. vw_note v = Some (r, Some a)"
  proof -
    have "vw_typed v \<noteq> 1" using good_stateD(6) [OF g] that st by auto
    then show ?thesis using good_stateD(3) [OF g] by simp
  qed
  have pending: "can pane mid (update_job h None (set_state ''pending'' r)) v" if "vw_typed v = 0" for r
    by (rule can_set_state_end [OF ok h(1) only_set_state]) (rule state_step [OF ok h(2) f], use that in simp)
  have settled: "can pane mid (settle h mid ''undeliverable'' ''undeliverable'' r tid (Some a)) v" for r tid
    by (rule can_settle [OF ok h(2) f h(3,1)]) auto
  have sent: "can pane mid (bind_ok (update_job h None
                   [(''state'', JStr ''sent''), (''reason'', JNull), (''transport_id'', x), (''delivered_at'', y)]) (\<lambda>updated.
                 case updated of
                   None \<Rightarrow> Done (ok None)
                 | Some h \<Rightarrow> bind_ok (bind_turn_locked pane) (\<lambda>_. Done (ok (Some h))))) v" if t: "vw_typed v = 1" for x y
    unfolding bind_ok_def
  proof (rule can_set_state [OF ok h(1)])
    show s: "view_step v (v\<lparr>vw_state := Some ''sent''\<rparr>)" by (rule state_step [OF ok h(2) f]) (use t in simp)
    show "only_state [(''state'', JStr ''sent''), (''reason'', JNull), (''transport_id'', x), (''delivered_at'', y)] ''sent''"
      by (simp add: only_state_def plain_keys_def)
    fix h'
    have "steady pane mid (bind_ok (bind_turn_locked pane) (\<lambda>_. Done (ok (Some h'))))"
      by (rule steady_bind_ok [OF steady_bind_turn_locked]) simp
    then show "can pane mid (case ok (Some h') of Inl e \<Rightarrow> Done (Inl e) | Inr updated \<Rightarrow>
        (case updated of None \<Rightarrow> Done (ok None) | Some h \<Rightarrow>
          bind_program (bind_turn_locked pane) (\<lambda>r. case r of Inl e \<Rightarrow> Done (Inl e) | Inr x \<Rightarrow> Done (ok (Some h)))))
        (v\<lparr>vw_state := Some ''sent''\<rparr>)"
      using view_step_ok [OF s] by (simp add: steady_def bind_ok_def)
  next
    fix r :: "handoff option result" assume "\<forall>h'. r \<noteq> ok (Some h')"
    then show "can pane mid (case r of Inl e \<Rightarrow> Done (Inl e) | Inr updated \<Rightarrow>
        (case updated of None \<Rightarrow> Done (ok None) | Some h \<Rightarrow>
          bind_program (bind_turn_locked pane) (\<lambda>r. case r of Inl e \<Rightarrow> Done (Inl e) | Inr x \<Rightarrow> Done (ok (Some h))))) v"
      by (auto intro: can_Done ok split: sum.split option.split)
  qed
  have after: "can pane mid (case read_status mid w of
         Inl _ \<Rightarrow> update_job h None (set_state ''pending'' (JStr ''interrupted_before_inbox''))
       | Inr receipt \<Rightarrow>
           let attempt = (case job_attempt h of Some i \<Rightarrow> i | None \<Rightarrow> 0) in
           if ss_notify_attempt receipt \<noteq> Some attempt
           then update_job h None (set_state ''pending'' (JStr ''interrupted_before_transport''))
           else if ss_notify_state receipt = Some ''sent''
           then bind_ok (update_job h None
                   [(''state'', JStr ''sent''), (''reason'', JNull),
                    (''transport_id'', json_opt_str (ss_notify_transport_id receipt)),
                    (''delivered_at'', case ss_notify_at receipt of Some t \<Rightarrow> JReal t | None \<Rightarrow> JNull)]) (\<lambda>updated.
                 case updated of
                   None \<Rightarrow> Done (ok None)
                 | Some h \<Rightarrow> bind_ok (bind_turn_locked pane) (\<lambda>_. Done (ok (Some h))))
           else settle h mid ''undeliverable'' ''undeliverable'' ''delivery_interrupted'' None (Some attempt)) v"
    if w: "view pane mid w = v" for w
  proof (cases "get_message mid (wd_mail w)")
    have "os_status_error (wd_outside w) = None" using ok w by (auto simp: view_ok_def view_def)
    then have read: "read_status mid w = mail_status (wd_mail w) mid (now_s (wd_env w))" by (simp add: read_status_def)
    case None
    then have "vw_note v = None" using view_note [of pane mid w] w by (simp add: note_of_def)
    then show ?thesis using None t0 pending by (simp add: read mail_status_def)
  next
    have "os_status_error (wd_outside w) = None" using ok w by (auto simp: view_ok_def view_def)
    then have read: "read_status mid w = mail_status (wd_mail w) mid (now_s (wd_env w))" by (simp add: read_status_def)
    case (Some r)
    have nt: "vw_note v = Some (m_notify_state r, m_notify_attempt r)"
      using view_note [of pane mid w] w Some by (simp add: note_of_def)
    have "vw_typed v = 1" if "m_notify_state r = Some ''sent''"
      using good_stateD(4) [OF g] nt that by simp
    then show ?thesis using t0 pending settled sent nt by (simp add: read mail_status_def Some h(4) Let_def)
  qed
  show ?thesis
    unfolding deliver_interrupted_def
  proof (rule can_ask_bind0 [OF ok], goal_cases)
    case (1 w)
    show ?case
    proof (cases "owner_alive w h")
      case True
      then show ?thesis by (simp add: can_Done ok)
    next
      case False
      then show ?thesis by (simp only: if_False) (rule can_ask_bind [OF ok], rule after)
    qed
  qed
qed

section \<open>Deliveries of other handoffs\<close>

lemma steady_update_names:
  assumes "names p m h" "m \<noteq> mid" "plain_keys changes" "\<And>r. (\<And>h'. r = ok (Some h') \<Longrightarrow> names p m h') \<Longrightarrow> steady pane mid (k r)"
  shows "steady pane mid (bind_program (update_job h expected changes) k)"
  unfolding steady_def
proof (intro allI impI)
  fix v assume ok: "view_ok v"
  show "can pane mid (bind_program (update_job h expected changes) k) v"
    by (rule can_update_bind [OF ok _ _ assms(3)])
       (use assms(1,2,4) ok in \<open>auto simp: names_def steady_def\<close>)
qed

lemma steady_update:
  "names p m h \<Longrightarrow> m \<noteq> mid \<Longrightarrow> plain_keys changes \<Longrightarrow> steady pane mid (update_job h expected changes)"
  using steady_update_names [where k = Done] by (simp del: not_None_eq)

lemma steady_settle:
  "names p m h \<Longrightarrow> m \<noteq> mid \<Longrightarrow> steady pane mid (settle h m notify ns reason tid a)"
  unfolding settle_def
  by (intro steady_bind_ok steady_notify_other steady_update [of p m]) (simp_all add: set_state_def plain_keys_def)

lemma steady_transport: "m \<noteq> mid \<Longrightarrow> steady pane mid (transport lib p m tid a x)"
  unfolding transport_def send_guarded_def in_worker_def with_receipt_def
  by (auto intro!: steady_bind steady_notify_other steady_type_other split: option.split sum.split)

lemma steady_deliver_line:
  assumes "names p m h" "m \<noteq> mid"
  shows "steady pane mid (deliver_line lib p m task h a)"
proof -
  have "plain_keys (outcome_changes r)" for r
    by (cases r) (simp_all add: outcome_changes_def plain_keys_def)
  then show ?thesis
    unfolding deliver_line_def Let_def
    by (auto intro!: steady_bind steady_bind_ok steady_notify_other assms(2) steady_transport steady_settle [OF assms]
        steady_update [OF assms] steady_bind_turn_locked split: option.split transport_result.split sent_result.split)
qed

lemma steady_deliver_reserved:
  assumes "names p m h" "m \<noteq> mid"
  shows "steady pane mid (deliver_reserved lib p m task h a)"
proof -
  have "steady pane mid (materialise lib h)"
    using assms by (intro steady_materialise_other) (simp add: names_def)
  then show ?thesis
    unfolding deliver_reserved_def
    by (auto intro!: steady_bind steady_settle [OF assms] steady_deliver_line [OF assms]
        split: option.split sum.split materialise_error.split)
qed

lemma steady_deliver_pending:
  assumes "names p m h" "m \<noteq> mid"
  shows "steady pane mid (deliver_pending lib p m task h d)"
proof -
  have "plain_keys (reservation w a)" "plain_keys [(''reason'', r)]" for w a r
    by (simp_all add: reservation_def plain_keys_def)
  then show ?thesis
    unfolding deliver_pending_def bind_ok_def
    by (auto intro!: steady_ask_bind steady_bind [OF steady_gate] steady_bind [OF steady_notify_other] assms(2) steady_settle [OF assms] steady_update [OF assms]
        steady_update_names [OF assms] steady_deliver_reserved split: option.split sum.split)
qed

lemma steady_deliver_interrupted:
  assumes "names p m h" "m \<noteq> mid"
  shows "steady pane mid (deliver_interrupted p m h)"
proof -
  have plain: "plain_keys (set_state ns r)" "plain_keys [(''state'', s), (''reason'', r), (''transport_id'', x), (''delivered_at'', y)]"
    for ns r s x y
    by (simp_all add: set_state_def plain_keys_def)
  show ?thesis
    unfolding deliver_interrupted_def Let_def
    by (auto intro!: steady_bind steady_bind_ok assms(2) steady_settle [OF assms] steady_update [OF assms] plain
        steady_bind_turn_locked split: option.split sum.split)
qed

lemma names_found:
  assumes "find (\<lambda>row. as_str (jget row ''message_id'') = Some m) (handoffs_in (Some p) (wd_store w)) = Some h"
  shows "job p m w = Some h" "names p m h"
  using assms job_here [of p m w h] by (simp_all add: job_def handoff_of_reads names_def)

lemma steady_cancel:
  assumes "view_ok v" "names pane mid h" "vw_state v = Some st" "st \<notin> set final_states"
  shows "can pane mid (update_job h None (set_state ''cancelled'' r)) v"
  by (rule can_set_state_end [OF assms(1,2) only_set_state]) (rule state_step [OF assms(1,3,4)], simp)

text \<open>
  A delivery of any handoff, started at any time, at most takes the protocol of this one a
  step further.
\<close>

lemma steady_deliver: "steady pane mid (deliver lib given restart)"
  unfolding deliver_def bind_ok_def bind_program.simps steady_def
proof (intro allI impI)
  fix v assume ok: "view_ok v"
  let ?body = "\<lambda>p m found. case found of
         None \<Rightarrow> Done (ok None)
       | Some h \<Rightarrow>
           if job_state h \<in> set final_states then Done (ok (Some h))
           else case field_of h ''task_id'' of Inl e \<Rightarrow> Done (Inl e) | Inr tid \<Rightarrow>
             bind_program (ask (\<lambda>w. decorate (now_s (wd_env w)) tid (Some p) (wd_store w))) (\<lambda>r. case r of Inl e \<Rightarrow> Done (Inl e)
             | Inr d \<Rightarrow>
               if t_status (d_task d) = ''done'' \<or> t_status (d_task d) = ''cancelled''
               then update_job h None (set_state ''cancelled'' (JStr ''task_finished''))
               else if job_state h = ''sending''
               then (if restart then deliver_interrupted p m h else Done (ok (Some h)))
               else if job_state h = ''sent''
               then bind_program (bind_turn_locked p) (\<lambda>r. case r of Inl e \<Rightarrow> Done (Inl e) | Inr x \<Rightarrow> Done (ok (Some h)))
               else deliver_pending lib p m tid h d)"
  have bound: "steady pane mid (bind_program (bind_turn_locked p)
      (\<lambda>r. case r of Inl e \<Rightarrow> Done (Inl e) | Inr x \<Rightarrow> Done (ok (Some h))))" for p and h :: handoff
    by (rule steady_bind [OF steady_bind_turn_locked]) (simp split: sum.split)
  have body: "can pane mid (?body p m (find (\<lambda>row. as_str (jget row ''message_id'') = Some m) (handoffs_in (Some p) (wd_store w)))) v"
    if w: "view pane mid w = v" for p m w
  proof (cases "find (\<lambda>row. as_str (jget row ''message_id'') = Some m) (handoffs_in (Some p) (wd_store w))")
    case (Some h)
    note h = names_found [OF Some]
    have rest: "can pane mid (if t_status (d_task d) = ''done'' \<or> t_status (d_task d) = ''cancelled''
               then update_job h None (set_state ''cancelled'' (JStr ''task_finished''))
               else if job_state h = ''sending''
               then (if restart then deliver_interrupted p m h else Done (ok (Some h)))
               else if job_state h = ''sent''
               then bind_program (bind_turn_locked p) (\<lambda>r. case r of Inl e \<Rightarrow> Done (Inl e) | Inr x \<Rightarrow> Done (ok (Some h)))
               else deliver_pending lib p m tid h d) v" (is "can _ _ ?rest v")
      if f: "job_state h \<notin> set final_states" for d tid
    proof (cases "m = mid")
      case True
      have "\<forall>q. q \<noteq> pane \<longrightarrow> job q mid w = None" using ok w by (auto simp: view_ok_def view_def)
      then have p: "p = pane" using h(1) True by auto
      obtain a where a: "names pane mid h" "vw_state v = Some (job_state h)" "vw_attempt v = Some a" "job_attempt h = Some a"
        using own_view [OF ok w] h(1) True p by metis
      have "can pane mid (bind_program (bind_turn_locked pane)
          (\<lambda>r. case r of Inl e \<Rightarrow> Done (Inl e) | Inr x \<Rightarrow> Done (ok (Some h)))) v"
        using bound ok by (simp add: steady_def)
      then show ?thesis
        unfolding p True
        using steady_cancel [OF ok a(1,2) f] can_deliver_interrupted [OF ok a] can_deliver_pending [OF ok a f]
        by (auto intro: can_end ok)
    next
      case False
      have "plain_keys (set_state ''cancelled'' (JStr ''task_finished''))" by (simp add: set_state_def plain_keys_def)
      then have "steady pane mid ?rest"
        using bound by (auto intro: steady_update [OF h(2) False] steady_deliver_interrupted [OF h(2) False]
            steady_deliver_pending [OF h(2) False])
      then show ?thesis using ok by (simp add: steady_def)
    qed
    show ?thesis
    proof (cases "job_state h \<in> set final_states")
      case True
      then show ?thesis unfolding Some by (simp add: can_end ok)
    next
      case False
      show ?thesis
      proof (cases "field_of h ''task_id''")
        case (Inr tid)
        show ?thesis
          unfolding Some option.case if_not_P [OF False] Inr sum.case
        proof (rule can_ask_bind0 [OF ok], goal_cases)
          case (1 w')
          show ?case
          proof (cases "decorate (now_s (wd_env w')) tid (Some p) (wd_store w')")
            case (Inr d)
            show ?thesis unfolding Inr sum.case by (rule rest [OF False])
          qed (simp add: can_end ok)
        qed
      qed (simp add: Some False can_end ok)
    qed
  qed (simp add: can_end ok)
  show "can pane mid (case field_of given ''pane_id'' of Inl e \<Rightarrow> Done (Inl e) | Inr p \<Rightarrow>
      (case field_of given ''message_id'' of Inl e \<Rightarrow> Done (Inl e) | Inr m \<Rightarrow>
        bind_program (ask (\<lambda>w. find (\<lambda>row. as_str (jget row ''message_id'') = Some m) (handoffs_in (Some p) (wd_store w))))
          (?body p m))) v"
  proof (cases "field_of given ''pane_id''")
    case (Inr p)
    note pr = Inr
    show ?thesis
    proof (cases "field_of given ''message_id''")
      case (Inr m)
      show ?thesis unfolding pr Inr sum.case by (rule can_ask_bind [OF ok]) (rule body)
    qed (simp add: pr can_end ok)
  qed (simp add: can_end ok)
qed

lemma steady_deliver_all: "steady pane mid (deliver_all lib restart hs)"
  by (induction hs) (auto intro!: steady_bind steady_deliver)

lemma steady_tick: "steady pane mid (tick lib restart)"
  unfolding tick_def by (intro steady_bind steady_ask steady_deliver_all)

section \<open>Observing a turn\<close>

lemma can_observe_all:
  assumes "view_ok v" "\<forall>h \<in> set hs. \<exists>p m. names p m h"
  shows "can pane mid (observe_all turn m0 hs) v"
  using assms
proof (induction hs)
  case (Cons h hs)
  then have IH: "can pane mid (observe_all turn m0 hs) v" by simp
  obtain p m where h: "names p m h" using Cons.prems(2) by auto
  have "can pane mid (bind_ok (update_job h (Some [(''attempt'', JInt attempt), (''observed_turn'', JNull)])
                     [(''observed_turn'', observed_turn turn m0)]) (\<lambda>_. observe_all turn m0 hs)) v" for attempt
    unfolding bind_ok_def
  proof (rule can_update_bind [OF Cons.prems(1)])
    show "as_str (jget h ''pane_id'') = Some p" "as_str (jget h ''message_id'') = Some m"
      using h by (simp_all add: names_def)
    show "plain_keys [(''observed_turn'', observed_turn turn m0)]" by (simp add: plain_keys_def)
  next
    fix w old
    assume w: "view pane mid w = v" "job pane mid w = Some old"
      and wish: "\<And>wish. Some [(''attempt'', JInt attempt), (''observed_turn'', JNull)] = Some wish \<Longrightarrow>
        list_all (\<lambda>(k, v). jget old k = Some v) wish"
    have "has_key ''observed_turn'' old" using wish [OF refl] by (simp add: has_key_def)
    then have "v\<lparr>vw_state := Some (job_state (jextend old [(''observed_turn'', observed_turn turn m0)])),
        vw_attempt := job_attempt (jextend old [(''observed_turn'', observed_turn turn m0)]),
        vw_watched := has_key ''observed_turn'' (jextend old [(''observed_turn'', observed_turn turn m0)])\<rparr> = v"
      unfolding job_jextend using view_job [OF w(2)] w(1) by auto
    then show "let h' = jextend old [(''observed_turn'', observed_turn turn m0)];
          v' = v\<lparr>vw_state := Some (job_state h'), vw_attempt := job_attempt h', vw_watched := has_key ''observed_turn'' h'\<rparr>
        in view_step v v' \<and> can pane mid (case ok (Some h') of Inl e \<Rightarrow> Done (Inl e) | Inr x \<Rightarrow> observe_all turn m0 hs) v'"
      using IH Cons.prems(1) by (simp add: Let_def view_step_refl)
  next
    fix r :: "handoff option result"
    show "can pane mid (case r of Inl e \<Rightarrow> Done (Inl e) | Inr x \<Rightarrow> observe_all turn m0 hs) v"
      using IH Cons.prems(1) by (auto intro: can_end split: sum.split)
  qed
  then show ?case using IH by (simp split: option.split)
qed (simp add: can_end)

lemma steady_observe_turn: "steady pane mid (observe_turn free p turn)"
proof -
  have "can pane mid (observe_all turn m (handoffs_in (Some p) (wd_store w))) v" if "view_ok v" for m w v
    by (rule can_observe_all [OF that]) (auto elim!: listed_handoff simp: names_def)
  then have "steady pane mid (observe_all turn m (handoffs_in (Some p) (wd_store w)))" for m w by (simp add: steady_def)
  then show ?thesis
    unfolding observe_turn_def
    by (auto intro!: steady_ask_bind steady_bind_ok steady_bind_turn split: option.split)
qed

section \<open>The lane as a machine\<close>

text \<open>
  One lane over time. Its lock lets one program run at once. Between two steps others may change
  whatever is not the handoff's view: the tasks, the other handoffs and their mail, the clock,
  the terminal, the errors of its worker and of writing receipts. What they must leave alone is
  the contract of the lane: they neither rewrite the handoff nor delete its mail or rewrite its
  receipt, nor keep receipts from being read. The process may stop at any point and lose the
  rest of the program.
\<close>

datatype lane_job = Deliver_Job handoff bool | Bind_Job bool string | Observe_Job bool string turn_state | Tick_Job bool

fun lane_program :: "text_lib \<Rightarrow> lane_job \<Rightarrow> (world, unit) program" where
  "lane_program lib (Deliver_Job h restart) = bind_program (deliver lib h restart) (\<lambda>_. Done ())"
| "lane_program lib (Bind_Job free p) = bind_program (bind_turn free p) (\<lambda>_. Done ())"
| "lane_program lib (Observe_Job free p turn) = bind_program (observe_turn free p turn) (\<lambda>_. Done ())"
| "lane_program lib (Tick_Job restart) = tick lib restart"

inductive lane_reach ::
    "text_lib \<Rightarrow> string \<Rightarrow> string \<Rightarrow> world \<Rightarrow> world \<Rightarrow> (world, unit) program option \<Rightarrow> bool"
  for lib pane mid w0 where
  lane_start: "lane_reach lib pane mid w0 w0 None"
| lane_launch: "lane_reach lib pane mid w0 w None \<Longrightarrow> lane_reach lib pane mid w0 w (Some (lane_program lib j))"
| lane_others: "lane_reach lib pane mid w0 w r \<Longrightarrow> same_view pane mid w w' \<Longrightarrow> lane_reach lib pane mid w0 w' r"
| lane_run: "lane_reach lib pane mid w0 w (Some (Step g)) \<Longrightarrow> g w = (w', p) \<Longrightarrow> lane_reach lib pane mid w0 w' (Some p)"
| lane_finish: "lane_reach lib pane mid w0 w (Some (Done x)) \<Longrightarrow> lane_reach lib pane mid w0 w None"
| lane_crash: "lane_reach lib pane mid w0 w (Some p) \<Longrightarrow> lane_reach lib pane mid w0 w None"

lemma steady_lane_program: "steady pane mid (lane_program lib j)"
  by (cases j) (auto intro!: steady_bind steady_deliver steady_bind_turn steady_observe_turn steady_tick)

definition view_past :: "view \<Rightarrow> view \<Rightarrow> bool" where
  "view_past v v' \<longleftrightarrow> view_ok v'
     \<and> (\<forall>st \<in> set final_states. vw_state v = Some st \<longrightarrow> vw_state v' = Some st)
     \<and> vw_typed v \<le> vw_typed v' \<and> vw_watched v' = vw_watched v
     \<and> (vw_state v' = None \<longleftrightarrow> vw_state v = None)
     \<and> (\<forall>a b. vw_state v \<noteq> None \<longrightarrow> vw_attempt v = Some a \<longrightarrow> vw_attempt v' = Some b \<longrightarrow> a \<le> b)"

lemma view_past_refl: "view_ok v \<Longrightarrow> view_past v v"
  by (simp add: view_past_def)

lemma view_past_step:
  assumes "view_past v v'" "view_step v' v''"
  shows "view_past v v''"
proof -
  have "a \<le> b" if a: "vw_state v \<noteq> None" "vw_attempt v = Some a" "vw_attempt v'' = Some b" for a b
  proof -
    obtain st where st: "vw_state v' = Some st" using assms(1) a(1) by (auto simp: view_past_def)
    have "view_ok v'" using assms(1) by (simp add: view_past_def)
    then obtain c where c: "vw_attempt v' = Some c" using st by (rule view_okE)
    have "a \<le> c" using assms(1) a(1,2) c unfolding view_past_def by blast
    also have "c \<le> b" using assms(2) c a(3) unfolding view_step_def by blast
    finally show ?thesis .
  qed
  moreover have "vw_typed v \<le> vw_typed v''"
    using assms unfolding view_past_def view_step_def by (meson order_trans)
  moreover have "view_ok v''" "vw_watched v'' = vw_watched v" "vw_state v'' = None \<longleftrightarrow> vw_state v = None"
    using assms by (simp_all add: view_past_def view_step_def)
  moreover have "\<forall>st \<in> set final_states. vw_state v = Some st \<longrightarrow> vw_state v'' = Some st"
    using assms unfolding view_past_def view_step_def by blast
  ultimately show ?thesis unfolding view_past_def by blast
qed

lemma lane_keeps:
  assumes "lane_reach lib pane mid w0 w r" "view_ok (view pane mid w0)"
  shows "view_past (view pane mid w0) (view pane mid w)
    \<and> (case r of None \<Rightarrow> True
       | Some p \<Rightarrow> safe (same_view pane mid) (moves_view pane mid) (\<lambda>_ w. view_ok (view pane mid w)) p w)"
  using assms
proof (induction rule: lane_reach.induct)
  case lane_start
  then show ?case by (simp add: view_past_refl)
next
  case (lane_launch w j)
  then have "view_ok (view pane mid w)" by (simp add: view_past_def)
  then show ?case using lane_launch steady_lane_program [of pane mid lib j] by (simp add: steady_def ends_def)
next
  case (lane_others w r w')
  have "transp (same_view pane mid)" by (auto simp: transp_def same_view_def)
  then show ?case using lane_others by (auto simp: same_view_def intro: safe_moved split: option.split)
next
  case (lane_run w g w' p)
  have "same_view pane mid w w" by (simp add: same_view_def)
  then have m: "moves_view pane mid w w'"
    and safe: "safe (same_view pane mid) (moves_view pane mid) (\<lambda>_ w. view_ok (view pane mid w)) p w'"
    using lane_run by (fastforce simp: safe_Step)+
  have "view_past (view pane mid w0) (view pane mid w)" using lane_run by simp
  then have "view_past (view pane mid w0) (view pane mid w')"
    using m by (auto simp: moves_view_def intro: view_past_step)
  with safe show ?case by simp
qed auto

lemma lane_reach_run:
  assumes "lane_reach lib pane mid w0 w (Some p)"
  shows "lane_reach lib pane mid w0 (snd (run_program p w)) None"
  using assms
proof (induction p arbitrary: w rule: program_induct)
  case (Done x)
  then show ?case by (simp add: lane_finish)
next
  case (Step g)
  have "lane_reach lib pane mid w0 (fst (g w)) (Some (snd (g w)))"
    by (rule lane_run [OF Step.prems]) simp
  from Step.IH [OF this] show ?case by (simp add: run_Step)
qed

lemma lane_reach_job:
  "lane_reach lib pane mid w0 w None \<Longrightarrow> lane_reach lib pane mid w0 (snd (run_program (lane_program lib j) w)) None"
  by (rule lane_reach_run [OF lane_launch])

section \<open>What a lane is promised\<close>

text \<open>
  A handoff as \<^const>\<open>advance_next_job\<close> and the allocator journal it: pending, no attempt made, no
  turn looked for, no mail and nothing typed under its id yet; receipts can be read, and the
  terminal does not report a failed key in the words of a held box.
\<close>

definition just_journaled :: "string \<Rightarrow> string \<Rightarrow> world \<Rightarrow> bool" where
  "just_journaled pane mid w \<longleftrightarrow>
     (case job pane mid w of
        None \<Rightarrow> False
      | Some h \<Rightarrow> job_state h = ''pending'' \<and> job_attempt h = Some 0 \<and> \<not> has_key ''observed_turn'' h)
     \<and> metas_ok (wd_store w) \<and> (\<forall>p. p \<noteq> pane \<longrightarrow> job p mid w = None)
     \<and> get_message mid (wd_mail w) = None \<and> typed_count mid w = 0
     \<and> os_status_error (wd_outside w) = None
     \<and> \<not> starts_with (snd (tm_key (os_terminal (wd_outside w)))) BOX_HOLD"

lemma just_journaled_ok:
  assumes "just_journaled pane mid w"
  shows "view_ok (view pane mid w)" "\<not> vw_watched (view pane mid w)" "vw_state (view pane mid w) = Some ''pending''"
  using assms
  by (auto simp: just_journaled_def view_def view_ok_def good_state_def note_of_def lines_in_lane_def list_all_iff
      typed_count_def filter_empty_conv split: option.splits)

lemma lane_view:
  assumes "lane_reach lib pane mid w0 w r" "just_journaled pane mid w0" "job pane mid w = Some h"
  obtains a where "job_attempt h = Some a"
    "good_state (job_state h) a False (note_of mid (wd_mail w)) (typed_count mid w)"
proof -
  note k = lane_keeps [OF assms(1) just_journaled_ok(1) [OF assms(2)]]
  have v: "view_ok (view pane mid w)" "\<not> vw_watched (view pane mid w)"
    using k just_journaled_ok(2) [OF assms(2)] by (auto simp: view_past_def)
  obtain a where "vw_attempt (view pane mid w) = Some a"
    "good_state (job_state h) a (vw_watched (view pane mid w)) (vw_note (view pane mid w)) (vw_typed (view pane mid w))"
    by (rule view_okE [OF v(1) view_job(1) [OF assms(3)]])
  then show ?thesis using that [of a] view_job [OF assms(3)] v(2) by (simp add: view_def)
qed

text \<open>A lane whose terminal takes the line, for the witnesses.\<close>

definition demo_lib :: text_lib where
  "demo_lib = \<lparr>tl_lower = (\<lambda>s. s), tl_number = (\<lambda>_. []), tl_show = (\<lambda>_. [])\<rparr>"

definition demo_terminal :: terminal where
  "demo_terminal = \<lparr>tm_lock_error = None, tm_dead = None, tm_process_gone = False, tm_box = None, tm_dead_late = None,
     tm_input = (True, []), tm_receipt = True, tm_key = (True, []), tm_confirm = (True, ''sent'')\<rparr>"

definition demo_outside :: outside where
  "demo_outside = \<lparr>os_env = Some (\<lambda>k. if k = ''DUNKINGSHEEP_DISPATCH_LANES'' then Some ''w:1'' else None),
     os_lanes = Some [JObj [(''pane_id'', JStr ''w:1'')]], os_config = Config_Missing, os_registry = Some (\<lambda>_. None),
     os_mailbox = (\<lambda>p. ok (''box'', Some p)), os_own_mailbox = (\<lambda>_. Some ''box''), os_lane_panes = [],
     os_queued = (\<lambda>_. False), os_turn_active = (\<lambda>_. False), os_alive = (\<lambda>_ _. False), os_pid = 7, os_start = None,
     os_uuid = ''a2'', os_pacing = demo_pacing, os_factory = ok (), os_worker_error = None, os_status_error = None,
     os_notify_error = None, os_terminal = demo_terminal\<rparr>"

definition demo_world :: world where
  "demo_world = \<lparr>wd_desk = \<lparr>dk_store = (snd (demo_turn demo_assigned))\<lparr>st_offers := Some []\<rparr>, dk_workers = [], dk_reviews = []\<rparr>,
     wd_mail = empty_mail, wd_env = demo_env, wd_outside = demo_outside, wd_typed = []\<rparr>"

definition demo_ticked :: world where
  "demo_ticked = snd (run_program (lane_program demo_lib (Tick_Job False)) demo_world)"

lemma handoff_of_other_actor:
  "list_all (\<lambda>e. e_actor e \<noteq> Some p) (next_job_events s) \<Longrightarrow> handoff_of p mid s = None"
proof -
  assume "list_all (\<lambda>e. e_actor e \<noteq> Some p) (next_job_events s)"
  then have "mid \<notin> fst ` set (handoff_table (Some p) s)"
    by (auto simp: list_all_iff handoff_entry_Some dest!: table_entry)
  then show ?thesis by (simp add: handoff_of_def map_of_eq_None_iff)
qed

lemma demo_journaled: "just_journaled ''w:1'' ''nj-a1'' demo_world"
proof -
  have "case job ''w:1'' ''nj-a1'' demo_world of None \<Rightarrow> False
      | Some h \<Rightarrow> job_state h = ''pending'' \<and> job_attempt h = Some 0 \<and> jget h ''observed_turn'' = None" by code_simp
  moreover have "metas_ok (wd_store demo_world)" by code_simp
  moreover have "list_all (\<lambda>e. e_actor e = Some ''w:1'') (next_job_events (wd_store demo_world))" by code_simp
  then have "job p ''nj-a1'' demo_world = None" if "p \<noteq> ''w:1''" for p
    unfolding job_def using that by (intro handoff_of_other_actor) (auto simp: list_all_iff)
  moreover have "get_message ''nj-a1'' (wd_mail demo_world) = None" by code_simp
  moreover have "typed_count ''nj-a1'' demo_world = 0" by code_simp
  moreover have "os_status_error (wd_outside demo_world) = None" by code_simp
  moreover have "\<not> starts_with (snd (tm_key (os_terminal (wd_outside demo_world)))) BOX_HOLD" by code_simp
  ultimately show ?thesis unfolding just_journaled_def has_key_def by (simp split: option.splits)
qed

lemma demo_ticked_reach: "lane_reach demo_lib ''w:1'' ''nj-a1'' demo_world demo_ticked None"
  unfolding demo_ticked_def by (rule lane_reach_job [OF lane_start])

lemma demo_ticked_job:
  obtains h where "job ''w:1'' ''nj-a1'' demo_ticked = Some h" "job_state h = ''sent''" "typed_count ''nj-a1'' demo_ticked = 1"
proof -
  have "case job ''w:1'' ''nj-a1'' demo_ticked of None \<Rightarrow> False
      | Some h \<Rightarrow> job_state h = ''sent'' \<and> typed_count ''nj-a1'' demo_ticked = 1" by code_simp
  then show ?thesis by (auto intro: that split: option.splits)
qed

text \<open>
  C3: At most one line is ever typed for a handoff, in its lane and with the text of a handoff,
  however often its delivery is tried, wherever the process stops, and whatever the terminal,
  its worker and the writing of receipts fail at. It holds while others leave the handoff and
  its receipt alone and receipts can be read, and for a terminal that does not report a failed
  key in the words of a held box. Once the line was typed, the handoff is settled, or it is
  being sent and its receipt names the attempt, so that a restart settles it.
\<close>

theorem line_is_typed_at_most_once:
  assumes "just_journaled pane mid w0" "lane_reach lib pane mid w0 w r"
  shows "typed_count mid w \<le> 1 \<and> lines_in_lane pane mid w
    \<and> (\<forall>h. job pane mid w = Some h \<longrightarrow> typed_count mid w = 1 \<longrightarrow> job_state h \<in> set typed_states
         \<or> job_state h = ''sending''
           \<and> (\<exists>m. get_message mid (wd_mail w) = Some m \<and> m_notify_attempt m = job_attempt h))"
proof (intro conjI allI impI)
  have "view_ok (view pane mid w)"
    using lane_keeps [OF assms(2) just_journaled_ok(1) [OF assms(1)]] by (simp add: view_past_def)
  then show "typed_count mid w \<le> 1" "lines_in_lane pane mid w" by (simp_all add: view_ok_def view_def)
next
  fix h assume h: "job pane mid w = Some h" "typed_count mid w = 1"
  obtain a where "job_attempt h = Some a" "good_state (job_state h) a False (note_of mid (wd_mail w)) (typed_count mid w)"
    by (rule lane_view [OF assms(2,1) h(1)])
  then show "job_state h \<in> set typed_states \<or> job_state h = ''sending''
      \<and> (\<exists>m. get_message mid (wd_mail w) = Some m \<and> m_notify_attempt m = job_attempt h)"
    using good_stateD(6) h(2) by (fastforce simp: note_of_def)
qed

theorem line_is_typed_at_most_once_witness:
  "typed_count ''nj-a1'' demo_ticked = 1 \<and> typed_count ''nj-a1'' demo_ticked \<le> 1"
  using line_is_typed_at_most_once [OF demo_journaled demo_ticked_reach] demo_ticked_job by blast

text \<open>
  C18: What is reported as sent was typed: a handoff in the state \<^verbatim>\<open>sent\<close>, and one whose mail has a
  receipt that says so, have exactly one line in the lane, while others leave the handoff and
  its receipt alone and receipts can be read.
\<close>

theorem sent_was_typed:
  assumes "just_journaled pane mid w0" "lane_reach lib pane mid w0 w r" "job pane mid w = Some h"
    and "job_state h = ''sent'' \<or> (\<exists>m. get_message mid (wd_mail w) = Some m \<and> m_notify_state m = Some ''sent'')"
  shows "typed_count mid w = 1 \<and> lines_in_lane pane mid w"
proof -
  obtain a where g: "good_state (job_state h) a False (note_of mid (wd_mail w)) (typed_count mid w)"
    by (rule lane_view [OF assms(2,1,3)])
  have "typed_count mid w = 1"
    using assms(4)
  proof (elim disjE exE conjE)
    show "job_state h = ''sent'' \<Longrightarrow> typed_count mid w = 1" by (rule good_stateD(5) [OF g])
    fix m assume "get_message mid (wd_mail w) = Some m" "m_notify_state m = Some ''sent''"
    then have "note_of mid (wd_mail w) = Some (Some ''sent'', m_notify_attempt m)" by (simp add: note_of_def)
    then show "typed_count mid w = 1" by (rule good_stateD(4) [OF g])
  qed
  moreover have "view_ok (view pane mid w)"
    using lane_keeps [OF assms(2) just_journaled_ok(1) [OF assms(1)]] by (simp add: view_past_def)
  ultimately show ?thesis by (simp add: view_ok_def view_def)
qed

theorem sent_was_typed_witness:
  "\<exists>h. job ''w:1'' ''nj-a1'' demo_ticked = Some h \<and> job_state h = ''sent'' \<and> typed_count ''nj-a1'' demo_ticked = 1"
proof -
  obtain h where h: "job ''w:1'' ''nj-a1'' demo_ticked = Some h" "job_state h = ''sent''" by (rule demo_ticked_job)
  then show ?thesis using sent_was_typed [OF demo_journaled demo_ticked_reach h(1)] by blast
qed

text \<open>A handoff is tried at most as often as the submit ladder has rungs.\<close>

theorem attempts_are_bounded:
  assumes "just_journaled pane mid w0" "lane_reach lib pane mid w0 w r" "job pane mid w = Some h"
  shows "\<exists>a. job_attempt h = Some a \<and> 0 \<le> a \<and> a \<le> int SUBMIT_ATTEMPTS"
proof -
  obtain a where a: "job_attempt h = Some a"
    "good_state (job_state h) a False (note_of mid (wd_mail w)) (typed_count mid w)"
    by (rule lane_view [OF assms(2,1,3)])
  from good_stateD(1,2) [OF a(2)] a(1) show ?thesis by simp
qed

theorem attempts_are_bounded_witness:
  "\<exists>h a. job ''w:1'' ''nj-a1'' demo_ticked = Some h \<and> job_attempt h = Some a \<and> a \<le> 4"
proof -
  obtain h where h: "job ''w:1'' ''nj-a1'' demo_ticked = Some h" by (rule demo_ticked_job)
  then show ?thesis
    using attempts_are_bounded [OF demo_journaled demo_ticked_reach h] by (auto simp: SUBMIT_ATTEMPTS_def SUBMIT_GAPS_def)
qed

text \<open>
  C37: No handoff ever starts, while others leave it and its receipt alone. The observation of a turn expects the field \<^verbatim>\<open>observed_turn\<close> to be
  there and null, a journaled handoff does not have it, and nothing else adds it: so no turn is
  ever recorded, and a sent handoff is never bound to the turn that answered it.
\<close>

theorem handoffs_never_start:
  assumes "just_journaled pane mid w0" "lane_reach lib pane mid w0 w r" "job pane mid w = Some h"
  shows "job_state h \<noteq> ''started'' \<and> jget h ''observed_turn'' = None"
proof -
  obtain a where g: "good_state (job_state h) a False (note_of mid (wd_mail w)) (typed_count mid w)"
    by (rule lane_view [OF assms(2,1,3)])
  have "\<not> vw_watched (view pane mid w)"
    using lane_keeps [OF assms(2) just_journaled_ok(1) [OF assms(1)]] just_journaled_ok(2) [OF assms(1)]
    by (simp add: view_past_def)
  then show ?thesis using g view_job(3) [OF assms(3)] by (auto simp: good_state_def has_key_def)
qed

definition demo_answer :: turn_state where
  "demo_answer = \<lparr>ts_started_at = 5000000, ts_turn_id = ''turn'', ts_source = None, ts_caller = None, ts_handoff_id = Some ''nj-a1''\<rparr>"

definition demo_observed :: world where
  "demo_observed = snd (run_program (lane_program demo_lib (Observe_Job True ''w:1'' demo_answer)) demo_ticked)"

theorem handoffs_never_start_witness:
  "\<exists>h. job ''w:1'' ''nj-a1'' demo_observed = Some h \<and> job_state h = ''sent'' \<and> observes demo_answer ''nj-a1'' h
     \<and> jget h ''observed_turn'' = None"
proof -
  have r: "lane_reach demo_lib ''w:1'' ''nj-a1'' demo_world demo_observed None"
    unfolding demo_observed_def by (rule lane_reach_job [OF demo_ticked_reach])
  have "case job ''w:1'' ''nj-a1'' demo_observed of None \<Rightarrow> False
      | Some h \<Rightarrow> job_state h = ''sent'' \<and> observes demo_answer ''nj-a1'' h" by code_simp
  then obtain h where h: "job ''w:1'' ''nj-a1'' demo_observed = Some h" "job_state h = ''sent''" "observes demo_answer ''nj-a1'' h"
    by (auto split: option.splits)
  then show ?thesis using handoffs_never_start [OF demo_journaled r h(1)] by blast
qed

text \<open>
  C19: A handoff that is settled stays as it is settled, through every delivery, tick and
  observation of its lane, while others leave it and its receipt alone; its lines are not taken
  back.
\<close>

theorem settled_stays_settled:
  assumes "just_journaled pane mid w0" "lane_reach lib pane mid w0 w None" "lane_reach lib pane mid w w' r"
    and "job pane mid w = Some h" "job_state h \<in> set final_states"
  shows "\<exists>h'. job pane mid w' = Some h' \<and> job_state h' = job_state h \<and> typed_count mid w \<le> typed_count mid w'"
proof -
  have ok: "view_ok (view pane mid w)"
    using lane_keeps [OF assms(2) just_journaled_ok(1) [OF assms(1)]] by (simp add: view_past_def)
  have "view_past (view pane mid w) (view pane mid w')" using lane_keeps [OF assms(3) ok] by simp
  then have "vw_state (view pane mid w') = Some (job_state h)" "vw_typed (view pane mid w) \<le> vw_typed (view pane mid w')"
    using view_job(1) [OF assms(4)] assms(5) by (auto simp: view_past_def)
  then show ?thesis by (auto simp: view_def)
qed

end
