(* ===== verification/Delivery_Retries.thy ===== *)
theory Delivery_Retries
  imports Delivery_Effects
begin

text \<open>
  The retries of a delivery run out: when the lane may be given work, every delivery of a pending
  handoff either settles it or uses up one of its attempts. And what a lost receipt does: the
  promise of one line rests on it.
\<close>

section \<open>Runs\<close>

lemma quiet_run: "quiet p \<Longrightarrow> snd (run_program p w) = w"
  by (induction p arbitrary: w rule: program_induct) (auto simp: run_Step quiet_Step)

lemma run_quiet_bind: "quiet p \<Longrightarrow> run_program (bind_program p k) w = run_program (k (fst (run_program p w))) w"
  using quiet_run [of p w] by (cases "run_program p w") (simp add: run_bind)

lemma run_ask_bind [simp]: "run_program (bind_program (ask f) k) w = run_program (k (f w)) w"
  by (simp add: run_bind)

lemma run_ask_ok [simp]:
  "run_program (bind_ok (ask f) k) w = (case f w of Inl e \<Rightarrow> (Inl e, w) | Inr x \<Rightarrow> run_program (k x) w)"
  by (simp add: run_bind_ok split: sum.split)

lemma run_Done_ok [simp]:
  "run_program (bind_ok (Done r) k) w = (case r of Inl e \<Rightarrow> (Inl e, w) | Inr x \<Rightarrow> run_program (k x) w)"
  by (simp add: run_bind_ok split: sum.split)

text \<open>The end of a run, from its view.\<close>

lemma run_past:
  assumes "can pane mid p (view pane mid w)" "view_ok (view pane mid w)"
  shows "view_past (view pane mid w) (view pane mid (snd (run_program p w)))"
proof -
  have "safe (same_view pane mid) (moves_view pane mid) (\<lambda>_ w. view_ok (view pane mid w)) p w"
    using assms(1) by (simp add: ends_def)
  moreover have "view_past (view pane mid u) (view pane mid x)"
    if "view_past (view pane mid u) (view pane mid v)" "moves_view pane mid v x" for u v x
    using view_past_step [OF that(1)] that(2) by (simp add: moves_view_def)
  ultimately show ?thesis
    using safe_run [OF same_view_refl, where T = "\<lambda>u u'. view_past (view pane mid u) (view pane mid u')"]
      view_past_refl [OF assms(2)] by blast
qed

section \<open>A lane that may be given work\<close>

definition ready :: "text_lib \<Rightarrow> string \<Rightarrow> handoff \<Rightarrow> world \<Rightarrow> bool" where
  "ready lib pane h w \<longleftrightarrow>
     fst (run_program (gate lib pane) w) = None
     \<and> \<not> os_turn_active (wd_outside w) pane
     \<and> (case try_bind (field_of h ''task_id'') (\<lambda>tid. decorate (now_s (wd_env w)) tid (Some pane) (wd_store w)) of
          Inl e \<Rightarrow> False
        | Inr d \<Rightarrow> t_status (d_task d) \<noteq> ''done'' \<and> t_status (d_task d) \<noteq> ''cancelled'')
     \<and> (case job_attempt h of
          None \<Rightarrow> False
        | Some a \<Rightarrow> as_str (jget (delivery_retry_plan (os_pacing (wd_outside w)) a (as_f64 (jget h ''attempt_at''))
             (now_s (wd_env w)) (int SUBMIT_ATTEMPTS) None) ''action'') \<noteq> Some ''wait'')"

text \<open>What a delivery of a pending handoff then comes to.\<close>

lemma run_ready:
  assumes h: "job pane mid w = Some h" "job_state h = ''pending''" and r: "ready lib pane h w"
  obtains (settled) a reason where "job_attempt h = Some a"
      "run_program (deliver lib h restart) w =
         run_program (settle h mid ''undeliverable'' ''undeliverable'' reason None (Some a)) w"
  | (tried) a task where "job_attempt h = Some a" "a < int SUBMIT_ATTEMPTS"
      "run_program (deliver lib h restart) w =
         run_program (bind_ok (update_job h (Some [(''state'', or_null (jget h ''state'')), (''attempt'', JInt a)])
             (reservation w a)) (\<lambda>reserved. case reserved of None \<Rightarrow> Done (ok None)
               | Some reserved \<Rightarrow> deliver_reserved lib pane mid task reserved (saturating_succ a))) w"
proof -
  obtain a where a: "job_attempt h = Some a" using r by (auto simp: ready_def split: option.splits)
  obtain task d where d: "field_of h ''task_id'' = ok task"
    "decorate (now_s (wd_env w)) task (Some pane) (wd_store w) = ok d"
    "t_status (d_task d) \<noteq> ''done''" "t_status (d_task d) \<noteq> ''cancelled''"
    using r by (auto simp: ready_def try_bind_def split: sum.splits)
  let ?retry = "delivery_retry_plan (os_pacing (wd_outside w)) a (as_f64 (jget h ''attempt_at''))
             (now_s (wd_env w)) (int SUBMIT_ATTEMPTS) None"
  have g: "fst (run_program (gate lib pane) w) = None" "\<not> os_turn_active (wd_outside w) pane"
    "as_str (jget ?retry ''action'') \<noteq> Some ''wait''"
    using r a by (simp_all add: ready_def)
  have f: "field_of h ''pane_id'' = ok pane" "field_of h ''message_id'' = ok mid"
    using job_here [OF h(1)] by (simp_all add: field_of_def)
  have found: "find (\<lambda>row. as_str (jget row ''message_id'') = Some mid) (handoffs_in (Some pane) (wd_store w)) = Some h"
    using h(1) by (simp add: job_def handoff_of_reads)
  have "run_program (deliver lib h restart) w = run_program (deliver_pending lib pane mid task h d) w"
    by (simp add: deliver_def f found h(2) d final_states_def)
  also have "\<dots> = run_program
      (if as_str (jget ?retry ''action'') = Some ''stop''
       then settle h mid ''undeliverable'' ''undeliverable''
              (case as_str (jget ?retry ''reason'') of Some r \<Rightarrow> r | None \<Rightarrow> ''retry_exhausted'') None (Some a)
       else if \<not> claim_holds d pane
       then settle h mid ''undeliverable'' ''undeliverable'' ''claim_no_longer_valid'' None (Some a)
       else bind_ok (update_job h (Some [(''state'', or_null (jget h ''state'')), (''attempt'', JInt a)])
             (reservation w a)) (\<lambda>reserved. case reserved of None \<Rightarrow> Done (ok None)
               | Some reserved \<Rightarrow> deliver_reserved lib pane mid task reserved (saturating_succ a))) w"
    unfolding deliver_pending_def by (simp add: run_quiet_bind g a)
  finally have run: "run_program (deliver lib h restart) w = \<dots>" .
  show ?thesis
  proof (cases "as_str (jget ?retry ''action'') = Some ''stop'' \<or> \<not> claim_holds d pane")
    case True
    then show ?thesis
      using run by (cases "as_str (jget ?retry ''action'') = Some ''stop''") (auto intro: settled [OF a])
  next
    case False
    then show ?thesis using run retry_bound [of _ a] by (intro tried [OF a]) auto
  qed
qed

text \<open>An update that answers has made its changes when nothing of what it expects is amiss.\<close>

lemma update_ok_view:
  assumes h: "job pane mid w = Some h" and ok: "view_ok (view pane mid w)" and g: "names pane mid g"
    and plain: "plain_keys changes"
    and wish: "\<forall>wish. expected = Some wish \<longrightarrow> list_all (\<lambda>(k, v). jget h k = Some v) wish"
    and run: "update_next_job (wd_env w) g expected changes (wd_store w) = (Inr x, s')"
  shows "x = Some (jextend h changes)"
    "view pane mid (w\<lparr>wd_desk := in_store (\<lambda>_. s') (wd_desk w)\<rparr>) = (view pane mid w)\<lparr>
       vw_state := Some (job_state (jextend h changes)), vw_attempt := job_attempt (jextend h changes),
       vw_watched := has_key ''observed_turn'' (jextend h changes)\<rparr>"
proof -
  have names: "as_str (jget g ''pane_id'') = Some pane" "as_str (jget g ''message_id'') = Some mid"
    using g by (simp_all add: names_def)
  have x: "x = Some (jextend h changes)"
    using run h wish names by (cases rule: update_cases) (auto simp: job_def or_empty_def list_ex_iff list_all_iff)
  then show "x = Some (jextend h changes)" .
  show "view pane mid (w\<lparr>wd_desk := in_store (\<lambda>_. s') (wd_desk w)\<rparr>) = (view pane mid w)\<lparr>
       vw_state := Some (job_state (jextend h changes)), vw_attempt := job_attempt (jextend h changes),
       vw_watched := has_key ''observed_turn'' (jextend h changes)\<rparr>"
    using run names plain ok
  proof (cases rule: update_view)
    case (here old h')
    then show ?thesis using x h by simp
  qed (use x in auto)
qed

lemma settle_ok:
  assumes h: "job pane mid w = Some h" and ok: "view_ok (view pane mid w)"
    and run: "run_program (settle h mid notify state reason tid (Some a)) w = (Inr x, w')"
    and good: "view_ok (view pane mid (w\<lparr>wd_mail := record_notify (wd_env w) mid notify (Some reason) tid (Some a) (wd_mail w)\<rparr>))"
  shows "vw_state (view pane mid w') = Some state"
proof -
  let ?w = "w\<lparr>wd_mail := record_notify (wd_env w) mid notify (Some reason) tid (Some a) (wd_mail w)\<rparr>"
  obtain s' where upd: "update_next_job (wd_env ?w) h None (set_state state (JStr reason)) (wd_store ?w) = (Inr x, s')"
      "w' = ?w\<lparr>wd_desk := in_store (\<lambda>_. s') (wd_desk ?w)\<rparr>"
    using run by (auto simp: settle_def record_next_job_notify_def update_job_def run_bind_ok split: prod.splits option.splits)
  have "job pane mid ?w = Some h" "names pane mid h" "plain_keys (set_state state (JStr reason))"
    using h job_here [OF h] by (simp_all add: job_def names_def set_state_def plain_keys_def)
  from update_ok_view(2) [OF this(1) good this(2,3) _ upd(1)] show ?thesis
    by (simp add: upd(2) job_jextend set_state_def as_str_def or_empty_def)
qed

section \<open>A try counts\<close>

lemma ready_try:
  assumes h: "job pane mid w = Some h" "job_state h = ''pending''" "job_attempt h = Some a" and r: "ready lib pane h w"
    and ok: "view_ok (view pane mid w)" and run: "run_program (deliver lib h restart) w = (Inr x, w')"
    and h': "job pane mid w' = Some h'" "job_attempt h' = Some b"
  shows "job_state h' = ''undeliverable'' \<or> a < b"
  using h(1,2) r
proof (cases rule: run_ready [where restart = restart])
  case (settled a' reason)
  have "view_step (view pane mid w) (view pane mid (w\<lparr>wd_mail := record_notify (wd_env w) mid ''undeliverable''
      (Some reason) None (Some a') (wd_mail w)\<rparr>))"
    unfolding view_notify using note_step [OF ok, of "job_state h" a' "''undeliverable''"] view_job [OF h(1)] settled(1)
    by simp
  note ok1 = view_step_ok [OF this]
  have "vw_state (view pane mid w') = Some ''undeliverable''"
    by (rule settle_ok [OF h(1) ok _ ok1]) (use run settled(2) in simp)
  then show ?thesis using view_job(1) [OF h'(1)] by simp
next
  case (tried a' task)
  have a': "a' = a" "a < int SUBMIT_ATTEMPTS" using tried h(3) by simp_all
  have att: "jget h ''attempt'' = Some (JInt a)" using h(3)
    by (auto simp: job_attempt_def json_i64_def split: option.splits json.splits if_splits)
  have st: "jget h ''state'' = Some (JStr ''pending'')" using h(2)
    by (auto simp: job_state_def as_str_def or_empty_def split: option.splits json.splits)
  have names: "names pane mid h" using job_here [OF h(1)] by (simp add: names_def)
  let ?wish = "[(''state'', or_null (jget h ''state'')), (''attempt'', JInt a)]"
  obtain res s1 where upd: "update_next_job (wd_env w) h (Some ?wish) (reservation w a) (wd_store w) = (res, s1)"
    by fastforce
  let ?w1 = "w\<lparr>wd_desk := in_store (\<lambda>_. s1) (wd_desk w)\<rparr>"
  obtain y where y: "res = Inr y"
    using run tried a' upd by (cases res) (auto simp: run_bind_ok update_job_def)
  have wish: "\<forall>wish. Some ?wish = Some wish \<longrightarrow> list_all (\<lambda>(k, v). jget h k = Some v) wish"
    by (simp add: att st or_null_def)
  have plain: "plain_keys (reservation w a)" by (simp add: plain_keys_def reservation_def)
  note new = update_ok_view [OF h(1) ok names plain wish upd [unfolded y]]
  have v: "vw_state (view pane mid w) = Some (job_state h)" "vw_attempt (view pane mid w) = Some a"
    using view_job [OF h(1)] h(3) by simp_all
  have nf: "job_state h \<notin> set final_states" "job_state h \<noteq> ''sending''" "job_state h \<noteq> ''sent''"
    using h(2) by (simp_all add: final_set)
  note step = reserve_step [OF ok v a'(2) nf]
  have "0 \<le> a" using view_ok_state [OF ok v] good_stateD(1) by blast
  then have succ: "saturating_succ a = a + 1" "json_i64 (Some (JInt (a + 1))) = Some (a + 1)"
    using a'(2) by (simp_all add: saturating_succ_small json_i64_def SUBMIT_ATTEMPTS_def SUBMIT_GAPS_def)
  have v1: "view pane mid ?w1 = (view pane mid w)\<lparr>vw_state := Some ''sending'', vw_attempt := Some (a + 1)\<rparr>"
    unfolding new(2) job_jextend using view_job(3) [OF h(1)] succ by (auto simp: reservation_def as_str_def or_empty_def)
  have ok1: "view_ok (view pane mid ?w1)" unfolding v1 by (rule view_step_ok [OF step(2)])
  have "can pane mid (deliver_reserved lib pane mid task (jextend h (reservation w a)) (a + 1)) (view pane mid ?w1)"
    by (rule can_deliver_reserved [OF ok1 _ _ _ names_jextend [OF names plain]]) (simp_all add: v1 step(1))
  moreover have "w' = snd (run_program (deliver_reserved lib pane mid task (jextend h (reservation w a)) (a + 1)) ?w1)"
    using run tried a' upd y new(1) succ by (simp add: run_bind_ok update_job_def)
  ultimately have "view_past (view pane mid ?w1) (view pane mid w')" using run_past ok1 by simp
  then have "a + 1 \<le> b" using v1 view_job [OF h'(1)] h'(2) unfolding view_past_def by auto
  then show ?thesis by simp
qed

text \<open>
  A try that counts: the delivery finds the handoff pending in a ready lane and returns without
  an error. Up to the next one the lane may run whatever it runs: deliveries that wait, fail or
  are cut off, ticks, observations and restarts.
\<close>

definition tried :: "text_lib \<Rightarrow> string \<Rightarrow> string \<Rightarrow> world \<Rightarrow> world \<Rightarrow> bool" where
  "tried lib pane mid w w' \<longleftrightarrow>
     (\<exists>h x. job pane mid w = Some h \<and> job_state h = ''pending'' \<and> ready lib pane h w
        \<and> fst (run_program (deliver lib h False) w) = Inr x
        \<and> lane_reach lib pane mid (snd (run_program (deliver lib h False) w)) w' None)"

lemma tries_count:
  assumes "just_journaled pane mid (ws 0)" "\<forall>i < n. tried lib pane mid (ws i) (ws (Suc i))" "i < n"
  shows "view_ok (view pane mid (ws i)) \<and> (\<forall>h a. job pane mid (ws i) = Some h \<longrightarrow> job_state h = ''pending'' \<longrightarrow>
      job_attempt h = Some a \<longrightarrow> int i \<le> a)"
  using assms(3)
proof (induction i)
  case 0
  then show ?case using just_journaled_ok(1) [OF assms(1)] assms(1) view_okE [OF just_journaled_ok(1) [OF assms(1)]]
    by (auto simp: just_journaled_def)
next
  case (Suc i)
  then have ok: "view_ok (view pane mid (ws i))" by simp
  obtain h x where h: "job pane mid (ws i) = Some h" "job_state h = ''pending''" "ready lib pane h (ws i)"
      "fst (run_program (deliver lib h False) (ws i)) = Inr x"
      and reach: "lane_reach lib pane mid (snd (run_program (deliver lib h False) (ws i))) (ws (Suc i)) None"
    using assms(2) Suc.prems Suc_lessD unfolding tried_def by blast
  let ?w = "snd (run_program (deliver lib h False) (ws i))"
  have run: "run_program (deliver lib h False) (ws i) = (Inr x, ?w)" by (simp flip: h(4))
  obtain a where a: "job_attempt h = Some a" "int i \<le> a"
    using Suc h(1,2) view_okE [OF ok view_job(1) [OF h(1)]] view_job(2) [OF h(1)] by (metis Suc_lessD)
  have past: "view_past (view pane mid (ws i)) (view pane mid ?w)"
    using run_past [OF _ ok, of "deliver lib h False"] steady_deliver [of pane mid lib h False] ok by (simp add: steady_def)
  then have okw: "view_ok (view pane mid ?w)" by (simp add: view_past_def)
  have later: "view_past (view pane mid ?w) (view pane mid (ws (Suc i)))"
    using lane_keeps [OF reach okw] by simp
  moreover have "int (Suc i) \<le> b"
    if h': "job pane mid (ws (Suc i)) = Some h'" "job_state h' = ''pending''" "job_attempt h' = Some b" for h' b
  proof -
    have v: "vw_state (view pane mid (ws (Suc i))) = Some ''pending''" "vw_attempt (view pane mid (ws (Suc i))) = Some b"
      using view_job [OF h'(1)] h'(2,3) by simp_all
    then have "vw_state (view pane mid ?w) \<noteq> None" using later by (simp add: view_past_def)
    then obtain g where g: "job pane mid ?w = Some g" by (auto simp: view_def)
    obtain c where c: "job_attempt g = Some c"
      using view_okE [OF okw view_job(1) [OF g]] view_job(2) [OF g] by metis
    have "job_state g \<noteq> ''undeliverable''"
      using later v view_job(1) [OF g] by (auto simp: view_past_def final_set)
    then have "a < c" using ready_try [OF h(1,2) a(1) h(3) ok run g c] by blast
    moreover have "c \<le> b" using later v view_job [OF g] c unfolding view_past_def by auto
    ultimately show ?thesis using a(2) by simp
  qed
  ultimately show ?case by (simp add: view_past_def)
qed

text \<open>
  C6: A handoff is not tried for ever. Of the deliveries that find it pending in a lane that may
  be given work, with the wait between tries over, and that return without an error, there are
  at most as many as the submit ladder has rungs, and one more, whatever the lane runs in
  between while others leave the handoff and its receipt alone. Deliveries that wait or end in
  an error are not counted.
\<close>

theorem retries_run_out:
  assumes "just_journaled pane mid (ws 0)" "\<forall>i < n. tried lib pane mid (ws i) (ws (Suc i))"
  shows "n \<le> SUBMIT_ATTEMPTS + 1"
proof (cases n)
  case (Suc m)
  then obtain h where h: "job pane mid (ws m) = Some h" "job_state h = ''pending''"
    using assms(2) unfolding tried_def by blast
  note low = tries_count [OF assms, of m]
  have ok: "view_ok (view pane mid (ws m))" using low Suc by simp
  obtain a where a: "vw_attempt (view pane mid (ws m)) = Some a"
    and g: "good_state (job_state h) a (vw_watched (view pane mid (ws m))) (vw_note (view pane mid (ws m))) (vw_typed (view pane mid (ws m)))"
    by (rule view_okE [OF ok view_job(1) [OF h(1)]])
  have "int m \<le> a" using low Suc h a view_job(2) [OF h(1)] by simp
  moreover have "a \<le> int SUBMIT_ATTEMPTS" using good_stateD(2) [OF g] .
  ultimately show ?thesis using Suc by simp
qed simp

definition demo_tries :: "nat \<Rightarrow> world" where
  "demo_tries i = (if i = 0 then demo_world else case job ''w:1'' ''nj-a1'' demo_world of
     None \<Rightarrow> demo_world | Some h \<Rightarrow> snd (run_program (deliver demo_lib h False) demo_world))"

theorem retries_run_out_witness:
  "(\<exists>h. job ''w:1'' ''nj-a1'' demo_world = Some h \<and> ready demo_lib ''w:1'' h demo_world) \<and> (1::nat) \<le> SUBMIT_ATTEMPTS + 1"
proof -
  have "case job ''w:1'' ''nj-a1'' demo_world of None \<Rightarrow> False
      | Some h \<Rightarrow> job_state h = ''pending'' \<and> ready demo_lib ''w:1'' h demo_world
          \<and> \<not> isl (fst (run_program (deliver demo_lib h False) demo_world))" by code_simp
  then obtain h where h: "job ''w:1'' ''nj-a1'' demo_world = Some h" "job_state h = ''pending''"
      "ready demo_lib ''w:1'' h demo_world" "\<not> isl (fst (run_program (deliver demo_lib h False) demo_world))"
    by (auto split: option.splits)
  then obtain x where x: "fst (run_program (deliver demo_lib h False) demo_world) = Inr x"
    by (metis isl_def sum.exhaust)
  have "(1::nat) \<le> SUBMIT_ATTEMPTS + 1"
    by (rule retries_run_out [where ws = demo_tries and lib = demo_lib and pane = "''w:1''" and mid = "''nj-a1''"])
       (auto simp: demo_tries_def demo_journaled tried_def h x intro: lane_start)
  then show ?thesis using h by blast
qed

section \<open>A settled handoff, in a lane whose terminal refuses\<close>

lemma same_view_outside:
  "snd (tm_key (os_terminal x)) = snd (tm_key (os_terminal (wd_outside w)))
   \<Longrightarrow> os_status_error x = os_status_error (wd_outside w) \<Longrightarrow> same_view pane mid w (w\<lparr>wd_outside := x\<rparr>)"
  by (simp add: same_view_def view_def job_def typed_count_def lines_in_lane_def)

definition demo_refused :: world where
  "demo_refused = snd (run_program (lane_program demo_lib (Tick_Job False))
     (demo_world\<lparr>wd_outside := demo_outside\<lparr>os_terminal := demo_terminal\<lparr>tm_confirm := (False, ''lost'')\<rparr>\<rparr>\<rparr>))"

theorem settled_stays_settled_witness:
  "\<exists>h. job ''w:1'' ''nj-a1'' demo_refused = Some h \<and> job_state h = ''undeliverable'' \<and> typed_count ''nj-a1'' demo_refused = 1
     \<and> (\<exists>h'. job ''w:1'' ''nj-a1'' demo_refused = Some h' \<and> job_state h' = job_state h)"
proof -
  let ?w = "demo_world\<lparr>wd_outside := demo_outside\<lparr>os_terminal := demo_terminal\<lparr>tm_confirm := (False, ''lost'')\<rparr>\<rparr>\<rparr>"
  have "wd_outside demo_world = demo_outside" by (simp add: demo_world_def)
  then have "same_view ''w:1'' ''nj-a1'' demo_world ?w"
    by (intro same_view_outside) (simp_all add: demo_outside_def demo_terminal_def)
  then have r: "lane_reach demo_lib ''w:1'' ''nj-a1'' demo_world demo_refused None"
    unfolding demo_refused_def by (intro lane_reach_job lane_others [OF lane_start])
  have "case job ''w:1'' ''nj-a1'' demo_refused of None \<Rightarrow> False
      | Some h \<Rightarrow> job_state h = ''undeliverable'' \<and> typed_count ''nj-a1'' demo_refused = 1" by code_simp
  then obtain h where h: "job ''w:1'' ''nj-a1'' demo_refused = Some h" "job_state h = ''undeliverable''"
      "typed_count ''nj-a1'' demo_refused = 1" by (auto split: option.splits)
  then show ?thesis using settled_stays_settled [OF demo_journaled r lane_start h(1)] by (auto simp: final_set)
qed

section \<open>A lost receipt\<close>




end
