(* ===== verification/Standby.thy ===== *)
theory Standby
  imports Task_Store Dispatch
begin

text \<open>
  The standby queue (\<^verbatim>\<open>dispatch/queue.rs\<close>): assignments any ready lane can take, in a table
  whose ids are never used twice (\<^verbatim>\<open>AUTOINCREMENT\<close>). The typed operations are modelled; the raw
  request adapters \<^verbatim>\<open>add_values\<close> and \<^verbatim>\<open>remove_value\<close>, which convert JSON to SQL values
  first, are not.
\<close>

section \<open>The queue\<close>

record standby_row =
  sb_id :: int
  sb_task_id :: "string option"
  sb_brief :: string
  sb_lane :: "string option"
  sb_created_at :: time
  sb_taken_at :: "time option"
  sb_taken_by :: "string option"
  sb_sent_message :: "string option"

text \<open>\<open>q_seq\<close> is the largest id ever given, the row of \<^verbatim>\<open>sqlite_sequence\<close>.\<close>

record queue =
  q_rows :: "standby_row list"
  q_seq :: int

datatype dispatch_error =
    Needs_Brief
  | No_Item int
  | Already_Taken int

interpretation standby_table:
  keyed_table sb_id "row_get sb_id" set "row_replace sb_id"
    "\<lambda>k. row_update (\<lambda>r. sb_id r = k)"
    "\<lambda>k. row_delete (\<lambda>r. sb_id r = k)" "\<lambda>rows. distinct (map sb_id rows)"
  by (rule row_table)

definition queue_get :: "int \<Rightarrow> queue \<Rightarrow> standby_row option" where
  "queue_get item q = row_get sb_id item (q_rows q)"

definition queue_add ::
    "env \<Rightarrow> string \<Rightarrow> string option \<Rightarrow> string option \<Rightarrow> queue
     \<Rightarrow> (dispatch_error + standby_row option) \<times> queue" where
  "queue_add env brief tid lane q =
     (let brief = trim brief in
      if brief = [] then (Inl Needs_Brief, q)
      else let item = q_seq q + 1;
               row = \<lparr>sb_id = item, sb_task_id = tid, sb_brief = brief, sb_lane = lane,
                      sb_created_at = now_s env, sb_taken_at = None, sb_taken_by = None,
                      sb_sent_message = None\<rparr>;
               q = \<lparr>q_rows = q_rows q @ [row], q_seq = item\<rparr>
           in (Inr (queue_get item q), q))"

definition queue_items :: "bool \<Rightarrow> queue \<Rightarrow> standby_row list" where
  "queue_items pending_only q =
     sort_key sb_id (filter (\<lambda>r. pending_only \<longrightarrow> sb_taken_at r = None) (q_rows q))"

definition queue_remove :: "int \<Rightarrow> queue \<Rightarrow> (dispatch_error + int) \<times> queue" where
  "queue_remove item q =
     (let changed = row_count (\<lambda>r. sb_id r = item) (q_rows q);
          q = q\<lparr>q_rows := row_delete (\<lambda>r. sb_id r = item) (q_rows q)\<rparr>
      in if changed = 0 then (Inl (No_Item item), q) else (Inr item, q))"

definition queue_take ::
    "env \<Rightarrow> int \<Rightarrow> string \<Rightarrow> string option \<Rightarrow> time option \<Rightarrow> queue
     \<Rightarrow> (dispatch_error + standby_row option) \<times> queue" where
  "queue_take env item lane sent_message now q =
     (case queue_get item q of
        None \<Rightarrow> (Inl (No_Item item), q)
      | Some row \<Rightarrow>
          if sb_taken_at row \<noteq> None then (Inl (Already_Taken item), q)
          else let taken_at = (case now of Some n \<Rightarrow> if n \<noteq> 0 then n else now_s env | None \<Rightarrow> now_s env);
                   q = q\<lparr>q_rows := row_update (\<lambda>r. sb_id r = item)
                          (\<lambda>r. r\<lparr>sb_taken_at := Some taken_at, sb_taken_by := Some lane,
                                 sb_sent_message := sent_message\<rparr>) (q_rows q)\<rparr>
               in (Inr (queue_get item q), q))"

definition queue_next_for :: "string \<Rightarrow> queue \<Rightarrow> standby_row option" where
  "queue_next_for lane q =
     (let pending = queue_items True q in
      case find (\<lambda>r. non_empty_str (sb_lane r) = Some lane) pending of
        Some item \<Rightarrow> Some item
      | None \<Rightarrow> find (\<lambda>r. non_empty_str (sb_lane r) = None) pending)"

section \<open>The queue as a machine\<close>

datatype queue_command =
    Queue_Add string "string option" "string option"
  | Queue_Remove int
  | Queue_Take int string "string option" "time option"

definition queue_exec :: "env \<Rightarrow> queue_command \<Rightarrow> queue \<Rightarrow> queue" where
  "queue_exec env c q = (case c of
       Queue_Add brief tid lane \<Rightarrow> snd (queue_add env brief tid lane q)
     | Queue_Remove item \<Rightarrow> snd (queue_remove item q)
     | Queue_Take item lane msg now \<Rightarrow> snd (queue_take env item lane msg now q))"

definition queue_inv :: "queue \<Rightarrow> bool" where
  "queue_inv q \<longleftrightarrow> distinct (map sb_id (q_rows q)) \<and> (\<forall>r \<in> set (q_rows q). sb_id r \<le> q_seq q)"

lemma queue_get_None: "queue_inv q \<Longrightarrow> q_seq q < item \<Longrightarrow> queue_get item q = None"
  by (auto simp: queue_inv_def queue_get_def row_get_def find_eq_None_iff)

lemma queue_get_add:
  assumes "queue_inv q" "trim brief \<noteq> []"
  shows "queue_get i (snd (queue_add env brief tid lane q)) =
    (if i = q_seq q + 1
     then Some \<lparr>sb_id = i, sb_task_id = tid, sb_brief = trim brief, sb_lane = lane,
                sb_created_at = now_s env, sb_taken_at = None, sb_taken_by = None, sb_sent_message = None\<rparr>
     else queue_get i q)"
  using queue_get_None [OF assms(1), of "q_seq q + 1"] assms(2)
  by (auto simp: queue_add_def Let_def queue_get_def row_get_def find_append split: option.splits)

lemma queue_get_remove: "queue_get i (snd (queue_remove item q)) = (if i = item then None else queue_get i q)"
  by (simp add: queue_remove_def Let_def queue_get_def standby_table.get_del)

lemma queue_get_take:
  "queue_get i (snd (queue_take env item lane msg now q)) =
    (if i = item
     then map_option (\<lambda>r. if sb_taken_at r = None
          then r\<lparr>sb_taken_at := Some (case now of Some n \<Rightarrow> if n \<noteq> 0 then n else now_s env | None \<Rightarrow> now_s env),
                 sb_taken_by := Some lane, sb_sent_message := msg\<rparr>
          else r) (queue_get i q)
     else queue_get i q)"
  by (cases "queue_get item q") (auto simp: queue_take_def Let_def queue_get_def standby_table.get_upd)

lemma queue_inv_exec:
  assumes "queue_inv q"
  shows "queue_inv (queue_exec env c q) \<and> q_seq q \<le> q_seq (queue_exec env c q)"
proof (cases c)
  case (Queue_Add brief tid lane)
  show ?thesis
    using assms by (auto simp: Queue_Add queue_exec_def queue_add_def Let_def queue_inv_def)
next
  case (Queue_Remove item)
  then show ?thesis
    using assms standby_table.ok_del [of "q_rows q" item]
    by (auto simp: queue_exec_def queue_remove_def Let_def queue_inv_def row_delete_def)
next
  case (Queue_Take item lane msg now)
  have "queue_inv (q\<lparr>q_rows := row_update (\<lambda>r. sb_id r = item) f (q_rows q)\<rparr>)"
    if "\<And>r. sb_id (f r) = sb_id r" for f
    using assms standby_table.ok_upd [of f "q_rows q" item] that
    by (auto simp: queue_inv_def row_update_def)
  then show ?thesis
    using assms by (simp add: Queue_Take queue_exec_def queue_take_def Let_def split: option.split)
qed

lemma queue_inv_run: "queue_inv q \<Longrightarrow> queue_inv (fold (queue_exec env) cs q)"
  by (induction cs arbitrary: q) (auto simp: queue_inv_exec)

lemma taken_step:
  assumes "queue_inv q" "queue_get i q = None \<and> i \<le> q_seq q \<or> queue_get i q = Some r \<and> sb_taken_at r \<noteq> None"
  shows "queue_get i (queue_exec env c q) = None \<and> i \<le> q_seq (queue_exec env c q)
    \<or> queue_get i (queue_exec env c q) = Some r \<and> sb_taken_at r \<noteq> None \<and> queue_get i q = Some r"
proof -
  have le: "i \<le> q_seq q"
    using assms queue_get_None [OF assms(1), of i] by force
  show ?thesis
  proof (cases c)
    case (Queue_Add brief tid lane)
    then show ?thesis
      using assms le queue_get_add [OF assms(1), of brief i env tid lane] queue_inv_exec [OF assms(1), of env c]
      by (cases "trim brief = []") (auto simp: queue_exec_def queue_add_def Let_def)
  next
    case (Queue_Remove item)
    then show ?thesis
      using assms(2) le queue_inv_exec [OF assms(1), of env c]
      by (auto simp: queue_exec_def queue_get_remove)
  next
    case (Queue_Take item lane msg now)
    then show ?thesis
      using assms(2) le queue_inv_exec [OF assms(1), of env c]
      by (auto simp: queue_exec_def queue_get_take)
  qed
qed

text \<open>
  An assignment is taken once. After a take is granted the item records its lane, and
  whatever happens to the queue afterwards, the item either still records that take or has been
  removed for good: nobody takes it a second time and its id never comes back.
\<close>

theorem standby_item_is_taken_once:
  assumes "queue_inv q" "queue_take env item lane msg now q = (Inr res, q')"
  shows "\<exists>r. queue_get item q' = Some r \<and> sb_taken_by r = Some lane
     \<and> (queue_get item (fold (queue_exec env') cs q') = None
        \<or> queue_get item (fold (queue_exec env') cs q') = Some r)
     \<and> isl (fst (queue_take env'' item lane2 msg2 now2 (fold (queue_exec env') cs q')))"
proof -
  have q': "q' = queue_exec env (Queue_Take item lane msg now) q" using assms(2) by (simp add: queue_exec_def)
  from assms(2) obtain r0 where r0: "queue_get item q = Some r0" "sb_taken_at r0 = None"
    by (auto simp: queue_take_def Let_def split: option.splits if_splits)
  then obtain r where r: "queue_get item q' = Some r" "sb_taken_by r = Some lane" "sb_taken_at r \<noteq> None"
    unfolding q' by (auto simp: queue_exec_def queue_get_take)
  have inv: "queue_inv q'" unfolding q' using queue_inv_exec [OF assms(1)] by blast
  have "queue_get item (fold (queue_exec env') cs p) = None
      \<or> queue_get item (fold (queue_exec env') cs p) = Some r"
    if "queue_inv p" "queue_get item p = None \<and> item \<le> q_seq p \<or> queue_get item p = Some r \<and> sb_taken_at r \<noteq> None" for p
    using that
  proof (induction cs arbitrary: p)
    case (Cons c cs)
    have "queue_get item (queue_exec env' c p) = None \<and> item \<le> q_seq (queue_exec env' c p)
        \<or> queue_get item (queue_exec env' c p) = Some r \<and> sb_taken_at r \<noteq> None"
      using taken_step [OF Cons.prems, of env' c] by blast
    with Cons.IH queue_inv_exec [OF Cons.prems(1)] show ?case by simp
  qed auto
  from this [OF inv] r have fin: "queue_get item (fold (queue_exec env') cs q') = None
      \<or> queue_get item (fold (queue_exec env') cs q') = Some r" by blast
  then have "isl (fst (queue_take env'' item lane2 msg2 now2 (fold (queue_exec env') cs q')))"
    using r(3) by (auto simp: queue_take_def)
  with fin r show ?thesis by blast
qed

definition demo_queue :: queue where
  "demo_queue = \<lparr>q_rows = [\<lparr>sb_id = 1, sb_task_id = None, sb_brief = ''b'', sb_lane = None, sb_created_at = 1,
     sb_taken_at = None, sb_taken_by = None, sb_sent_message = None\<rparr>], q_seq = 1\<rparr>"

definition demo_clock :: env where
  "demo_clock = \<lparr>now_s = 5, default_lease_s = 60, is_digits = (\<lambda>_. False)\<rparr>"

theorem standby_item_is_taken_once_witness:
  "\<exists>res q'. queue_take demo_clock 1 ''w:1'' None None demo_queue = (Inr res, q')
     \<and> isl (fst (queue_take demo_clock 1 ''w:2'' None None
         (fold (queue_exec demo_clock) [Queue_Add ''x'' None None] q')))"
proof -
  have "\<not> isl (fst (queue_take demo_clock 1 ''w:1'' None None demo_queue))" by code_simp
  then obtain res q' where t: "queue_take demo_clock 1 ''w:1'' None None demo_queue = (Inr res, q')"
    by (metis prod.exhaust_sel sum.collapse(2))
  have "queue_inv demo_queue" by (simp add: queue_inv_def demo_queue_def)
  from standby_item_is_taken_once [OF this t, of demo_clock "[Queue_Add ''x'' None None]" demo_clock "''w:2''" None None] t
  show ?thesis by blast
qed

text \<open>What a lane is offered is pending and meant for it, or for nobody in particular.\<close>

lemma next_for_sound:
  assumes "queue_next_for lane q = Some r"
  shows "r \<in> set (q_rows q)" "sb_taken_at r = None"
    "non_empty_str (sb_lane r) = Some lane \<or> non_empty_str (sb_lane r) = None"
  using assms by (auto simp: queue_next_for_def Let_def queue_items_def split: option.splits dest!: find_SomeD)

end
