(* ===== verification/Standby_Tick.thy ===== *)
theory Standby_Tick
  imports Standby
begin

text \<open>
  The standby tick (\<^verbatim>\<open>dispatch/tick.rs\<close>): idle lanes are given the derived items of the board
  first, then the hand queue, and the state file keeps a day of what was sent. The sender is a
  parameter with a state of its own: it answers with a message id or a refusal. The reads and
  writes of the queue fail where the parameter \<open>queue_faults\<close> says so, in any state of the
  sender. The state file is what was read from it (\<open>None\<close> when it cannot be read or parsed),
  with the error its next write meets.
\<close>

section \<open>Items\<close>

definition int_text :: "int \<Rightarrow> string" where
  "int_text i = (if i < 0 then ''-'' @ digits (nat (- i)) else digits (nat i))"

definition standby_value :: "standby_row \<Rightarrow> json_map" where
  "standby_value r =
     [(''id'', JInt (sb_id r)), (''task_id'', json_opt_str (sb_task_id r)), (''brief'', JStr (sb_brief r)),
      (''lane'', json_opt_str (sb_lane r)), (''created_at'', JReal (sb_created_at r)),
      (''taken_at'', case sb_taken_at r of Some t \<Rightarrow> JReal t | None \<Rightarrow> JNull),
      (''taken_by'', json_opt_str (sb_taken_by r)), (''sent_message'', json_opt_str (sb_sent_message r))]"

definition dispatch_error_text :: "dispatch_error \<Rightarrow> string" where
  "dispatch_error_text e = (case e of
       Needs_Brief \<Rightarrow> ''a standby item needs a one-line brief''
     | No_Item i \<Rightarrow> ''no standby item '' @ int_text i
     | Already_Taken i \<Rightarrow> ''standby item '' @ int_text i @ '' was already taken'')"

text \<open>
  The errors of the queue's database: of looking for the next item, of a take (with whether the
  item was marked before the error), and of counting what is pending.
\<close>

record 's queue_faults =
  qf_next :: "string \<Rightarrow> 's \<Rightarrow> string option"
  qf_take :: "int \<Rightarrow> string \<Rightarrow> 's \<Rightarrow> (bool \<times> string) option"
  qf_items :: "'s \<Rightarrow> string option"

text \<open>The queue as the tick uses it: an id that is no integer is an item there is not.\<close>

definition tick_take ::
    "(json \<Rightarrow> string) \<Rightarrow> env \<Rightarrow> 's queue_faults \<Rightarrow> json \<Rightarrow> string \<Rightarrow> string option \<Rightarrow> time \<Rightarrow> queue \<Rightarrow> 's
     \<Rightarrow> string option \<times> queue" where
  "tick_take txt env faults item_id lane sent_message now q s =
     (case (case item_id of JInt i \<Rightarrow> if - (2 ^ 63) \<le> i \<and> i < 2 ^ 63 then Some i else None | _ \<Rightarrow> None) of
        None \<Rightarrow> (Some (''no standby item '' @ txt item_id), q)
      | Some i \<Rightarrow>
          (case qf_take faults i lane s of
             Some (False, e) \<Rightarrow> (Some e, q)
           | fault \<Rightarrow> (case queue_take env i lane sent_message (Some now) q of
                 (Inl e, q) \<Rightarrow> (Some (dispatch_error_text e), q)
               | (Inr _, q) \<Rightarrow> (map_option snd fault, q))))"

section \<open>The state file\<close>

record tick_file =
  tf_content :: "json option"
  tf_error :: "string option"

definition load_state :: "tick_file \<Rightarrow> json" where
  "load_state f = (case tf_content f of Some v \<Rightarrow> v | None \<Rightarrow> JObj [])"

definition entry_at :: "json \<Rightarrow> time" where
  "entry_at e = number (vget e ''at'')"

definition history_of :: "json \<Rightarrow> json list" where
  "history_of state = (case as_array (vget state ''history'') of Some h \<Rightarrow> h | None \<Rightarrow> [])"

definition dispatched_in_window :: "tick_file \<Rightarrow> time \<Rightarrow> time \<Rightarrow> nat" where
  "dispatched_in_window f now window_s =
     length (filter (\<lambda>e. now - window_s \<le> entry_at e) (history_of (load_state f)))"

definition or_null_of :: "json \<Rightarrow> string \<Rightarrow> json" where
  "or_null_of v k = (case vget v k of Some x \<Rightarrow> x | None \<Rightarrow> JNull)"

definition history_entry :: "time \<Rightarrow> json \<Rightarrow> json" where
  "history_entry tick_at r = JObj
     [(''at'', JReal tick_at), (''pane_id'', or_null_of r ''pane_id''), (''item'', or_null_of r ''item''),
      (''task_id'', or_null_of r ''task_id'')]"

definition write_state :: "json_map \<Rightarrow> tick_file \<Rightarrow> (string + json_map) \<times> tick_file" where
  "write_state state f =
     (let previous = load_state f;
          tick_at = number (jget state ''tick_at'');
          kept = filter (\<lambda>e. tick_at - 24 * 3600 \<le> entry_at e) (history_of previous);
          records = (case as_array (jget state ''dispatched'') of Some rs \<Rightarrow> rs | None \<Rightarrow> []);
          history = kept @ map (history_entry tick_at) (filter (\<lambda>r. opt_truthy (vget r ''sent'')) records);
          state = jinsert ''dispatched_1h'' (JInt (int (length (filter (\<lambda>e. tick_at - 3600 \<le> entry_at e) history)))) state;
          state = jinsert ''history'' (JArr history) state
      in case tf_error f of
           Some e \<Rightarrow> (Inl e, f)
         | None \<Rightarrow> (Inr state, f\<lparr>tf_content := Some (JObj state)\<rparr>))"

section \<open>The plan\<close>

definition lane_step_fallible ::
    "(json \<Rightarrow> 'e + json) \<Rightarrow> (json \<Rightarrow> 'e + int) \<Rightarrow> string set option \<Rightarrow> json \<Rightarrow> buckets \<Rightarrow> 'e + buckets" where
  "lane_step_fallible delivery unread lanes pane out =
     (case non_empty_str (as_str (vget pane ''pane_id'')) of
        None \<Rightarrow> Inr out
      | Some pane_id \<Rightarrow>
          if (case lanes of None \<Rightarrow> False | Some allowed \<Rightarrow> pane_id \<notin> allowed) then Inr out
          else (case delivery pane of
            Inl e \<Rightarrow> Inl e
          | Inr state \<Rightarrow>
              let name = as_str (vget state ''state'');
                  reason = (case vget state ''reason'' of Some r \<Rightarrow> r | None \<Rightarrow> JNull);
                  entry = lane_entry pane_id pane reason
              in if name = Some ''dead'' then Inr (push ''dead'' (JObj entry) out)
                 else if name = Some ''blocked'' then Inr (push ''blocked'' (JObj entry) out)
                 else if name = Some ''working'' then Inr (push ''working'' (JObj entry) out)
                 else if name = Some ''ready'' then
                   (case unread pane of
                      Inl e \<Rightarrow> Inl e
                    | Inr waiting \<Rightarrow>
                        if waiting \<noteq> 0
                        then Inr (push ''has_mail'' (JObj (jinsert ''unread'' (JInt waiting) entry)) out)
                        else Inr (push ''ready'' (JObj entry) out))
                 else Inr (push ''blocked''
                   (JObj (jinsert ''reason'' (if truthy reason then reason else JStr ''unknown state'') entry)) out)))"

fun lane_buckets_fallible ::
    "(json \<Rightarrow> 'e + json) \<Rightarrow> (json \<Rightarrow> 'e + int) \<Rightarrow> string set option \<Rightarrow> json list \<Rightarrow> buckets \<Rightarrow> 'e + buckets" where
  "lane_buckets_fallible delivery unread lanes [] out = Inr out"
| "lane_buckets_fallible delivery unread lanes (p # ps) out =
     (case lane_step_fallible delivery unread lanes p out of
        Inl e \<Rightarrow> Inl e
      | Inr out \<Rightarrow> lane_buckets_fallible delivery unread lanes ps out)"

definition lane_plan_fallible ::
    "json list \<Rightarrow> (json \<Rightarrow> 'e + json) \<Rightarrow> (json \<Rightarrow> 'e + int) \<Rightarrow> string set option \<Rightarrow> 'e + json" where
  "lane_plan_fallible panes delivery unread lanes =
     (case lane_buckets_fallible delivery unread lanes panes (\<lambda>_. []) of
        Inl e \<Rightarrow> Inl e
      | Inr out \<Rightarrow> Inr (JObj
          [(''ready'', JArr (out ''ready'')), (''has_mail'', JArr (out ''has_mail'')),
           (''blocked'', JArr (out ''blocked'')), (''dead'', JArr (out ''dead'')),
           (''working'', JArr (out ''working''))]))"

section \<open>One tick\<close>

type_synonym 's sender = "string \<Rightarrow> string \<Rightarrow> 's \<Rightarrow> (string + json) \<times> 's"

record tick_options =
  to_now :: "time option"
  to_dry_run :: bool
  to_lanes :: "string set option"
  to_writes :: bool
  to_derived :: "json_map list"

definition named_item :: "(json \<Rightarrow> string) \<Rightarrow> json_map \<Rightarrow> json_map" where
  "named_item txt item =
     (if opt_truthy (jget item ''id'') then item
      else jinsert ''id'' (JStr (''board:'' @ py_str txt (jget item ''task_id''))) item)"

definition fresh_record :: "(json \<Rightarrow> string) \<Rightarrow> string \<Rightarrow> json \<Rightarrow> json_map \<Rightarrow> json_map" where
  "fresh_record txt pane lane item =
     [(''pane_id'', JStr pane), (''name'', or_null_of lane ''name''),
      (''item'', or_null_of (JObj item) ''id''), (''task_id'', or_null_of (JObj item) ''task_id''),
      (''text'', JStr (dispatch_text txt (JObj item))), (''sent'', JBool False)]"

definition give ::
    "(json \<Rightarrow> string) \<Rightarrow> env \<Rightarrow> time \<Rightarrow> 's sender \<Rightarrow> 's queue_faults \<Rightarrow> bool \<Rightarrow> string \<Rightarrow> json \<Rightarrow> json_map \<Rightarrow> queue \<Rightarrow> 's
     \<Rightarrow> json_map \<times> queue \<times> 's" where
  "give txt env now send faults dry_run pane lane item q s =
     (let rec = fresh_record txt pane lane item in
      if dry_run then (rec, q, s)
      else case send pane (dispatch_text txt (JObj item)) s of
          (Inl e, s) \<Rightarrow> (jinsert ''error'' (JStr e) rec, q, s)
        | (Inr message_id, s) \<Rightarrow>
            let rec = jinsert ''sent'' (JBool True) (jinsert ''message_id'' message_id rec) in
            if opt_truthy (jget item ''derived'') then (rec, q, s)
            else (case tick_take txt env faults (or_null_of (JObj item) ''id'') pane (as_str (Some message_id)) now q s of
                (None, q) \<Rightarrow> (rec, q, s)
              | (Some e, q) \<Rightarrow> (jinsert ''error'' (JStr e) rec, q, s)))"

definition lane_pane :: "json \<Rightarrow> string" where
  "lane_pane lane = (case as_str (vget lane ''pane_id'') of Some p \<Rightarrow> p | None \<Rightarrow> [])"

text \<open>The next item for a lane and the derived items left; \<open>Inl\<close> is an error of the queue.\<close>

definition next_item ::
    "(json \<Rightarrow> string) \<Rightarrow> 's queue_faults \<Rightarrow> string \<Rightarrow> json_map list \<Rightarrow> queue \<Rightarrow> 's
     \<Rightarrow> string + (json_map \<times> json_map list) option" where
  "next_item txt faults pane derived q s =
     (case derived of
        item # rest \<Rightarrow> Inr (Some (named_item txt item, rest))
      | [] \<Rightarrow> (case qf_next faults pane s of
            Some e \<Rightarrow> Inl e
          | None \<Rightarrow> Inr (case queue_next_for pane q of
                Some row \<Rightarrow> Some (standby_value row, [])
              | None \<Rightarrow> None)))"

text \<open>
  The lanes in turn: the error that stopped the tick, the records of what was given, the derived
  items that are left, the queue and the sender.
\<close>

fun fill_lanes ::
    "(json \<Rightarrow> string) \<Rightarrow> env \<Rightarrow> time \<Rightarrow> 's sender \<Rightarrow> 's queue_faults \<Rightarrow> bool \<Rightarrow> json list \<Rightarrow> json_map list \<Rightarrow> queue \<Rightarrow> 's
     \<Rightarrow> string option \<times> json_map list \<times> json_map list \<times> queue \<times> 's" where
  "fill_lanes txt env now send faults dry_run [] derived q s = (None, [], derived, q, s)"
| "fill_lanes txt env now send faults dry_run (lane # lanes) derived q s =
     (case next_item txt faults (lane_pane lane) derived q s of
        Inl e \<Rightarrow> (Some e, [], derived, q, s)
      | Inr None \<Rightarrow> (None, [], derived, q, s)
      | Inr (Some (item, derived)) \<Rightarrow>
          (case give txt env now send faults dry_run (lane_pane lane) lane item q s of
             (rec, q, s) \<Rightarrow>
               (case fill_lanes txt env now send faults dry_run lanes derived q s of
                  (error, recs, derived, q, s) \<Rightarrow> (error, rec # recs, derived, q, s))))"

definition plan_rows :: "json \<Rightarrow> string \<Rightarrow> json list" where
  "plan_rows plan k = (case as_array (vget plan k) of Some rows \<Rightarrow> rows | None \<Rightarrow> [])"

definition trimmed :: "json \<Rightarrow> string \<Rightarrow> json" where
  "trimmed plan k = JArr (map (\<lambda>r. JObj [(''pane_id'', or_null_of r ''pane_id''), (''name'', or_null_of r ''name''),
     (''reason'', or_null_of r ''reason'')]) (plan_rows plan k))"

definition was_sent :: "json_map \<Rightarrow> bool" where
  "was_sent r \<longleftrightarrow> jget r ''sent'' = Some (JBool True)"

definition idle_unfilled :: "json list \<Rightarrow> json_map list \<Rightarrow> string list" where
  "idle_unfilled ready dispatched =
     (let filled = List.map_filter (\<lambda>r. as_str (jget r ''pane_id'')) (filter was_sent dispatched)
      in filter (\<lambda>p. p \<notin> set filled) (List.map_filter (\<lambda>lane. as_str (vget lane ''pane_id'')) ready))"

definition json_count :: "nat \<Rightarrow> json" where
  "json_count n = JInt (int n)"

definition tick_state ::
    "(json \<Rightarrow> string) \<Rightarrow> time \<Rightarrow> tick_options \<Rightarrow> json \<Rightarrow> json_map list \<Rightarrow> json_map list \<Rightarrow> queue \<Rightarrow> json_map" where
  "tick_state txt now opts plan dispatched left q =
     (let n = (\<lambda>k. length (plan_rows plan k));
          ready = plan_rows plan ''ready'';
          pending = queue_items True q;
          idle = idle_unfilled ready dispatched;
          sent = filter was_sent dispatched
      in [(''tick_at'', JReal now), (''dry_run'', JBool (to_dry_run opts)),
          (''lanes'', json_count (n ''ready'' + n ''has_mail'' + n ''blocked'' + n ''dead'' + n ''working'')),
          (''ready'', json_count (n ''ready'')), (''working'', json_count (n ''working'')),
          (''has_mail'', json_count (n ''has_mail'')),
          (''blocked'', trimmed plan ''blocked''), (''dead'', trimmed plan ''dead''),
          (''dispatched'', JArr (map JObj dispatched)), (''dispatched_count'', json_count (length sent)),
          (''idle_unfilled'', JArr (map JStr idle)), (''queue_depth'', json_count (length pending)),
          (''derived_available'', json_count (length (to_derived opts))),
          (''derived_dispatched'', json_count (length
             (filter (\<lambda>r. starts_with (py_str txt (jget r ''item'')) ''board:'') sent))),
          (''queue_empty'', JBool (pending = [] \<and> left = [] \<and> to_derived opts = [] \<and> idle \<noteq> [])),
          (''dispatched_1h'', JInt 0)])"

definition tick_now :: "env \<Rightarrow> tick_options \<Rightarrow> time" where
  "tick_now env opts = (case to_now opts of Some n \<Rightarrow> if n \<noteq> 0 then n else now_s env | None \<Rightarrow> now_s env)"

definition tick_with_plan ::
    "(json \<Rightarrow> string) \<Rightarrow> env \<Rightarrow> 's sender \<Rightarrow> 's queue_faults \<Rightarrow> tick_options \<Rightarrow> json \<Rightarrow> queue \<Rightarrow> 's \<Rightarrow> tick_file
     \<Rightarrow> (string + json_map) \<times> queue \<times> 's \<times> tick_file" where
  "tick_with_plan txt env send faults opts plan q s f =
     (let now = tick_now env opts in
      case fill_lanes txt env now send faults (to_dry_run opts) (plan_rows plan ''ready'') (to_derived opts) q s of
        (Some e, _, _, q, s) \<Rightarrow> (Inl e, q, s, f)
      | (None, dispatched, left, q, s) \<Rightarrow>
          (case qf_items faults s of
             Some e \<Rightarrow> (Inl e, q, s, f)
           | None \<Rightarrow>
               let state = tick_state txt now opts plan dispatched left q in
               if to_writes opts then (case write_state state f of (r, f) \<Rightarrow> (r, q, s, f))
               else (Inr state, q, s, f)))"

definition standby_tick ::
    "(json \<Rightarrow> string) \<Rightarrow> env \<Rightarrow> 's sender \<Rightarrow> 's queue_faults \<Rightarrow> tick_options \<Rightarrow> json list \<Rightarrow> (json \<Rightarrow> json) \<Rightarrow> (json \<Rightarrow> int)
     \<Rightarrow> queue \<Rightarrow> 's \<Rightarrow> tick_file \<Rightarrow> (string + json_map) \<times> queue \<times> 's \<times> tick_file" where
  "standby_tick txt env send faults opts panes delivery unread =
     tick_with_plan txt env send faults opts (lane_plan panes delivery unread (to_lanes opts))"

definition tick_fallible ::
    "(json \<Rightarrow> string) \<Rightarrow> env \<Rightarrow> 's sender \<Rightarrow> 's queue_faults \<Rightarrow> tick_options \<Rightarrow> json list
     \<Rightarrow> (json \<Rightarrow> string + json) \<Rightarrow> (json \<Rightarrow> string + int)
     \<Rightarrow> queue \<Rightarrow> 's \<Rightarrow> tick_file \<Rightarrow> (string + json_map) \<times> queue \<times> 's \<times> tick_file" where
  "tick_fallible txt env send faults opts panes delivery unread q s f =
     (case lane_plan_fallible panes delivery unread (to_lanes opts) of
        Inl e \<Rightarrow> (Inl e, q, s, f)
      | Inr plan \<Rightarrow> tick_with_plan txt env send faults opts plan q s f)"

text \<open>\<^verbatim>\<open>summary\<close>: one line for each number, the reasons of blocked lanes as a sorted set.\<close>

definition tick_summary :: "(json \<Rightarrow> string) \<Rightarrow> json \<Rightarrow> string" where
  "tick_summary txt state =
     (let idle = plan_rows state ''idle_unfilled'';
          blocked = plan_rows state ''blocked'';
          dead = plan_rows state ''dead'';
          reasons = sort (remdups (map (\<lambda>i. py_str txt (vget i ''name'') @ '': '' @ py_str txt (vget i ''reason'')) blocked))
      in join_with [CHR 0x0A]
         ([''idle lanes: '' @ digits (length idle),
           ''dispatched this hour: '' @ py_str txt (vget state ''dispatched_1h''),
           ''blocked lanes: '' @ digits (length blocked)
             @ (if reasons = [] then [] else '' ('' @ join_with ''; '' reasons @ '')'')]
          @ (if dead = [] then []
             else [''dead lanes: '' @ digits (length dead) @ '' (''
                     @ join_with '', '' (map (\<lambda>i. py_str txt (vget i ''name'')) dead) @ '')''])
          @ (if opt_truthy (vget state ''queue_empty'')
             then [''the standby queue is empty and '' @ digits (length idle) @ '' lane(s) are idle'']
             else [])))"

end
