(* ===== verification/Tick_Effects.thy ===== *)
theory Tick_Effects
  imports Standby_Tick
begin

text \<open>
  What a standby tick does to its lanes, its queue and its state file.
\<close>

section \<open>The two plans\<close>

lemma lane_step_fallible_total:
  "lane_step_fallible (\<lambda>p. Inr (delivery p)) (\<lambda>p. Inr (unread p)) lanes p out = Inr (lane_step delivery unread lanes p out)"
  by (simp add: lane_step_fallible_def lane_step_def Let_def split: option.split)

lemma lane_buckets_fallible_total:
  "lane_buckets_fallible (\<lambda>p. Inr (delivery p)) (\<lambda>p. Inr (unread p)) lanes panes out =
     Inr (fold (lane_step delivery unread lanes) panes out)"
  by (induction panes arbitrary: out) (simp_all add: lane_step_fallible_total)

text \<open>
  The tick of the daemon, whose adapters may fail, is the tick of the planner when they do not; and
  when one fails nothing was sent, taken or written.
\<close>

theorem fallible_tick_is_tick:
  "tick_fallible txt env send faults opts panes (\<lambda>p. Inr (delivery p)) (\<lambda>p. Inr (unread p)) q s f
     = standby_tick txt env send faults opts panes delivery unread q s f
   \<and> (isl (lane_plan_fallible panes (d :: json \<Rightarrow> string + json) u (to_lanes opts)) \<longrightarrow>
       isl (fst (tick_fallible txt env send faults opts panes d u q s f)) \<and> snd (tick_fallible txt env send faults opts panes d u q s f) = (q, s, f))"
  by (auto simp: tick_fallible_def standby_tick_def lane_plan_fallible_def lane_plan_def lane_buckets_def
      lane_buckets_fallible_total Let_def isl_def split: sum.splits)

section \<open>Giving an item\<close>

lemma jget_insert: "jget (jinsert k v m) k' = (if k' = k then Some v else jget m k')"
  by (simp add: jget_jinsert)

lemma give_fields:
  assumes "give txt env now send faults dry_run pane lane item q s = (r, q', s')"
  shows "jget r ''pane_id'' = Some (JStr pane)" "jget r ''item'' = Some (or_null_of (JObj item) ''id'')"
    "dry_run \<Longrightarrow> \<not> was_sent r \<and> q' = q \<and> s' = s"
    "\<not> was_sent r \<Longrightarrow> q' = q"
    "opt_truthy (jget item ''derived'') \<Longrightarrow> q' = q"
  using assms
  by (auto simp: give_def Let_def fresh_record_def was_sent_def jget_insert split: if_splits sum.splits prod.splits option.splits)

definition queue_ok :: "queue \<Rightarrow> bool" where
  "queue_ok q \<longleftrightarrow> queue_inv q \<and> q_seq q < 2 ^ 63 \<and> (\<forall>r \<in> set (q_rows q). 0 < sb_id r)"

definition pending_in :: "queue \<Rightarrow> int \<Rightarrow> bool" where
  "pending_in q i \<longleftrightarrow> (\<exists>row. queue_get i q = Some row \<and> sb_taken_at row = None)"

lemma queue_ok_take:
  assumes "queue_ok q"
  shows "queue_ok (snd (queue_take env i lane msg now q))"
proof -
  have "queue_inv (snd (queue_take env i lane msg now q))"
    using queue_inv_exec [of q env "Queue_Take i lane msg now"] assms by (simp add: queue_ok_def queue_exec_def)
  moreover have "q_seq (snd (queue_take env i lane msg now q)) = q_seq q"
    by (simp add: queue_take_def Let_def split: option.split)
  moreover have "\<forall>r \<in> set (q_rows (snd (queue_take env i lane msg now q))). 0 < sb_id r"
    using assms by (auto simp: queue_ok_def queue_take_def Let_def row_update_def split: option.split)
  ultimately show ?thesis using assms by (simp add: queue_ok_def)
qed

lemma next_for_get:
  assumes "queue_ok q" "queue_next_for pane q = Some row"
  shows "queue_get (sb_id row) q = Some row" "sb_taken_at row = None" "0 < sb_id row" "sb_id row < 2 ^ 63"
proof -
  have row: "row \<in> set (q_rows q)" "sb_taken_at row = None" using next_for_sound [OF assms(2)] by simp_all
  then show "sb_taken_at row = None" "0 < sb_id row" "sb_id row < 2 ^ 63"
    using assms(1) by (auto simp: queue_ok_def queue_inv_def)
  have "distinct (map sb_id (q_rows q))" using assms(1) by (simp add: queue_ok_def queue_inv_def)
  then show "queue_get (sb_id row) q = Some row"
    using row(1) by (simp add: queue_get_def row_get_def distinct_find_unique)
qed

text \<open>A hand item that went to a lane for good: it was sent and the record has no error.\<close>

definition handed :: "json_map \<Rightarrow> int \<Rightarrow> bool" where
  "handed r i \<longleftrightarrow> was_sent r \<and> jget r ''error'' = None \<and> jget r ''item'' = Some (JInt i)"

text \<open>Giving a hand item: its row is untouched or taken, and it is taken when no error is recorded.\<close>

lemma give_hand:
  assumes "queue_ok q" "queue_next_for pane q = Some row"
    and run: "give txt env now send faults dry_run pane lane (standby_value row) q s = (r, q', s')"
  shows "queue_ok q'" "jget r ''item'' = Some (JInt (sb_id row))"
    "handed r i \<Longrightarrow> \<exists>row'. queue_get i q' = Some row' \<and> sb_taken_by row' = Some pane \<and> sb_taken_at row' \<noteq> None"
    "i \<noteq> sb_id row \<or> \<not> was_sent r \<Longrightarrow> queue_get i q' = queue_get i q"
    "pending_in q' i \<Longrightarrow> pending_in q i"
proof -
  note n = next_for_get [OF assms(1,2)]
  let ?q = "\<lambda>m. snd (queue_take env (sb_id row) pane m (Some now) q)"
  let ?take = "\<lambda>m s. tick_take txt env faults (JInt (sb_id row)) pane m now q s"
  have t: "?take m s = (case qf_take faults (sb_id row) pane s of
      Some (False, e) \<Rightarrow> (Some e, q) | fault \<Rightarrow> (map_option snd fault, ?q m))" for m s
    using n by (auto simp: tick_take_def queue_take_def Let_def split: option.splits bool.splits)
  have item: "or_null_of (JObj (standby_value row)) ''id'' = JInt (sb_id row)" "\<not> opt_truthy (jget (standby_value row) ''derived'')"
    by (simp_all add: or_null_of_def vget_def standby_value_def opt_truthy_def)
  show i: "jget r ''item'' = Some (JInt (sb_id row))" using give_fields(2) [OF run] item by simp
  have q': "\<not> was_sent r \<and> q' = q \<or> was_sent r \<and> (q' = q \<and> jget r ''error'' \<noteq> None \<or> (\<exists>m. q' = ?q m))"
    using run by (auto simp: give_def Let_def item t fresh_record_def was_sent_def jget_insert
        split: if_splits sum.splits prod.splits option.splits bool.splits)
  then have cases: "q' = q \<and> \<not> handed r j \<or> (\<exists>m. was_sent r \<and> q' = ?q m)" for j by (auto simp: handed_def)
  show "queue_ok q'" using cases [of 0] queue_ok_take [OF assms(1)] assms(1) by auto
  show "\<exists>row'. queue_get i q' = Some row' \<and> sb_taken_by row' = Some pane \<and> sb_taken_at row' \<noteq> None"
    if "handed r i" using cases [of i] that n i by (auto simp: queue_get_take handed_def)
  show "queue_get i q' = queue_get i q" if "i \<noteq> sb_id row \<or> \<not> was_sent r"
    using cases [of 0] that by (auto simp: queue_get_take)
  show "pending_in q i" if "pending_in q' i"
    using cases [of 0] that n by (auto simp: pending_in_def queue_get_take split: if_splits option.splits)
qed

section \<open>Filling lanes\<close>

text \<open>An item as \<^const>\<open>derive_board_items\<close> makes it.\<close>

definition board_made :: "json_map \<Rightarrow> bool" where
  "board_made item \<longleftrightarrow> opt_truthy (jget item ''derived'') \<and> (\<exists>t. jget item ''id'' = Some (JStr t) \<and> t \<noteq> [])"

lemma derived_board_made:
  assumes "JObj item \<in> set (fst (derive_board_items txt p tasks recent now coarse))"
  shows "board_made item"
proof -
  obtain now' task where "JObj item = snd (snd (board_item txt now' task))"
    using assms by (auto simp: derive_board_items_def Let_def split_beta)
  then show ?thesis by (simp add: board_item_def Let_def board_made_def opt_truthy_def)
qed

lemma named_board: "board_made item \<Longrightarrow> named_item txt item = item"
  by (auto simp: board_made_def named_item_def opt_truthy_def)

definition hand_ids :: "json_map list \<Rightarrow> int list" where
  "hand_ids recs = List.map_filter (\<lambda>r. if was_sent r then as_int (jget r ''item'') else None) recs"

lemma hand_ids_simps [simp]:
  "hand_ids [] = []"
  "hand_ids (r # recs) = (if was_sent r then (case as_int (jget r ''item'') of Some i \<Rightarrow> i # hand_ids recs | None \<Rightarrow> hand_ids recs) else hand_ids recs)"
  by (simp_all add: hand_ids_def map_filter_simps split: option.split)

lemma fill_lanes_cases:
  assumes "fill_lanes txt env now send faults dry_run (lane # lanes) derived q s = (err, recs, left, q', s')"
  obtains (stopped) "derived = []" "recs = []" "left = []" "q' = q" "s' = s"
  | (hand) row r q1 s1 recs1 where "derived = []" "queue_next_for (lane_pane lane) q = Some row"
      "give txt env now send faults dry_run (lane_pane lane) lane (standby_value row) q s = (r, q1, s1)"
      "fill_lanes txt env now send faults dry_run lanes [] q1 s1 = (err, recs1, left, q', s')" "recs = r # recs1"
  | (board) item rest r q1 s1 recs1 where "derived = item # rest"
      "give txt env now send faults dry_run (lane_pane lane) lane (named_item txt item) q s = (r, q1, s1)"
      "fill_lanes txt env now send faults dry_run lanes rest q1 s1 = (err, recs1, left, q', s')" "recs = r # recs1"
  using assms by (auto simp: next_item_def split: list.splits option.splits prod.splits)

lemma fill_lanes_panes:
  assumes "fill_lanes txt env now send faults dry_run lanes derived q s = (err, recs, left, q', s')"
  shows "length recs \<le> length lanes
    \<and> map (\<lambda>r. jget r ''pane_id'') recs = map (\<lambda>l. Some (JStr (lane_pane l))) (take (length recs) lanes)
    \<and> left = drop (length recs) derived \<and> min (length lanes) (length derived) \<le> length recs
    \<and> (list_all board_made derived \<longrightarrow>
        map (\<lambda>r. jget r ''item'') (take (length derived) recs) = map (\<lambda>m. jget m ''id'') (take (length recs) derived))
    \<and> (dry_run \<longrightarrow> (\<forall>r \<in> set recs. \<not> was_sent r) \<and> q' = q \<and> s' = s)"
  using assms
proof (induction lanes arbitrary: derived q s recs left q' s')
  case (Cons lane lanes)
  from Cons.prems show ?case
  proof (cases rule: fill_lanes_cases)
    case (hand row r q1 s1 recs1)
    show ?thesis using Cons.IH [OF hand(4)] give_fields [OF hand(3)] by (auto simp: hand(1,5))
  next
    case (board item rest r q1 s1 recs1)
    have "jget r ''item'' = jget item ''id''" if "board_made item"
      using that give_fields(2) [OF board(2)] by (auto simp: named_board or_null_of_def vget_def board_made_def)
    then show ?thesis using Cons.IH [OF board(3)] give_fields(1,3) [OF board(2)] by (auto simp: board(1,4))
  qed simp
qed simp

definition hand_promise :: "queue \<Rightarrow> queue \<Rightarrow> json_map list \<Rightarrow> bool" where
  "hand_promise q q' recs \<longleftrightarrow>
     sorted_wrt (\<lambda>r later. \<forall>i. handed r i \<longrightarrow> jget later ''item'' \<noteq> Some (JInt i)) recs
     \<and> (\<forall>r \<in> set recs. \<forall>i. jget r ''item'' = Some (JInt i) \<longrightarrow> pending_in q i)
     \<and> (\<forall>r \<in> set recs. \<forall>i. handed r i \<longrightarrow>
          (\<exists>p row. jget r ''pane_id'' = Some (JStr p) \<and> queue_get i q' = Some row \<and> sb_taken_by row = Some p \<and> sb_taken_at row \<noteq> None))
     \<and> (\<forall>i. i \<notin> set (hand_ids recs) \<longrightarrow> queue_get i q' = queue_get i q)"

lemma hand_ids_item: "i \<in> set (hand_ids recs) \<Longrightarrow> \<exists>r \<in> set recs. was_sent r \<and> jget r ''item'' = Some (JInt i)"
  by (induction recs) (auto simp: as_int_def split: if_splits option.splits json.splits)

lemma hand_promise_hand:
  assumes "queue_ok q" "queue_next_for (lane_pane lane) q = Some row"
    and g: "give txt env now send faults dry_run (lane_pane lane) lane (standby_value row) q s = (r, q1, s1)"
    and rest: "hand_promise q1 q' recs"
  shows "hand_promise q q' (r # recs)"
proof -
  note h = give_hand [OF assms(1,2) g] and n = next_for_get [OF assms(1,2)]
  have pend: "pending_in q1 i" if "later \<in> set recs" "jget later ''item'' = Some (JInt i)" for later i
    using rest that by (auto simp: hand_promise_def)
  have gone: "\<not> pending_in q1 i" if "handed r i" for i using h(3) [OF that] by (auto simp: pending_in_def)
  then have apart: "jget later ''item'' \<noteq> Some (JInt i)" if "handed r i" "later \<in> set recs" for later i
    using pend that by blast
  have taken: "\<exists>p row. jget r ''pane_id'' = Some (JStr p) \<and> queue_get i q' = Some row \<and> sb_taken_by row = Some p
      \<and> sb_taken_at row \<noteq> None" if "handed r i" for i
  proof -
    have "i \<notin> set (hand_ids recs)" using apart [OF that] hand_ids_item by blast
    then have "queue_get i q' = queue_get i q1" using rest by (simp add: hand_promise_def)
    then show ?thesis using h(3) [OF that] give_fields(1) [OF g] by auto
  qed
  have kept: "queue_get i q' = queue_get i q" if "i \<notin> set (hand_ids (r # recs))" for i
  proof -
    have "i \<noteq> sb_id row \<or> \<not> was_sent r" "i \<notin> set (hand_ids recs)"
      using that h(2) by (auto simp: as_int_def split: if_splits)
    then show ?thesis using h(4) rest by (simp add: hand_promise_def)
  qed
  have "pending_in q i" if "jget r ''item'' = Some (JInt i)" for i using that h(2) n by (simp add: pending_in_def)
  then show ?thesis
    using rest apart taken kept pend h(5) unfolding hand_promise_def by (simp del: hand_ids_simps)
qed

lemma fill_lanes_queue:
  assumes "fill_lanes txt env now send faults dry_run lanes derived q s = (err, recs, left, q', s')"
    and "queue_ok q" "list_all board_made derived"
  shows "hand_promise q q' recs"
  using assms
proof (induction lanes arbitrary: derived q s recs left q' s')
  case (Cons lane lanes)
  from Cons.prems(1) show ?case
  proof (cases rule: fill_lanes_cases)
    case stopped
    then show ?thesis by (simp add: hand_promise_def)
  next
    case (hand row r q1 s1 recs1)
    show ?thesis
      unfolding hand(5) using Cons.IH [OF hand(4) give_hand(1) [OF Cons.prems(2) hand(2,3)]]
      by (intro hand_promise_hand [OF Cons.prems(2) hand(2,3)]) simp
  next
    case (board item rest r q1 s1 recs1)
    then have made: "board_made item" "list_all board_made rest" using Cons.prems(3) by simp_all
    have "q1 = q" using give_fields(5) [OF board(2)] made(1) by (simp add: named_board board_made_def)
    then have "hand_promise q q' recs1" using Cons.IH [OF board(3) _ made(2)] Cons.prems(2) by simp
    moreover have "\<exists>t. jget r ''item'' = Some (JStr t)"
      using give_fields(2) [OF board(2)] made(1) by (auto simp: named_board or_null_of_def vget_def board_made_def)
    ultimately show ?thesis by (auto simp: board(4) hand_promise_def handed_def as_int_def)
  qed
qed (simp add: hand_promise_def)

section \<open>A tick, for the witnesses\<close>

definition demo_panes :: "json list" where
  "demo_panes = [JObj [(''pane_id'', JStr ''w:1'')], JObj [(''pane_id'', JStr ''w:2'')], JObj [(''pane_id'', JStr ''w:3'')]]"

definition demo_ready :: "json \<Rightarrow> json" where
  "demo_ready p = JObj [(''state'', JStr ''ready'')]"

definition demo_send :: "nat sender" where
  "demo_send pane text n = (Inr (JStr pane), n + 1)"

definition no_faults :: "nat queue_faults" where
  "no_faults = \<lparr>qf_next = (\<lambda>_ _. None), qf_take = (\<lambda>_ _ _. None), qf_items = (\<lambda>_. None)\<rparr>"

definition demo_options :: "bool \<Rightarrow> tick_options" where
  "demo_options dry = \<lparr>to_now = Some 7200, to_dry_run = dry, to_lanes = None, to_writes = True,
     to_derived = [[(''id'', JStr ''board:t1''), (''task_id'', JStr ''t1''), (''brief'', JStr ''b''), (''derived'', JBool True)]]\<rparr>"

definition demo_file :: tick_file where
  "demo_file = \<lparr>tf_content = Some (JObj [(''history'', JArr [JObj [(''at'', JInt 100)], JObj [(''at'', JInt 7000)]])]), tf_error = None\<rparr>"

abbreviation demo_tick :: "bool \<Rightarrow> (string + json_map) \<times> queue \<times> nat \<times> tick_file" where
  "demo_tick dry \<equiv> standby_tick (\<lambda>_. []) demo_clock demo_send no_faults (demo_options dry) demo_panes demo_ready (\<lambda>_. 0) demo_queue 0 demo_file"

lemma demo_tick_ok: "\<not> isl (fst (demo_tick False))" "\<not> isl (fst (demo_tick True))"
  by code_simp+

lemma demo_tick_queue: "queue_ok demo_queue" "list_all board_made (to_derived (demo_options dry))"
  by (simp_all add: queue_ok_def queue_inv_def demo_queue_def demo_options_def board_made_def opt_truthy_def)

lemma ok_parts: "\<not> isl (fst r) \<Longrightarrow> \<exists>a b c d. r = (Inr a, b, c, d)"
  by (cases r; cases "fst r") auto

section \<open>What a tick promises\<close>

lemma tick_records:
  assumes "standby_tick txt env send faults opts panes delivery unread q s f = (Inr state, q', s', f')"
  obtains recs left where "fill_lanes txt env (tick_now env opts) send faults (to_dry_run opts)
      (plan_rows (lane_plan panes delivery unread (to_lanes opts)) ''ready'') (to_derived opts) q s = (None, recs, left, q', s')"
    "jget state ''dispatched'' = Some (JArr (map JObj recs))"
    "jget state ''dispatched_count'' = Some (JInt (int (length (filter was_sent recs))))"
    "to_writes opts \<Longrightarrow> write_state (tick_state txt (tick_now env opts) opts
       (lane_plan panes delivery unread (to_lanes opts)) recs left q') f = (Inr state, f')"
proof -
  let ?plan = "lane_plan panes delivery unread (to_lanes opts)"
  obtain err recs left q1 s1 where fill: "fill_lanes txt env (tick_now env opts) send faults (to_dry_run opts)
      (plan_rows ?plan ''ready'') (to_derived opts) q s = (err, recs, left, q1, s1)" by (metis prod_cases5)
  let ?state = "tick_state txt (tick_now env opts) opts ?plan recs left q1"
  have e: "q1 = q'" "s1 = s'" "err = None"
    and w: "if to_writes opts then write_state ?state f = (Inr state, f') else state = ?state"
    using assms fill by (auto simp: standby_tick_def tick_with_plan_def Let_def split: if_splits prod.splits option.splits)
  have fields: "jget ?state ''dispatched'' = Some (JArr (map JObj recs))"
    "jget ?state ''dispatched_count'' = Some (JInt (int (length (filter was_sent recs))))"
    by (simp_all add: tick_state_def Let_def json_count_def)
  have "jget state k = jget ?state k" if "k \<noteq> ''history''" "k \<noteq> ''dispatched_1h''" for k
    using w that by (auto simp: write_state_def Let_def split: if_splits option.splits)
  then have "jget state ''dispatched'' = Some (JArr (map JObj recs))"
    "jget state ''dispatched_count'' = Some (JInt (int (length (filter was_sent recs))))"
    using fields by auto
  then show ?thesis using that [OF fill [unfolded e]] w [unfolded e] by simp
qed

text \<open>
  C12: A tick that ends without an error gives each ready lane at most one item, in the order of
  the plan. The board's items go first, each to one lane; only when they are used up are lanes
  given the hand queue, whose items were all pending before. A hand item that was sent, with no
  error in its record, is taken by its lane and goes to no later lane; when the take failed its
  record says so. The items that were not sent are as they were.
\<close>

theorem lanes_get_one_item:
  assumes "standby_tick txt env send faults opts panes delivery unread q s f = (Inr state, q', s', f')"
    and "queue_ok q" "list_all board_made (to_derived opts)"
    and ready: "ready = plan_rows (lane_plan panes delivery unread (to_lanes opts)) ''ready''"
  shows "\<exists>recs. jget state ''dispatched'' = Some (JArr (map JObj recs)) \<and> length recs \<le> length ready
     \<and> map (\<lambda>r. jget r ''pane_id'') recs = map (\<lambda>l. Some (JStr (lane_pane l))) (take (length recs) ready)
     \<and> min (length ready) (length (to_derived opts)) \<le> length recs
     \<and> map (\<lambda>r. jget r ''item'') (take (length (to_derived opts)) recs)
         = map (\<lambda>m. jget m ''id'') (take (length recs) (to_derived opts))
     \<and> (\<forall>r \<in> set recs. \<forall>i. jget r ''item'' = Some (JInt i) \<longrightarrow> pending_in q i)
     \<and> sorted_wrt (\<lambda>r later. \<forall>i. handed r i \<longrightarrow> jget later ''item'' \<noteq> Some (JInt i)) recs
     \<and> (\<forall>r \<in> set recs. \<forall>i. handed r i \<longrightarrow>
         (\<exists>p row. jget r ''pane_id'' = Some (JStr p) \<and> queue_get i q' = Some row \<and> sb_taken_by row = Some p \<and> sb_taken_at row \<noteq> None))
     \<and> (\<forall>i. i \<notin> set (hand_ids recs) \<longrightarrow> queue_get i q' = queue_get i q)"
proof -
  obtain recs left where fill: "fill_lanes txt env (tick_now env opts) send faults (to_dry_run opts) ready (to_derived opts) q s
      = (None, recs, left, q', s')" and d: "jget state ''dispatched'' = Some (JArr (map JObj recs))"
    using tick_records [OF assms(1)] unfolding ready by metis
  show ?thesis using fill_lanes_panes [OF fill] fill_lanes_queue [OF fill assms(2,3), unfolded hand_promise_def] assms(3) d
    by (intro exI [of _ recs]) blast
qed

theorem lanes_get_one_item_witness:
  "\<exists>state q' s' f' recs. demo_tick False = (Inr state, q', s', f') \<and> jget state ''dispatched'' = Some (JArr (map JObj recs))
     \<and> length recs \<le> 3 \<and> sorted_wrt (\<lambda>r later. \<forall>i. handed r i \<longrightarrow> jget later ''item'' \<noteq> Some (JInt i)) recs"
proof -
  obtain state q' s' f' where t: "demo_tick False = (Inr state, q', s', f')" using ok_parts [OF demo_tick_ok(1)] by blast
  have "length (plan_rows (lane_plan demo_panes demo_ready (\<lambda>_. 0) (to_lanes (demo_options False))) ''ready'') = 3" by code_simp
  with lanes_get_one_item [OF t demo_tick_queue refl] t show ?thesis by auto
qed

text \<open>
  What the claim leaves open, and why: while takes fail the item stays pending, and the next lane
  it may go to is sent it as well.
\<close>

lemma failed_take_is_sent_again:
  assumes "queue_next_for (lane_pane lane1) q = Some row" "queue_next_for (lane_pane lane2) q = Some row" "queue_ok q"
    and "\<And>p s. qf_next faults p s = None" "\<And>i p s. qf_take faults i p s = Some (False, e)"
    and "\<And>p x s. \<exists>m s'. send p x s = (Inr m, s')"
  shows "\<exists>r1 r2 s'. fill_lanes txt env now send faults False [lane1, lane2] [] q s = (None, [r1, r2], [], q, s')
     \<and> was_sent r1 \<and> was_sent r2 \<and> jget r1 ''item'' = Some (JInt (sb_id row)) \<and> jget r2 ''item'' = Some (JInt (sb_id row))"
proof -
  have step: "\<exists>r s'. give txt env now send faults False p lane (standby_value row) q s = (r, q, s') \<and> was_sent r
      \<and> jget r ''item'' = Some (JInt (sb_id row))" if "queue_next_for p q = Some row" for p lane s
  proof -
    note n = next_for_get [OF assms(3) that]
    have item: "or_null_of (JObj (standby_value row)) ''id'' = JInt (sb_id row)" "\<not> opt_truthy (jget (standby_value row) ''derived'')"
      by (simp_all add: or_null_of_def vget_def standby_value_def opt_truthy_def)
    obtain m s' where "send p (dispatch_text txt (JObj (standby_value row))) s = (Inr m, s')" using assms(6) by blast
    then show ?thesis
      using n by (simp add: give_def Let_def item tick_take_def assms(5) fresh_record_def was_sent_def)
  qed
  obtain r1 s1 where r1: "give txt env now send faults False (lane_pane lane1) lane1 (standby_value row) q s = (r1, q, s1)"
      "was_sent r1" "jget r1 ''item'' = Some (JInt (sb_id row))" using step [OF assms(1)] by blast
  obtain r2 s2 where r2: "give txt env now send faults False (lane_pane lane2) lane2 (standby_value row) q s1 = (r2, q, s2)"
      "was_sent r2" "jget r2 ''item'' = Some (JInt (sb_id row))" using step [OF assms(2)] by blast
  show ?thesis using r1 r2 assms(1,2,4) by (auto simp: next_item_def)
qed

text \<open>
  A dry run sends nothing and takes nothing.\<close>

theorem dry_run_changes_nothing:
  assumes "standby_tick txt env send faults opts panes delivery unread q s f = (Inr state, q', s', f')" "to_dry_run opts"
  shows "q' = q \<and> s' = s \<and> jget state ''dispatched_count'' = Some (JInt 0)"
proof -
  obtain recs left where fill: "fill_lanes txt env (tick_now env opts) send faults (to_dry_run opts)
      (plan_rows (lane_plan panes delivery unread (to_lanes opts)) ''ready'') (to_derived opts) q s = (None, recs, left, q', s')"
    and c: "jget state ''dispatched_count'' = Some (JInt (int (length (filter was_sent recs))))"
    using tick_records [OF assms(1)] by metis
  have "filter was_sent recs = []" using fill_lanes_panes [OF fill] assms(2) by (simp add: filter_empty_conv)
  then show ?thesis using fill_lanes_panes [OF fill] assms(2) c by simp
qed

theorem dry_run_changes_nothing_witness:
  "\<exists>state f'. demo_tick True = (Inr state, demo_queue, 0, f')"
proof -
  obtain state q' s' f' where t: "demo_tick True = (Inr state, q', s', f')" using ok_parts [OF demo_tick_ok(2)] by blast
  have "to_dry_run (demo_options True)" by (simp add: demo_options_def)
  from dry_run_changes_nothing [OF t this] t show ?thesis by auto
qed

lemma sent_entries:
  "list_all (\<lambda>r. jget r ''sent'' = Some (JBool (was_sent r))) recs \<Longrightarrow>
   filter (\<lambda>r. opt_truthy (vget r ''sent'')) (map JObj recs) = map JObj (filter was_sent recs)"
  by (induction recs) (auto simp: vget_def opt_truthy_def)

lemma give_sent: "give txt env now send faults dry_run pane lane item q s = (r, q', s') \<Longrightarrow> jget r ''sent'' = Some (JBool (was_sent r))"
  by (auto simp: give_def Let_def fresh_record_def was_sent_def split: if_splits sum.splits prod.splits option.splits)

lemma fill_lanes_sent:
  "fill_lanes txt env now send faults dry_run lanes derived q s = (err, recs, left, q', s') \<Longrightarrow>
   list_all (\<lambda>r. jget r ''sent'' = Some (JBool (was_sent r))) recs"
proof (induction lanes arbitrary: derived q s recs left q' s')
  case (Cons lane lanes)
  from Cons.prems show ?case
    by (cases rule: fill_lanes_cases) (auto dest: give_sent Cons.IH)
qed simp

text \<open>
  C39: The number the owner reads is true. The sends of the last hour after a tick are the sends of
  the last hour before it and those of this tick, and the state file holds what the tick
  answered.
\<close>

theorem hour_count_is_true:
  assumes "standby_tick txt env send faults opts panes delivery unread q s f = (Inr state, q', s', f')" "to_writes opts"
  shows "\<exists>n. jget state ''dispatched_count'' = Some (JInt (int n))
     \<and> jget state ''dispatched_1h'' = Some (JInt (int (dispatched_in_window f (tick_now env opts) 3600 + n)))
     \<and> dispatched_in_window f' (tick_now env opts) 3600 = dispatched_in_window f (tick_now env opts) 3600 + n
     \<and> load_state f' = JObj state"
proof -
  let ?plan = "lane_plan panes delivery unread (to_lanes opts)"
  obtain recs left where fill: "fill_lanes txt env (tick_now env opts) send faults (to_dry_run opts)
      (plan_rows ?plan ''ready'') (to_derived opts) q s = (None, recs, left, q', s')"
    and c: "jget state ''dispatched_count'' = Some (JInt (int (length (filter was_sent recs))))"
    and w: "write_state (tick_state txt (tick_now env opts) opts ?plan recs left q') f = (Inr state, f')"
    using tick_records [OF assms(1)] assms(2) by metis
  let ?now = "tick_now env opts" and ?s = "tick_state txt (tick_now env opts) opts ?plan recs left q'"
  have fields: "number (jget ?s ''tick_at'') = ?now" "as_array (jget ?s ''dispatched'') = Some (map JObj recs)"
    by (simp_all add: tick_state_def Let_def number_def as_f64_def as_array_def)
  define history where "history = filter (\<lambda>e. ?now - 24 * 3600 \<le> entry_at e) (history_of (load_state f))
      @ map (history_entry ?now) (map JObj (filter was_sent recs))"
  have st: "state = jinsert ''history'' (JArr history)
      (jinsert ''dispatched_1h'' (JInt (int (length (filter (\<lambda>e. ?now - 3600 \<le> entry_at e) history)))) ?s)"
    and f': "f' = f\<lparr>tf_content := Some (JObj state)\<rparr>"
    using w by (auto simp: write_state_def Let_def fields sent_entries [OF fill_lanes_sent [OF fill]] history_def split: option.splits)
  have "entry_at (history_entry ?now r) = ?now" for r
    by (simp add: entry_at_def history_entry_def vget_def number_def as_f64_def)
  then have n: "length (filter (\<lambda>e. ?now - 3600 \<le> entry_at e) history)
      = dispatched_in_window f ?now 3600 + length (filter was_sent recs)"
    by (simp add: history_def dispatched_in_window_def filter_map o_def conj_commute cong: conj_cong)
  have l: "load_state f' = JObj state" by (simp add: f' load_state_def)
  have "history_of (JObj state) = history" by (simp add: history_of_def vget_def st as_array_def)
  then have "dispatched_in_window f' ?now 3600 = dispatched_in_window f ?now 3600 + length (filter was_sent recs)"
    using n by (simp add: dispatched_in_window_def l)
  moreover have "jget state ''dispatched_1h'' = Some (JInt (int (dispatched_in_window f ?now 3600 + length (filter was_sent recs))))"
    by (simp add: st n)
  ultimately show ?thesis using c l by blast
qed

theorem hour_count_is_true_witness:
  "\<exists>state q' s' f' n. demo_tick False = (Inr state, q', s', f')
     \<and> jget state ''dispatched_1h'' = Some (JInt (int (1 + n))) \<and> jget state ''dispatched_count'' = Some (JInt (int n))"
proof -
  obtain state q' s' f' where t: "demo_tick False = (Inr state, q', s', f')" using ok_parts [OF demo_tick_ok(1)] by blast
  have "dispatched_in_window demo_file (tick_now demo_clock (demo_options False)) 3600 = 1" by code_simp
  moreover have "to_writes (demo_options False)" by (simp add: demo_options_def)
  ultimately show ?thesis using hour_count_is_true [OF t] t by auto
qed

end
