(* ===== verification/Watchdog_Config.thy ===== *)
theory Watchdog_Config
  imports Json_Text
begin

text \<open>
  The watchdog's configuration (\<^verbatim>\<open>watchdog/config.rs\<close>): the schema, the checks of its values, the
  migration of older files and the validation. How a float is printed and which texts are
  regular expressions is library behaviour: the record \<open>config_lib\<close>. An integer is a JSON
  integer that fits \<^verbatim>\<open>i64\<close> or \<^verbatim>\<open>u64\<close>.
\<close>

record config_lib =
  cl_float :: "real \<Rightarrow> string"
  cl_big :: "int \<Rightarrow> string"
  cl_regex :: "string \<Rightarrow> string option"

record config_error =
  ce_key :: string
  ce_reason :: string

section \<open>Python-shaped text\<close>

definition is_int :: "json \<Rightarrow> bool" where
  "is_int v = (case v of JInt i \<Rightarrow> - (2 ^ 63) \<le> i \<and> i < 2 ^ 64 | _ \<Rightarrow> False)"

definition whole_text :: "int \<Rightarrow> string" where
  "whole_text i = (if i < 0 then ''-'' @ digits (nat (- i)) else digits (nat i))"

definition py_num :: "config_lib \<Rightarrow> json \<Rightarrow> string" where
  "py_num lib v = (case v of
       JInt i \<Rightarrow> if is_int v then whole_text i else cl_big lib i
     | JReal r \<Rightarrow> cl_float lib r
     | _ \<Rightarrow> [])"

definition quote_char :: "char \<Rightarrow> char \<Rightarrow> string" where
  "quote_char q c =
     (if c = CHR 0x5C then [CHR 0x5C, CHR 0x5C]
      else if c = CHR 0x0A then [CHR 0x5C, CHR ''n'']
      else if c = CHR 0x0D then [CHR 0x5C, CHR ''r'']
      else if c = CHR 0x09 then [CHR 0x5C, CHR ''t'']
      else if c = q then [CHR 0x5C, c]
      else [c])"

definition py_str_repr :: "string \<Rightarrow> string" where
  "py_str_repr text =
     (let q = (if CHR 0x27 \<in> set text \<and> CHR 0x22 \<notin> set text then CHR 0x22 else CHR 0x27)
      in [q] @ concat (map (quote_char q) text) @ [q])"

fun py_repr :: "config_lib \<Rightarrow> json \<Rightarrow> string" where
  "py_repr lib JNull = ''None''"
| "py_repr lib (JBool b) = (if b then ''True'' else ''False'')"
| "py_repr lib (JInt i) = py_num lib (JInt i)"
| "py_repr lib (JReal r) = py_num lib (JReal r)"
| "py_repr lib (JStr s) = py_str_repr s"
| "py_repr lib (JArr xs) = ''['' @ join_with '', '' (map (py_repr lib) xs) @ '']''"
| "py_repr lib (JObj m) = ''{'' @ join_with '', '' (map (\<lambda>(k, v). py_str_repr k @ '': '' @ py_repr lib v) m) @ ''}''"

definition choices_repr :: "string list \<Rightarrow> string" where
  "choices_repr choices = ''['' @ join_with '', '' (map py_str_repr choices) @ '']''"

section \<open>Checks\<close>

text \<open>A check gives the problem with a value, or nothing.\<close>

type_synonym check = "json \<Rightarrow> string option"

definition num_check :: "config_lib \<Rightarrow> int option \<Rightarrow> int option \<Rightarrow> bool \<Rightarrow> bool \<Rightarrow> check" where
  "num_check lib minimum maximum integer pos v =
     (case as_f64 (Some v) of
        None \<Rightarrow> Some ''must be a number''
      | Some x \<Rightarrow>
          if integer \<and> \<not> is_int v then Some ''must be an integer''
          else if pos \<and> x \<le> 0 then Some (''must be > 0, got '' @ py_num lib v)
          else if (case minimum of Some m \<Rightarrow> x < of_int m | None \<Rightarrow> False)
          then Some (''must be >= '' @ whole_text (the minimum) @ '', got '' @ py_num lib v)
          else if (case maximum of Some m \<Rightarrow> of_int m < x | None \<Rightarrow> False)
          then Some (''must be <= '' @ whole_text (the maximum) @ '', got '' @ py_num lib v)
          else None)"

definition positive :: "config_lib \<Rightarrow> check" where
  "positive lib = num_check lib None None False True"

definition positive_int :: "config_lib \<Rightarrow> check" where
  "positive_int lib = num_check lib None None True True"

definition fraction :: "config_lib \<Rightarrow> check" where
  "fraction lib = num_check lib None (Some 1) False True"

definition boolean :: check where
  "boolean v = (case v of JBool _ \<Rightarrow> None | _ \<Rightarrow> Some ''must be true or false'')"

definition non_empty :: "json \<Rightarrow> bool" where
  "non_empty v = (case v of JStr s \<Rightarrow> trim s \<noteq> [] | _ \<Rightarrow> False)"

definition string_check :: check where
  "string_check v = (if non_empty v then None else Some ''must be a non-empty string'')"

definition opt_string :: check where
  "opt_string v = (if v = JNull \<or> non_empty v then None else Some ''must be null or a non-empty string'')"

definition enumeration :: "config_lib \<Rightarrow> string list \<Rightarrow> check" where
  "enumeration lib choices v =
     (if (case as_str (Some v) of Some s \<Rightarrow> s \<in> set choices | None \<Rightarrow> False) then None
      else Some (''must be one of '' @ choices_repr choices @ '', got '' @ py_repr lib v))"

definition drawn_from :: "string list \<Rightarrow> json \<Rightarrow> bool" where
  "drawn_from choices v = (case as_str (Some v) of Some s \<Rightarrow> s \<in> set choices | None \<Rightarrow> False)"

definition enum_list :: "string list \<Rightarrow> bool \<Rightarrow> check" where
  "enum_list choices allow_empty v =
     (case as_array (Some v) of
        None \<Rightarrow> Some (''must be a list drawn from '' @ choices_repr choices)
      | Some items \<Rightarrow>
          if \<not> list_all (drawn_from choices) items then Some (''must be a list drawn from '' @ choices_repr choices)
          else if \<not> distinct (map (\<lambda>i. as_str (Some i)) items) then Some ''must not repeat entries''
          else if \<not> allow_empty \<and> items = [] then Some ''must not be empty''
          else None)"

definition str_list :: check where
  "str_list v =
     (if (case as_array (Some v) of
            None \<Rightarrow> False
          | Some items \<Rightarrow> items \<noteq> []
              \<and> list_all (\<lambda>i. case as_str (Some i) of Some s \<Rightarrow> s \<noteq> [] | None \<Rightarrow> False) items)
      then None else Some ''must be a non-empty list of non-empty strings'')"

definition hex_digit :: "char \<Rightarrow> bool" where
  "hex_digit c \<longleftrightarrow> c \<in> set ''0123456789abcdef''"

definition hex_list :: check where
  "hex_list v =
     (if (case as_array (Some v) of
            None \<Rightarrow> False
          | Some items \<Rightarrow>
              list_all (\<lambda>i. case as_str (Some i) of Some s \<Rightarrow> length s = 64 \<and> list_all hex_digit s | None \<Rightarrow> False) items)
      then None else Some ''must be a list of lowercase sha256 hex digests (may be empty)'')"

definition regex_problem :: "config_lib \<Rightarrow> check" where
  "regex_problem lib v =
     (case non_empty_str (as_str (Some v)) of
        None \<Rightarrow> Some ''must be a non-empty regular expression''
      | Some text \<Rightarrow> (case cl_regex lib text of
            None \<Rightarrow> None
          | Some e \<Rightarrow> Some (''is not a valid regular expression ('' @ e @ '')'')))"

definition regex_list :: "config_lib \<Rightarrow> check" where
  "regex_list lib v =
     (case as_array (Some v) of
        None \<Rightarrow> Some ''must be a non-empty list of regular expressions''
      | Some items \<Rightarrow>
          if items = [] then Some ''must be a non-empty list of regular expressions''
          else (case find (\<lambda>i. regex_problem lib i \<noteq> None) items of
              None \<Rightarrow> None
            | Some i \<Rightarrow> Some (''entry '' @ py_repr lib i @ '' '' @ the (regex_problem lib i))))"

definition opt_positive :: "config_lib \<Rightarrow> check" where
  "opt_positive lib v = (if v = JNull then None else positive lib v)"

section \<open>The schema\<close>

datatype spec = Check check | Group "(string \<times> spec) list"

definition severities :: "string list" where
  "severities = [''info'', ''warning'', ''critical'']"

definition classes :: "string list" where
  "classes = [''security'', ''outage'', ''money'', ''ops'', ''project'']"

definition owner_classes :: "string list" where
  "owner_classes = [''security'', ''outage'', ''money'']"

definition owner_eligible_rules :: "string list" where
  "owner_eligible_rules = [''host.disk_full'', ''security.secret_text'', ''money.spend_projection'']"

definition schema_id :: string where
  "schema_id = ''dunkingsheep-watchdog/2''"

definition idle_statuses :: "string list" where
  "idle_statuses = [''idle'', ''done'', ''blocked'', ''unknown'']"

definition holding_statuses :: "string list" where
  "holding_statuses = [''open'', ''in_progress'', ''blocked'']"

definition rule_common :: "config_lib \<Rightarrow> (string \<times> spec) list" where
  "rule_common lib =
     [(''enabled'', Check boolean), (''severity'', Check (enumeration lib severities)),
      (''class'', Check (enumeration lib classes)), (''cooldown_minutes'', Check (positive lib)),
      (''must_hold_runs'', Check (positive_int lib))]"

definition rule_params :: "config_lib \<Rightarrow> (string \<times> (string \<times> spec) list) list" where
  "rule_params lib =
     [(''fleet.assignment_starvation'',
        [(''quiet_minutes'', Check (positive lib)), (''min_empty_workers'', Check (positive_int lib)),
         (''worker_panes'', Check str_list), (''superuser_panes'', Check str_list)]),
      (''task.blocked_stale'', [(''threshold_minutes'', Check (positive lib))]),
      (''task.lease_stale'',
        [(''never_renewed_minutes'', Check (positive lib)), (''lookback_minutes'', Check (positive lib)),
         (''fresh_minutes'', Check (positive lib))]),
      (''dunk.skip_loop'',
        [(''consecutive_skips'', Check (positive_int lib)), (''lookback_hours'', Check (positive lib)),
         (''fresh_minutes'', Check (positive_int lib))]),
      (''dunk.overdue'', [(''missed_intervals'', Check (positive lib))]),
      (''delivery.ambiguous_queued'',
        [(''min_holds'', Check (positive_int lib)), (''min_age_minutes'', Check (positive lib))]),
      (''inbox.undeliverable'',
        [(''min_messages'', Check (positive_int lib)), (''min_age_hours'', Check (positive lib))]),
      (''inbox.unread_live'',
        [(''age_minutes'', Check (positive lib)), (''min_messages'', Check (positive_int lib)),
         (''idle_statuses'', Check (enum_list idle_statuses False))]),
      (''inbox.unread_dead'',
        [(''min_messages'', Check (positive_int lib)), (''min_age_minutes'', Check (positive lib))]),
      (''inbox.ambiguous_sender'',
        [(''lookback_hours'', Check (positive lib)),
         (''sample_ids'', Check (num_check lib (Some 1) (Some 50) True False)),
         (''require_live_pane'', Check boolean)]),
      (''lane.working_without_task'', [(''quiet_minutes'', Check (positive lib))]),
      (''lane.idle_holding_task'',
        [(''quiet_minutes'', Check (positive lib)), (''idle_statuses'', Check (enum_list idle_statuses False)),
         (''holding_statuses'', Check (enum_list holding_statuses False))]),
      (''host.load'',
        [(''load1_per_cpu'', Check (positive lib)), (''critical_load1_per_cpu'', Check (positive lib)),
         (''critical_hold_runs'', Check (positive_int lib))]),
      (''host.tmp'',
        [(''max_used_fraction'', Check (fraction lib)), (''critical_used_fraction'', Check (fraction lib)),
         (''min_free_bytes'', Check (positive_int lib)), (''max_inode_fraction'', Check (fraction lib)),
         (''path'', Check string_check)]),
      (''host.heavy_slot_stale'',
        [(''directory'', Check string_check), (''prefix'', Check string_check), (''max_age_minutes'', Check (positive lib))]),
      (''security.secret_text'',
        [(''patterns'', Check (regex_list lib)), (''allowlist_sha256'', Check hex_list),
         (''lookback_hours'', Check (positive lib))]),
      (''money.spend_projection'', [(''source'', Check opt_string), (''cap'', Check (opt_positive lib))]),
      (''host.disk_full'', [(''max_used_fraction'', Check (fraction lib)), (''paths'', Check str_list)]),
      (''health.failed'', [(''stale_minutes'', Check (positive lib))]),
      (''resource.would_kill'',
        [(''policies_path'', Check string_check), (''state_path'', Check string_check), (''require_task'', Check boolean)]),
      (''pane.retired'', [])]"

definition rules_spec :: "config_lib \<Rightarrow> (string \<times> spec) list" where
  "rules_spec lib = map (\<lambda>(name, params). (name, Group (rule_common lib @ params))) (rule_params lib)"

definition vp_spec :: "config_lib \<Rightarrow> (string \<times> spec) list" where
  "vp_spec lib = [(''mailbox'', Check string_check), (''min_severity'', Check (enumeration lib severities))]"

definition owner_spec :: "config_lib \<Rightarrow> (string \<times> spec) list" where
  "owner_spec lib =
     [(''enabled'', Check boolean), (''channel'', Check (enumeration lib [''desk-brief''])),
      (''classes'', Check (enum_list owner_classes True)), (''min_severity'', Check (enumeration lib severities)),
      (''approved_by'', Check opt_string), (''max_pages_per_hour'', Check (positive_int lib)),
      (''confirm_within_minutes'', Check (positive lib)), (''confirm_path'', Check string_check)]"

definition stuck_spec :: "config_lib \<Rightarrow> (string \<times> spec) list" where
  "stuck_spec lib =
     [(''enabled'', Check boolean), (''threshold_s'', Check (positive lib)), (''max_attempts'', Check (positive_int lib)),
      (''cooldown_s'', Check (positive lib)), (''observation_interval_s'', Check (positive lib))]"

definition top_spec :: "config_lib \<Rightarrow> (string \<times> spec) list" where
  "top_spec lib =
     [(''schema'', Check (enumeration lib [schema_id])), (''enabled'', Check boolean), (''dry_run'', Check boolean),
      (''cadence_minutes'', Check (positive lib)), (''min_run_spacing_seconds'', Check (positive lib)),
      (''max_alerts_per_run'', Check (positive_int lib)), (''state_path'', Check string_check),
      (''heartbeat_path'', Check string_check), (''state_retention_days'', Check (positive lib)),
      (''stores'', Group [(''config_dir'', Check string_check)]),
      (''panes'', Group [(''source'', Check (enumeration lib [''herdr'', ''daemon'', ''none''])),
                        (''pane_id_pattern'', Check (regex_problem lib))]),
      (''escalation'', Group [(''vp'', Group (vp_spec lib)), (''owner'', Group (owner_spec lib))]),
      (''stuck_recovery'', Group (stuck_spec lib)),
      (''rules'', Group (rules_spec lib))]"

section \<open>Migration\<close>

definition hold_attempt_limit_default :: int where
  "hold_attempt_limit_default = 10"

definition rule_additions :: "string list" where
  "rule_additions = [''delivery.ambiguous_queued'', ''fleet.assignment_starvation'']"

definition rule_example_default :: "string \<Rightarrow> string \<Rightarrow> json" where
  "rule_example_default rule_id key =
     (if rule_id = ''fleet.assignment_starvation'' \<and> key = ''quiet_minutes'' then JInt 10
      else if rule_id = ''fleet.assignment_starvation'' \<and> key = ''min_empty_workers'' then JInt 2
      else if rule_id = ''fleet.assignment_starvation'' \<and> key = ''worker_panes'' then JArr [JStr ''configure-worker-pane'']
      else if rule_id = ''fleet.assignment_starvation'' \<and> key = ''superuser_panes'' then JArr [JStr ''configure-superuser-pane'']
      else if rule_id = ''delivery.ambiguous_queued'' \<and> key = ''min_holds'' then JInt hold_attempt_limit_default
      else if rule_id = ''delivery.ambiguous_queued'' \<and> key = ''min_age_minutes'' then JInt 20
      else JInt 1)"

definition added_rule :: "config_lib \<Rightarrow> string \<Rightarrow> json" where
  "added_rule lib rule_id =
     (let params = (case map_of (rule_params lib) rule_id of Some ps \<Rightarrow> ps | None \<Rightarrow> []) in
      JObj (fold (\<lambda>(k, _). jinsert k (rule_example_default rule_id k)) params
        [(''severity'', JStr ''warning''), (''class'', JStr ''ops''), (''cooldown_minutes'', JInt 240),
         (''must_hold_runs'', JInt 1), (''enabled'', JBool False)]))"

definition add_rule :: "config_lib \<Rightarrow> string \<Rightarrow> json_map \<times> string list \<Rightarrow> json_map \<times> string list" where
  "add_rule lib rule_id = (\<lambda>(rules, added).
     if jget rules rule_id \<noteq> None then (rules, added)
     else (jinsert rule_id (added_rule lib rule_id) rules, added @ [rule_id]))"

definition migrate_config :: "config_lib \<Rightarrow> json \<Rightarrow> json \<times> string list" where
  "migrate_config lib config =
     (case config of
        JObj top_map \<Rightarrow> (case jget top_map ''rules'' of
            Some (JObj rules) \<Rightarrow>
              (case fold (add_rule lib) rule_additions (rules, []) of
                 (rules, added) \<Rightarrow> (JObj (jinsert ''rules'' (JObj rules) top_map), added))
          | _ \<Rightarrow> (config, []))
      | _ \<Rightarrow> (config, []))"

section \<open>Validation\<close>

definition trim_dots :: "string \<Rightarrow> string" where
  "trim_dots s = rev (dropWhile (\<lambda>c. c = CHR ''.'') (rev s))"

definition config_refused :: "string \<Rightarrow> string \<Rightarrow> config_error + 'a" where
  "config_refused key reason = Inl \<lparr>ce_key = key, ce_reason = reason\<rparr>"

definition unknown_key :: "(string \<times> spec) list \<Rightarrow> json_map \<Rightarrow> string option" where
  "unknown_key spec m = find (\<lambda>k. k \<notin> set (map fst spec)) (sort (map fst m))"

function (sequential) validate_node :: "(string \<times> spec) list \<Rightarrow> json \<Rightarrow> string \<Rightarrow> config_error + unit"
  and validate_keys :: "(string \<times> spec) list \<Rightarrow> json_map \<Rightarrow> string \<Rightarrow> config_error + unit" where
  "validate_node spec (JObj m) prefix =
     (case unknown_key spec m of
        Some k \<Rightarrow> config_refused (prefix @ k) ''unknown key''
      | None \<Rightarrow> validate_keys spec m prefix)"
| "validate_node spec _ prefix =
     config_refused (if trim_dots prefix = [] then ''<root>'' else trim_dots prefix) ''must be an object''"
| "validate_keys [] m prefix = Inr ()"
| "validate_keys ((key, sub) # spec) m prefix =
     (case jget m key of
        None \<Rightarrow> config_refused (prefix @ key) ''missing (no defaults: every key must be set)''
      | Some item \<Rightarrow>
          (case (case sub of
                   Group children \<Rightarrow> validate_node children item (prefix @ key @ ''.'')
                 | Check check \<Rightarrow> (case check item of Some problem \<Rightarrow> config_refused (prefix @ key) problem | None \<Rightarrow> Inr ())) of
             Inl e \<Rightarrow> Inl e
           | Inr _ \<Rightarrow> validate_keys spec m prefix))"
  by pat_completeness auto
termination
  by (relation "measure (case_sum (\<lambda>(spec, _, _). 2 * size_list (size_prod (\<lambda>_. 0) size) spec + 1)
      (\<lambda>(spec, _, _). 2 * size_list (size_prod (\<lambda>_. 0) size) spec))") auto

definition num_at :: "json_map \<Rightarrow> string \<Rightarrow> real option" where
  "num_at m key = as_f64 (jget m key)"

text \<open>\<^verbatim>\<open>NAN\<close> is not above, below or equal to anything.\<close>

definition nan_less :: "real option \<Rightarrow> real option \<Rightarrow> bool" where
  "nan_less a b = (case a of None \<Rightarrow> False | Some x \<Rightarrow> (case b of None \<Rightarrow> False | Some y \<Rightarrow> x < y))"

definition flag :: "json_map \<Rightarrow> string \<Rightarrow> bool" where
  "flag m key = (case jget m key of Some (JBool b) \<Rightarrow> b | _ \<Rightarrow> False)"

definition section_of :: "json_map \<Rightarrow> string \<Rightarrow> json_map option" where
  "section_of m name = (case jget m name of Some (JObj s) \<Rightarrow> Some s | _ \<Rightarrow> None)"

definition foreign_class :: "string \<times> json \<Rightarrow> bool" where
  "foreign_class = (\<lambda>(rule_id, rule).
     (case as_str (vget rule ''class'') of Some c \<Rightarrow> c | None \<Rightarrow> []) \<in> set owner_classes
     \<and> rule_id \<notin> set owner_eligible_rules)"

text \<open>The rules between sections. \<open>None\<close> is a panic of the lookups that the schema makes safe.\<close>

definition validate_sections :: "json_map \<Rightarrow> (config_error + unit) option" where
  "validate_sections top_map =
     Option.bind (section_of top_map ''stuck_recovery'') (\<lambda>stuck.
     if flag stuck ''enabled'' \<and> nan_less (num_at stuck ''threshold_s'') (num_at stuck ''observation_interval_s'')
     then Some (config_refused ''stuck_recovery.observation_interval_s''
       ''must be <= threshold_s, or the 120 s bound cannot be honoured'')
     else if flag stuck ''enabled'' \<and> nan_less (num_at stuck ''max_attempts'') (Some 1)
     then Some (config_refused ''stuck_recovery.max_attempts'' ''must be at least 1'')
     else
     Option.bind (section_of top_map ''escalation'') (\<lambda>escalation.
     Option.bind (section_of escalation ''owner'') (\<lambda>owner.
     Option.bind (if flag owner ''enabled'' then jget owner ''approved_by'' else Some JNull) (\<lambda>approved.
     if flag owner ''enabled'' \<and> approved = JNull
     then Some (config_refused ''escalation.owner.approved_by'' ''required when owner paging is enabled'')
     else
     Option.bind (if flag owner ''enabled'' then jget owner ''classes'' else Some JNull) (\<lambda>named.
     if flag owner ''enabled'' \<and> named = JArr []
     then Some (config_refused ''escalation.owner.classes'' ''must name at least one class when owner paging is enabled'')
     else
     Option.bind (section_of top_map ''rules'') (\<lambda>rules.
     Option.bind (section_of rules ''host.tmp'') (\<lambda>tmp.
     if nan_less (num_at tmp ''critical_used_fraction'') (num_at tmp ''max_used_fraction'')
     then Some (config_refused ''rules.host.tmp.critical_used_fraction'' ''must be >= max_used_fraction'')
     else
     Option.bind (section_of rules ''money.spend_projection'') (\<lambda>money.
     Option.bind (if flag money ''enabled'' then jget money ''source'' else Some JNull) (\<lambda>source.
     Option.bind (if flag money ''enabled'' \<and> source \<noteq> JNull then jget money ''cap'' else Some JNull) (\<lambda>cap.
     if flag money ''enabled'' \<and> (source = JNull \<or> cap = JNull)
     then Some (config_refused ''rules.money.spend_projection.enabled''
       ''cannot be enabled without both source and cap (no metering source exists; VP i19821)'')
     else (case find foreign_class rules of
         Some (rule_id, rule) \<Rightarrow>
           let c = (case as_str (vget rule ''class'') of Some c \<Rightarrow> c | None \<Rightarrow> []) in
           Some (config_refused (''rules.'' @ rule_id @ ''.class'')
             (py_str_repr c @ '' is owner-eligible, but '' @ rule_id
              @ '' is not an approved owner rule (spec section 1); use ops or project''))
       | None \<Rightarrow> Some (Inr ()))))))))))))"

text \<open>The answer and the configuration as the call leaves it.\<close>

definition validate_config :: "config_lib \<Rightarrow> json \<Rightarrow> (config_error + unit) option \<times> json" where
  "validate_config lib config =
     (let config = fst (migrate_config lib config) in
      case validate_node (top_spec lib) config [] of
        Inl e \<Rightarrow> (Some (Inl e), config)
      | Inr _ \<Rightarrow> (case config of JObj top_map \<Rightarrow> validate_sections top_map | _ \<Rightarrow> None, config))"

end
