(* ===== verification/Watchdog_Planner.thy ===== *)
theory Watchdog_Planner
  imports Watchdog_Config "HOL-Library.Monad_Syntax"
begin

text \<open>
  The watchdog's decisions (\<^verbatim>\<open>watchdog/planner.rs\<close>), with the shape and order of findings
  (\<^verbatim>\<open>watchdog/mod.rs\<close>) and the loading of its state (\<^verbatim>\<open>watchdog/state.rs\<close>). The planner reads a
  validated configuration and a loaded state with \<^verbatim>\<open>expect\<close>: a value of another shape is a
  panic, which is \<open>None\<close> here.
\<close>

section \<open>Findings\<close>

definition severity_rank :: "string \<Rightarrow> int" where
  "severity_rank s = (if s = ''info'' then 0 else if s = ''warning'' then 1 else if s = ''critical'' then 2 else - 1)"

definition str_field :: "json \<Rightarrow> string \<Rightarrow> string" where
  "str_field v k = (case as_str (vget v k) of Some s \<Rightarrow> s | None \<Rightarrow> [])"

definition finding_key :: "json \<Rightarrow> int \<times> string \<times> string" where
  "finding_key v = (- severity_rank (str_field v ''severity''), str_field v ''rule'', str_field v ''key'')"

definition sort_findings :: "json list \<Rightarrow> json list" where
  "sort_findings = sort_key finding_key"

definition vidx :: "json \<Rightarrow> string \<Rightarrow> json" where
  "vidx v k = (case vget v k of Some x \<Rightarrow> x | None \<Rightarrow> JNull)"

definition finding ::
    "string \<Rightarrow> json \<Rightarrow> string \<Rightarrow> string \<Rightarrow> string \<Rightarrow> string \<Rightarrow> string \<Rightarrow> json \<Rightarrow> string \<Rightarrow> bool \<Rightarrow> json" where
  "finding rule_id rule key summary threshold measured window evidence source once = JObj
     ([(''rule'', JStr rule_id), (''key'', JStr key), (''severity'', vidx rule ''severity''),
       (''class'', vidx rule ''class''), (''source'', JStr source), (''summary'', JStr summary),
       (''threshold'', JStr threshold), (''measured'', JStr measured), (''window'', JStr window),
       (''evidence'', evidence)]
      @ (if once then [(''once'', JBool True)] else []))"

section \<open>State\<close>

definition empty_state :: json_map where
  "empty_state = [(''alerts'', JObj []), (''streaks'', JObj []), (''owner_pages'', JObj []), (''owner_page_times'', JArr [])]"

text \<open>What reading and parsing the state file gives.\<close>

datatype state_read = State_Missing | State_Unreadable string | State_Text json

definition fill_defaults :: "json_map \<Rightarrow> json_map" where
  "fill_defaults st = fold (\<lambda>(k, v) st. if jget st k = None then jinsert k v st else st) empty_state st"

definition load_watch_state :: "string \<Rightarrow> state_read \<Rightarrow> json_map \<times> string option" where
  "load_watch_state path r = (case r of
       State_Missing \<Rightarrow> (empty_state, Some (''state '' @ path @ '': missing (first run, or the dedupe store was lost)''))
     | State_Unreadable e \<Rightarrow> (empty_state, Some (''state '' @ path @ '': corrupt ('' @ e @ '')''))
     | State_Text (JObj st) \<Rightarrow> (fill_defaults st, None)
     | State_Text _ \<Rightarrow> (empty_state, Some (''state '' @ path @ '': corrupt (not an object)'')))"

section \<open>Streaks\<close>

definition source_self :: string where
  "source_self = ''watchdog-self''"

definition dedupe_key :: "json \<Rightarrow> string option" where
  "dedupe_key item = do {
     rule \<leftarrow> as_str (vget item ''rule'');
     key \<leftarrow> as_str (vget item ''key'');
     Some (rule @ ''|'' @ key) }"

text \<open>An \<^verbatim>\<open>i64\<close> that is incremented wraps.\<close>

definition wrap_i64 :: "int \<Rightarrow> int" where
  "wrap_i64 i = (i + 2 ^ 63) mod 2 ^ 64 - 2 ^ 63"

definition streak_entry :: "int \<Rightarrow> time \<Rightarrow> json" where
  "streak_entry n now = JObj [(''count'', JInt n), (''last_counted'', JReal now)]"

definition next_streak :: "time \<Rightarrow> time \<Rightarrow> json option \<Rightarrow> json option" where
  "next_streak spacing now old = (case old of
       None \<Rightarrow> Some (streak_entry 1 now)
     | Some entry \<Rightarrow> do {
         last_counted \<leftarrow> as_f64 (vget entry ''last_counted'');
         if spacing \<le> now - last_counted
         then do { n \<leftarrow> json_i64 (vget entry ''count''); Some (streak_entry (wrap_i64 (n + 1)) now) }
         else Some entry })"

fun advance_all :: "time \<Rightarrow> time \<Rightarrow> json_map \<Rightarrow> json list \<Rightarrow> json_map \<Rightarrow> json_map option" where
  "advance_all spacing now old [] new = Some new"
| "advance_all spacing now old (item # items) new = do {
     key \<leftarrow> dedupe_key item;
     entry \<leftarrow> next_streak spacing now (jget old key);
     advance_all spacing now old items (jinsert key entry new) }"

definition as_object :: "json option \<Rightarrow> json_map option" where
  "as_object v = (case v of Some (JObj m) \<Rightarrow> Some m | _ \<Rightarrow> None)"

definition advance_streaks :: "json \<Rightarrow> json \<Rightarrow> json list \<Rightarrow> time \<Rightarrow> json option" where
  "advance_streaks config state findings now = do {
     spacing \<leftarrow> as_f64 (vget config ''min_run_spacing_seconds'');
     old \<leftarrow> (case vget state ''streaks'' of None \<Rightarrow> Some [] | Some v \<Rightarrow> as_object (Some v));
     new \<leftarrow> advance_all spacing now old findings [];
     Some (JObj new) }"

section \<open>Decisions\<close>

definition rule_of :: "json \<Rightarrow> string \<Rightarrow> json" where
  "rule_of config rule_id = vidx (vidx config ''rules'') rule_id"

definition not_null :: "json option \<Rightarrow> json option" where
  "not_null v = (if v = Some JNull then None else v)"

definition cooling :: "json \<Rightarrow> json \<Rightarrow> json \<Rightarrow> time \<Rightarrow> bool option" where
  "cooling config state item now =
     (if as_str (vget item ''source'') = Some source_self then Some False
      else do {
        key \<leftarrow> dedupe_key item;
        alerts \<leftarrow> as_object (vget state ''alerts'');
        case not_null (Option.bind (jget alerts key) (\<lambda>entry. vget entry ''last_alerted'')) of
          None \<Rightarrow> Some False
        | Some last_alerted \<Rightarrow>
            if vget item ''once'' = Some (JBool True) then Some True
            else do {
              last_alerted \<leftarrow> as_f64 (Some last_alerted);
              rule \<leftarrow> as_str (vget item ''rule'');
              cooldown \<leftarrow> as_f64 (vget (rule_of config rule) ''cooldown_minutes'');
              Some (now - last_alerted < cooldown * 60) } })"

text \<open>What the loop of \<^verbatim>\<open>plan\<close> has read before it starts.\<close>

record plan_context =
  pc_config :: json
  pc_state :: json
  pc_now :: time
  pc_blocked :: "string option"
  pc_min_vp :: int
  pc_owner_min :: int
  pc_max_alerts :: int
  pc_owner :: json
  pc_owner_pages :: json_map
  pc_owner_classes :: "json list"
  pc_streaks :: json_map

definition must_hold :: "plan_context \<Rightarrow> string \<Rightarrow> int option" where
  "must_hold c rule_id = json_i64 (vget (rule_of (pc_config c) rule_id) ''must_hold_runs'')"

definition vp_reason :: "plan_context \<Rightarrow> json \<Rightarrow> bool \<Rightarrow> int \<Rightarrow> string \<Rightarrow> int \<Rightarrow> int \<Rightarrow> string option" where
  "vp_reason c item is_self severity rule_id streak_count vp_count =
     (if \<not> is_self \<and> severity < pc_min_vp c then Some ''below-min-severity''
      else do {
        hold \<leftarrow> (if rule_id = ''fleet.assignment_starvation''
                then map_option (\<lambda>n. streak_count < n) (must_hold c rule_id) else Some False);
        if hold then Some ''hold''
        else do {
          cool \<leftarrow> cooling (pc_config c) (pc_state c) item (pc_now c);
          if cool then Some ''dedupe''
          else if pc_max_alerts c \<le> vp_count then Some ''rate''
          else Some ''no'' } })"

text \<open>An owner page that is not confirmed yet, or was confirmed within the cooldown.\<close>

definition page_pending :: "plan_context \<Rightarrow> string \<Rightarrow> string \<Rightarrow> bool option" where
  "page_pending c key rule_id = (case jget (pc_owner_pages c) key of
       None \<Rightarrow> Some False
     | Some page \<Rightarrow> (case not_null (vget page ''confirmed_at'') of
           None \<Rightarrow> Some True
         | Some confirmed_at \<Rightarrow> do {
             confirmed_at \<leftarrow> as_f64 (Some confirmed_at);
             cooldown \<leftarrow> as_f64 (vget (rule_of (pc_config c) rule_id) ''cooldown_minutes'');
             Some (pc_now c - confirmed_at < cooldown * 60) }))"

definition owner_reason :: "plan_context \<Rightarrow> string \<Rightarrow> string \<Rightarrow> int \<Rightarrow> string \<Rightarrow> int \<Rightarrow> int \<Rightarrow> string option" where
  "owner_reason c key cls severity rule_id streak_count budget =
     (if vget (pc_owner c) ''enabled'' \<noteq> Some (JBool True) \<or> JStr cls \<notin> set (pc_owner_classes c)
      then Some ''disabled''
      else if severity < pc_owner_min c then Some ''below-min-severity''
      else (case non_empty_str (pc_blocked c) of
          Some reason \<Rightarrow> Some reason
        | None \<Rightarrow> do {
            hold \<leftarrow> must_hold c rule_id;
            if streak_count < hold then Some ''hold''
            else do {
              pending \<leftarrow> page_pending c key rule_id;
              if pending then Some ''dedupe''
              else if budget \<le> 0 then Some ''global-cap''
              else Some ''no'' } }))"

definition decision :: "json \<Rightarrow> string \<Rightarrow> string option \<Rightarrow> json \<Rightarrow> json" where
  "decision item vp owner streak = JObj
     [(''finding'', item), (''vp'', JStr vp), (''owner'', json_opt_str owner), (''streak'', streak)]"

fun plan_items :: "plan_context \<Rightarrow> json list \<Rightarrow> int \<Rightarrow> int \<Rightarrow> json list option" where
  "plan_items c [] vp_count budget = Some []"
| "plan_items c (item # items) vp_count budget = do {
     key \<leftarrow> dedupe_key item;
     source \<leftarrow> as_str (vget item ''source'');
     cls \<leftarrow> as_str (vget item ''class'');
     rule_id \<leftarrow> as_str (vget item ''rule'');
     severity \<leftarrow> map_option severity_rank (as_str (vget item ''severity''));
     let streak = (case Option.bind (jget (pc_streaks c) key) (\<lambda>entry. vget entry ''count'') of Some n \<Rightarrow> n | None \<Rightarrow> JInt 1);
     streak_count \<leftarrow> json_i64 (Some streak);
     let is_self = (source = source_self);
     vp \<leftarrow> vp_reason c item is_self severity rule_id streak_count vp_count;
     owner \<leftarrow> (if \<not> is_self \<and> cls \<in> set owner_classes \<and> rule_id \<in> set owner_eligible_rules
              then map_option Some (owner_reason c key cls severity rule_id streak_count budget)
              else Some None);
     rest \<leftarrow> plan_items c items (if vp = ''no'' then vp_count + 1 else vp_count)
              (if owner = Some ''no'' then budget - 1 else budget);
     Some (decision item vp owner streak # rest) }"

definition recent_pages :: "json \<Rightarrow> time \<Rightarrow> int option" where
  "recent_pages state now = do {
     times \<leftarrow> (case vget state ''owner_page_times'' of None \<Rightarrow> Some [] | Some v \<Rightarrow> as_array (Some v));
     if list_all (\<lambda>t. as_f64 (Some t) \<noteq> None) times
     then Some (int (length (filter (\<lambda>t. now - 3600 < number (Some t)) times))) else None }"

definition watch_plan :: "json \<Rightarrow> json list \<Rightarrow> json \<Rightarrow> json \<Rightarrow> time \<Rightarrow> string option \<Rightarrow> json list option" where
  "watch_plan config findings state streaks now owner_blocked = do {
     let owner = vidx (vidx config ''escalation'') ''owner'';
     min_vp \<leftarrow> map_option severity_rank (as_str (vget (vidx (vidx config ''escalation'') ''vp'') ''min_severity''));
     owner_min \<leftarrow> map_option severity_rank (as_str (vget owner ''min_severity''));
     max_alerts \<leftarrow> json_i64 (vget config ''max_alerts_per_run'');
     recent \<leftarrow> recent_pages state now;
     max_pages \<leftarrow> json_i64 (vget owner ''max_pages_per_hour'');
     owner_pages \<leftarrow> as_object (vget state ''owner_pages'');
     streak_map \<leftarrow> as_object (Some streaks);
     owner_classes \<leftarrow> as_array (vget owner ''classes'');
     plan_items \<lparr>pc_config = config, pc_state = state, pc_now = now, pc_blocked = owner_blocked, pc_min_vp = min_vp,
        pc_owner_min = owner_min, pc_max_alerts = max_alerts, pc_owner = owner, pc_owner_pages = owner_pages,
        pc_owner_classes = owner_classes, pc_streaks = streak_map\<rparr> findings 0 (max_pages - recent) }"

end
