(* ===== verification/Watchdog_Checks.thy ===== *)
theory Watchdog_Checks
  imports Watchdog_Planner
begin

text \<open>
  What a validated configuration is known to hold, and what the migration of an older one
  leaves alone.
\<close>

section \<open>Values that pass\<close>

lemma positive_ok: "positive lib v = None \<Longrightarrow> \<exists>x. as_f64 (Some v) = Some x \<and> 0 < x"
  by (auto simp: positive_def num_check_def split: option.splits if_splits)

lemma positive_int_ok:
  assumes "positive_int lib v = None"
  obtains i where "v = JInt i" "0 < i" "i < 2 ^ 64"
  using assms by (auto simp: positive_int_def num_check_def is_int_def as_f64_def split: option.splits if_splits json.splits)

lemma boolean_ok: "boolean v = None \<Longrightarrow> \<exists>b. v = JBool b"
  by (auto simp: boolean_def split: json.splits)

lemma enumeration_ok: "enumeration lib choices v = None \<Longrightarrow> \<exists>s \<in> set choices. v = JStr s"
  by (auto simp: enumeration_def as_str_def split: option.splits if_splits json.splits)

lemma enum_list_ok: "enum_list choices e v = None \<Longrightarrow> \<exists>xs. v = JArr xs \<and> list_all (drawn_from choices) xs \<and> (e \<or> xs \<noteq> [])"
  by (auto simp: enum_list_def as_array_def split: option.splits if_splits json.splits)

lemma string_ok: "string_check v = None \<Longrightarrow> \<exists>s. v = JStr s \<and> trim s \<noteq> []"
  by (auto simp: string_check_def non_empty_def split: if_splits json.splits)

section \<open>Conforming to a schema\<close>

definition conforms :: "(string \<times> spec) list \<Rightarrow> json \<Rightarrow> bool" where
  "conforms spec v \<longleftrightarrow> (\<exists>prefix. validate_node spec v prefix = Inr ())"

definition passes :: "spec \<Rightarrow> json \<Rightarrow> bool" where
  "passes sub v = (case sub of Check c \<Rightarrow> c v = None | Group children \<Rightarrow> conforms children v)"

lemma validate_keys_ok:
  assumes "validate_keys spec m prefix = Inr ()" "map_of spec k = Some sub"
  shows "\<exists>v. jget m k = Some v \<and> passes sub v"
  using assms
proof (induction spec)
  case (Cons s spec)
  obtain key sub' where s: "s = (key, sub')" by (cases s)
  obtain v where v: "jget m key = Some v" "validate_keys spec m prefix = Inr ()"
    "(case sub' of Group children \<Rightarrow> validate_node children v (prefix @ key @ ''.'')
       | Check check \<Rightarrow> (case check v of Some problem \<Rightarrow> config_refused (prefix @ key) problem | None \<Rightarrow> Inr ())) = Inr ()"
    using Cons.prems(1) unfolding s by (auto simp: config_refused_def split: option.splits sum.splits)
  show ?case
  proof (cases "k = key")
    case True
    then have "sub = sub'" using Cons.prems(2) s by simp
    moreover have "passes sub' v"
      using v(3) by (auto simp: passes_def conforms_def config_refused_def split: spec.splits option.splits)
    ultimately show ?thesis using v(1) True by blast
  next
    case False
    then show ?thesis using Cons.IH v(2) Cons.prems(2) s by simp
  qed
qed simp

lemma conforms_object:
  assumes "conforms spec v"
  obtains m where "v = JObj m" "set (map fst m) \<subseteq> set (map fst spec)"
    "\<And>k sub. map_of spec k = Some sub \<Longrightarrow> \<exists>x. jget m k = Some x \<and> passes sub x"
proof -
  obtain prefix where p: "validate_node spec v prefix = Inr ()" using assms by (auto simp: conforms_def)
  then obtain m where v: "v = JObj m" by (cases v) (auto simp: config_refused_def)
  have u: "unknown_key spec m = None" "validate_keys spec m prefix = Inr ()"
    using p unfolding v by (auto simp: config_refused_def split: option.splits)
  have "set (map fst m) \<subseteq> set (map fst spec)"
    using u(1) by (auto simp: unknown_key_def find_None_iff)
  then show ?thesis using that [OF v _ validate_keys_ok [OF u(2)]] by blast
qed

lemma conforms_field:
  assumes "conforms spec v" "map_of spec k = Some sub"
  shows "\<exists>x. vget v k = Some x \<and> passes sub x"
  by (rule conforms_object [OF assms(1)]) (use assms(2) in \<open>auto simp: vget_def\<close>)

lemma passes_simps [simp]:
  "passes (Check c) v \<longleftrightarrow> c v = None"
  "passes (Group children) v \<longleftrightarrow> conforms children v"
  by (simp_all add: passes_def)

section \<open>Migration\<close>

lemma migrate_rules:
  assumes "migrate_config lib config = (config', added)"
  obtains (rules) root rules where "config = JObj root" "jget root ''rules'' = Some (JObj rules)"
      "config' = JObj (jinsert ''rules'' (JObj (fst (fold (add_rule lib) rule_additions (rules, [])))) root)"
      "added = snd (fold (add_rule lib) rule_additions (rules, []))"
  | (none) "config' = config" "added = []"
  using assms by (auto simp: migrate_config_def split: json.splits option.splits prod.splits)

lemma add_rule_get:
  "jget (fst (add_rule lib r (m, added))) k =
     (if k = r \<and> jget m r = None then Some (added_rule lib r) else jget m k)"
  by (auto simp: add_rule_def)

lemma params_plain: "list_all (\<lambda>(r, ps). list_all (\<lambda>(k, c). k \<noteq> ''enabled'') ps) (rule_params lib)"
  by (simp add: rule_params_def)

lemma fold_params:
  "list_all (\<lambda>(k, c). k \<noteq> ''enabled'') ps \<Longrightarrow> jget (fold (\<lambda>(k, _). jinsert k (f k)) ps m) ''enabled'' = jget m ''enabled''"
  by (induction ps arbitrary: m) auto

lemma added_rule_disabled: "vget (added_rule lib r) ''enabled'' = Some (JBool False)"
proof -
  have "list_all (\<lambda>(k, c). k \<noteq> ''enabled'') (case map_of (rule_params lib) r of Some ps \<Rightarrow> ps | None \<Rightarrow> [])"
    using params_plain [of lib] by (fastforce simp: list_all_iff split: option.split dest: map_of_SomeD [OF sym])
  then show ?thesis by (simp add: added_rule_def vget_def Let_def fold_params)
qed

lemma fold_add_rules:
  "distinct rs \<Longrightarrow> jget (fst (fold (add_rule lib) rs (m, added))) k =
     (if k \<in> set rs \<and> jget m k = None then Some (added_rule lib k) else jget m k)
   \<and> set (snd (fold (add_rule lib) rs (m, added))) = set added \<union> {r \<in> set rs. jget m r = None}"
proof (induction rs arbitrary: m added)
  case (Cons r rs)
  show ?case
  proof (cases "jget m r = None")
    case True
    then have "add_rule lib r (m, added) = (jinsert r (added_rule lib r) m, added @ [r])" by (simp add: add_rule_def)
    then show ?thesis using Cons True by auto
  next
    case False
    then have "add_rule lib r (m, added) = (m, added)" by (simp add: add_rule_def)
    then show ?thesis using Cons False by auto
  qed
qed simp

lemma fold_add_none: "\<forall>r \<in> set rs. jget m r \<noteq> None \<Longrightarrow> fold (add_rule lib) rs (m, added) = (m, added)"
  by (induction rs) (simp_all add: add_rule_def)

lemma distinct_additions: "distinct rule_additions"
  by (simp add: rule_additions_def)

text \<open>
  C21: the migration keeps the policy a deployed file has. Every key but \<^verbatim>\<open>rules\<close> and every rule the
  file has stays as it was; the rules that are added are switched off; and a second migration
  adds nothing.
\<close>

theorem migration_keeps_policy:
  assumes "migrate_config lib config = (config', added)"
  shows "(\<forall>k. k \<noteq> ''rules'' \<longrightarrow> vget config' k = vget config k)
     \<and> (\<forall>r v. vget (vidx config ''rules'') r = Some v \<longrightarrow> vget (vidx config' ''rules'') r = Some v)
     \<and> (\<forall>r. vget (vidx config ''rules'') r = None \<longrightarrow> vget (vidx config' ''rules'') r \<noteq> None \<longrightarrow>
          r \<in> set added \<and> vget (vidx (vidx config' ''rules'') r) ''enabled'' = Some (JBool False))
     \<and> migrate_config lib config' = (config', [])"
  using assms
proof (cases rule: migrate_rules)
  case (rules root rs)
  note f = fold_add_rules [OF distinct_additions, of lib rs "[]", simplified]
  let ?rs = "fst (fold (add_rule lib) rule_additions (rs, []))"
  have new: "vidx config' ''rules'' = JObj ?rs" "vidx config ''rules'' = JObj rs"
    using rules by (simp_all add: vidx_def vget_def)
  have full: "jget ?rs r \<noteq> None" if "r \<in> set rule_additions" for r using f that by auto
  have again: "fold (add_rule lib) rule_additions (?rs, []) = (?rs, [])"
    using full by (intro fold_add_none) blast
  have same: "jinsert ''rules'' (JObj ?rs) (jinsert ''rules'' (JObj ?rs) root) = jinsert ''rules'' (JObj ?rs) root"
    by (induction root) auto
  have "migrate_config lib config' = (config', [])"
    using again same by (simp add: rules(3) migrate_config_def)
  moreover have "vget (vidx (JObj ?rs) r) ''enabled'' = Some (JBool False)" if "r \<in> set rule_additions" "jget rs r = None" for r
    using f [of r] that added_rule_disabled [of lib r] by (simp add: vidx_def vget_def [of "JObj ?rs"])
  ultimately show ?thesis
    using rules f unfolding new by (auto simp: vget_def)
next
  case none
  then have "migrate_config lib config = (config, [])" using assms by simp
  then show ?thesis by (auto simp: none)
qed

definition small_config_lib :: config_lib where
  "small_config_lib = \<lparr>cl_float = (\<lambda>_. []), cl_big = (\<lambda>_. []), cl_regex = (\<lambda>_. None)\<rparr>"

definition small_config :: json where
  "small_config = JObj [(''schema'', JStr schema_id), (''rules'', JObj [(''host.disk_full'', JObj [(''enabled'', JBool True)])])]"

theorem migration_keeps_policy_witness:
  "let (c, added) = migrate_config small_config_lib small_config in
     added = rule_additions \<and> vget c ''schema'' = Some (JStr schema_id)
     \<and> vget (vidx c ''rules'') ''host.disk_full'' = Some (JObj [(''enabled'', JBool True)])
     \<and> list_all (\<lambda>r. vget (vidx (vidx c ''rules'') r) ''enabled'' = Some (JBool False)) rule_additions
     \<and> migrate_config small_config_lib c = (c, [])"
proof -
  define c where "c = fst (migrate_config small_config_lib small_config)"
  have run: "migrate_config small_config_lib small_config = (c, rule_additions)"
    unfolding c_def by code_simp
  have old: "vget small_config ''schema'' = Some (JStr schema_id)"
    "vget (vidx small_config ''rules'') ''host.disk_full'' = Some (JObj [(''enabled'', JBool True)])"
    "list_all (\<lambda>r. vget (vidx small_config ''rules'') r = None) rule_additions"
    by code_simp+
  have new: "list_all (\<lambda>r. vget (vidx c ''rules'') r \<noteq> None) rule_additions"
    unfolding c_def by code_simp
  note m = migration_keeps_policy [OF run]
  have "vget c ''schema'' = Some (JStr schema_id)" using m old(1) by simp
  moreover have "vget (vidx c ''rules'') ''host.disk_full'' = Some (JObj [(''enabled'', JBool True)])"
    using m old(2) by blast
  moreover have "list_all (\<lambda>r. vget (vidx (vidx c ''rules'') r) ''enabled'' = Some (JBool False)) rule_additions"
    using m old(3) new by (simp add: list_all_iff)
  ultimately show ?thesis using run m by simp
qed

end
