(* ===== verification/Watchdog_Effects.thy ===== *)
theory Watchdog_Effects
  imports Watchdog_Checks
begin

text \<open>
  What the planner promises: with a validated configuration and a loaded state it decides every
  finding, within its limits and for the reasons the policy names.
\<close>

section \<open>A validated configuration is typed\<close>

lemma validated:
  assumes "validate_config lib config = (Some (Inr ()), config')"
  shows "conforms (top_spec lib) config'" "config' = fst (migrate_config lib config)"
    "\<exists>root. config' = JObj root \<and> validate_sections root = Some (Inr ())"
  using assms by (auto simp: validate_config_def Let_def conforms_def split: sum.splits json.splits)

definition owner_of :: "json \<Rightarrow> json" where
  "owner_of config = vidx (vidx config ''escalation'') ''owner''"

lemma typed_sections:
  assumes "conforms (top_spec lib) config"
  shows "conforms (vp_spec lib) (vidx (vidx config ''escalation'') ''vp'')" "conforms (owner_spec lib) (owner_of config)"
    "conforms (rules_spec lib) (vidx config ''rules'')"
proof -
  have "map_of (top_spec lib) ''escalation'' = Some (Group [(''vp'', Group (vp_spec lib)), (''owner'', Group (owner_spec lib))])"
    "map_of (top_spec lib) ''rules'' = Some (Group (rules_spec lib))"
    by (simp_all add: top_spec_def)
  from conforms_field [OF assms this(1)] conforms_field [OF assms this(2)]
  have e: "conforms [(''vp'', Group (vp_spec lib)), (''owner'', Group (owner_spec lib))] (vidx config ''escalation'')"
    and r: "conforms (rules_spec lib) (vidx config ''rules'')"
    by (auto simp: vidx_def)
  from conforms_field [OF e, of "''vp''"] conforms_field [OF e, of "''owner''"]
  show "conforms (vp_spec lib) (vidx (vidx config ''escalation'') ''vp'')" "conforms (owner_spec lib) (owner_of config)"
    by (auto simp: vidx_def owner_of_def)
  show "conforms (rules_spec lib) (vidx config ''rules'')" by (rule r)
qed

lemma typed_rule:
  assumes "conforms (top_spec lib) config" "r \<in> set (map fst (rule_params lib))"
  shows "\<exists>x. as_f64 (vget (rule_of config r) ''cooldown_minutes'') = Some x" "\<exists>i. vget (rule_of config r) ''must_hold_runs'' = Some (JInt i)"
proof -
  obtain ps where ps: "map_of (rule_params lib) r = Some ps"
    using assms(2) by (metis map_of_eq_None_iff not_None_eq list.set_map)
  have "rules_spec lib = map (\<lambda>(k, v). (k, Group (rule_common lib @ v))) (rule_params lib)" by (simp add: rules_spec_def)
  then have "map_of (rules_spec lib) r = Some (Group (rule_common lib @ ps))" by (simp add: map_of_map ps)
  from conforms_field [OF typed_sections(3) [OF assms(1)] this]
  have c: "conforms (rule_common lib @ ps) (rule_of config r)" by (auto simp: rule_of_def vidx_def)
  have "map_of (rule_common lib @ ps) ''cooldown_minutes'' = Some (Check (positive lib))"
    "map_of (rule_common lib @ ps) ''must_hold_runs'' = Some (Check (positive_int lib))"
    by (simp_all add: rule_common_def map_of_append map_add_def)
  from conforms_field [OF c this(1)] conforms_field [OF c this(2)] obtain x y where
    "vget (rule_of config r) ''cooldown_minutes'' = Some x" "positive lib x = None"
    "vget (rule_of config r) ''must_hold_runs'' = Some y" "positive_int lib y = None" by auto
  then show "\<exists>x. as_f64 (vget (rule_of config r) ''cooldown_minutes'') = Some x" "\<exists>i. vget (rule_of config r) ''must_hold_runs'' = Some (JInt i)"
    using positive_ok [of lib x] by (auto elim: positive_int_ok)
qed

lemma typed_top:
  assumes "conforms (top_spec lib) config"
  shows "\<exists>x. as_f64 (vget config ''min_run_spacing_seconds'') = Some x"
    "\<exists>i. vget config ''max_alerts_per_run'' = Some (JInt i) \<and> 0 < i"
    "\<exists>s. as_str (vget (vidx (vidx config ''escalation'') ''vp'') ''min_severity'') = Some s"
    "\<exists>s. as_str (vget (owner_of config) ''min_severity'') = Some s"
    "\<exists>i. vget (owner_of config) ''max_pages_per_hour'' = Some (JInt i) \<and> 0 < i"
    "\<exists>xs. as_array (vget (owner_of config) ''classes'') = Some xs"
proof -
  have t: "map_of (top_spec lib) ''min_run_spacing_seconds'' = Some (Check (positive lib))"
    "map_of (top_spec lib) ''max_alerts_per_run'' = Some (Check (positive_int lib))"
    by (simp_all add: top_spec_def)
  from conforms_field [OF assms t(1)] conforms_field [OF assms t(2)] obtain x y where
    "vget config ''min_run_spacing_seconds'' = Some x" "positive lib x = None"
    "vget config ''max_alerts_per_run'' = Some y" "positive_int lib y = None" by auto
  then show "\<exists>x. as_f64 (vget config ''min_run_spacing_seconds'') = Some x"
    "\<exists>i. vget config ''max_alerts_per_run'' = Some (JInt i) \<and> 0 < i"
    using positive_ok [of lib x] by (auto elim: positive_int_ok)
  have v: "map_of (vp_spec lib) ''min_severity'' = Some (Check (enumeration lib severities))" by (simp add: vp_spec_def)
  from conforms_field [OF typed_sections(1) [OF assms] this] obtain x where
    "vget (vidx (vidx config ''escalation'') ''vp'') ''min_severity'' = Some x" "enumeration lib severities x = None" by auto
  then show "\<exists>s. as_str (vget (vidx (vidx config ''escalation'') ''vp'') ''min_severity'') = Some s"
    using enumeration_ok [of lib severities x] by (auto simp: as_str_def)
  have o: "map_of (owner_spec lib) ''min_severity'' = Some (Check (enumeration lib severities))"
    "map_of (owner_spec lib) ''max_pages_per_hour'' = Some (Check (positive_int lib))"
    "map_of (owner_spec lib) ''classes'' = Some (Check (enum_list owner_classes True))"
    by (simp_all add: owner_spec_def)
  note ow = typed_sections(2) [OF assms]
  from conforms_field [OF ow o(1)] conforms_field [OF ow o(2)] conforms_field [OF ow o(3)] obtain x y z where
    "vget (owner_of config) ''min_severity'' = Some x" "enumeration lib severities x = None"
    "vget (owner_of config) ''max_pages_per_hour'' = Some y" "positive_int lib y = None"
    "vget (owner_of config) ''classes'' = Some z" "enum_list owner_classes True z = None" by auto
  then show "\<exists>s. as_str (vget (owner_of config) ''min_severity'') = Some s"
    "\<exists>i. vget (owner_of config) ''max_pages_per_hour'' = Some (JInt i) \<and> 0 < i"
    "\<exists>xs. as_array (vget (owner_of config) ''classes'') = Some xs"
    using enumeration_ok [of lib severities x] enum_list_ok [of owner_classes True z]
    by (auto simp: as_str_def as_array_def elim: positive_int_ok)
qed

section \<open>Typed findings and states\<close>

definition finding_ok :: "config_lib \<Rightarrow> json \<Rightarrow> bool" where
  "finding_ok lib item \<longleftrightarrow>
     as_str (vget item ''key'') \<noteq> None \<and> as_str (vget item ''class'') \<noteq> None \<and> as_str (vget item ''severity'') \<noteq> None
     \<and> (\<exists>r s. as_str (vget item ''rule'') = Some r \<and> as_str (vget item ''source'') = Some s
              \<and> (s = source_self \<and> r \<noteq> ''fleet.assignment_starvation'' \<or> r \<in> set (map fst (rule_params lib))))"

definition time_or_null :: "json option \<Rightarrow> bool" where
  "time_or_null v \<longleftrightarrow> not_null v = None \<or> as_f64 v \<noteq> None"

definition streaks_ok :: "json_map \<Rightarrow> bool" where
  "streaks_ok m \<longleftrightarrow> (\<forall>k e. jget m k = Some e \<longrightarrow> as_f64 (vget e ''last_counted'') \<noteq> None \<and> json_i64 (vget e ''count'') \<noteq> None)"

definition state_ok :: "json \<Rightarrow> bool" where
  "state_ok state \<longleftrightarrow>
     (\<exists>m. vget state ''alerts'' = Some (JObj m) \<and> (\<forall>k e. jget m k = Some e \<longrightarrow> time_or_null (vget e ''last_alerted'')))
     \<and> (\<exists>m. vget state ''owner_pages'' = Some (JObj m) \<and> (\<forall>k e. jget m k = Some e \<longrightarrow> time_or_null (vget e ''confirmed_at'')))
     \<and> (\<exists>xs. vget state ''owner_page_times'' = Some (JArr xs) \<and> list_all (\<lambda>t. as_f64 (Some t) \<noteq> None) xs)
     \<and> (\<exists>m. vget state ''streaks'' = Some (JObj m) \<and> streaks_ok m)"

lemma empty_state_ok: "state_ok (JObj empty_state)"
  by (simp add: state_ok_def empty_state_def vget_def streaks_ok_def)

lemma finding_okE:
  assumes "finding_ok lib item"
  obtains r k s c sev where "as_str (vget item ''rule'') = Some r" "as_str (vget item ''key'') = Some k"
    "dedupe_key item = Some (r @ ''|'' @ k)" "as_str (vget item ''source'') = Some s"
    "as_str (vget item ''class'') = Some c" "as_str (vget item ''severity'') = Some sev"
    "s = source_self \<and> r \<noteq> ''fleet.assignment_starvation'' \<or> r \<in> set (map fst (rule_params lib))"
proof -
  obtain r s where "as_str (vget item ''rule'') = Some r" "as_str (vget item ''source'') = Some s"
    "s = source_self \<and> r \<noteq> ''fleet.assignment_starvation'' \<or> r \<in> set (map fst (rule_params lib))"
    using assms unfolding finding_ok_def by blast
  moreover obtain k c sev where "as_str (vget item ''key'') = Some k" "as_str (vget item ''class'') = Some c"
    "as_str (vget item ''severity'') = Some sev"
    using assms unfolding finding_ok_def by blast
  ultimately show ?thesis by (intro that [of r k s c sev]) (simp_all add: dedupe_key_def)
qed

lemma wrap_i64_fits: "json_i64 (Some (JInt (wrap_i64 i))) = Some (wrap_i64 i)"
  using pos_mod_bound [of "2 ^ 64" "i + 2 ^ 63"] pos_mod_sign [of "2 ^ 64" "i + 2 ^ 63"]
  by (simp add: wrap_i64_def json_i64_def)

lemma next_streak_ok:
  assumes "streaks_ok old"
  obtains e where "next_streak spacing now (jget old key) = Some e" "as_f64 (vget e ''last_counted'') \<noteq> None"
    "json_i64 (vget e ''count'') \<noteq> None"
proof (cases "jget old key")
  case None
  then show ?thesis using that by (simp add: next_streak_def streak_entry_def vget_def as_f64_def json_i64_def)
next
  case (Some e)
  then have "as_f64 (vget e ''last_counted'') \<noteq> None" "json_i64 (vget e ''count'') \<noteq> None"
    using assms unfolding streaks_ok_def by blast+
  then obtain t n where e: "as_f64 (vget e ''last_counted'') = Some t" "json_i64 (vget e ''count'') = Some n" by blast
  then show ?thesis
    using that Some wrap_i64_fits [of "n + 1"]
    by (cases "spacing \<le> now - t") (auto simp: next_streak_def streak_entry_def vget_def [of "JObj _"] as_f64_def [of "Some (JReal _)"])
qed

lemma advance_all_ok:
  assumes "streaks_ok old" "list_all (finding_ok lib) items" "streaks_ok new"
  shows "\<exists>m. advance_all spacing now old items new = Some m \<and> streaks_ok m"
  using assms(2,3)
proof (induction items arbitrary: new)
  case (Cons item items)
  then obtain key where k: "dedupe_key item = Some key" by (auto elim: finding_okE)
  obtain e where e: "next_streak spacing now (jget old key) = Some e" "as_f64 (vget e ''last_counted'') \<noteq> None"
    "json_i64 (vget e ''count'') \<noteq> None"
    by (rule next_streak_ok [OF assms(1)])
  then have "streaks_ok (jinsert key e new)" using Cons.prems(2) by (auto simp: streaks_ok_def)
  then show ?case using Cons k e by auto
qed simp

section \<open>Every finding is decided\<close>

definition context_ok :: "config_lib \<Rightarrow> plan_context \<Rightarrow> bool" where
  "context_ok lib c \<longleftrightarrow> state_ok (pc_state c) \<and> streaks_ok (pc_streaks c)
     \<and> (\<forall>k e. jget (pc_owner_pages c) k = Some e \<longrightarrow> time_or_null (vget e ''confirmed_at''))
     \<and> (\<forall>r \<in> set (map fst (rule_params lib)). must_hold c r \<noteq> None
          \<and> as_f64 (vget (rule_of (pc_config c) r) ''cooldown_minutes'') \<noteq> None)"

lemma eligible_known: "r \<in> set owner_eligible_rules \<Longrightarrow> r \<in> set (map fst (rule_params lib))"
  by (auto simp: owner_eligible_rules_def rule_params_def)

lemma starvation_known: "''fleet.assignment_starvation'' \<in> set (map fst (rule_params lib))"
  by (simp add: rule_params_def)

lemma cooling_total:
  assumes "context_ok lib c" "finding_ok lib item"
  shows "cooling (pc_config c) (pc_state c) item now \<noteq> None"
proof -
  obtain r k s where i: "as_str (vget item ''rule'') = Some r" "dedupe_key item = Some (r @ ''|'' @ k)"
    "as_str (vget item ''source'') = Some s" "s = source_self \<or> r \<in> set (map fst (rule_params lib))"
    using assms(2) by (auto elim: finding_okE)
  obtain alerts where a: "vget (pc_state c) ''alerts'' = Some (JObj alerts)"
    "\<And>k e. jget alerts k = Some e \<Longrightarrow> time_or_null (vget e ''last_alerted'')"
    using assms(1) by (auto simp: context_ok_def state_ok_def)
  have t: "as_f64 v \<noteq> None" if "v = not_null (Option.bind (jget alerts (r @ ''|'' @ k)) (\<lambda>entry. vget entry ''last_alerted''))" "v \<noteq> None" for v
  proof (cases "jget alerts (r @ ''|'' @ k)")
    case (Some e)
    then show ?thesis using that a(2) [OF Some] by (auto simp: time_or_null_def not_null_def split: if_splits)
  qed (use that in \<open>simp add: not_null_def\<close>)
  show ?thesis
  proof (cases "s = source_self")
    case False
    then have "as_f64 (vget (rule_of (pc_config c) r) ''cooldown_minutes'') \<noteq> None"
      using i(4) assms(1) by (auto simp: context_ok_def)
    then show ?thesis
      using t False by (auto simp: cooling_def i a(1) as_object_def split: option.split)
  qed (simp add: cooling_def i)
qed

lemma page_pending_total:
  assumes "context_ok lib c" "r \<in> set (map fst (rule_params lib))"
  shows "page_pending c key r \<noteq> None"
proof (cases "jget (pc_owner_pages c) key")
  case (Some page)
  then have "time_or_null (vget page ''confirmed_at'')" using assms(1) by (auto simp: context_ok_def)
  moreover have "as_f64 (vget (rule_of (pc_config c) r) ''cooldown_minutes'') \<noteq> None"
    using assms by (auto simp: context_ok_def)
  ultimately show ?thesis
    by (auto simp: page_pending_def Some time_or_null_def not_null_def split: option.splits if_splits)
qed (simp add: page_pending_def)

lemma reasons_total:
  assumes "context_ok lib c" "finding_ok lib item"
  shows "as_str (vget item ''rule'') = Some r \<Longrightarrow> vp_reason c item self sev r n vp \<noteq> None"
    "r \<in> set owner_eligible_rules \<Longrightarrow> owner_reason c key cls sev r n b \<noteq> None"
proof -
  have "must_hold c ''fleet.assignment_starvation'' \<noteq> None"
    using assms(1) starvation_known [of lib] by (auto simp: context_ok_def)
  then show "vp_reason c item self sev r n vp \<noteq> None"
    using cooling_total [OF assms, of "pc_now c"] by (auto simp: vp_reason_def)
  assume r: "r \<in> set owner_eligible_rules"
  then have "must_hold c r \<noteq> None" using assms(1) eligible_known [OF r, of lib] by (auto simp: context_ok_def)
  then show "owner_reason c key cls sev r n b \<noteq> None"
    using page_pending_total [OF assms(1) eligible_known [OF r], of key] by (auto simp: owner_reason_def split: option.split)
qed

lemma plan_items_total:
  assumes "context_ok lib c" "list_all (finding_ok lib) items"
  shows "\<exists>ds. plan_items c items n b = Some ds \<and> map (\<lambda>d. vget d ''finding'') ds = map Some items"
  using assms(2)
proof (induction items arbitrary: n b)
  case (Cons item items)
  then have ok: "finding_ok lib item" by simp
  obtain r key s cls sev where i: "as_str (vget item ''rule'') = Some r" "dedupe_key item = Some key"
    "as_str (vget item ''source'') = Some s" "as_str (vget item ''class'') = Some cls" "as_str (vget item ''severity'') = Some sev"
    using ok by (auto elim: finding_okE)
  let ?streak = "case Option.bind (jget (pc_streaks c) key) (\<lambda>entry. vget entry ''count'') of Some n \<Rightarrow> n | None \<Rightarrow> JInt 1"
  have "json_i64 (Some ?streak) \<noteq> None"
  proof (cases "jget (pc_streaks c) key")
    case (Some e)
    then have "json_i64 (vget e ''count'') \<noteq> None" using assms(1) by (auto simp: context_ok_def streaks_ok_def)
    then show ?thesis using Some by (cases "vget e ''count''") (auto simp: json_i64_def)
  qed (simp add: json_i64_def)
  then obtain m where m: "json_i64 (Some ?streak) = Some m" by blast
  obtain vp where vp: "vp_reason c item (s = source_self) (severity_rank sev) r m n = Some vp"
    using reasons_total(1) [OF assms(1) ok i(1)] by blast
  obtain owner where owner: "(if s \<noteq> source_self \<and> cls \<in> set owner_classes \<and> r \<in> set owner_eligible_rules
      then map_option Some (owner_reason c key cls (severity_rank sev) r m b) else Some None) = Some owner"
  proof (cases "s \<noteq> source_self \<and> cls \<in> set owner_classes \<and> r \<in> set owner_eligible_rules")
    case True
    then show ?thesis
      using reasons_total(2) [OF assms(1) ok, of r key cls "severity_rank sev" m b] that by auto
  qed (use that in auto)
  from Cons.IH [of "if vp = ''no'' then n + 1 else n" "if owner = Some ''no'' then b - 1 else b"] Cons.prems
  obtain ds where ds: "plan_items c items (if vp = ''no'' then n + 1 else n) (if owner = Some ''no'' then b - 1 else b) = Some ds"
    "map (\<lambda>d. vget d ''finding'') ds = map Some items" by auto
  have "plan_items c (item # items) n b = Some (decision item vp owner ?streak # ds)"
    by (simp add: i m vp owner ds(1) Let_def)
  then show ?case using ds(2) by (simp add: decision_def vget_def)
qed simp

end
