(* ===== verification/Watchdog_Plan_Effects.thy ===== *)
theory Watchdog_Plan_Effects
  imports Watchdog_Effects
begin

text \<open>
  The theorems on the watchdog's plan: it is total on validated input, it keeps its limits, and
  its alerts and owner pages are the ones the policy asks for.
\<close>

section \<open>A configuration, for the witnesses\<close>

definition demo_config_lib :: config_lib where
  "demo_config_lib = \<lparr>cl_float = (\<lambda>_. []), cl_big = (\<lambda>_. []), cl_regex = (\<lambda>_. None)\<rparr>"

definition demo_common :: "string \<Rightarrow> json_map" where
  "demo_common cls = [(''enabled'', JBool True), (''severity'', JStr ''warning''), (''class'', JStr cls),
     (''cooldown_minutes'', JInt 60), (''must_hold_runs'', JInt 1)]"

definition demo_rules :: "(string \<times> json) list" where
  "demo_rules =
     [(''fleet.assignment_starvation'', JObj (demo_common ''ops'' @ [(''quiet_minutes'', JInt 1), (''min_empty_workers'', JInt 1),
         (''worker_panes'', JArr [JStr ''w'']), (''superuser_panes'', JArr [JStr ''s''])])),
      (''task.blocked_stale'', JObj (demo_common ''ops'' @ [(''threshold_minutes'', JInt 1)])),
      (''task.lease_stale'', JObj (demo_common ''ops'' @ [(''never_renewed_minutes'', JInt 1), (''lookback_minutes'', JInt 1),
         (''fresh_minutes'', JInt 1)])),
      (''dunk.skip_loop'', JObj (demo_common ''ops'' @ [(''consecutive_skips'', JInt 1), (''lookback_hours'', JInt 1),
         (''fresh_minutes'', JInt 1)])),
      (''dunk.overdue'', JObj (demo_common ''ops'' @ [(''missed_intervals'', JInt 1)])),
      (''delivery.ambiguous_queued'', JObj (demo_common ''ops'' @ [(''min_holds'', JInt 1), (''min_age_minutes'', JInt 1)])),
      (''inbox.undeliverable'', JObj (demo_common ''ops'' @ [(''min_messages'', JInt 1), (''min_age_hours'', JInt 1)])),
      (''inbox.unread_live'', JObj (demo_common ''ops'' @ [(''age_minutes'', JInt 1), (''min_messages'', JInt 1),
         (''idle_statuses'', JArr [JStr ''idle''])])),
      (''inbox.unread_dead'', JObj (demo_common ''ops'' @ [(''min_messages'', JInt 1), (''min_age_minutes'', JInt 1)])),
      (''inbox.ambiguous_sender'', JObj (demo_common ''ops'' @ [(''lookback_hours'', JInt 1), (''sample_ids'', JInt 5),
         (''require_live_pane'', JBool False)])),
      (''lane.working_without_task'', JObj (demo_common ''ops'' @ [(''quiet_minutes'', JInt 1)])),
      (''lane.idle_holding_task'', JObj (demo_common ''ops'' @ [(''quiet_minutes'', JInt 1), (''idle_statuses'', JArr [JStr ''idle'']),
         (''holding_statuses'', JArr [JStr ''open''])])),
      (''host.load'', JObj (demo_common ''ops'' @ [(''load1_per_cpu'', JInt 1), (''critical_load1_per_cpu'', JInt 1),
         (''critical_hold_runs'', JInt 1)])),
      (''host.tmp'', JObj (demo_common ''ops'' @ [(''max_used_fraction'', JInt 1), (''critical_used_fraction'', JInt 1),
         (''min_free_bytes'', JInt 1), (''max_inode_fraction'', JInt 1), (''path'', JStr ''/tmp'')])),
      (''host.heavy_slot_stale'', JObj (demo_common ''ops'' @ [(''directory'', JStr ''d''), (''prefix'', JStr ''p''),
         (''max_age_minutes'', JInt 1)])),
      (''security.secret_text'', JObj (demo_common ''security'' @ [(''patterns'', JArr [JStr ''x'']), (''allowlist_sha256'', JArr []),
         (''lookback_hours'', JInt 1)])),
      (''money.spend_projection'', JObj (demo_common ''money'' @ [(''source'', JStr ''m''), (''cap'', JInt 1)])),
      (''host.disk_full'', JObj (demo_common ''outage'' @ [(''max_used_fraction'', JInt 1), (''paths'', JArr [JStr ''/''])])),
      (''health.failed'', JObj (demo_common ''ops'' @ [(''stale_minutes'', JInt 1)])),
      (''resource.would_kill'', JObj (demo_common ''ops'' @ [(''policies_path'', JStr ''p''), (''state_path'', JStr ''s''),
         (''require_task'', JBool False)])),
      (''pane.retired'', JObj (demo_common ''ops''))]"

definition demo_config :: "int \<Rightarrow> json" where
  "demo_config cap = JObj
     [(''schema'', JStr schema_id), (''enabled'', JBool True), (''dry_run'', JBool False), (''cadence_minutes'', JInt 5),
      (''min_run_spacing_seconds'', JInt 60), (''max_alerts_per_run'', JInt cap), (''state_path'', JStr ''s''),
      (''heartbeat_path'', JStr ''h''), (''state_retention_days'', JInt 7),
      (''stores'', JObj [(''config_dir'', JStr ''c'')]),
      (''panes'', JObj [(''source'', JStr ''none''), (''pane_id_pattern'', JStr ''p'')]),
      (''escalation'', JObj
        [(''vp'', JObj [(''mailbox'', JStr ''vp''), (''min_severity'', JStr ''warning'')]),
         (''owner'', JObj [(''enabled'', JBool True), (''channel'', JStr ''desk-brief''), (''classes'', JArr [JStr ''outage'']),
            (''min_severity'', JStr ''warning''), (''approved_by'', JStr ''vp''), (''max_pages_per_hour'', JInt 1),
            (''confirm_within_minutes'', JInt 5), (''confirm_path'', JStr ''p'')])]),
      (''stuck_recovery'', JObj [(''enabled'', JBool True), (''threshold_s'', JInt 120), (''max_attempts'', JInt 1),
         (''cooldown_s'', JInt 60), (''observation_interval_s'', JInt 60)]),
      (''rules'', JObj demo_rules)]"

lemma demo_valid: "validate_config demo_config_lib (demo_config 3) = (Some (Inr ()), demo_config 3)"
  by code_simp

definition demo_disk :: json where
  "demo_disk = finding ''host.disk_full'' (rule_of (demo_config 3) ''host.disk_full'') ''/'' [] [] [] [] JNull ''watchdog-rule'' False"

section \<open>The plan is total\<close>

text \<open>
  The caps of the configuration as machine integers. The schema takes an integer up to the largest
  \<^verbatim>\<open>u64\<close>; the planner reads it as an \<^verbatim>\<open>i64\<close>.
\<close>

definition caps_fit :: "config_lib \<Rightarrow> json \<Rightarrow> bool" where
  "caps_fit lib config \<longleftrightarrow>
     json_i64 (vget config ''max_alerts_per_run'') \<noteq> None \<and> json_i64 (vget (owner_of config) ''max_pages_per_hour'') \<noteq> None
     \<and> list_all (\<lambda>(r, _). json_i64 (vget (rule_of config r) ''must_hold_runs'') \<noteq> None) (rule_params lib)"

lemma recent_pages_total: "state_ok state \<Longrightarrow> recent_pages state now \<noteq> None"
  by (auto simp: state_ok_def recent_pages_def as_array_def)

lemma demo_caps: "caps_fit demo_config_lib (demo_config 3)"
  by code_simp

lemma demo_finding: "list_all (finding_ok demo_config_lib) [demo_disk]"
proof -
  have "as_str (vget demo_disk ''rule'') = Some ''host.disk_full''" "as_str (vget demo_disk ''source'') = Some ''watchdog-rule''"
    "as_str (vget demo_disk ''key'') \<noteq> None" "as_str (vget demo_disk ''class'') \<noteq> None" "as_str (vget demo_disk ''severity'') \<noteq> None"
    by code_simp+
  moreover have "''host.disk_full'' \<in> set (map fst (rule_params demo_config_lib))" by (simp add: rule_params_def)
  ultimately show ?thesis by (simp add: finding_ok_def)
qed

text \<open>
  The planner never panics on what the program gives it. With a configuration that passed the
  validation and whose integers fit \<^verbatim>\<open>i64\<close>, a state of the shape it is saved in and findings of the
  configured rules, the streaks are advanced and every finding is decided, in order.
\<close>

lemma validated_plan_total:
  assumes "validate_config lib config0 = (Some (Inr ()), config)" "caps_fit lib config"
    and "state_ok state" "list_all (finding_ok lib) findings"
  shows "\<exists>m ds. advance_streaks config state findings now = Some (JObj m) \<and> streaks_ok m
     \<and> watch_plan config findings state (JObj m) now blocked = Some ds
     \<and> map (\<lambda>d. vget d ''finding'') ds = map Some findings"
proof -
  note c = validated(1) [OF assms(1)]
  note t = typed_top [OF c]
  obtain spacing where spacing: "as_f64 (vget config ''min_run_spacing_seconds'') = Some spacing" using t(1) by blast
  obtain old where old: "vget state ''streaks'' = Some (JObj old)" "streaks_ok old" using assms(3) by (auto simp: state_ok_def)
  obtain m where m: "advance_all spacing now old findings [] = Some m" "streaks_ok m"
    using advance_all_ok [OF old(2) assms(4), of "[]" spacing now] by (auto simp: streaks_ok_def)
  have adv: "advance_streaks config state findings now = Some (JObj m)"
    by (simp add: advance_streaks_def spacing old(1) as_object_def m(1))
  obtain sev1 sev2 where sev: "as_str (vget (vidx (vidx config ''escalation'') ''vp'') ''min_severity'') = Some sev1"
    "as_str (vget (owner_of config) ''min_severity'') = Some sev2" using t(3,4) by blast
  obtain cap pages where caps: "json_i64 (vget config ''max_alerts_per_run'') = Some cap"
    "json_i64 (vget (owner_of config) ''max_pages_per_hour'') = Some pages" using assms(2) by (auto simp: caps_fit_def)
  obtain recent where recent: "recent_pages state now = Some recent" using recent_pages_total [OF assms(3)] by blast
  obtain op where op: "vget state ''owner_pages'' = Some (JObj op)" "\<forall>k e. jget op k = Some e \<longrightarrow> time_or_null (vget e ''confirmed_at'')"
    using assms(3) by (auto simp: state_ok_def)
  obtain cls where cls: "as_array (vget (owner_of config) ''classes'') = Some cls" using t(6) by blast
  let ?c = "\<lparr>pc_config = config, pc_state = state, pc_now = now, pc_blocked = blocked, pc_min_vp = severity_rank sev1,
        pc_owner_min = severity_rank sev2, pc_max_alerts = cap, pc_owner = owner_of config, pc_owner_pages = op,
        pc_owner_classes = cls, pc_streaks = m\<rparr>"
  have "context_ok lib ?c"
    using assms(2,3) m(2) op(2) typed_rule(1) [OF c]
    by (fastforce simp: context_ok_def must_hold_def caps_fit_def list_all_iff)
  from plan_items_total [OF this assms(4)] obtain ds where ds: "plan_items ?c findings 0 (pages - recent) = Some ds"
    "map (\<lambda>d. vget d ''finding'') ds = map Some findings" by blast
  have "watch_plan config findings state (JObj m) now blocked = Some ds"
    using sev caps cls ds(1) by (simp add: watch_plan_def owner_of_def [symmetric] Let_def recent op(1) as_object_def)
  with adv m(2) ds(2) show ?thesis by blast
qed

text \<open>
  The validation lets a cap through that the planner cannot read. A configuration that is valid
  with \<^verbatim>\<open>max_alerts_per_run\<close> above the largest \<^verbatim>\<open>i64\<close> makes every plan panic.
\<close>

theorem valid_config_can_panic:
  assumes "validate_config lib config0 = (Some (Inr ()), config)"
    and "vget config ''max_alerts_per_run'' = Some (JInt cap)" "2 ^ 63 \<le> cap"
  shows "watch_plan config findings state streaks now blocked = None"
proof -
  obtain s1 s2 where "as_str (vget (vidx (vidx config ''escalation'') ''vp'') ''min_severity'') = Some s1"
    "as_str (vget (vidx (vidx config ''escalation'') ''owner'') ''min_severity'') = Some s2"
    using typed_top(3,4) [OF validated(1) [OF assms(1)]] by (auto simp: owner_of_def)
  moreover have "json_i64 (vget config ''max_alerts_per_run'') = None"
    using assms(2,3) by (simp add: json_i64_def)
  ultimately show ?thesis by (simp add: watch_plan_def Let_def)
qed

theorem valid_config_can_panic_witness:
  "validate_config demo_config_lib (demo_config (2 ^ 63)) = (Some (Inr ()), demo_config (2 ^ 63))
   \<and> watch_plan (demo_config (2 ^ 63)) [] (JObj empty_state) (JObj []) 0 None = None"
proof -
  have v: "validate_config demo_config_lib (demo_config (2 ^ 63)) = (Some (Inr ()), demo_config (2 ^ 63))" by code_simp
  have "vget (demo_config (2 ^ 63)) ''max_alerts_per_run'' = Some (JInt (2 ^ 63))" by (simp add: demo_config_def vget_def)
  from valid_config_can_panic [OF v this] v show ?thesis by simp
qed

section \<open>What is decided\<close>

text \<open>A decision and the state of the loop it was made in: the alerts sent and the pages left.\<close>

definition decided :: "plan_context \<Rightarrow> json \<Rightarrow> int \<Rightarrow> int \<Rightarrow> json \<Rightarrow> bool" where
  "decided c item n b d \<longleftrightarrow> (\<exists>key r s cls sev streak m vp owner.
     dedupe_key item = Some key \<and> as_str (vget item ''rule'') = Some r \<and> as_str (vget item ''source'') = Some s
     \<and> as_str (vget item ''class'') = Some cls \<and> as_str (vget item ''severity'') = Some sev
     \<and> streak = (case Option.bind (jget (pc_streaks c) key) (\<lambda>entry. vget entry ''count'') of Some n \<Rightarrow> n | None \<Rightarrow> JInt 1)
     \<and> json_i64 (Some streak) = Some m
     \<and> vp_reason c item (s = source_self) (severity_rank sev) r m n = Some vp
     \<and> (if s \<noteq> source_self \<and> cls \<in> set owner_classes \<and> r \<in> set owner_eligible_rules
        then map_option Some (owner_reason c key cls (severity_rank sev) r m b) else Some None) = Some owner
     \<and> d = decision item vp owner streak)"

abbreviation alerts :: "json \<Rightarrow> bool" where
  "alerts d \<equiv> vget d ''vp'' = Some (JStr ''no'')"

abbreviation pages :: "json \<Rightarrow> bool" where
  "pages d \<equiv> vget d ''owner'' = Some (JStr ''no'')"

lemma decision_fields [simp]:
  "vget (decision item vp owner streak) ''finding'' = Some item" "vget (decision item vp owner streak) ''vp'' = Some (JStr vp)"
  "vget (decision item vp owner streak) ''owner'' = Some (json_opt_str owner)" "vget (decision item vp owner streak) ''streak'' = Some streak"
  by (simp_all add: decision_def vget_def)

lemma plan_items_Cons:
  assumes "plan_items c (item # items) n b = Some ds"
  obtains d rest where "ds = d # rest" "decided c item n b d"
    "plan_items c items (if alerts d then n + 1 else n) (if pages d then b - 1 else b) = Some rest"
proof -
  from assms obtain key s cls r sev m vp owner rest where x:
    "dedupe_key item = Some key" "as_str (vget item ''source'') = Some s" "as_str (vget item ''class'') = Some cls"
    "as_str (vget item ''rule'') = Some r" "as_str (vget item ''severity'') = Some sev"
    "json_i64 (Some (case Option.bind (jget (pc_streaks c) key) (\<lambda>entry. vget entry ''count'') of Some n \<Rightarrow> n | None \<Rightarrow> JInt 1)) = Some m"
    "vp_reason c item (s = source_self) (severity_rank sev) r m n = Some vp"
    "(if s \<noteq> source_self \<and> cls \<in> set owner_classes \<and> r \<in> set owner_eligible_rules
        then map_option Some (owner_reason c key cls (severity_rank sev) r m b) else Some None) = Some owner"
    "plan_items c items (if vp = ''no'' then n + 1 else n) (if owner = Some ''no'' then b - 1 else b) = Some rest"
    "ds = decision item vp owner (case Option.bind (jget (pc_streaks c) key) (\<lambda>entry. vget entry ''count'') of Some n \<Rightarrow> n | None \<Rightarrow> JInt 1) # rest"
    by (auto simp: bind_eq_Some_conv Let_def)
  have "pages (decision item vp owner streak) \<longleftrightarrow> owner = Some ''no''" for streak
    by (simp add: json_opt_str_def split: option.split)
  moreover have "decided c item n b (hd ds)" unfolding decided_def using x by auto
  ultimately show ?thesis using x(9,10) by (intro that [of "hd ds" rest]) simp_all
qed

lemma vp_no: "vp_reason c item self sev r m n = Some ''no'' \<Longrightarrow>
    n < pc_max_alerts c \<and> (self \<or> pc_min_vp c \<le> sev) \<and> cooling (pc_config c) (pc_state c) item (pc_now c) = Some False
    \<and> (r = ''fleet.assignment_starvation'' \<longrightarrow> (\<exists>h. must_hold c r = Some h \<and> h \<le> m))"
  by (auto simp: vp_reason_def bind_eq_Some_conv split: if_splits)

lemma vp_rate: "vp_reason c item self sev r m n = Some ''rate'' \<Longrightarrow> pc_max_alerts c \<le> n"
  by (auto simp: vp_reason_def bind_eq_Some_conv split: if_splits)

lemma owner_no:
  assumes "owner_reason c key cls sev r m b = Some ''no''" "pc_blocked c \<noteq> Some ''no''"
  shows "0 < b" "vget (pc_owner c) ''enabled'' = Some (JBool True)" "JStr cls \<in> set (pc_owner_classes c)" "pc_owner_min c \<le> sev"
    "non_empty_str (pc_blocked c) = None" "\<exists>h. must_hold c r = Some h \<and> h \<le> m" "page_pending c key r = Some False"
  using assms by (auto simp: owner_reason_def bind_eq_Some_conv non_empty_str_def split: if_splits option.splits)

lemma decided_alerts: "decided c item n b d \<Longrightarrow> alerts d \<Longrightarrow> n < pc_max_alerts c"
  unfolding decided_def using vp_no by fastforce

lemma decided_pages: "decided c item n b d \<Longrightarrow> pages d \<Longrightarrow> pc_blocked c \<noteq> Some ''no'' \<Longrightarrow> 0 < b"
  unfolding decided_def using owner_no(1) by (fastforce simp: json_opt_str_def split: if_splits)

lemma plan_items_limits:
  assumes "plan_items c items n b = Some ds"
  shows "list_all2 (\<lambda>item d. \<exists>n b. decided c item n b d) items ds
    \<and> int (length (filter alerts ds)) \<le> max 0 (pc_max_alerts c - n)
    \<and> (pc_blocked c \<noteq> Some ''no'' \<longrightarrow> int (length (filter pages ds)) \<le> max 0 b)
    \<and> (\<forall>d \<in> set ds. vget d ''vp'' = Some (JStr ''rate'') \<longrightarrow> pc_max_alerts c \<le> n + int (length (filter alerts ds)))"
  using assms
proof (induction items arbitrary: n b ds)
  case (Cons item items)
  obtain d rest where d: "ds = d # rest" "decided c item n b d"
    and rest: "plan_items c items (if alerts d then n + 1 else n) (if pages d then b - 1 else b) = Some rest"
    by (rule plan_items_Cons [OF Cons.prems])
  note ih = Cons.IH [OF rest]
  have rate: "pc_max_alerts c \<le> n" if "vget d ''vp'' = Some (JStr ''rate'')"
    using d(2) that vp_rate unfolding decided_def by fastforce
  show ?case
  proof (intro conjI)
    show "list_all2 (\<lambda>item d. \<exists>n b. decided c item n b d) (item # items) ds" using ih d by auto
    show "int (length (filter alerts ds)) \<le> max 0 (pc_max_alerts c - n)"
      using ih decided_alerts [OF d(2)] d(1) by (auto split: if_splits)
    show "pc_blocked c \<noteq> Some ''no'' \<longrightarrow> int (length (filter pages ds)) \<le> max 0 b"
      using ih decided_pages [OF d(2)] d(1) by (auto split: if_splits)
    show "\<forall>d \<in> set ds. vget d ''vp'' = Some (JStr ''rate'') \<longrightarrow> pc_max_alerts c \<le> n + int (length (filter alerts ds))"
      using ih rate d(1) by (fastforce split: if_splits)
  qed
qed simp

lemma watch_plan_items:
  assumes "watch_plan config findings state streaks now blocked = Some ds"
  obtains c recent max_pages where "plan_items c findings 0 (max_pages - recent) = Some ds"
    "pc_config c = config" "pc_state c = state" "pc_now c = now" "pc_blocked c = blocked" "pc_owner c = owner_of config"
    "json_i64 (vget config ''max_alerts_per_run'') = Some (pc_max_alerts c)" "recent_pages state now = Some recent"
    "json_i64 (vget (owner_of config) ''max_pages_per_hour'') = Some max_pages"
    "as_array (vget (owner_of config) ''classes'') = Some (pc_owner_classes c)"
    "vget state ''owner_pages'' = Some (JObj (pc_owner_pages c))" "streaks = JObj (pc_streaks c)"
    "map_option severity_rank (as_str (vget (owner_of config) ''min_severity'')) = Some (pc_owner_min c)"
proof -
  obtain min_vp owner_min cap recent max_pages op sm oc where
    "map_option severity_rank (as_str (vget (owner_of config) ''min_severity'')) = Some owner_min"
    "json_i64 (vget config ''max_alerts_per_run'') = Some cap" "recent_pages state now = Some recent"
    "json_i64 (vget (owner_of config) ''max_pages_per_hour'') = Some max_pages"
    "vget state ''owner_pages'' = Some (JObj op)" "streaks = JObj sm"
    "as_array (vget (owner_of config) ''classes'') = Some oc"
    "plan_items \<lparr>pc_config = config, pc_state = state, pc_now = now, pc_blocked = blocked, pc_min_vp = min_vp,
        pc_owner_min = owner_min, pc_max_alerts = cap, pc_owner = owner_of config, pc_owner_pages = op,
        pc_owner_classes = oc, pc_streaks = sm\<rparr> findings 0 (max_pages - recent) = Some ds"
    using assms unfolding watch_plan_def owner_of_def [symmetric] Let_def
    by (fastforce simp: bind_eq_Some_conv as_object_def split: json.splits option.splits)
  then show ?thesis by - (rule that, assumption, simp_all)
qed

text \<open>
  C17: a run keeps its limits. It sends at most \<^verbatim>\<open>max_alerts_per_run\<close> alerts and drops one for its rate
  only when that many are sent; and the owner pages of a run and those of the hour before it are
  within \<^verbatim>\<open>max_pages_per_hour\<close>, unless the hour was over it already.
\<close>

theorem plan_keeps_its_limits:
  assumes "watch_plan config findings state streaks now blocked = Some ds" "blocked \<noteq> Some ''no''"
  shows "\<exists>cap recent max_pages. json_i64 (vget config ''max_alerts_per_run'') = Some cap
     \<and> json_i64 (vget (owner_of config) ''max_pages_per_hour'') = Some max_pages \<and> recent_pages state now = Some recent
     \<and> int (length (filter alerts ds)) \<le> max 0 cap
     \<and> ((\<exists>d \<in> set ds. vget d ''vp'' = Some (JStr ''rate'')) \<longrightarrow> cap \<le> int (length (filter alerts ds)))
     \<and> recent + int (length (filter pages ds)) \<le> max recent max_pages"
proof -
  obtain c recent max_pages where p: "plan_items c findings 0 (max_pages - recent) = Some ds"
    and c: "json_i64 (vget config ''max_alerts_per_run'') = Some (pc_max_alerts c)" "recent_pages state now = Some recent"
      "json_i64 (vget (owner_of config) ''max_pages_per_hour'') = Some max_pages" "pc_blocked c = blocked"
    by (rule watch_plan_items [OF assms(1)])
  have "int (length (filter pages ds)) \<le> max 0 (max_pages - recent)"
    using plan_items_limits [OF p] assms(2) c(4) by simp
  then have "recent + int (length (filter pages ds)) \<le> max recent max_pages" by simp
  then show ?thesis using plan_items_limits [OF p] c(1-3) by auto
qed

definition demo_plan :: "json list option" where
  "demo_plan = watch_plan (demo_config 3) [demo_disk] (JObj empty_state) (JObj []) 100 None"

lemma demo_plan_made: "\<exists>d. demo_plan = Some [d] \<and> alerts d \<and> pages d \<and> vget d ''finding'' = Some demo_disk"
proof -
  have "case demo_plan of Some [d] \<Rightarrow> alerts d \<and> pages d \<and> vget d ''finding'' = Some demo_disk | _ \<Rightarrow> False" by code_simp
  then show ?thesis by (auto split: option.splits list.splits)
qed

theorem plan_keeps_its_limits_witness:
  "\<exists>ds. demo_plan = Some ds \<and> length (filter pages ds) = 1 \<and> int (length (filter alerts ds)) \<le> 3"
proof -
  obtain d where d: "demo_plan = Some [d]" "alerts d" "pages d" using demo_plan_made by blast
  have "json_i64 (vget (demo_config 3) ''max_alerts_per_run'') = Some 3" by code_simp
  with plan_keeps_its_limits [OF d(1) [unfolded demo_plan_def]] d show ?thesis by auto
qed

text \<open>
  C11: the owner is paged only with a warrant: paging is switched on, the rule is one the owner approved
  and its class is configured, the severity reaches the owner's, nothing blocks the run, the
  finding held for as many runs as its rule asks, and no page of it is unconfirmed or was
  confirmed within the cooldown.
\<close>

theorem owner_pages_have_a_warrant:
  assumes "watch_plan config findings state streaks now blocked = Some ds" "blocked \<noteq> Some ''no''"
    and "d \<in> set ds" "pages d"
  shows "\<exists>item key rule cls. vget d ''finding'' = Some item \<and> item \<in> set findings \<and> dedupe_key item = Some key
     \<and> as_str (vget item ''rule'') = Some rule \<and> as_str (vget item ''class'') = Some cls
     \<and> as_str (vget item ''source'') \<noteq> Some source_self
     \<and> rule \<in> set owner_eligible_rules \<and> cls \<in> set owner_classes
     \<and> vget (owner_of config) ''enabled'' = Some (JBool True)
     \<and> (\<exists>xs. as_array (vget (owner_of config) ''classes'') = Some xs \<and> JStr cls \<in> set xs)
     \<and> (\<exists>a b. as_str (vget item ''severity'') = Some a \<and> as_str (vget (owner_of config) ''min_severity'') = Some b
            \<and> severity_rank b \<le> severity_rank a)
     \<and> non_empty_str blocked = None
     \<and> (\<exists>h m. json_i64 (vget (rule_of config rule) ''must_hold_runs'') = Some h \<and> json_i64 (vget d ''streak'') = Some m \<and> h \<le> m)
     \<and> (\<forall>op page. vget state ''owner_pages'' = Some (JObj op) \<longrightarrow> jget op key = Some page \<longrightarrow>
          (\<exists>t cool. as_f64 (vget page ''confirmed_at'') = Some t
             \<and> as_f64 (vget (rule_of config rule) ''cooldown_minutes'') = Some cool \<and> cool * 60 \<le> now - t))"
proof -
  obtain c recent max_pages where p: "plan_items c findings 0 (max_pages - recent) = Some ds"
    and c: "pc_config c = config" "pc_state c = state" "pc_now c = now" "pc_blocked c = blocked" "pc_owner c = owner_of config"
      "as_array (vget (owner_of config) ''classes'') = Some (pc_owner_classes c)"
      "vget state ''owner_pages'' = Some (JObj (pc_owner_pages c))"
      "map_option severity_rank (as_str (vget (owner_of config) ''min_severity'')) = Some (pc_owner_min c)"
    by (rule watch_plan_items [OF assms(1)])
  obtain item n b where item: "item \<in> set findings" "decided c item n b d"
    using plan_items_limits [OF p] assms(3) by (fastforce simp: list_all2_conv_all_nth in_set_conv_nth)
  obtain key r s cls sev streak m vp owner where x:
    "dedupe_key item = Some key" "as_str (vget item ''rule'') = Some r" "as_str (vget item ''source'') = Some s"
    "as_str (vget item ''class'') = Some cls" "as_str (vget item ''severity'') = Some sev" "json_i64 (Some streak) = Some m"
    "(if s \<noteq> source_self \<and> cls \<in> set owner_classes \<and> r \<in> set owner_eligible_rules
        then map_option Some (owner_reason c key cls (severity_rank sev) r m b) else Some None) = Some owner"
    "d = decision item vp owner streak"
    using item(2) unfolding decided_def by blast
  have o: "owner = Some ''no''" using assms(4) x(8) by (auto simp: json_opt_str_def split: option.splits)
  with x(7) have e: "s \<noteq> source_self" "cls \<in> set owner_classes" "r \<in> set owner_eligible_rules"
    "owner_reason c key cls (severity_rank sev) r m b = Some ''no''"
    by (auto split: if_splits)
  note w = owner_no [OF e(4)]
  have blocked: "pc_blocked c \<noteq> Some ''no''" using c(4) assms(2) by simp
  have held: "\<exists>h. json_i64 (vget (rule_of config r) ''must_hold_runs'') = Some h \<and> h \<le> m"
    using w(6) [OF blocked] by (simp add: must_hold_def c(1))
  have page: "\<exists>t cool. as_f64 (vget page ''confirmed_at'') = Some t
      \<and> as_f64 (vget (rule_of config r) ''cooldown_minutes'') = Some cool \<and> cool * 60 \<le> now - t"
    if "jget (pc_owner_pages c) key = Some page" for page
    using w(7) [OF blocked] that
    by (auto simp: page_pending_def bind_eq_Some_conv c(1,3) not_null_def split: option.splits if_splits)
  show ?thesis
    using item(1) x e w(2-5) [OF blocked] held page c by fastforce
qed

theorem owner_pages_have_a_warrant_witness:
  "\<exists>d. demo_plan = Some [d] \<and> pages d \<and> as_str (vget demo_disk ''rule'') = Some ''host.disk_full''
     \<and> ''host.disk_full'' \<in> set owner_eligible_rules"
proof -
  obtain d where d: "demo_plan = Some [d]" "pages d" "vget d ''finding'' = Some demo_disk" using demo_plan_made by blast
  have "as_str (vget demo_disk ''rule'') = Some ''host.disk_full''" by code_simp
  with owner_pages_have_a_warrant [OF d(1) [unfolded demo_plan_def], of d] d show ?thesis by auto
qed

text \<open>
  C20: an alert is not repeated. A finding of a rule that the state records as alerted is alerted again
  only when its cooldown is over, and never when it happens once.
\<close>

theorem alerts_are_not_repeated:
  assumes "watch_plan config findings state streaks now blocked = Some ds" "d \<in> set ds" "alerts d"
    and "vget d ''finding'' = Some item" "as_str (vget item ''source'') \<noteq> Some source_self"
    and "dedupe_key item = Some key" "vget state ''alerts'' = Some (JObj told)" "jget told key = Some entry"
    and "vget entry ''last_alerted'' = Some last_at" "last_at \<noteq> JNull"
  shows "vget item ''once'' \<noteq> Some (JBool True)
     \<and> (\<exists>rule t cool. as_str (vget item ''rule'') = Some rule \<and> as_f64 (Some last_at) = Some t
          \<and> as_f64 (vget (rule_of config rule) ''cooldown_minutes'') = Some cool \<and> cool * 60 \<le> now - t)"
proof -
  obtain c recent max_pages where p: "plan_items c findings 0 (max_pages - recent) = Some ds"
    and c: "pc_config c = config" "pc_state c = state" "pc_now c = now"
    by (rule watch_plan_items [OF assms(1)])
  obtain item' n b where item: "decided c item' n b d"
    using plan_items_limits [OF p] assms(2) by (fastforce simp: list_all2_conv_all_nth in_set_conv_nth)
  then obtain self sev r m where "vp_reason c item self sev r m n = Some ''no''"
    using assms(3,4) unfolding decided_def by fastforce
  then have "cooling config state item now = Some False" using vp_no c by metis
  then show ?thesis
    using assms(5-10) by (auto simp: cooling_def bind_eq_Some_conv as_object_def not_null_def split: if_splits)
qed

definition demo_told :: json where
  "demo_told = JObj (jinsert ''alerts'' (JObj [(''host.disk_full|/'', JObj [(''last_alerted'', JInt 0)])]) empty_state)"

theorem alerts_are_not_repeated_witness:
  "\<exists>ds d. watch_plan (demo_config 3) [demo_disk] demo_told (JObj []) 4000 None = Some ds \<and> d \<in> set ds \<and> alerts d
     \<and> vget demo_disk ''once'' \<noteq> Some (JBool True)"
proof -
  have "case watch_plan (demo_config 3) [demo_disk] demo_told (JObj []) 4000 None of
      Some [d] \<Rightarrow> alerts d \<and> vget d ''finding'' = Some demo_disk | _ \<Rightarrow> False" by code_simp
  then obtain d where d: "watch_plan (demo_config 3) [demo_disk] demo_told (JObj []) 4000 None = Some [d]" "alerts d"
    "vget d ''finding'' = Some demo_disk" by (auto split: option.splits list.splits)
  have "as_str (vget demo_disk ''source'') \<noteq> Some source_self" "dedupe_key demo_disk = Some ''host.disk_full|/''" by code_simp+
  moreover have "vget demo_told ''alerts'' = Some (JObj [(''host.disk_full|/'', JObj [(''last_alerted'', JInt 0)])])" by code_simp
  moreover have "vget (JObj [(''last_alerted'', JInt 0)]) ''last_alerted'' = Some (JInt 0)" by (simp add: vget_def)
  ultimately show ?thesis
    using alerts_are_not_repeated [OF d(1) _ d(2,3), of "''host.disk_full|/''" _ "JObj [(''last_alerted'', JInt 0)]" "JInt 0"] d
    by auto
qed

end
