(* ===== verification/Watchdog_Report.thy ===== *)
theory Watchdog_Report
  imports Watchdog_Planner
begin

text \<open>
  The text of the watchdog's messages and the selection of what has recovered
  (\<^verbatim>\<open>watchdog/report.rs\<close>). A string is its UTF-8 bytes; evidence is printed in ASCII, so the
  bytes are read back as code points. How serde prints a scalar and how a float is printed in
  scientific form (\<^verbatim>\<open>{:e}\<close>) is library behaviour: the record \<open>report_lib\<close>.
\<close>

record report_lib =
  rp_text :: "json \<Rightarrow> string"
  rp_scientific :: "real \<Rightarrow> string"

section \<open>Recoveries\<close>

definition current_keys :: "json list \<Rightarrow> string set" where
  "current_keys findings = set (map (\<lambda>f. str_field f ''rule'' @ ''|'' @ str_field f ''key'') findings)"

definition object_entries :: "json option \<Rightarrow> json_map" where
  "object_entries v = (case as_object v of Some m \<Rightarrow> m | None \<Rightarrow> [])"

definition gone :: "string \<Rightarrow> string set \<Rightarrow> json_map \<Rightarrow> string list" where
  "gone stamp now_there m = sort (map fst (filter (\<lambda>(k, e). vidx e stamp \<noteq> JNull \<and> k \<notin> now_there) m))"

definition recoveries :: "json \<Rightarrow> json list \<Rightarrow> json" where
  "recoveries state findings = JObj
     [(''vp'', json_strs (gone ''last_alerted'' (current_keys findings) (object_entries (vget state ''alerts'')))),
      (''owner'', json_strs (gone ''confirmed_at'' (current_keys findings) (object_entries (vget state ''owner_pages''))))]"

section \<open>ASCII text\<close>

text \<open>The code points of well-formed UTF-8.\<close>

fun code_points :: "nat list \<Rightarrow> nat list" where
  "code_points [] = []"
| "code_points (b # bs) =
     (if b < 128 then b # code_points bs
      else if b < 224 then (case bs of
          c # r \<Rightarrow> ((b - 192) * 64 + (c - 128)) # code_points r
        | _ \<Rightarrow> [])
      else if b < 240 then (case bs of
          c # d # r \<Rightarrow> ((b - 224) * 4096 + (c - 128) * 64 + (d - 128)) # code_points r
        | _ \<Rightarrow> [])
      else (case bs of
          c # d # e # r \<Rightarrow> ((b - 240) * 262144 + (c - 128) * 4096 + (d - 128) * 64 + (e - 128)) # code_points r
        | _ \<Rightarrow> []))"

definition hex_char :: "nat \<Rightarrow> char" where
  "hex_char n = char_of (if n < 10 then 48 + n else 87 + n)"

definition unicode_escape :: "nat \<Rightarrow> string" where
  "unicode_escape n = [CHR 0x5C, CHR ''u''] @ map hex_char [n div 4096 mod 16, n div 256 mod 16, n div 16 mod 16, n mod 16]"

definition ascii_char :: "nat \<Rightarrow> string" where
  "ascii_char n =
     (if n < 128 then [char_of n]
      else if n \<le> 65535 then unicode_escape n
      else let scalar = n - 65536 in
        unicode_escape (55296 + scalar div 1024) @ unicode_escape (56320 + scalar mod 1024))"

definition ascii_json_string :: "report_lib \<Rightarrow> string \<Rightarrow> string" where
  "ascii_json_string lib s = concat (map ascii_char (code_points (map of_char (rp_text lib (JStr s)))))"

section \<open>Floats\<close>

definition pad2 :: "nat \<Rightarrow> string" where
  "pad2 n = (if n < 10 then ''0'' else []) @ digits n"

definition python_float_json :: "report_lib \<Rightarrow> real \<Rightarrow> string" where
  "python_float_json lib v =
     (if v = 0 then ''0.0'' else
      let scientific = rp_scientific lib v;
          mantissa = takeWhile (\<lambda>c. c \<noteq> CHR ''e'') scientific;
          rest = dropWhile (\<lambda>c. c \<noteq> CHR ''e'') scientific
      in if rest = [] then scientific
         else (case parse_signed (2 ^ 31) (tl rest) of
            None \<Rightarrow> scientific
          | Some ex \<Rightarrow>
              let ds = filter digit_char mantissa;
                  sign = (if mantissa \<noteq> [] \<and> hd mantissa = CHR ''-'' then ''-'' else []);
                  n = int (length ds); p = ex + 1
              in if ds = [] then scientific
                 else if ex < - 4 \<or> 16 \<le> ex
                 then sign @ take 1 ds @ (if 1 < n then ''.'' @ drop 1 ds else []) @ ''e''
                   @ (if ex < 0 then ''-'' else ''+'') @ pad2 (nat \<bar>ex\<bar>)
                 else if p \<le> 0 then sign @ ''0.'' @ replicate (nat (- p)) (CHR ''0'') @ ds
                 else if n \<le> p then sign @ ds @ replicate (nat (p - n)) (CHR ''0'') @ ''.0''
                 else sign @ take (nat p) ds @ ''.'' @ drop (nat p) ds))"

section \<open>Lines\<close>

text \<open>Compact JSON with sorted keys.\<close>

fun sorted_json :: "report_lib \<Rightarrow> json \<Rightarrow> string" where
  "sorted_json lib JNull = ''null''"
| "sorted_json lib (JBool b) = (if b then ''true'' else ''false'')"
| "sorted_json lib (JReal r) = python_float_json lib r"
| "sorted_json lib (JInt i) = rp_text lib (JInt i)"
| "sorted_json lib (JStr s) = ascii_json_string lib s"
| "sorted_json lib (JArr xs) = ''['' @ join_with '','' (map (sorted_json lib) xs) @ '']''"
| "sorted_json lib (JObj m) =
     ''{'' @ join_with '','' (map snd (sort_key fst
       (map (\<lambda>(k, v). (k, ascii_json_string lib k @ '':'' @ sorted_json lib v)) m))) @ ''}''"

definition evidence :: "report_lib \<Rightarrow> json \<Rightarrow> string" where
  "evidence lib item = sorted_json lib (vidx item ''evidence'')"

definition field_text :: "report_lib \<Rightarrow> json \<Rightarrow> string" where
  "field_text lib v = (case v of JStr s \<Rightarrow> s | _ \<Rightarrow> rp_text lib v)"

definition report_line :: "report_lib \<Rightarrow> string \<Rightarrow> json \<Rightarrow> json \<Rightarrow> json option \<Rightarrow> json option \<Rightarrow> string" where
  "report_line lib prefix item suppressed streak hold =
     (let f = (\<lambda>k. field_text lib (vidx item k));
          window = (case hold of
              None \<Rightarrow> f ''window''
            | Some hold \<Rightarrow> f ''window'' @ ''; held '' @ (case streak of Some s \<Rightarrow> field_text lib s | None \<Rightarrow> ''null'')
                @ ''/'' @ field_text lib hold @ '' runs'')
      in prefix @ '' rule='' @ f ''rule'' @ '' class='' @ f ''class'' @ '' severity='' @ f ''severity''
         @ '' source='' @ f ''source'' @ '' threshold='' @ f ''threshold'' @ '' measured='' @ f ''measured''
         @ '' window='' @ window @ '' dedupe='' @ f ''rule'' @ ''|'' @ f ''key''
         @ '' suppressed='' @ field_text lib suppressed @ '' evidence='' @ evidence lib item)"

definition array_of :: "json option \<Rightarrow> json list" where
  "array_of v = (case as_array v of Some xs \<Rightarrow> xs | None \<Rightarrow> [])"

definition decision_lines :: "report_lib \<Rightarrow> json \<Rightarrow> string \<Rightarrow> string \<Rightarrow> json \<Rightarrow> string list" where
  "decision_lines lib config vp_prefix owner_prefix d =
     (let item = vidx d ''finding'' in
      (if vidx d ''owner'' = JNull then []
       else [report_line lib owner_prefix item (vidx d ''owner'') (Some (vidx d ''streak''))
               (Some (vidx (rule_of config (field_text lib (vidx item ''rule''))) ''must_hold_runs''))])
      @ [report_line lib vp_prefix item (vidx d ''vp'') None None])"

definition render_lines :: "report_lib \<Rightarrow> json \<Rightarrow> json list \<Rightarrow> json list \<Rightarrow> json \<Rightarrow> string \<Rightarrow> string list" where
  "render_lines lib config decisions skipped recovered mode =
     (let live = (mode = ''live'');
          vp_prefix = (if live then ''NOTIFY VP'' else ''WOULD-NOTIFY VP'');
          owner_prefix = (if live then ''PAGE OWNER'' else ''WOULD-PAGE OWNER'')
      in concat (map (decision_lines lib config vp_prefix owner_prefix) decisions)
         @ map (\<lambda>e. ''SKIPPED rule='' @ field_text lib (vidx e ''rule'') @ '' error='' @ field_text lib (vidx e ''error'')) skipped
         @ map (\<lambda>k. ''RESOLVED VP dedupe='' @ field_text lib k) (array_of (vget recovered ''vp''))
         @ map (\<lambda>k. ''RESOLVED OWNER dedupe='' @ field_text lib k) (array_of (vget recovered ''owner'')))"

definition digest_text :: "string \<Rightarrow> string list \<Rightarrow> string" where
  "digest_text title ls = ''Watchdog '' @ title @ '': deterministic rules; no model involved.'' @ concat (map (\<lambda>l. CHR 0x0A # l) ls)"

end
