(* ===== verification/Watchdog_Run.thy ===== *)
theory Watchdog_Run
  imports Watchdog_Report
begin

text \<open>
  One watchdog pass (\<^verbatim>\<open>watchdog/run.rs\<close>, \<^verbatim>\<open>watchdog/state.rs\<close>): validate, load the state, decide,
  send, and save. The senders are functions with a state of their own, and so are the files they
  read. A panic of the code is \<open>None\<close>; an error it returns is \<open>Inl\<close> of its text. The times of the
  pages the owner's channel accepted are kept beside the world, for the proofs alone.
\<close>

section \<open>The world of a pass\<close>

record send_error =
  se_kind :: string
  se_message :: string

definition send_error_text :: "send_error \<Rightarrow> string" where
  "send_error_text e = se_kind e @ '': '' @ se_message e"

text \<open>
  \<open>so_superusers\<close> reads \<^verbatim>\<open>superusers.json\<close> of a directory; \<open>so_save_error\<close> and \<open>so_beat_error\<close>
  are the errors the writes of the state and of the heartbeat meet.
\<close>

record 's senders =
  so_send :: "string \<Rightarrow> string \<Rightarrow> string \<Rightarrow> 's \<Rightarrow> send_error option \<times> 's"
  so_post :: "string \<Rightarrow> 's \<Rightarrow> (send_error + int) \<times> 's"
  so_desk_channel :: "'s \<Rightarrow> string + string"
  so_confirmed_through :: "'s \<Rightarrow> string + json option"
  so_superusers :: "string \<Rightarrow> 's \<Rightarrow> string + json"
  so_save_error :: "'s \<Rightarrow> string option"
  so_beat_error :: "'s \<Rightarrow> string option"

record 's watch_world =
  ww_state :: state_read
  ww_heartbeat :: "json option"
  ww_paged :: "time list"
  ww_out :: 's

text \<open>
  What the pass is told: \<open>rl_expand\<close> expands a home directory, \<open>rl_tenth\<close> prints a float with one
  decimal, \<open>rl_repr\<close> is Python's \<^verbatim>\<open>repr\<close>, \<open>rl_carried\<close> the parsed age limit of a carried failure.
\<close>

record run_lib =
  rl_config :: config_lib
  rl_report :: report_lib
  rl_expand :: "string \<Rightarrow> string"
  rl_tenth :: "real \<Rightarrow> string"
  rl_repr :: "json \<Rightarrow> string"
  rl_carried :: "real option"

text \<open>\<^verbatim>\<open>atomic_json::sorted_keys\<close>.\<close>

fun sorted_keys :: "json \<Rightarrow> json" where
  "sorted_keys (JObj m) = JObj (sort_key fst (map (\<lambda>(k, v). (k, sorted_keys v)) m))"
| "sorted_keys (JArr xs) = JArr (map sorted_keys xs)"
| "sorted_keys v = v"

definition save_watch_state :: "'s senders \<Rightarrow> json_map \<Rightarrow> 's watch_world \<Rightarrow> string option \<times> 's watch_world" where
  "save_watch_state so st w = (case so_save_error so (ww_out w) of
       Some e \<Rightarrow> (Some e, w)
     | None \<Rightarrow> (None, w\<lparr>ww_state := State_Text (sorted_keys (JObj st))\<rparr>))"

definition write_heartbeat :: "'s senders \<Rightarrow> time \<Rightarrow> real \<Rightarrow> 's watch_world \<Rightarrow> string option \<times> 's watch_world" where
  "write_heartbeat so now cadence w = (case so_beat_error so (ww_out w) of
       Some e \<Rightarrow> (Some e, w)
     | None \<Rightarrow> (None, w\<lparr>ww_heartbeat := Some (JObj
         [(''schema'', JInt 1), (''cadence_minutes'', JReal cadence), (''at'', JReal now)])\<rparr>))"

text \<open>Assigning to a field of a value: null becomes an object, another value is a panic.\<close>

definition set_field :: "json \<Rightarrow> string \<Rightarrow> json \<Rightarrow> json option" where
  "set_field v k x = (case v of JObj m \<Rightarrow> Some (JObj (jinsert k x m)) | JNull \<Rightarrow> Some (JObj [(k, x)]) | _ \<Rightarrow> None)"

definition jremove :: "string \<Rightarrow> json_map \<Rightarrow> json_map" where
  "jremove k m = filter (\<lambda>(k', _). k' \<noteq> k) m"

definition jfield :: "json_map \<Rightarrow> string \<Rightarrow> json" where
  "jfield m k = (case jget m k of Some v \<Rightarrow> v | None \<Rightarrow> JNull)"

section \<open>The starvation group\<close>

definition starvation_subject :: string where
  "starvation_subject = ''watchdog: idle capacity needs backlog allocation''"

definition accepted_at :: "json_map \<Rightarrow> string \<Rightarrow> time \<Rightarrow> time \<Rightarrow> string + bool" where
  "accepted_at accepted pane now cooldown = (case jget accepted pane of
       None \<Rightarrow> Inr False
     | Some v \<Rightarrow> (case as_f64 (Some v) of
           None \<Rightarrow> Inl ''accepted delivery timestamp must be numeric''
         | Some t \<Rightarrow> Inr (now - t < cooldown)))"

fun deliver_group ::
    "'s senders \<Rightarrow> string \<Rightarrow> string \<Rightarrow> time \<Rightarrow> time \<Rightarrow> string list \<Rightarrow> string list \<Rightarrow> json_map \<Rightarrow> 's watch_world
     \<Rightarrow> string option \<times> json_map \<times> 's watch_world" where
  "deliver_group so key body now cooldown [] errors st w =
     (if errors = [] then None else Some (join_with ''; '' errors), st, w)"
| "deliver_group so key body now cooldown (pane # panes) errors st w =
     (let deliveries = object_entries (jget st ''superuser_deliveries'') in
      case as_object (jget deliveries key) of
        None \<Rightarrow> (Some ''accepted deliveries must be an object'', st, w)
      | Some accepted \<Rightarrow> (case accepted_at accepted pane now cooldown of
            Inl e \<Rightarrow> (Some e, st, w)
          | Inr True \<Rightarrow> deliver_group so key body now cooldown panes errors st w
          | Inr False \<Rightarrow> (case so_send so pane starvation_subject body (ww_out w) of
                (Some e, s) \<Rightarrow>
                  deliver_group so key body now cooldown panes (errors @ [pane @ '': '' @ send_error_text e]) st (w\<lparr>ww_out := s\<rparr>)
              | (None, s) \<Rightarrow>
                  let st = jinsert ''superuser_deliveries'' (JObj (jinsert key (JObj (jinsert pane (JReal now) accepted)) deliveries)) st
                  in case save_watch_state so st (w\<lparr>ww_out := s\<rparr>) of
                       (Some e, w) \<Rightarrow> (Some e, st, w)
                     | (None, w) \<Rightarrow> deliver_group so key body now cooldown panes errors st w)))"

definition all_strings :: "json list \<Rightarrow> string list option" where
  "all_strings xs = those (map (\<lambda>x. as_str (Some x)) xs)"

text \<open>The recipients: configured, and all of them superusers now.\<close>

definition group_recipients :: "json \<Rightarrow> string + json \<Rightarrow> string + string list" where
  "group_recipients rule data = (case data of
       Inl e \<Rightarrow> Inl e
     | Inr data \<Rightarrow> (case Option.bind (as_array (vget data ''panes'')) all_strings of
           None \<Rightarrow> Inl ''superusers.json panes must be a list of pane ids''
         | Some protected \<Rightarrow> (case as_array (vget rule ''superuser_panes'') of
               None \<Rightarrow> Inl ''superuser_panes must be a list''
             | Some panes \<Rightarrow> (case all_strings panes of
                   None \<Rightarrow> Inl ''superuser_panes must contain pane ids''
                 | Some panes \<Rightarrow>
                     if set panes \<subseteq> set protected then Inr (remdups_adj (sort panes))
                     else Inl ''configured starvation recipients are not all current superusers''))))"

definition with_group_entry :: "string \<Rightarrow> json_map \<Rightarrow> string + json_map" where
  "with_group_entry key st =
     (let st = (if jget st ''superuser_deliveries'' = None then jinsert ''superuser_deliveries'' (JObj []) st else st)
      in case as_object (jget st ''superuser_deliveries'') of
           None \<Rightarrow> Inl ''superuser_deliveries must be an object''
         | Some d \<Rightarrow> Inr (if jget d key = None then jinsert ''superuser_deliveries'' (JObj (jinsert key (JObj []) d)) st else st))"

definition send_starvation_group ::
    "run_lib \<Rightarrow> 's senders \<Rightarrow> json \<Rightarrow> json_map \<Rightarrow> json \<Rightarrow> time \<Rightarrow> 's watch_world
     \<Rightarrow> (string option \<times> json_map \<times> 's watch_world) option" where
  "send_starvation_group lib so config st item now w =
     (case as_str (vget item ''rule'') of
        None \<Rightarrow> Some (Some ''finding rule must be a string'', st, w)
      | Some rule_id \<Rightarrow> (case as_str (vget (vidx config ''stores'') ''config_dir'') of
          None \<Rightarrow> Some (Some ''config_dir must be a string'', st, w)
        | Some dir \<Rightarrow>
            (let rule = rule_of config rule_id in
             case group_recipients rule (so_superusers so (rl_expand lib dir) (ww_out w)) of
               Inl e \<Rightarrow> Some (Some e, st, w)
             | Inr panes \<Rightarrow> (case as_f64 (vget rule ''cooldown_minutes'') of
                 None \<Rightarrow> Some (Some ''cooldown_minutes must be numeric'', st, w)
               | Some cooldown \<Rightarrow>
                   if as_str (vget config ''state_path'') = None then Some (Some ''state_path must be a string'', st, w)
                   else (case dedupe_key item of
                     None \<Rightarrow> None
                   | Some key \<Rightarrow> (case with_group_entry key st of
                       Inl e \<Rightarrow> Some (Some e, st, w)
                     | Inr st \<Rightarrow> Some (deliver_group so key
                         (digest_text ''SUPERUSER allocation action''
                            [report_line (rl_report lib) ''NOTIFY SUPERUSERS'' item (JStr ''no'') None None])
                         now (cooldown * 60) panes [] st w)))))))"

section \<open>The owner's channel\<close>

text \<open>\<^verbatim>\<open>DeskBriefChannel::confirmed_through\<close>: the status that was read, and the route.\<close>

definition brief_confirmed :: "run_lib \<Rightarrow> string + json \<Rightarrow> string + string \<Rightarrow> string + json option" where
  "brief_confirmed lib status route = (case status of
       Inl e \<Rightarrow> Inl e
     | Inr status \<Rightarrow>
         let mismatch = ''Telegram confirmation channel differs from configured route or is missing'' in
         if \<not> is_object status then Inl mismatch
         else (case route of
             Inl e \<Rightarrow> Inl e
           | Inr channel \<Rightarrow>
               if vget status ''channel'' \<noteq> Some (JStr channel) then Inl mismatch
               else (case vget status ''last_brief_id'' of
                   None \<Rightarrow> Inr None
                 | Some JNull \<Rightarrow> Inr None
                 | Some (JInt i) \<Rightarrow> Inr (Some (JInt i))
                 | Some v \<Rightarrow> Inl (''last_brief_id is not an integer: '' @ rl_repr lib v))))"

definition at_most :: "json \<Rightarrow> json option \<Rightarrow> bool" where
  "at_most brief through = (case (brief, through) of (JInt a, Some (JInt b)) \<Rightarrow> a \<le> b | _ \<Rightarrow> False)"

definition pending_pages :: "json_map \<Rightarrow> string list" where
  "pending_pages pages = sort (map fst (filter (\<lambda>(k, p). vidx p ''confirmed_at'' = JNull \<and> vidx p ''status'' \<noteq> JStr ''undelivered'') pages))"

definition page_channel :: "json \<Rightarrow> string" where
  "page_channel page = (case as_str (vget page ''desk_channel'') of Some c \<Rightarrow> c | None \<Rightarrow> ''vp'')"

definition undelivered_page :: "json \<Rightarrow> time \<Rightarrow> string \<Rightarrow> json option" where
  "undelivered_page page now channel =
     Option.bind (set_field page ''status'' (JStr ''undelivered'')) (\<lambda>page.
     Option.bind (set_field page ''undelivered_at'' (JReal now)) (\<lambda>page.
     Option.bind (set_field page ''undelivered_reason'' (JStr ''channel-mismatch'')) (\<lambda>page.
     set_field page ''confirmation_channel'' (JStr channel))))"

text \<open>One page: what it becomes, and the problem it is.\<close>

definition confirm_page ::
    "run_lib \<Rightarrow> string \<Rightarrow> json option \<Rightarrow> time \<Rightarrow> time \<Rightarrow> string \<Rightarrow> json \<Rightarrow> (json \<times> string list) option" where
  "confirm_page lib channel through limit now key page =
     (let brief = rp_text (rl_report lib) (vidx page ''brief_id'') in
      if page_channel page \<noteq> channel then
        map_option (\<lambda>p. (p, [''owner page '' @ key @ '' (brief '' @ brief @ '') channel '' @ page_channel page
            @ '' differs from confirmation channel '' @ channel @ ''; recorded as UNDELIVERED'']))
          (undelivered_page page now channel)
      else if at_most (vidx page ''brief_id'') through then
        map_option (\<lambda>p. (p, [])) (set_field page ''confirmed_at'' (JReal now))
      else (case as_f64 (vget page ''posted_at'') of
          None \<Rightarrow> Some (page, [])
        | Some posted \<Rightarrow>
            if limit < now - posted
            then Some (page, [''owner page '' @ key @ '' (brief '' @ brief @ '') unconfirmed after ''
                   @ rl_tenth lib ((now - posted) / 60) @ ''min; recorded as UNDELIVERED''])
            else Some (page, [])))"

fun confirm_pages ::
    "run_lib \<Rightarrow> string \<Rightarrow> json option \<Rightarrow> time \<Rightarrow> time \<Rightarrow> string list \<Rightarrow> json_map \<Rightarrow> string list
     \<Rightarrow> (json_map \<times> string list) option" where
  "confirm_pages lib channel through limit now [] pages problems = Some (pages, problems)"
| "confirm_pages lib channel through limit now (key # keys) pages problems =
     Option.bind (confirm_page lib channel through limit now key (jfield pages key)) (\<lambda>(page, ps).
       confirm_pages lib channel through limit now keys (jinsert key page pages) (problems @ ps))"

definition confirm_pending ::
    "run_lib \<Rightarrow> 's senders \<Rightarrow> json \<Rightarrow> time \<Rightarrow> 's \<Rightarrow> json_map \<Rightarrow> string list \<Rightarrow> (json_map \<times> string list) option" where
  "confirm_pending lib so config now s st problems =
     (let pages = object_entries (jget st ''owner_pages''); pending = pending_pages pages in
      if pending = [] then Some (st, problems)
      else case so_confirmed_through so s of
          Inl e \<Rightarrow> Some (st, problems @ [''owner confirmation unreadable: '' @ e])
        | Inr through \<Rightarrow> (case so_desk_channel so s of
              Inl e \<Rightarrow> Some (st, problems @ [''owner confirmation unreadable: '' @ e])
            | Inr channel \<Rightarrow>
                map_option (\<lambda>(pages, problems). (jinsert ''owner_pages'' (JObj pages) st, problems))
                  (confirm_pages lib channel through
                     (number (vget (vidx (vidx config ''escalation'') ''owner'') ''confirm_within_minutes'') * 60)
                     now pending pages problems)))"

section \<open>The report\<close>

definition self_error :: "string list \<Rightarrow> json" where
  "self_error problems =
     (let n = digits (length problems) in JObj
       [(''rule'', JStr ''watchdog.self_error''), (''key'', JStr ''run''), (''severity'', JStr ''self''),
        (''class'', JStr ''self''), (''source'', JStr ''watchdog-self''),
        (''summary'', JStr (''watchdog could not do '' @ n @ '' thing(s); coverage or owner delivery is affected'')),
        (''threshold'', JStr ''-''), (''measured'', JStr (n @ '' problem(s)'')), (''window'', JStr ''this run''),
        (''evidence'', JObj [(''problems'', json_strs problems)])])"

definition recent_failure :: "run_lib \<Rightarrow> json_map \<Rightarrow> time \<Rightarrow> json" where
  "recent_failure lib st now =
     (let max_age = (case rl_carried lib of Some a \<Rightarrow> a | None \<Rightarrow> 43200) in
      case jget st ''delivery_failure'' of
        None \<Rightarrow> JNull
      | Some f \<Rightarrow> if now - (case as_f64 (vget f ''at'') of Some t \<Rightarrow> t | None \<Rightarrow> now) \<le> max_age then f else JNull)"

fun set_first :: "json \<Rightarrow> string \<Rightarrow> json \<Rightarrow> json list \<Rightarrow> json list option" where
  "set_first item which v [] = Some []"
| "set_first item which v (d # ds) =
     (if vidx d ''finding'' = item then map_option (\<lambda>d. d # ds) (set_field d which v)
      else map_option (Cons d) (set_first item which v ds))"

definition set_decision :: "json_map \<Rightarrow> json \<Rightarrow> string \<Rightarrow> string \<Rightarrow> json_map option" where
  "set_decision report item which v = (case as_array (jget report ''decisions'') of
       None \<Rightarrow> Some report
     | Some ds \<Rightarrow> map_option (\<lambda>ds. jinsert ''decisions'' (JArr ds) report) (set_first item which (JStr v) ds))"

definition push_sent :: "string \<Rightarrow> json_map \<Rightarrow> json_map option" where
  "push_sent name report = map_option (\<lambda>xs. jinsert ''sent'' (JArr (xs @ [JStr name])) report) (as_array (jget report ''sent''))"

definition decided_no :: "string \<Rightarrow> json list \<Rightarrow> json list" where
  "decided_no which = filter (\<lambda>d. vidx d which = JStr ''no'')"

definition rate_limited :: "json list \<Rightarrow> nat" where
  "rate_limited ds = length (filter (\<lambda>d. vidx d ''vp'' = JStr ''rate'') ds)"

definition first_report ::
    "run_lib \<Rightarrow> json \<Rightarrow> bool \<Rightarrow> bool \<Rightarrow> time \<Rightarrow> json list \<Rightarrow> json list \<Rightarrow> json list \<Rightarrow> json \<Rightarrow> string list \<Rightarrow> json_map \<Rightarrow> json_map" where
  "first_report lib config live dry now findings skipped decisions recovered problems st =
     [(''mode'', JStr (if live then ''live'' else ''dry-run'')),
      (''why_not_live'', if live then JNull else if dry then JStr ''--dry-run flag''
         else if vidx config ''enabled'' \<noteq> JBool True then JStr ''config enabled=false'' else JStr ''config dry_run=true''),
      (''now'', JReal now), (''findings'', JArr findings), (''skipped'', JArr skipped), (''decisions'', JArr decisions),
      (''recovered'', recovered), (''problems'', json_strs problems), (''sent'', JArr []), (''delivery_error'', JNull),
      (''carried_failure'', recent_failure lib st now),
      (''delivery_failure_count'', JInt (case json_i64 (jget st ''delivery_failure_count'') of Some n \<Rightarrow> n | None \<Rightarrow> 0)),
      (''counts'', JObj
         [(''findings'', JInt (int (length findings))), (''vp'', JInt (int (length (decided_no ''vp'' decisions)))),
          (''owner'', JInt (int (length (decided_no ''owner'' decisions)))),
          (''needs_attention'', JInt (int (length (decided_no ''vp'' decisions) + rate_limited decisions)))])]"

section \<open>Sending\<close>

definition mark_alerted :: "string \<Rightarrow> time \<Rightarrow> json_map \<Rightarrow> json_map option" where
  "mark_alerted key now st =
     Option.bind (as_object (jget st ''alerts'')) (\<lambda>alerts.
       map_option (\<lambda>entry. jinsert ''alerts'' (JObj (jinsert key entry alerts)) st)
         (set_field (case jget alerts key of Some e \<Rightarrow> e | None \<Rightarrow> JObj []) ''last_alerted'' (JReal now)))"

text \<open>What the sending loops carry: the report, the problems, the lines, the state and the world.\<close>

record 's pass_state =
  ps_report :: json_map
  ps_problems :: "string list"
  ps_lines :: "string list"
  ps_state :: json_map
  ps_world :: "'s watch_world"

definition group_step ::
    "run_lib \<Rightarrow> 's senders \<Rightarrow> json \<Rightarrow> time \<Rightarrow> json \<Rightarrow> 's pass_state \<Rightarrow> 's pass_state option" where
  "group_step lib so config now d p =
     (let item = vidx d ''finding'' in
      case send_starvation_group lib so config (ps_state p) item now (ps_world p) of
        None \<Rightarrow> None
      | Some (Some e, st, w) \<Rightarrow>
          map_option (\<lambda>report. p\<lparr>ps_report := report, ps_problems := ps_problems p @ [''superuser allocation alert: '' @ e],
              ps_state := st, ps_world := w\<rparr>)
            (set_decision (ps_report p) item ''vp'' ''transport-error'')
      | Some (None, st, w) \<Rightarrow> do {
          report \<leftarrow> push_sent ''superusers'' (ps_report p);
          key \<leftarrow> dedupe_key item;
          st \<leftarrow> mark_alerted key now st;
          Some (p\<lparr>ps_report := report, ps_state := st, ps_world := w,
            ps_lines := ps_lines p @ [report_line (rl_report lib) ''NOTIFY SUPERUSERS'' item (JStr ''no'') None None]\<rparr>) })"

fun each_decision :: "(json \<Rightarrow> 's pass_state \<Rightarrow> 's pass_state option) \<Rightarrow> json list \<Rightarrow> 's pass_state \<Rightarrow> 's pass_state option" where
  "each_decision f [] p = Some p"
| "each_decision f (d # ds) p = Option.bind (f d p) (each_decision f ds)"

definition posted_page :: "int \<Rightarrow> time \<Rightarrow> string \<Rightarrow> json" where
  "posted_page brief now channel = JObj
     [(''brief_id'', JInt brief), (''posted_at'', JReal now), (''confirmed_at'', JNull), (''desk_channel'', JStr channel)]"

definition not_posted ::
    "json \<Rightarrow> string \<Rightarrow> string \<Rightarrow> 's pass_state \<Rightarrow> 's pass_state option" where
  "not_posted item key e p =
     map_option (\<lambda>report. p\<lparr>ps_report := report,
         ps_problems := ps_problems p @ [''owner page '' @ key @ '' not posted: '' @ e @ ''; recorded as UNDELIVERED'']\<rparr>)
       (set_decision (ps_report p) item ''owner'' ''transport-error'')"

definition page_step ::
    "run_lib \<Rightarrow> 's senders \<Rightarrow> time \<Rightarrow> json \<Rightarrow> 's pass_state \<Rightarrow> 's pass_state option" where
  "page_step lib so now d p =
     (let item = vidx d ''finding'';
          body = digest_text ''OWNER page'' [report_line (rl_report lib) ''PAGE OWNER'' item (JStr ''no'') None None];
          w = ps_world p
      in Option.bind (dedupe_key item) (\<lambda>key.
         case so_desk_channel so (ww_out w) of
           Inl e \<Rightarrow> not_posted item key e p
         | Inr channel \<Rightarrow> (case so_post so body (ww_out w) of
             (Inl e, s) \<Rightarrow> not_posted item key (send_error_text e) (p\<lparr>ps_world := w\<lparr>ww_out := s\<rparr>\<rparr>)
           | (Inr brief, s) \<Rightarrow> do {
               pages \<leftarrow> set_field (jfield (ps_state p) ''owner_pages'') key (posted_page brief now channel);
               times \<leftarrow> as_array (jget (ps_state p) ''owner_page_times'');
               Some (p\<lparr>ps_state := jinsert ''owner_page_times'' (JArr (times @ [JReal now]))
                          (jinsert ''owner_pages'' pages (ps_state p)),
                       ps_lines := ps_lines p @
                         [report_line (rl_report lib) ''PAGE OWNER (pending confirmation)'' item (JStr ''no'') None None],
                       ps_world := w\<lparr>ww_out := s, ww_paged := ww_paged w @ [now]\<rparr>\<rparr>) })))"

definition resolved_step ::
    "'s senders \<Rightarrow> json \<Rightarrow> 's pass_state \<Rightarrow> 's pass_state option" where
  "resolved_step so k p =
     (let key = (case k of JStr s \<Rightarrow> s | _ \<Rightarrow> []);
          (posted, s) = so_post so (digest_text ''OWNER resolved'' [''RESOLVED '' @ key]) (ww_out (ps_world p));
          st = (case as_object (jget (ps_state p) ''owner_pages'') of
                  Some pages \<Rightarrow> jinsert ''owner_pages'' (JObj (jremove key pages)) (ps_state p) | None \<Rightarrow> ps_state p);
          problems = (case posted of
                  Inl e \<Rightarrow> [''owner resolved line '' @ key @ '' not posted: '' @ send_error_text e] | Inr _ \<Rightarrow> [])
      in Some (p\<lparr>ps_problems := ps_problems p @ problems, ps_state := st, ps_world := (ps_world p)\<lparr>ww_out := s\<rparr>\<rparr>))"

section \<open>The digest and what is saved after it\<close>

definition is_group :: "json \<Rightarrow> bool" where
  "is_group d \<longleftrightarrow> vidx (vidx d ''finding'') ''rule'' = JStr ''fleet.assignment_starvation''"

definition vp_lines ::
    "run_lib \<Rightarrow> string list \<Rightarrow> string list \<Rightarrow> json list \<Rightarrow> json list \<Rightarrow> json \<Rightarrow> string list" where
  "vp_lines lib problems page_lines vp decisions recovered =
     (let notify = (\<lambda>item. report_line (rl_report lib) ''NOTIFY VP'' item (JStr ''no'') None None);
          suppressed = rate_limited decisions
      in (if problems = [] then [] else [notify (self_error problems)])
         @ page_lines @ map (\<lambda>d. notify (vidx d ''finding'')) vp
         @ (if 0 < suppressed
            then [digits suppressed @ '' further finding(s) suppressed by max_alerts_per_run; run `dunkingsheep watchdog --dry-run` to see all.'']
            else [])
         @ map (\<lambda>k. ''RESOLVED VP dedupe='' @ (case k of JStr s \<Rightarrow> s | _ \<Rightarrow> [])) (array_of (vget recovered ''vp'')))"

definition digest_subject :: "json list \<Rightarrow> string list \<Rightarrow> string" where
  "digest_subject vp problems =
     ''watchdog: '' @ digits (length vp) @ '' alert(s)'' @ (if problems = [] then [] else '' + self-error'')"

text \<open>The state after a digest that was refused.\<close>

definition failed_state :: "json \<Rightarrow> time \<Rightarrow> string \<Rightarrow> string list \<Rightarrow> json_map \<Rightarrow> json_map" where
  "failed_state config now reason ls st =
     (let failure = JObj [(''at'', JReal now), (''target'', vidx (vidx (vidx config ''escalation'') ''vp'') ''mailbox''),
            (''reason'', JStr reason), (''pending'', JInt (int (length ls))), (''lines'', json_strs (take 5 ls))];
          n = (case json_i64 (jget st ''delivery_failure_count'') of Some n \<Rightarrow> n | None \<Rightarrow> 0)
      in jinsert ''delivery_failure_count'' (JInt (wrap_i64 (n + 1)))
           (jinsert ''delivery_failure'' failure (jinsert ''last_run'' (JReal now) st)))"

fun mark_all :: "time \<Rightarrow> json list \<Rightarrow> json_map \<Rightarrow> json_map option" where
  "mark_all now [] st = Some st"
| "mark_all now (d # ds) st = do { key \<leftarrow> dedupe_key (vidx d ''finding''); st \<leftarrow> mark_alerted key now st; mark_all now ds st }"

definition first_seen :: "time \<Rightarrow> json \<Rightarrow> json option" where
  "first_seen now entry = map_option (\<lambda>m. JObj (if jget m ''first_seen'' = None then jinsert ''first_seen'' (JReal now) m else m))
     (as_object (Some entry))"

definition map_entries :: "(json \<Rightarrow> json option) \<Rightarrow> json_map \<Rightarrow> json_map option" where
  "map_entries f m = those (map (\<lambda>(k, v). map_option (Pair k) (f v)) m)"

definition kept_entry :: "time \<Rightarrow> time \<Rightarrow> string set \<Rightarrow> string \<times> json \<Rightarrow> bool" where
  "kept_entry now retention current e \<longleftrightarrow>
     fst e \<in> current \<or> now - (case as_f64 (vget (snd e) ''last_seen'') of Some t \<Rightarrow> t | None \<Rightarrow> now) \<le> retention"

definition seen_entry :: "time \<Rightarrow> string set \<Rightarrow> string \<times> json \<Rightarrow> (string \<times> json) option" where
  "seen_entry now current e =
     (if fst e \<in> current then map_option (Pair (fst e)) (set_field (snd e) ''last_seen'' (JReal now)) else Some e)"

text \<open>The alerts after a digest that was accepted or not needed.\<close>

definition settled_alerts :: "time \<Rightarrow> time \<Rightarrow> string set \<Rightarrow> string list \<Rightarrow> json_map \<Rightarrow> json_map option" where
  "settled_alerts now retention current recovered alerts = do {
     alerts \<leftarrow> map_entries (first_seen now) (fold jremove recovered alerts);
     those (map (seen_entry now current) (filter (kept_entry now retention current) alerts)) }"

definition settled_state ::
    "json \<Rightarrow> time \<Rightarrow> string set \<Rightarrow> json list \<Rightarrow> json \<Rightarrow> json \<Rightarrow> json_map \<Rightarrow> json_map option" where
  "settled_state config now current vp recovered streaks st = do {
     st \<leftarrow> mark_all now vp st;
     alerts \<leftarrow> as_object (jget st ''alerts'');
     alerts \<leftarrow> settled_alerts now (number (vget config ''state_retention_days'') * 86400) current
                (map (\<lambda>k. case k of JStr s \<Rightarrow> s | _ \<Rightarrow> []) (array_of (vget recovered ''vp''))) alerts;
     let times = filter (\<lambda>t. case as_f64 (Some t) of Some at0 \<Rightarrow> now - 3600 < at0 | None \<Rightarrow> False)
                   (array_of (jget st ''owner_page_times''));
     Some (jinsert ''last_run'' (JReal now) (jinsert ''owner_page_times'' (JArr times)
            (jinsert ''streaks'' streaks (jinsert ''alerts'' (JObj alerts) st)))) }"

definition closing ::
    "run_lib \<Rightarrow> 's senders \<Rightarrow> json \<Rightarrow> time \<Rightarrow> json_map \<Rightarrow> string list \<Rightarrow> string list \<Rightarrow> json_map \<Rightarrow> 's watch_world
     \<Rightarrow> (string + json_map) \<times> 's watch_world" where
  "closing lib so config now report all_lines problems st w =
     (case save_watch_state so st w of
        (Some e, w) \<Rightarrow> (Inl e, w)
      | (None, w) \<Rightarrow> (case as_str (vget config ''heartbeat_path'') of
            None \<Rightarrow> (Inl ''heartbeat_path must be a string'', w)
          | Some _ \<Rightarrow> (case write_heartbeat so now (number (vget config ''cadence_minutes'')) w of
              (Some e, w) \<Rightarrow> (Inl e, w)
            | (None, w) \<Rightarrow> (Inr (jinsert ''problems'' (json_strs problems) (jinsert ''lines'' (json_strs all_lines) report)), w))))"

text \<open>From the digest on. \<open>vp\<close> are the alerts of the digest, \<open>p\<close> what the loops have left.\<close>

definition finish ::
    "run_lib \<Rightarrow> 's senders \<Rightarrow> json \<Rightarrow> time \<Rightarrow> string set \<Rightarrow> json list \<Rightarrow> json list \<Rightarrow> json \<Rightarrow> json \<Rightarrow> string list
     \<Rightarrow> 's pass_state \<Rightarrow> (string + json_map) option \<times> 's watch_world" where
  "finish lib so config now current vp decisions recovered streaks group_lines p =
     (let w = ps_world p; st = ps_state p; problems = ps_problems p;
          ls = vp_lines lib problems (ps_lines p) vp decisions recovered;
          all_lines = group_lines @ ls;
          settle = (\<lambda>report st w. case settled_state config now current vp recovered streaks st of
              None \<Rightarrow> (None, w)
            | Some st \<Rightarrow> (case closing lib so config now report all_lines problems st w of (r, w) \<Rightarrow> (Some r, w)))
      in if ls = [] then settle (ps_report p) st w
         else (case so_send so (str_field (vidx (vidx config ''escalation'') ''vp'') ''mailbox'')
                      (digest_subject vp problems) (digest_text ''VP digest'' ls) (ww_out w) of
             (None, s) \<Rightarrow> (case push_sent ''vp'' (ps_report p) of
                 None \<Rightarrow> (None, w)
               | Some report \<Rightarrow> settle report (jremove ''delivery_failure'' st) (w\<lparr>ww_out := s\<rparr>))
           | (Some e, s) \<Rightarrow>
               let reason = send_error_text e;
                   report = jinsert ''delivery_error'' (JStr reason) (ps_report p)
               in (case save_watch_state so (failed_state config now reason ls st) (w\<lparr>ww_out := s\<rparr>) of
                     (Some e, w) \<Rightarrow> (Some (Inl e), w)
                   | (None, w) \<Rightarrow> (Some (Inr (jinsert ''problems'' (json_strs problems)
                         (jinsert ''lines'' (json_strs all_lines) report))), w))))"

section \<open>One pass\<close>

definition blocked_reason :: "string option \<Rightarrow> json list \<Rightarrow> string option" where
  "blocked_reason state_problem errors =
     (if state_problem \<noteq> None then Some ''state-loss'' else if errors \<noteq> [] then Some ''self-error'' else None)"

definition first_problems :: "json list \<Rightarrow> string option \<Rightarrow> string list" where
  "first_problems errors state_problem =
     map (\<lambda>e. ''rule '' @ str_field e ''rule'' @ '' SKIPPED: '' @ str_field e ''error'') errors
     @ (case state_problem of Some s \<Rightarrow> [s @ '' - owner pages suppressed this run''] | None \<Rightarrow> [])"

text \<open>The sending of a live pass.\<close>

definition live_pass ::
    "run_lib \<Rightarrow> 's senders \<Rightarrow> json \<Rightarrow> time \<Rightarrow> json list \<Rightarrow> json list \<Rightarrow> json \<Rightarrow> json \<Rightarrow> 's pass_state
     \<Rightarrow> (string + json_map) option \<times> 's watch_world" where
  "live_pass lib so config now findings decisions recovered streaks p =
     (let vp = decided_no ''vp'' decisions in
      case those (map dedupe_key findings) of
        None \<Rightarrow> (None, ps_world p)
      | Some current \<Rightarrow> (case each_decision (group_step lib so config now) (filter is_group vp) p of
          None \<Rightarrow> (None, ps_world p)
        | Some g \<Rightarrow> (case each_decision (page_step lib so now) (decided_no ''owner'' decisions) (g\<lparr>ps_lines := []\<rparr>) of
            None \<Rightarrow> (None, ps_world g)
          | Some q \<Rightarrow> (case each_decision (resolved_step so) (array_of (vget recovered ''owner'')) q of
              None \<Rightarrow> (None, ps_world q)
            | Some r \<Rightarrow> finish lib so config now (set current) (filter (\<lambda>d. \<not> is_group d) vp)
                decisions recovered streaks (ps_lines g) r))))"

definition is_live :: "json \<Rightarrow> bool \<Rightarrow> bool" where
  "is_live config dry \<longleftrightarrow> vget config ''enabled'' = Some (JBool True) \<and> vget config ''dry_run'' = Some (JBool False) \<and> \<not> dry"

text \<open>A validated pass over a loaded state.\<close>

definition pass ::
    "run_lib \<Rightarrow> 's senders \<Rightarrow> json \<Rightarrow> time \<Rightarrow> bool \<Rightarrow> json \<Rightarrow> json_map \<Rightarrow> string option \<Rightarrow> 's watch_world
     \<Rightarrow> (string + json_map) option \<times> 's watch_world" where
  "pass lib so config now dry evaluated st state_problem w =
     (let live = is_live config dry;
          findings = array_of (vget evaluated ''findings'');
          errors = array_of (vget evaluated ''errors'');
          skipped = array_of (vget evaluated ''skipped'') @ errors;
          problems = first_problems errors state_problem
      in case (if live then confirm_pending lib so config now (ww_out w) st problems else Some (st, problems)) of
           None \<Rightarrow> (None, w)
         | Some (st, problems) \<Rightarrow> (case advance_streaks config (JObj st) findings now of
             None \<Rightarrow> (None, w)
           | Some streaks \<Rightarrow> (case watch_plan config findings (JObj st) streaks now (blocked_reason state_problem errors) of
               None \<Rightarrow> (None, w)
             | Some decisions \<Rightarrow>
                 let recovered = recoveries (JObj st) findings;
                     report = first_report lib config live dry now findings skipped decisions recovered problems st
                 in if \<not> live then
                      (Some (Inr (jinsert ''lines''
                         (json_strs (render_lines (rl_report lib) config decisions skipped recovered ''dry-run'')) report)), w)
                    else live_pass lib so config now findings decisions recovered streaks
                      \<lparr>ps_report = report, ps_problems = problems, ps_lines = [], ps_state = st, ps_world = w\<rparr>)))"

definition run ::
    "run_lib \<Rightarrow> 's senders \<Rightarrow> json \<Rightarrow> time \<Rightarrow> bool \<Rightarrow> (json \<Rightarrow> time \<Rightarrow> json) \<Rightarrow> 's watch_world
     \<Rightarrow> (string + json_map) option \<times> 's watch_world" where
  "run lib so config now dry evaluate w =
     (case validate_config (rl_config lib) config of
        (None, _) \<Rightarrow> (None, w)
      | (Some (Inl e), _) \<Rightarrow> (Some (Inl (ce_key e @ '': '' @ ce_reason e)), w)
      | (Some (Inr _), config) \<Rightarrow> (case as_str (vget config ''state_path'') of
            None \<Rightarrow> (Some (Inl ''state_path must be a string''), w)
          | Some path \<Rightarrow> (case load_watch_state (rl_expand lib path) (ww_state w) of
              (st, state_problem) \<Rightarrow> pass lib so config now dry (evaluate config now) st state_problem w)))"

end
