(* ===== verification/Watchdog_Run_State.thy ===== *)
theory Watchdog_Run_State
  imports Watchdog_Plan_Effects Watchdog_Run
begin

text \<open>
  The state a pass keeps: its shape, which every step of a pass preserves, and which steps are
  total on it. Each step also leaves most of the state alone; \<open>leaves\<close> says which fields it may
  write.
\<close>

section \<open>Fields\<close>

lemma vget_object [simp]: "vget (JObj m) k = jget m k"
  by (simp add: vget_def)

lemma jget_jremove [simp]: "jget (jremove k m) k' = (if k' = k then None else jget m k')"
  by (induction m) (auto simp: jremove_def)

lemma jget_mem: "jget m k = Some v \<Longrightarrow> (k, v) \<in> set m"
  by (simp add: jget_def map_of_SomeD)

lemma jinsert_mem: "p \<in> set (jinsert k v m) \<Longrightarrow> p = (k, v) \<or> p \<in> set m"
  by (induction m) (auto split: if_splits)

lemma jremove_mem: "p \<in> set (jremove k m) \<Longrightarrow> p \<in> set m"
  by (simp add: jremove_def)

lemma jget_hd: "jget m k = (case filter (\<lambda>p. fst p = k) m of [] \<Rightarrow> None | p # _ \<Rightarrow> Some (snd p))"
  by (induction m) auto

lemma jget_sort: "jget (sort_key fst m) k = jget m k"
  by (simp add: jget_hd sort_key_stable)

lemma jget_map_values: "jget (map (\<lambda>(k, v). (k, f v)) m) k = map_option f (jget m k)"
  by (induction m) auto

definition sorted_map :: "json_map \<Rightarrow> json_map" where
  "sorted_map m = sort_key fst (map (\<lambda>(k, v). (k, sorted_keys v)) m)"

lemma sorted_object: "sorted_keys (JObj m) = JObj (sorted_map m)"
  by (simp add: sorted_map_def)

lemma jget_sorted [simp]: "jget (sorted_map m) k = map_option sorted_keys (jget m k)"
  by (simp add: sorted_map_def jget_sort jget_map_values)

lemma as_f64_sorted [simp]: "as_f64 (map_option sorted_keys v) = as_f64 v" "as_f64 (Some (sorted_keys x)) = as_f64 (Some x)"
  by (cases v; (cases "the v"; simp add: as_f64_def)) (cases x; simp add: as_f64_def)

lemma json_i64_sorted [simp]: "json_i64 (map_option sorted_keys v) = json_i64 v"
  by (cases v; (cases "the v"; simp add: json_i64_def))

lemma vget_sorted [simp]: "vget (sorted_keys v) k = map_option sorted_keys (vget v k)"
  by (cases v) (auto simp: vget_def sorted_object simp del: sorted_keys.simps(1))

lemma null_sorted [simp]: "sorted_keys v = JNull \<longleftrightarrow> v = JNull" "is_object (sorted_keys v) = is_object v"
  by (cases v; simp add: is_object_def)+

lemma is_object_iff: "is_object v \<longleftrightarrow> (\<exists>m. v = JObj m)"
  by (cases v) (auto simp: is_object_def)

lemma set_field_object: "is_object v \<Longrightarrow> set_field v k x = Some (JObj (jinsert k x (case v of JObj m \<Rightarrow> m)))"
  by (auto simp: is_object_iff set_field_def)

lemma set_fieldE:
  assumes "set_field v k x = Some v'"
  obtains m where "v' = JObj m" "jget m k = Some x" "\<forall>k'. k' \<noteq> k \<longrightarrow> jget m k' = vget v k'"
  using assms by (cases v) (auto simp: set_field_def vget_def)

section \<open>The shape of the state\<close>

definition stamped :: "string \<Rightarrow> json_map \<Rightarrow> bool" where
  "stamped stamp m \<longleftrightarrow> list_all (\<lambda>(k, e). is_object e \<and> time_or_null (vget e stamp)) m"

definition kept_state :: "json_map \<Rightarrow> bool" where
  "kept_state st \<longleftrightarrow>
     (\<exists>m. jget st ''alerts'' = Some (JObj m) \<and> stamped ''last_alerted'' m)
     \<and> (\<exists>m. jget st ''owner_pages'' = Some (JObj m) \<and> stamped ''confirmed_at'' m)
     \<and> (\<exists>xs. jget st ''owner_page_times'' = Some (JArr xs) \<and> list_all (\<lambda>t. as_f64 (Some t) \<noteq> None) xs)
     \<and> (\<exists>m. jget st ''streaks'' = Some (JObj m) \<and> streaks_ok m)"

lemma stamped_get: "stamped stamp m \<Longrightarrow> jget m k = Some e \<Longrightarrow> is_object e \<and> time_or_null (vget e stamp)"
  using jget_mem by (fastforce simp: stamped_def list_all_iff)

lemma stamped_jinsert: "stamped stamp m \<Longrightarrow> is_object e \<Longrightarrow> time_or_null (vget e stamp) \<Longrightarrow> stamped stamp (jinsert k e m)"
  using jinsert_mem by (fastforce simp: stamped_def list_all_iff)

lemma stamped_jremove: "stamped stamp m \<Longrightarrow> stamped stamp (jremove k m)"
  using jremove_mem by (fastforce simp: stamped_def list_all_iff)

lemma time_or_null_sorted [simp]: "time_or_null (map_option sorted_keys v) = time_or_null v"
  by (cases v) (auto simp: time_or_null_def not_null_def)

lemma stamped_sorted: "stamped stamp m \<Longrightarrow> stamped stamp (sorted_map m)"
  by (auto simp: stamped_def list_all_iff sorted_map_def)

lemma streaks_sorted: "streaks_ok m \<Longrightarrow> streaks_ok (sorted_map m)"
  by (auto simp: streaks_ok_def)

lemma kept_sorted: "kept_state st \<Longrightarrow> kept_state (sorted_map st)"
  by (auto simp: kept_state_def sorted_object list_all_iff stamped_sorted streaks_sorted simp del: sorted_keys.simps(1))

lemma kept_state_ok: "kept_state st \<Longrightarrow> state_ok (JObj st)"
  by (auto simp: kept_state_def state_ok_def dest: stamped_get)

lemma kept_empty: "kept_state empty_state"
  by (simp add: kept_state_def empty_state_def stamped_def streaks_ok_def)

lemma kept_filled: "kept_state st \<Longrightarrow> fill_defaults st = st"
  by (auto simp: kept_state_def fill_defaults_def empty_state_def)

text \<open>What a state file may hold: anything that cannot be read as a state, or a state of the shape.\<close>

definition file_ok :: "state_read \<Rightarrow> bool" where
  "file_ok r \<longleftrightarrow> (\<forall>m. r = State_Text (JObj m) \<longrightarrow> kept_state m)"

lemma kept_loaded: "file_ok r \<Longrightarrow> load_watch_state p r = (st, problem) \<Longrightarrow> kept_state st"
  by (cases r) (auto simp: load_watch_state_def file_ok_def kept_empty kept_filled split: json.splits)

section \<open>Which fields a step writes\<close>

definition leaves :: "string set \<Rightarrow> json_map \<Rightarrow> json_map \<Rightarrow> bool" where
  "leaves K st st' \<longleftrightarrow> (\<forall>k. k \<notin> K \<longrightarrow> jget st' k = jget st k)"

lemma leaves_refl [simp]: "leaves K st st"
  by (simp add: leaves_def)

lemma leaves_trans: "leaves K a b \<Longrightarrow> leaves K b c \<Longrightarrow> leaves K a c"
  by (simp add: leaves_def)

lemma leaves_jinsert [simp]: "k \<in> K \<Longrightarrow> leaves K st (jinsert k v st)"
  by (auto simp: leaves_def)

lemma leaves_more: "leaves K a b \<Longrightarrow> K \<subseteq> L \<Longrightarrow> leaves L a b"
  by (auto simp: leaves_def)

lemma leavesD: "leaves K a b \<Longrightarrow> k \<notin> K \<Longrightarrow> jget b k = jget a k"
  by (simp add: leaves_def)

lemma kept_leaves: "kept_state a \<Longrightarrow> leaves {''superuser_deliveries''} a b \<Longrightarrow> kept_state b"
  by (simp add: kept_state_def leaves_def)

text \<open>What a step does to the world besides the senders' state: saved states keep the shape.\<close>

definition world_kept :: "'s watch_world \<Rightarrow> 's watch_world \<Rightarrow> bool" where
  "world_kept w w' \<longleftrightarrow> ww_paged w' = ww_paged w \<and> ww_heartbeat w' = ww_heartbeat w
     \<and> (file_ok (ww_state w) \<longrightarrow> file_ok (ww_state w'))"

lemma world_kept_refl [simp]: "world_kept w w"
  by (simp add: world_kept_def)

lemma world_kept_out [simp]: "world_kept w (w'\<lparr>ww_out := s\<rparr>) = world_kept w w'" "world_kept (w\<lparr>ww_out := s\<rparr>) w' = world_kept w w'"
  by (simp_all add: world_kept_def)

lemma world_kept_trans: "world_kept a b \<Longrightarrow> world_kept b c \<Longrightarrow> world_kept a c"
  by (simp add: world_kept_def)

lemma save_keeps:
  assumes "save_watch_state so st w = (e, w')" "kept_state st"
  shows "world_kept w w'"
  using assms kept_sorted
  by (auto simp: save_watch_state_def world_kept_def file_ok_def sorted_object split: option.splits simp del: sorted_keys.simps(1))

end
