(* ===== verification/Watchdog_Run_Steps.thy ===== *)
theory Watchdog_Run_Steps
  imports Watchdog_Run_State
begin

text \<open>
  Every step of a pass is total on a state of the shape and keeps it; what each of them writes:
  the confirmation of pages, the starvation group, the pages and their resolution, and the state
  that is saved when the digest was accepted.
\<close>

section \<open>Confirming pages\<close>

lemma stamp_fits: "time_or_null (Some (JReal r))" "time_or_null (Some JNull)" "time_or_null None"
  by (simp_all add: time_or_null_def not_null_def as_f64_def)

lemma undelivered_page_ok:
  assumes "is_object page" "time_or_null (vget page ''confirmed_at'')"
  shows "\<exists>p. undelivered_page page now channel = Some p \<and> is_object p \<and> time_or_null (vget p ''confirmed_at'')"
  using assms by (auto simp: undelivered_page_def is_object_iff set_field_def)

lemma confirm_page_ok:
  assumes "is_object page" "time_or_null (vget page ''confirmed_at'')"
  shows "\<exists>p ps. confirm_page lib channel through limit now key page = Some (p, ps) \<and> is_object p \<and> time_or_null (vget p ''confirmed_at'')"
proof -
  obtain p where "undelivered_page page now channel = Some p" "is_object p" "time_or_null (vget p ''confirmed_at'')"
    using undelivered_page_ok [OF assms] by blast
  then show ?thesis using assms
    by (auto simp: confirm_page_def Let_def is_object_iff set_field_def stamp_fits split: option.splits)
qed

lemma confirm_pages_ok:
  assumes "stamped ''confirmed_at'' pg" "\<forall>k \<in> set keys. jget pg k \<noteq> None"
  shows "\<exists>pg' ps. confirm_pages lib channel through limit now keys pg problems = Some (pg', ps) \<and> stamped ''confirmed_at'' pg'"
  using assms
proof (induction keys arbitrary: pg problems)
  case (Cons key keys)
  then obtain page where page: "jget pg key = Some page" by auto
  obtain p ps where p: "confirm_page lib channel through limit now key page = Some (p, ps)" "is_object p" "time_or_null (vget p ''confirmed_at'')"
    using confirm_page_ok stamped_get [OF Cons.prems(1) page] by metis
  show ?case
    using Cons.IH [of "jinsert key p pg" "problems @ ps"] Cons.prems stamped_jinsert [OF Cons.prems(1) p(2,3), of key]
    by (auto simp: page p(1) jfield_def)
qed simp

lemma confirm_pending_ok:
  assumes "kept_state st"
  shows "\<exists>st' ps. confirm_pending lib so config now s st problems = Some (st', ps) \<and> kept_state st' \<and> leaves {''owner_pages''} st st'"
proof -
  obtain pg where pg: "jget st ''owner_pages'' = Some (JObj pg)" "stamped ''confirmed_at'' pg"
    using assms by (auto simp: kept_state_def)
  have "\<forall>k \<in> set (pending_pages pg). jget pg k \<noteq> None"
    by (auto simp: pending_pages_def jget_def map_of_eq_None_iff rev_image_eqI)
  note total = confirm_pages_ok [OF pg(2) this]
  have kept: "kept_state (jinsert ''owner_pages'' (JObj m) st)" if "stamped ''confirmed_at'' m" for m
    using assms that by (auto simp: kept_state_def)
  show ?thesis
  proof (cases "so_confirmed_through so s")
    case (Inr through)
    show ?thesis
    proof (cases "so_desk_channel so s")
      case (Inr channel)
      obtain pg' ps where "confirm_pages lib channel through (number (vget (vidx (vidx config ''escalation'') ''owner'')
          ''confirm_within_minutes'') * 60) now (pending_pages pg) pg problems = Some (pg', ps)" "stamped ''confirmed_at'' pg'"
        using total by blast
      then show ?thesis
        using assms kept by (auto simp: confirm_pending_def Let_def object_entries_def as_object_def pg(1) \<open>so_confirmed_through so s = _\<close> Inr)
    qed (use assms in \<open>auto simp: confirm_pending_def Let_def Inr\<close>)
  qed (use assms in \<open>auto simp: confirm_pending_def Let_def\<close>)
qed

section \<open>Marking an alert\<close>

definition alert_time :: "json_map \<Rightarrow> string \<Rightarrow> json option" where
  "alert_time st key = Option.bind (as_object (jget st ''alerts'')) (\<lambda>m. Option.bind (jget m key) (\<lambda>e. vget e ''last_alerted''))"

lemma mark_alerted_ok:
  assumes "kept_state st"
  shows "\<exists>st'. mark_alerted key now st = Some st' \<and> kept_state st' \<and> leaves {''alerts''} st st'
    \<and> (\<forall>k. alert_time st' k = (if k = key then Some (JReal now) else alert_time st k))"
proof -
  obtain m where m: "jget st ''alerts'' = Some (JObj m)" "stamped ''last_alerted'' m" using assms by (auto simp: kept_state_def)
  let ?e = "case jget m key of Some e \<Rightarrow> e | None \<Rightarrow> JObj []"
  have "is_object ?e" using stamped_get [OF m(2), of key] by (auto simp: is_object_def split: option.split)
  then obtain e where e: "set_field ?e ''last_alerted'' (JReal now) = Some (JObj e)" "jget e ''last_alerted'' = Some (JReal now)"
    by (auto simp: set_field_object)
  let ?st = "jinsert ''alerts'' (JObj (jinsert key (JObj e) m)) st"
  have "stamped ''last_alerted'' (jinsert key (JObj e) m)"
    using m(2) e(2) by (intro stamped_jinsert) (simp_all add: is_object_def stamp_fits)
  then have "kept_state ?st" using assms by (auto simp: kept_state_def)
  moreover have "mark_alerted key now st = Some ?st" by (simp add: mark_alerted_def m(1) as_object_def e(1))
  ultimately show ?thesis by (auto simp: alert_time_def m(1) as_object_def e(2))
qed

section \<open>The starvation group\<close>

lemma deliver_group_ok:
  assumes "kept_state st" "deliver_group so key body now cooldown panes errors st w = (e, st', w')"
  shows "leaves {''superuser_deliveries''} st st' \<and> world_kept w w'"
  using assms
proof (induction panes arbitrary: errors st w)
  case (Cons pane panes)
  note run = Cons.prems(2)
  show ?case
  proof (cases "as_object (jget (object_entries (jget st ''superuser_deliveries'')) key)")
    case (Some accepted)
    show ?thesis
    proof (cases "accepted_at accepted pane now cooldown")
      case (Inr told)
      show ?thesis
      proof (cases "told \<or> fst (so_send so pane starvation_subject body (ww_out w)) \<noteq> None")
        case True
        then show ?thesis
          using run Cons.IH [OF Cons.prems(1)] Some Inr
          by (cases told; cases "so_send so pane starvation_subject body (ww_out w)") (fastforce simp: Let_def split: option.splits)+
      next
        case False
        then obtain s where s: "so_send so pane starvation_subject body (ww_out w) = (None, s)" "\<not> told"
          by (cases "so_send so pane starvation_subject body (ww_out w)") auto
        let ?st = "jinsert ''superuser_deliveries'' (JObj (jinsert key (JObj (jinsert pane (JReal now) accepted))
            (object_entries (jget st ''superuser_deliveries'')))) st"
        have kept: "kept_state ?st" by (rule kept_leaves [OF Cons.prems(1)]) simp
        obtain e1 w1 where save: "save_watch_state so ?st (w\<lparr>ww_out := s\<rparr>) = (e1, w1)" by fastforce
        note saved = save_keeps [OF save kept]
        show ?thesis
        proof (cases e1)
          case None
          then have "deliver_group so key body now cooldown panes errors ?st w1 = (e, st', w')"
            using run Some Inr s save by (simp add: Let_def)
          from Cons.IH [OF kept this] saved show ?thesis
            by (auto intro: leaves_trans [of _ st ?st] dest: world_kept_trans)
        next
          case (Some e2)
          then show ?thesis
            using run \<open>as_object _ = Some accepted\<close> Inr s save saved by (auto simp: Let_def)
        qed
      qed
    qed (use run Some in \<open>simp add: Let_def\<close>)
  qed (use run in \<open>simp add: Let_def\<close>)
qed auto

lemma with_group_entry_leaves: "with_group_entry key st = Inr st' \<Longrightarrow> leaves {''superuser_deliveries''} st st'"
  by (auto simp: with_group_entry_def Let_def leaves_def split: option.splits if_splits)

lemma send_starvation_group_ok:
  assumes "kept_state st" "dedupe_key item = Some key"
  shows "\<exists>e st' w'. send_starvation_group lib so config st item now w = Some (e, st', w')
    \<and> leaves {''superuser_deliveries''} st st' \<and> world_kept w w'"
proof -
  have total: "send_starvation_group lib so config st item now w \<noteq> None"
    by (auto simp: send_starvation_group_def Let_def assms(2) simp del: not_None_eq split: option.splits sum.splits)
  then obtain e st' w' where r: "send_starvation_group lib so config st item now w = Some (e, st', w')"
    by (metis not_None_eq prod_cases3)
  have "leaves {''superuser_deliveries''} st st' \<and> world_kept w w'"
  proof (cases "st' = st \<and> w' = w")
    case False
    then obtain st1 body cooldown panes where "with_group_entry key st = Inr st1"
      "deliver_group so key body now cooldown panes [] st1 w = (e, st', w')"
      using r by (auto simp: send_starvation_group_def Let_def assms(2) split: option.splits sum.splits if_splits)
    moreover have "leaves {''superuser_deliveries''} st st1" by (rule with_group_entry_leaves [OF calculation(1)])
    moreover have "kept_state st1" by (rule kept_leaves [OF assms(1) calculation(3)])
    moreover have "leaves {''superuser_deliveries''} st1 st' \<and> world_kept w w'"
      by (rule deliver_group_ok [OF calculation(4,2)])
    ultimately show ?thesis using leaves_trans by blast
  qed auto
  with r show ?thesis by blast
qed

section \<open>The report\<close>

definition report_ok :: "json_map \<Rightarrow> bool" where
  "report_ok report \<longleftrightarrow> (\<exists>xs. jget report ''sent'' = Some (JArr xs)) \<and> (\<exists>ds. jget report ''decisions'' = Some (JArr ds) \<and> list_all is_object ds)"

text \<open>What a step may do to a decision of the report: mark a transport error, for the findings in \<open>I\<close>.\<close>

definition redecided_to :: "string \<Rightarrow> json set \<Rightarrow> json \<Rightarrow> json \<Rightarrow> bool" where
  "redecided_to which I d d' \<longleftrightarrow>
     (\<forall>k. vget d' k = vget d k \<or> k = which \<and> vidx d ''finding'' \<in> I \<and> vget d' k = Some (JStr ''transport-error''))"

lemma redecided_to_refl [simp]: "redecided_to which I d d"
  by (simp add: redecided_to_def)

lemma redecided_to_finding: "which \<noteq> ''finding'' \<Longrightarrow> redecided_to which I d d' \<Longrightarrow> vget d' ''finding'' = vget d ''finding''"
  by (auto simp: redecided_to_def)

lemma redecided_to_trans:
  assumes "which \<noteq> ''finding''" "redecided_to which I a b" "redecided_to which I b c"
  shows "redecided_to which I a c"
proof -
  have "vidx b ''finding'' = vidx a ''finding''" using redecided_to_finding [OF assms(1,2)] by (simp add: vidx_def)
  then have "vget c k = vget a k \<or> k = which \<and> vidx a ''finding'' \<in> I \<and> vget c k = Some (JStr ''transport-error'')" for k
    using assms(2,3) [unfolded redecided_to_def, rule_format, of k] by auto
  then show ?thesis by (simp add: redecided_to_def)
qed

lemma set_first_ok:
  assumes "list_all is_object ds"
  shows "\<exists>ds'. set_first item which (JStr ''transport-error'') ds = Some ds' \<and> list_all is_object ds'
    \<and> list_all2 (redecided_to which {item}) ds ds'"
  using assms
proof (induction ds)
  case (Cons d ds)
  then obtain m where d: "d = JObj m" by (auto simp: is_object_iff)
  show ?case
  proof (cases "vidx d ''finding'' = item")
    case True
    then have "set_first item which (JStr ''transport-error'') (d # ds) = Some (JObj (jinsert which (JStr ''transport-error'') m) # ds)"
      by (simp add: d set_field_def)
    moreover have "redecided_to which {item} d (JObj (jinsert which (JStr ''transport-error'') m))"
      using True by (simp add: redecided_to_def d)
    ultimately show ?thesis using Cons.prems by (auto simp: is_object_def list_all2_refl)
  qed (use Cons in auto)
qed simp

definition redecided :: "string \<Rightarrow> json set \<Rightarrow> json_map \<Rightarrow> json_map \<Rightarrow> bool" where
  "redecided which I r r' \<longleftrightarrow>
     list_all2 (redecided_to which I) (array_of (jget r ''decisions'')) (array_of (jget r' ''decisions''))
     \<and> jget r' ''delivery_error'' = jget r ''delivery_error''"

lemma redecided_refl [simp]: "redecided which I r r"
  by (simp add: redecided_def list_all2_refl)

lemma redecided_same: "jget r' ''decisions'' = jget r ''decisions'' \<Longrightarrow> jget r' ''delivery_error'' = jget r ''delivery_error'' \<Longrightarrow> redecided which I r r'"
  by (simp add: redecided_def list_all2_refl)

lemma redecided_trans: "redecided which I a b \<Longrightarrow> redecided which I b c \<Longrightarrow> which \<noteq> ''finding'' \<Longrightarrow> redecided which I a c"
  unfolding redecided_def
  using list_all2_trans [of "redecided_to which I" "redecided_to which I" "redecided_to which I", OF redecided_to_trans] by auto

lemma set_decision_ok:
  assumes "report_ok report" "which \<noteq> ''finding''"
  shows "\<exists>r. set_decision report item which ''transport-error'' = Some r \<and> report_ok r \<and> redecided which {item} report r"
proof -
  obtain ds where ds: "jget report ''decisions'' = Some (JArr ds)" "list_all is_object ds" using assms by (auto simp: report_ok_def)
  obtain ds' where ds': "set_first item which (JStr ''transport-error'') ds = Some ds'" "list_all is_object ds'" "list_all2 (redecided_to which {item}) ds ds'"
    using set_first_ok [OF ds(2)] by blast
  have "redecided which {item} report (jinsert ''decisions'' (JArr ds') report)"
    using ds'(3) by (simp add: redecided_def ds(1) array_of_def as_array_def)
  then show ?thesis
    using assms ds'(2) by (auto simp: set_decision_def ds(1) as_array_def ds'(1) report_ok_def)
qed

lemma push_sent_ok:
  assumes "report_ok report"
  shows "\<exists>r. push_sent name report = Some r \<and> report_ok r \<and> redecided which I report r"
  using assms by (auto simp: report_ok_def push_sent_def as_array_def intro!: redecided_same)

section \<open>The steps of the loops\<close>

definition pass_ok :: "'s pass_state \<Rightarrow> bool" where
  "pass_ok p \<longleftrightarrow> kept_state (ps_state p) \<and> report_ok (ps_report p) \<and> file_ok (ww_state (ps_world p))"

definition grouped :: "time \<Rightarrow> string set \<Rightarrow> 's pass_state \<Rightarrow> 's pass_state \<Rightarrow> bool" where
  "grouped now K p p' \<longleftrightarrow> leaves {''superuser_deliveries'', ''alerts''} (ps_state p) (ps_state p')
     \<and> world_kept (ps_world p) (ps_world p') \<and> redecided ''vp'' UNIV (ps_report p) (ps_report p')
     \<and> (\<forall>k. k \<notin> K \<longrightarrow> alert_time (ps_state p') k = alert_time (ps_state p) k)"

lemma alert_time_leaves: "leaves {''superuser_deliveries''} a b \<Longrightarrow> alert_time b k = alert_time a k"
  by (simp add: alert_time_def leaves_def)

lemma redecided_more:
  assumes "redecided which I a b" "I \<subseteq> J"
  shows "redecided which J a b"
proof -
  have "redecided_to which J d d'" if "redecided_to which I d d'" for d d'
    using that assms(2) unfolding redecided_to_def by blast
  then show ?thesis using assms(1) list_all2_mono unfolding redecided_def by blast
qed

lemma group_step_ok:
  assumes "pass_ok p" "dedupe_key (vidx d ''finding'') = Some key"
  shows "\<exists>p'. group_step lib so config now d p = Some p' \<and> pass_ok p' \<and> grouped now {key} p p'"
proof -
  note p = assms(1) [unfolded pass_ok_def]
  obtain e st w where sent: "send_starvation_group lib so config (ps_state p) (vidx d ''finding'') now (ps_world p) = Some (e, st, w)"
    "leaves {''superuser_deliveries''} (ps_state p) st" "world_kept (ps_world p) w"
    using send_starvation_group_ok [of "ps_state p", OF _ assms(2)] p by blast
  have st: "kept_state st" "leaves {''superuser_deliveries'', ''alerts''} (ps_state p) st" "file_ok (ww_state w)"
    using kept_leaves [OF _ sent(2)] leaves_more [OF sent(2)] sent(3) p by (auto simp: world_kept_def)
  show ?thesis
  proof (cases e)
    case (Some e)
    obtain r where "set_decision (ps_report p) (vidx d ''finding'') ''vp'' ''transport-error'' = Some r" "report_ok r"
      "redecided ''vp'' {vidx d ''finding''} (ps_report p) r"
      using set_decision_ok [of "ps_report p" "''vp''" "vidx d ''finding''"] p by auto
    then show ?thesis
      using st sent Some alert_time_leaves [OF sent(2)] by (auto simp: group_step_def Let_def pass_ok_def grouped_def intro: redecided_more)
  next
    case None
    obtain r where r: "push_sent ''superusers'' (ps_report p) = Some r" "report_ok r" "redecided ''vp'' UNIV (ps_report p) r"
      using push_sent_ok p by blast
    obtain st' where st': "mark_alerted key now st = Some st'" "kept_state st'" "leaves {''alerts''} st st'"
      "\<forall>k. alert_time st' k = (if k = key then Some (JReal now) else alert_time st k)"
      using mark_alerted_ok [OF st(1)] by blast
    have "leaves {''superuser_deliveries'', ''alerts''} (ps_state p) st'"
      using st(2) st'(3) by (simp add: leaves_def)
    then show ?thesis
      using st sent None r st' alert_time_leaves [OF sent(2)]
      by (auto simp: group_step_def Let_def pass_ok_def grouped_def assms(2))
  qed
qed

lemma grouped_trans:
  assumes "grouped now K a b" "grouped now L b c"
  shows "grouped now (K \<union> L) a c"
proof -
  note ab = assms(1) [unfolded grouped_def] and bc = assms(2) [unfolded grouped_def]
  have "leaves {''superuser_deliveries'', ''alerts''} (ps_state a) (ps_state c)" by (rule leaves_trans) (use ab bc in blast)+
  moreover have "world_kept (ps_world a) (ps_world c)" by (rule world_kept_trans) (use ab bc in blast)+
  moreover have "redecided ''vp'' UNIV (ps_report a) (ps_report c)" by (rule redecided_trans) (use ab bc in blast, use ab bc in blast, simp)
  ultimately show ?thesis using ab bc by (simp add: grouped_def)
qed

lemma each_group_ok:
  assumes "pass_ok p" "\<forall>d \<in> set ds. dedupe_key (vidx d ''finding'') \<noteq> None"
  shows "\<exists>p'. each_decision (group_step lib so config now) ds p = Some p' \<and> pass_ok p'
    \<and> grouped now {k. \<exists>d \<in> set ds. dedupe_key (vidx d ''finding'') = Some k} p p'"
  using assms
proof (induction ds arbitrary: p)
  case Nil
  then show ?case by (simp add: grouped_def)
next
  case (Cons d ds)
  then obtain key where key: "dedupe_key (vidx d ''finding'') = Some key" by auto
  obtain p1 where p1: "group_step lib so config now d p = Some p1" "pass_ok p1" "grouped now {key} p p1"
    using group_step_ok [OF Cons.prems(1) key] by blast
  obtain p2 where p2: "each_decision (group_step lib so config now) ds p1 = Some p2" "pass_ok p2"
    "grouped now {k. \<exists>d \<in> set ds. dedupe_key (vidx d ''finding'') = Some k} p1 p2"
    using Cons.IH [OF p1(2)] Cons.prems(2) by auto
  have "{k. \<exists>d \<in> set (d # ds). dedupe_key (vidx d ''finding'') = Some k} = {key} \<union> {k. \<exists>d \<in> set ds. dedupe_key (vidx d ''finding'') = Some k}"
    using key by auto
  then show ?case using p1(1) p2(1,2) grouped_trans [OF p1(3) p2(3)] by simp
qed

definition paged_by :: "time \<Rightarrow> json set \<Rightarrow> nat \<Rightarrow> 's pass_state \<Rightarrow> 's pass_state \<Rightarrow> bool" where
  "paged_by now I k p p' \<longleftrightarrow> leaves {''owner_pages'', ''owner_page_times''} (ps_state p) (ps_state p')
     \<and> array_of (jget (ps_state p') ''owner_page_times'') = array_of (jget (ps_state p) ''owner_page_times'') @ replicate k (JReal now)
     \<and> ww_paged (ps_world p') = ww_paged (ps_world p) @ replicate k now
     \<and> ww_state (ps_world p') = ww_state (ps_world p) \<and> ww_heartbeat (ps_world p') = ww_heartbeat (ps_world p)
     \<and> redecided ''owner'' I (ps_report p) (ps_report p')"

lemma paged_by_refl: "paged_by now I 0 p p"
  by (simp add: paged_by_def)

lemma paged_by_trans:
  assumes "paged_by now I k a b" "paged_by now I l b c"
  shows "paged_by now I (k + l) a c"
proof -
  note ab = assms(1) [unfolded paged_by_def] and bc = assms(2) [unfolded paged_by_def]
  have "leaves {''owner_pages'', ''owner_page_times''} (ps_state a) (ps_state c)" by (rule leaves_trans) (use ab bc in blast)+
  moreover have "redecided ''owner'' I (ps_report a) (ps_report c)" by (rule redecided_trans) (use ab bc in blast, use ab bc in blast, simp)
  ultimately show ?thesis using ab bc by (simp add: paged_by_def replicate_add)
qed

lemma not_posted_ok:
  assumes "pass_ok p"
  shows "\<exists>p'. not_posted item key e p = Some p' \<and> pass_ok p' \<and> paged_by now {item} 0 p p'"
proof -
  obtain r where "set_decision (ps_report p) item ''owner'' ''transport-error'' = Some r" "report_ok r"
    "redecided ''owner'' {item} (ps_report p) r"
    using set_decision_ok [of "ps_report p" "''owner''" item] assms by (auto simp: pass_ok_def)
  then show ?thesis using assms by (auto simp: not_posted_def pass_ok_def paged_by_def)
qed

lemma page_step_ok:
  assumes "pass_ok p" "dedupe_key (vidx d ''finding'') = Some key"
  shows "\<exists>p' k. page_step lib so now d p = Some p' \<and> pass_ok p' \<and> k \<le> 1 \<and> paged_by now {vidx d ''finding''} k p p'"
proof (cases "so_desk_channel so (ww_out (ps_world p))")
  case (Inl e)
  obtain p' where "not_posted (vidx d ''finding'') key e p = Some p'" "pass_ok p'" "paged_by now {vidx d ''finding''} 0 p p'"
    using not_posted_ok [OF assms(1)] by blast
  then show ?thesis by (intro exI [of _ p'] exI [of _ 0]) (simp add: page_step_def Let_def assms(2) Inl)
next
  case (Inr channel)
  let ?body = "digest_text ''OWNER page'' [report_line (rl_report lib) ''PAGE OWNER'' (vidx d ''finding'') (JStr ''no'') None None]"
  obtain answer s where post: "so_post so ?body (ww_out (ps_world p)) = (answer, s)" by fastforce
  show ?thesis
  proof (cases answer)
    case (Inl e)
    let ?p = "p\<lparr>ps_world := (ps_world p)\<lparr>ww_out := s\<rparr>\<rparr>"
    have "pass_ok ?p" using assms(1) by (simp add: pass_ok_def)
    from not_posted_ok [OF this] obtain p' where p': "not_posted (vidx d ''finding'') key (send_error_text e) ?p = Some p'" "pass_ok p'"
      "paged_by now {vidx d ''finding''} 0 ?p p'" by blast
    then have "paged_by now {vidx d ''finding''} 0 p p'" by (simp add: paged_by_def)
    then show ?thesis using p' by (intro exI [of _ p'] exI [of _ 0]) (simp add: page_step_def Let_def assms(2) Inr post Inl)
  next
    case (Inr brief)
    obtain m where m: "jget (ps_state p) ''owner_pages'' = Some (JObj m)" "stamped ''confirmed_at'' m"
      using assms(1) by (auto simp: pass_ok_def kept_state_def)
    obtain xs where xs: "jget (ps_state p) ''owner_page_times'' = Some (JArr xs)" "list_all (\<lambda>t. as_f64 (Some t) \<noteq> None) xs"
      using assms(1) by (auto simp: pass_ok_def kept_state_def)
    have m': "stamped ''confirmed_at'' (jinsert key (posted_page brief now channel) m)"
      by (intro stamped_jinsert m(2)) (simp_all add: posted_page_def is_object_def stamp_fits)
    let ?st = "jinsert ''owner_page_times'' (JArr (xs @ [JReal now]))
        (jinsert ''owner_pages'' (JObj (jinsert key (posted_page brief now channel) m)) (ps_state p))"
    let ?p = "p\<lparr>ps_state := ?st, ps_lines := ps_lines p @ [report_line (rl_report lib) ''PAGE OWNER (pending confirmation)''
        (vidx d ''finding'') (JStr ''no'') None None],
        ps_world := (ps_world p)\<lparr>ww_out := s, ww_paged := ww_paged (ps_world p) @ [now]\<rparr>\<rparr>"
    have "kept_state ?st" using assms(1) m' xs(2) by (auto simp: pass_ok_def kept_state_def as_f64_def)
    then have "pass_ok ?p" using assms(1) by (simp add: pass_ok_def)
    moreover have "paged_by now {vidx d ''finding''} 1 p ?p"
      by (simp add: paged_by_def leaves_def array_of_def as_array_def xs(1))
    moreover have "page_step lib so now d p = Some ?p"
      by (simp add: page_step_def Let_def assms(2) \<open>so_desk_channel so _ = _\<close> post Inr jfield_def m(1) set_field_def as_array_def xs(1))
    ultimately show ?thesis by blast
  qed
qed

lemma paged_by_more: "paged_by now I k p p' \<Longrightarrow> I \<subseteq> J \<Longrightarrow> paged_by now J k p p'"
  using redecided_more by (auto simp: paged_by_def)

lemma each_page_ok:
  assumes "pass_ok p" "\<forall>d \<in> set ds. dedupe_key (vidx d ''finding'') \<noteq> None"
  shows "\<exists>p' k. each_decision (page_step lib so now) ds p = Some p' \<and> pass_ok p' \<and> k \<le> length ds
    \<and> paged_by now ((\<lambda>d. vidx d ''finding'') ` set ds) k p p'"
  using assms
proof (induction ds arbitrary: p)
  case Nil
  then show ?case using paged_by_refl by auto
next
  case (Cons d ds)
  then obtain key where "dedupe_key (vidx d ''finding'') = Some key" by auto
  from page_step_ok [OF Cons.prems(1) this] obtain p1 k where p1: "page_step lib so now d p = Some p1" "pass_ok p1" "k \<le> 1"
    "paged_by now {vidx d ''finding''} k p p1" by blast
  obtain p2 l where p2: "each_decision (page_step lib so now) ds p1 = Some p2" "pass_ok p2" "l \<le> length ds"
    "paged_by now ((\<lambda>d. vidx d ''finding'') ` set ds) l p1 p2"
    using Cons.IH [OF p1(2)] Cons.prems(2) by auto
  have "paged_by now ((\<lambda>d. vidx d ''finding'') ` set (d # ds)) (k + l) p p2"
    by (rule paged_by_trans [OF paged_by_more [OF p1(4)] paged_by_more [OF p2(4)]]) auto
  then show ?case using p1 p2 by (intro exI [of _ p2] exI [of _ "k + l"]) auto
qed

lemma each_resolved_ok:
  assumes "pass_ok p"
  shows "\<exists>p'. each_decision (resolved_step so) ks p = Some p' \<and> pass_ok p' \<and> ps_report p' = ps_report p
    \<and> leaves {''owner_pages''} (ps_state p) (ps_state p') \<and> ww_paged (ps_world p') = ww_paged (ps_world p)
    \<and> ww_state (ps_world p') = ww_state (ps_world p) \<and> ww_heartbeat (ps_world p') = ww_heartbeat (ps_world p)"
  using assms
proof (induction ks arbitrary: p)
  case (Cons k ks)
  obtain m where m: "jget (ps_state p) ''owner_pages'' = Some (JObj m)" "stamped ''confirmed_at'' m"
    using Cons.prems by (auto simp: pass_ok_def kept_state_def)
  obtain p1 where p1: "resolved_step so k p = Some p1" 
    by (cases "resolved_step so k p") (auto simp: resolved_step_def Let_def split: prod.splits)
  then have st: "ps_state p1 = jinsert ''owner_pages'' (JObj (jremove (case k of JStr s \<Rightarrow> s | _ \<Rightarrow> []) m)) (ps_state p)"
    "ps_report p1 = ps_report p" "ww_paged (ps_world p1) = ww_paged (ps_world p)"
    "ww_state (ps_world p1) = ww_state (ps_world p)" "ww_heartbeat (ps_world p1) = ww_heartbeat (ps_world p)"
    by (auto simp: resolved_step_def Let_def m(1) as_object_def split: prod.splits)
  have "kept_state (ps_state p1)"
    using Cons.prems stamped_jremove [OF m(2)] unfolding st(1) by (auto simp: pass_ok_def kept_state_def)
  then have "pass_ok p1" using Cons.prems st by (simp add: pass_ok_def)
  from Cons.IH [OF this] p1 st show ?case by (fastforce simp: leaves_def)
qed simp

section \<open>After the digest\<close>

lemma array_of_list [simp]: "array_of (Some (JArr xs)) = xs"
  by (simp add: array_of_def as_array_def)

lemma mark_all_ok:
  assumes "kept_state st" "\<forall>d \<in> set ds. dedupe_key (vidx d ''finding'') \<noteq> None"
  shows "\<exists>st'. mark_all now ds st = Some st' \<and> kept_state st' \<and> leaves {''alerts''} st st'
    \<and> (\<forall>k. alert_time st' k = (if \<exists>d \<in> set ds. dedupe_key (vidx d ''finding'') = Some k then Some (JReal now) else alert_time st k))"
  using assms
proof (induction ds arbitrary: st)
  case (Cons d ds)
  then obtain key where key: "dedupe_key (vidx d ''finding'') = Some key" by auto
  obtain st1 where st1: "mark_alerted key now st = Some st1" "kept_state st1" "leaves {''alerts''} st st1"
    "\<forall>k. alert_time st1 k = (if k = key then Some (JReal now) else alert_time st k)"
    using mark_alerted_ok [OF Cons.prems(1)] by blast
  obtain st2 where st2: "mark_all now ds st1 = Some st2" "kept_state st2" "leaves {''alerts''} st1 st2"
    "\<forall>k. alert_time st2 k = (if \<exists>d \<in> set ds. dedupe_key (vidx d ''finding'') = Some k then Some (JReal now) else alert_time st1 k)"
    using Cons.IH [OF st1(2)] Cons.prems(2) by auto
  have "leaves {''alerts''} st st2" by (rule leaves_trans [OF st1(3) st2(3)])
  then show ?case using st1 st2 key by auto
qed simp

lemma those_map_Some: "\<forall>x \<in> set xs. f x = Some (g x) \<Longrightarrow> those (map f xs) = Some (map g xs)"
  by (induction xs) auto

lemma jget_map_keyed: "jget (map (\<lambda>(k, v). (k, g k v)) m) k = map_option (g k) (jget m k)"
  by (induction m) auto

lemma jget_filter_kept: "\<forall>v. P (k, v) \<Longrightarrow> jget (filter P m) k = jget m k"
  by (induction m) auto

lemma stamped_fold_jremove: "stamped stamp m \<Longrightarrow> stamped stamp (fold jremove ks m)"
  by (induction ks arbitrary: m) (simp_all add: stamped_jremove)

lemma jget_fold_jremove: "k \<notin> set ks \<Longrightarrow> jget (fold jremove ks m) k = jget m k"
  by (induction ks arbitrary: m) auto

definition seen_first :: "time \<Rightarrow> json \<Rightarrow> json" where
  "seen_first now e = (case e of JObj m \<Rightarrow> JObj (if jget m ''first_seen'' = None then jinsert ''first_seen'' (JReal now) m else m) | _ \<Rightarrow> e)"

definition seen_now :: "time \<Rightarrow> string set \<Rightarrow> string \<Rightarrow> json \<Rightarrow> json" where
  "seen_now now current k e = (if k \<in> current then case e of JObj m \<Rightarrow> JObj (jinsert ''last_seen'' (JReal now) m) | _ \<Rightarrow> e else e)"

lemma seen_entries:
  assumes "is_object e"
  shows "is_object (seen_first now e)" "vget (seen_first now e) ''last_alerted'' = vget e ''last_alerted''"
    "is_object (seen_now now current k e)" "vget (seen_now now current k e) ''last_alerted'' = vget e ''last_alerted''"
  using assms by (auto simp: is_object_iff seen_first_def seen_now_def)

lemma settled_alerts_ok:
  assumes "stamped ''last_alerted'' m"
  shows "\<exists>m'. settled_alerts now retention current gone_keys m = Some m' \<and> stamped ''last_alerted'' m'
    \<and> (\<forall>k. k \<in> current \<longrightarrow> k \<notin> set gone_keys \<longrightarrow>
         Option.bind (jget m' k) (\<lambda>e. vget e ''last_alerted'') = Option.bind (jget m k) (\<lambda>e. vget e ''last_alerted''))"
proof -
  let ?a = "fold jremove gone_keys m"
  let ?b = "map (\<lambda>(k, v). (k, seen_first now v)) ?a"
  let ?c = "map (\<lambda>(k, v). (k, seen_now now current k v)) (filter (kept_entry now retention current) ?b)"
  have a: "stamped ''last_alerted'' ?a" by (rule stamped_fold_jremove [OF assms])
  have "map_entries (first_seen now) ?a = Some ?b"
    unfolding map_entries_def
    using a by (intro those_map_Some) (auto simp: stamped_def list_all_iff is_object_iff first_seen_def seen_first_def as_object_def)
  moreover have b: "stamped ''last_alerted'' ?b" using a seen_entries by (fastforce simp: stamped_def list_all_iff)
  then have "those (map (seen_entry now current) (filter (kept_entry now retention current) ?b)) = Some ?c"
    by (intro those_map_Some) (fastforce simp: stamped_def list_all_iff is_object_iff seen_entry_def seen_now_def set_field_def split: prod.splits)
  moreover have "stamped ''last_alerted'' ?c" using b seen_entries by (fastforce simp: stamped_def list_all_iff)
  moreover have "Option.bind (jget ?c k) (\<lambda>e. vget e ''last_alerted'') = Option.bind (jget m k) (\<lambda>e. vget e ''last_alerted'')"
    if "k \<in> current" "k \<notin> set gone_keys" for k
  proof -
    have "jget (filter (kept_entry now retention current) ?b) k = jget ?b k"
      by (rule jget_filter_kept) (simp add: kept_entry_def that)
    then have c: "jget ?c k = map_option (\<lambda>v. seen_now now current k (seen_first now v)) (jget m k)"
      by (simp add: jget_map_keyed jget_map_values jget_fold_jremove [OF that(2)] option.map_comp o_def)
    show ?thesis
    proof (cases "jget m k")
      case (Some e)
      then have "is_object e" using stamped_get [OF assms] by blast
      then show ?thesis using seen_entries by (simp add: c Some)
    qed (simp add: c)
  qed
  ultimately show ?thesis by (auto simp: settled_alerts_def)
qed

lemma settled_state_ok:
  assumes "kept_state st" "\<forall>d \<in> set vp. dedupe_key (vidx d ''finding'') \<noteq> None" "streaks = JObj sm" "streaks_ok sm"
    and gone: "array_of (vget recovered ''vp'') = map JStr gs"
  shows "\<exists>st'. settled_state config now current vp recovered streaks st = Some st' \<and> kept_state st'
    \<and> jget st' ''streaks'' = Some streaks
    \<and> array_of (jget st' ''owner_page_times'') = filter (\<lambda>t. now - 3600 < number (Some t)) (array_of (jget st ''owner_page_times''))
    \<and> (\<forall>d k. d \<in> set vp \<longrightarrow> dedupe_key (vidx d ''finding'') = Some k \<longrightarrow> k \<in> current \<longrightarrow> k \<notin> set gs \<longrightarrow> alert_time st' k = Some (JReal now))"
proof -
  obtain st1 where st1: "mark_all now vp st = Some st1" "kept_state st1" "leaves {''alerts''} st st1"
    "\<forall>k. alert_time st1 k = (if \<exists>d \<in> set vp. dedupe_key (vidx d ''finding'') = Some k then Some (JReal now) else alert_time st k)"
    using mark_all_ok [OF assms(1,2)] by blast
  obtain m where m: "jget st1 ''alerts'' = Some (JObj m)" "stamped ''last_alerted'' m" using st1(2) by (auto simp: kept_state_def)
  have gs: "map (\<lambda>k. case k of JStr s \<Rightarrow> s | _ \<Rightarrow> []) (array_of (vget recovered ''vp'')) = gs" by (simp add: gone o_def)
  obtain m' where m': "settled_alerts now (number (vget config ''state_retention_days'') * 86400) current gs m = Some m'"
    "stamped ''last_alerted'' m'" "\<forall>k. k \<in> current \<longrightarrow> k \<notin> set gs \<longrightarrow>
       Option.bind (jget m' k) (\<lambda>e. vget e ''last_alerted'') = Option.bind (jget m k) (\<lambda>e. vget e ''last_alerted'')"
    using settled_alerts_ok [OF m(2)] by blast
  obtain xs where xs: "jget st1 ''owner_page_times'' = Some (JArr xs)" "list_all (\<lambda>t. as_f64 (Some t) \<noteq> None) xs"
    using st1(2) by (auto simp: kept_state_def)
  let ?times = "filter (\<lambda>t. case as_f64 (Some t) of Some at0 \<Rightarrow> now - 3600 < at0 | None \<Rightarrow> False) xs"
  let ?st = "jinsert ''last_run'' (JReal now) (jinsert ''owner_page_times'' (JArr ?times)
      (jinsert ''streaks'' streaks (jinsert ''alerts'' (JObj m') st1)))"
  have "settled_state config now current vp recovered streaks st = Some ?st"
    by (simp add: settled_state_def st1(1) m(1) as_object_def m'(1) xs(1) gs Let_def)
  moreover have "kept_state ?st"
    using st1(2) m'(2) xs(2) assms(3,4) by (auto simp: kept_state_def list_all_iff)
  moreover have "?times = filter (\<lambda>t. now - 3600 < number (Some t)) (array_of (jget st ''owner_page_times''))"
    using xs leavesD [OF st1(3), of "''owner_page_times''"]
    by (auto simp: number_def list_all_iff intro!: filter_cong)
  moreover have "alert_time ?st k = Some (JReal now)"
    if "d \<in> set vp" "dedupe_key (vidx d ''finding'') = Some k" "k \<in> current" "k \<notin> set gs" for d k
  proof -
    have "alert_time ?st k = alert_time st1 k"
      using m'(3) that(3,4) by (simp add: alert_time_def as_object_def m(1))
    then show ?thesis using st1(4) that(1,2) by auto
  qed
  ultimately show ?thesis by (intro exI [of _ ?st]) simp
qed

end
