(* ===== verification/Watchdog_Run_Effects.thy ===== *)
theory Watchdog_Run_Effects
  imports Watchdog_Run_Steps
begin

section \<open>The end of a pass\<close>

text \<open>The two ends: the digest was refused, or it was accepted or not needed.\<close>

definition refused_end ::
    "'s senders \<Rightarrow> json \<Rightarrow> time \<Rightarrow> 's pass_state \<Rightarrow> (string + json_map) \<times> 's watch_world \<Rightarrow> bool" where
  "refused_end so config now p rw \<longleftrightarrow> (\<exists>reason ls s report e w'.
     rw = ((case e of Some e \<Rightarrow> Inl e | None \<Rightarrow> Inr report), w')
     \<and> save_watch_state so (failed_state config now reason ls (ps_state p)) ((ps_world p)\<lparr>ww_out := s\<rparr>) = (e, w')
     \<and> jget report ''delivery_error'' = Some (JStr reason) \<and> jget report ''decisions'' = jget (ps_report p) ''decisions'')"

definition settled_end ::
    "'s senders \<Rightarrow> json \<Rightarrow> time \<Rightarrow> string set \<Rightarrow> json list \<Rightarrow> json \<Rightarrow> json \<Rightarrow> 's pass_state
     \<Rightarrow> (string + json_map) \<times> 's watch_world \<Rightarrow> bool" where
  "settled_end so config now current vp recovered streaks p rw \<longleftrightarrow> (\<exists>st st' report e w'.
     rw = ((case e of Some e \<Rightarrow> Inl e | None \<Rightarrow> Inr report), w')
     \<and> leaves {''delivery_failure''} (ps_state p) st \<and> settled_state config now current vp recovered streaks st = Some st'
     \<and> ww_paged w' = ww_paged (ps_world p)
     \<and> (ww_state w' = ww_state (ps_world p) \<and> e \<noteq> None \<and> (\<exists>s. so_save_error so s \<noteq> None) \<or> ww_state w' = State_Text (sorted_keys (JObj st')))
     \<and> (e = None \<longrightarrow> ww_heartbeat w' = Some (JObj [(''schema'', JInt 1),
          (''cadence_minutes'', JReal (number (vget config ''cadence_minutes''))), (''at'', JReal now)]))
     \<and> jget report ''delivery_error'' = jget (ps_report p) ''delivery_error'' \<and> jget report ''decisions'' = jget (ps_report p) ''decisions'')"

lemma closing_end:
  assumes "settled_state config now current vp recovered streaks st = Some st'" "leaves {''delivery_failure''} (ps_state p) st"
    and "jget report ''delivery_error'' = jget (ps_report p) ''delivery_error''" "jget report ''decisions'' = jget (ps_report p) ''decisions''"
  shows "settled_end so config now current vp recovered streaks p
           (closing lib so config now report all_lines problems st' ((ps_world p)\<lparr>ww_out := s\<rparr>))"
proof (cases "so_save_error so s")
  case (Some e)
  then show ?thesis
    using assms unfolding settled_end_def
    by (intro exI [of _ st] exI [of _ st'] exI [of _ report] exI [of _ "Some e"]) (auto simp: closing_def save_watch_state_def)
next
  case None
  let ?fin = "closing lib so config now report all_lines problems st' ((ps_world p)\<lparr>ww_out := s\<rparr>)"
  obtain e report' where e: "fst ?fin = (case e of Some e \<Rightarrow> Inl e | None \<Rightarrow> Inr report')"
    "ww_paged (snd ?fin) = ww_paged (ps_world p)" "ww_state (snd ?fin) = State_Text (sorted_keys (JObj st'))"
    "e = None \<longrightarrow> ww_heartbeat (snd ?fin) = Some (JObj [(''schema'', JInt 1),
          (''cadence_minutes'', JReal (number (vget config ''cadence_minutes''))), (''at'', JReal now)])"
    "jget report' ''delivery_error'' = jget report ''delivery_error''" "jget report' ''decisions'' = jget report ''decisions''"
  proof (cases "as_str (vget config ''heartbeat_path'') = None \<or> so_beat_error so s \<noteq> None")
    case True
    then show ?thesis
      by (intro that [of report "Some (case fst ?fin of Inl e \<Rightarrow> e)"])
         (auto simp: closing_def save_watch_state_def write_heartbeat_def None split: option.split)
  next
    case False
    then show ?thesis
      by (intro that [of "jinsert ''problems'' (json_strs problems) (jinsert ''lines'' (json_strs all_lines) report)" None])
         (auto simp: closing_def save_watch_state_def write_heartbeat_def None)
  qed
  then show ?thesis
    using assms unfolding settled_end_def
    by (intro exI [of _ st] exI [of _ st'] exI [of _ report'] exI [of _ e] exI [of _ "snd ?fin"]) (simp add: prod_eq_iff)
qed

lemma finish_ends:
  assumes "pass_ok p" "\<forall>d \<in> set vp. dedupe_key (vidx d ''finding'') \<noteq> None" "streaks = JObj sm" "streaks_ok sm"
    and "array_of (vget recovered ''vp'') = map JStr gs"
  shows "\<exists>r w. finish lib so config now current vp decisions recovered streaks group_lines p = (Some r, w)
    \<and> (refused_end so config now p (r, w) \<or> settled_end so config now current vp recovered streaks p (r, w))"
proof -
  define ls where "ls = vp_lines lib (ps_problems p) (ps_lines p) vp decisions recovered"
  have kept: "kept_state (ps_state p)" using assms(1) by (simp add: pass_ok_def)
  have settled: "\<exists>st'. settled_state config now current vp recovered streaks st = Some st'"
    if "leaves {''delivery_failure''} (ps_state p) st" for st
  proof -
    have "kept_state st" using kept that by (simp add: kept_state_def leaves_def)
    then show ?thesis using settled_state_ok [OF _ assms(2-5)] by blast
  qed
  show ?thesis
  proof (cases "ls = []")
    case True
    obtain st' where st': "settled_state config now current vp recovered streaks (ps_state p) = Some st'" using settled by fastforce
    note closed = closing_end [OF st' leaves_refl refl refl, of so lib "group_lines @ ls" "ps_problems p" "ww_out (ps_world p)"]
    then show ?thesis using True
      by (auto simp: finish_def Let_def ls_def [symmetric] st' split: prod.splits)
  next
    case False
    let ?send = "so_send so (str_field (vidx (vidx config ''escalation'') ''vp'') ''mailbox'')
        (digest_subject vp (ps_problems p)) (digest_text ''VP digest'' ls) (ww_out (ps_world p))"
    obtain e s where send: "?send = (e, s)" by fastforce
    show ?thesis
    proof (cases e)
      case None
      obtain report where report: "push_sent ''vp'' (ps_report p) = Some report"
        "jget report ''delivery_error'' = jget (ps_report p) ''delivery_error''" "jget report ''decisions'' = jget (ps_report p) ''decisions''"
        using assms(1) by (auto simp: pass_ok_def report_ok_def push_sent_def as_array_def)
      have l: "leaves {''delivery_failure''} (ps_state p) (jremove ''delivery_failure'' (ps_state p))" by (simp add: leaves_def)
      obtain st' where st': "settled_state config now current vp recovered streaks (jremove ''delivery_failure'' (ps_state p)) = Some st'"
        using settled [OF l] by blast
      note closed = closing_end [OF st' l report(2,3), of so lib "group_lines @ ls" "ps_problems p" s]
      then show ?thesis using False send None
        by (auto simp: finish_def Let_def ls_def [symmetric] st' report(1) split: prod.splits)
    next
      case (Some e)
      let ?fail = "failed_state config now (send_error_text e) ls (ps_state p)"
      obtain e2 w where save: "save_watch_state so ?fail ((ps_world p)\<lparr>ww_out := s\<rparr>) = (e2, w)" by fastforce
      let ?report = "jinsert ''problems'' (json_strs (ps_problems p)) (jinsert ''lines'' (json_strs (group_lines @ ls))
          (jinsert ''delivery_error'' (JStr (send_error_text e)) (ps_report p)))"
      have "finish lib so config now current vp decisions recovered streaks group_lines p
          = (Some (case e2 of Some e \<Rightarrow> Inl e | None \<Rightarrow> Inr ?report), w)"
        using False send Some save by (auto simp: finish_def Let_def ls_def [symmetric] split: option.splits)
      moreover have "refused_end so config now p ((case e2 of Some e \<Rightarrow> Inl e | None \<Rightarrow> Inr ?report), w)"
        unfolding refused_end_def using save
        by (intro exI [of _ "send_error_text e"] exI [of _ ls] exI [of _ s] exI [of _ ?report] exI [of _ e2] exI [of _ w]) simp
      ultimately show ?thesis by blast
    qed
  qed
qed

section \<open>One live pass\<close>

text \<open>
  What a live pass does between the state it confirmed and its end: it decides \<open>ds\<close>, sends, and
  ends in \<open>rw\<close>. \<open>q\<close> is what the sending loops leave.
\<close>

definition group_keys :: "json list \<Rightarrow> string set" where
  "group_keys ds = {k. \<exists>d \<in> set ds. is_group d \<and> dedupe_key (vidx d ''finding'') = Some k}"

definition page_findings :: "json list \<Rightarrow> json set" where
  "page_findings ds = (\<lambda>d. vidx d ''finding'') ` set (decided_no ''owner'' ds)"

definition sent_out :: "time \<Rightarrow> nat \<Rightarrow> json_map \<Rightarrow> json list \<Rightarrow> 's watch_world \<Rightarrow> 's pass_state \<Rightarrow> bool" where
  "sent_out now k st ds w q \<longleftrightarrow> pass_ok q
     \<and> leaves {''superuser_deliveries'', ''alerts'', ''owner_pages'', ''owner_page_times''} st (ps_state q)
     \<and> array_of (jget (ps_state q) ''owner_page_times'') = array_of (jget st ''owner_page_times'') @ replicate k (JReal now)
     \<and> ww_paged (ps_world q) = ww_paged w @ replicate k now \<and> ww_heartbeat (ps_world q) = ww_heartbeat w
     \<and> k \<le> length (decided_no ''owner'' ds)
     \<and> (\<forall>key. key \<notin> group_keys ds \<longrightarrow> alert_time (ps_state q) key = alert_time st key)
     \<and> list_all2 (redecided_to ''vp'' UNIV OO redecided_to ''owner'' (page_findings ds)) ds (array_of (jget (ps_report q) ''decisions''))
     \<and> jget (ps_report q) ''delivery_error'' = Some JNull"

lemma loops_run:
  assumes "pass_ok p" "\<forall>d \<in> set ds. dedupe_key (vidx d ''finding'') \<noteq> None"
    and "array_of (jget (ps_report p) ''decisions'') = ds" "jget (ps_report p) ''delivery_error'' = Some JNull"
  shows "\<exists>g q r k. each_decision (group_step lib so config now) (filter is_group (decided_no ''vp'' ds)) p = Some g
     \<and> each_decision (page_step lib so now) (decided_no ''owner'' ds) (g\<lparr>ps_lines := []\<rparr>) = Some q
     \<and> each_decision (resolved_step so) ks q = Some r \<and> sent_out now k (ps_state p) ds (ps_world p) r"
proof -
  have vp: "\<forall>d \<in> set (filter is_group (decided_no ''vp'' ds)). dedupe_key (vidx d ''finding'') \<noteq> None"
    and ow: "\<forall>d \<in> set (decided_no ''owner'' ds). dedupe_key (vidx d ''finding'') \<noteq> None"
    using assms(2) by (auto simp: decided_no_def)
  let ?K = "{k. \<exists>d \<in> set (filter is_group (decided_no ''vp'' ds)). dedupe_key (vidx d ''finding'') = Some k}"
  obtain g where g: "each_decision (group_step lib so config now) (filter is_group (decided_no ''vp'' ds)) p = Some g"
    "pass_ok g" "grouped now ?K p g"
    using each_group_ok [OF assms(1) vp] by blast
  let ?g = "g\<lparr>ps_lines := []\<rparr>"
  have "pass_ok ?g" using g(2) by (simp add: pass_ok_def)
  from each_page_ok [OF this ow] obtain q k where q: "each_decision (page_step lib so now) (decided_no ''owner'' ds) ?g = Some q"
    "pass_ok q" "k \<le> length (decided_no ''owner'' ds)" "paged_by now (page_findings ds) k ?g q"
    unfolding page_findings_def by blast
  obtain r where r: "each_decision (resolved_step so) ks q = Some r" "pass_ok r" "ps_report r = ps_report q"
    "leaves {''owner_pages''} (ps_state q) (ps_state r)" "ww_paged (ps_world r) = ww_paged (ps_world q)"
    "ww_state (ps_world r) = ww_state (ps_world q)" "ww_heartbeat (ps_world r) = ww_heartbeat (ps_world q)"
    using each_resolved_ok [OF q(2)] by blast
  note gd = g(3) [unfolded grouped_def] and qd = q(4) [unfolded paged_by_def]
  have "leaves {''superuser_deliveries'', ''alerts'', ''owner_pages'', ''owner_page_times''} (ps_state p) (ps_state r)"
    using gd qd r(4) by (simp add: leaves_def)
  moreover have "array_of (jget (ps_state r) ''owner_page_times'') = array_of (jget (ps_state p) ''owner_page_times'') @ replicate k (JReal now)"
    using gd qd r(4) by (simp add: leaves_def)
  moreover have "alert_time (ps_state r) key = alert_time (ps_state p) key" if "key \<notin> group_keys ds" for key
  proof -
    have "key \<notin> ?K" using that by (auto simp: group_keys_def decided_no_def)
    then show ?thesis using gd qd r(4) by (simp add: leaves_def alert_time_def)
  qed
  moreover have "list_all2 (redecided_to ''vp'' UNIV OO redecided_to ''owner'' (page_findings ds)) ds (array_of (jget (ps_report r) ''decisions''))"
    using gd qd assms(3) by (auto simp: redecided_def r(3) list.rel_compp intro!: relcomppI)
  moreover have "jget (ps_report r) ''delivery_error'' = Some JNull"
    using gd qd assms(4) by (simp add: redecided_def r(3))
  ultimately have "sent_out now k (ps_state p) ds (ps_world p) r"
    using gd qd q(3) r by (simp add: sent_out_def world_kept_def)
  with g(1) q(1) r(1) show ?thesis by blast
qed

definition pass_goes ::
    "run_lib \<Rightarrow> 's senders \<Rightarrow> json \<Rightarrow> time \<Rightarrow> json \<Rightarrow> json_map \<Rightarrow> string option \<Rightarrow> 's watch_world
     \<Rightarrow> json_map \<Rightarrow> json_map \<Rightarrow> json list \<Rightarrow> nat \<Rightarrow> 's pass_state \<Rightarrow> (string + json_map) \<times> 's watch_world \<Rightarrow> bool" where
  "pass_goes lib so config now evaluated st problem w st1 streaks ds k q rw \<longleftrightarrow>
     (\<exists>problems. confirm_pending lib so config now (ww_out w) st (first_problems (array_of (vget evaluated ''errors'')) problem) = Some (st1, problems))
     \<and> kept_state st1 \<and> leaves {''owner_pages''} st st1 \<and> streaks_ok streaks
     \<and> advance_streaks config (JObj st1) (array_of (vget evaluated ''findings'')) now = Some (JObj streaks)
     \<and> watch_plan config (array_of (vget evaluated ''findings'')) (JObj st1) (JObj streaks) now
          (blocked_reason problem (array_of (vget evaluated ''errors''))) = Some ds
     \<and> map (\<lambda>d. vget d ''finding'') ds = map Some (array_of (vget evaluated ''findings''))
     \<and> sent_out now k st1 ds w q
     \<and> (refused_end so config now q rw
        \<or> settled_end so config now (set (List.map_filter dedupe_key (array_of (vget evaluated ''findings''))))
            (filter (\<lambda>d. \<not> is_group d) (decided_no ''vp'' ds)) (recoveries (JObj st1) (array_of (vget evaluated ''findings'')))
            (JObj streaks) q rw)"

lemma those_map_filter: "those (map f xs) = Some ys \<Longrightarrow> ys = List.map_filter f xs"
  by (induction xs arbitrary: ys) (auto simp: map_filter_simps split: option.splits)

lemma decision_shape:
  assumes "watch_plan config findings state streaks now blocked = Some ds" "d \<in> set ds"
  shows "is_object d" "\<exists>item. vget d ''finding'' = Some item \<and> item \<in> set findings"
proof -
  obtain c recent max_pages where p: "plan_items c findings 0 (max_pages - recent) = Some ds"
    by (rule watch_plan_items [OF assms(1)])
  obtain item n b where item: "item \<in> set findings" "decided c item n b d"
    using plan_items_limits [OF p] assms(2) by (fastforce simp: list_all2_conv_all_nth in_set_conv_nth)
  then show "is_object d" "\<exists>item. vget d ''finding'' = Some item \<and> item \<in> set findings"
    unfolding decided_def by (auto simp: is_object_def decision_def)
qed

lemma live_pass_goes:
  assumes "validate_config (rl_config lib) config0 = (Some (Inr ()), config)" "caps_fit (rl_config lib) config"
    and "kept_state st" "file_ok (ww_state w)" "list_all (finding_ok (rl_config lib)) (array_of (vget evaluated ''findings''))"
    and "is_live config dry"
  shows "\<exists>st1 streaks ds k q r w'. pass lib so config now dry evaluated st problem w = (Some r, w')
     \<and> pass_goes lib so config now evaluated st problem w st1 streaks ds k q (r, w')"
proof -
  let ?findings = "array_of (vget evaluated ''findings'')" and ?errors = "array_of (vget evaluated ''errors'')"
  from confirm_pending_ok [OF assms(3), of lib so config now "ww_out w" "first_problems ?errors problem"] obtain st1 ps where
    c: "confirm_pending lib so config now (ww_out w) st (first_problems ?errors problem) = Some (st1, ps)"
    "kept_state st1" "leaves {''owner_pages''} st st1" by blast
  obtain sm ds where p: "advance_streaks config (JObj st1) ?findings now = Some (JObj sm)" "streaks_ok sm"
    "watch_plan config ?findings (JObj st1) (JObj sm) now (blocked_reason problem ?errors) = Some ds"
    "map (\<lambda>d. vget d ''finding'') ds = map Some ?findings"
    using validated_plan_total [OF assms(1,2) kept_state_ok [OF c(2)] assms(5)] by blast
  have keyed: "dedupe_key item \<noteq> None" if "item \<in> set ?findings" for item
    using assms(5) that by (fastforce simp: list_all_iff elim: finding_okE)
  have ds: "\<forall>d \<in> set ds. dedupe_key (vidx d ''finding'') \<noteq> None" "list_all is_object ds"
    using decision_shape [OF p(3)] keyed by (fastforce simp: vidx_def list_all_iff)+
  obtain current where cur: "those (map dedupe_key ?findings) = Some current" "current = List.map_filter dedupe_key ?findings"
    using keyed those_map_Some [of ?findings dedupe_key "\<lambda>x. the (dedupe_key x)"] those_map_filter by force
  let ?rec = "recoveries (JObj st1) ?findings"
  let ?report = "first_report lib config True dry now ?findings (array_of (vget evaluated ''skipped'') @ ?errors) ds ?rec ps st1"
  let ?p = "\<lparr>ps_report = ?report, ps_problems = ps, ps_lines = [], ps_state = st1, ps_world = w\<rparr>"
  have rep: "jget ?report ''decisions'' = Some (JArr ds)" "jget ?report ''sent'' = Some (JArr [])" "jget ?report ''delivery_error'' = Some JNull"
    by (simp_all add: first_report_def)
  have "pass_ok ?p" using c(2) assms(4) ds(2) rep by (simp add: pass_ok_def report_ok_def)
  from loops_run [OF this ds(1), of lib so config now "array_of (vget ?rec ''owner'')"] obtain g q r k where loops:
    "each_decision (group_step lib so config now) (filter is_group (decided_no ''vp'' ds)) ?p = Some g"
    "each_decision (page_step lib so now) (decided_no ''owner'' ds) (g\<lparr>ps_lines := []\<rparr>) = Some q"
    "each_decision (resolved_step so) (array_of (vget ?rec ''owner'')) q = Some r" "sent_out now k st1 ds w r"
    using rep by auto
  have vp: "\<forall>d \<in> set (filter (\<lambda>d. \<not> is_group d) (decided_no ''vp'' ds)). dedupe_key (vidx d ''finding'') \<noteq> None"
    using ds(1) by (auto simp: decided_no_def)
  have gs: "array_of (vget ?rec ''vp'') = map JStr (gone ''last_alerted'' (current_keys ?findings) (object_entries (jget st1 ''alerts'')))"
    by (simp add: recoveries_def json_strs_def)
  have "pass_ok r" using loops(4) by (simp add: sent_out_def)
  from finish_ends [OF this vp refl p(2) gs, of lib so config now "set current" ds "ps_lines g"] obtain res w' where fin:
    "finish lib so config now (set current) (filter (\<lambda>d. \<not> is_group d) (decided_no ''vp'' ds)) ds ?rec (JObj sm) (ps_lines g) r = (Some res, w')"
    "refused_end so config now r (res, w') \<or> settled_end so config now (set current) (filter (\<lambda>d. \<not> is_group d) (decided_no ''vp'' ds)) ?rec (JObj sm) r (res, w')"
    by blast
  have "pass lib so config now dry evaluated st problem w = (Some res, w')"
    using assms(6) by (simp add: pass_def Let_def c(1) p(1,3) live_pass_def cur(1) loops(1-3) fin(1))
  moreover have "pass_goes lib so config now evaluated st problem w st1 sm ds k r (res, w')"
    unfolding pass_goes_def using c p loops(4) fin(2) cur(2) by blast
  ultimately show ?thesis by blast
qed

section \<open>A pass does not panic\<close>

text \<open>The findings of a pass are those of the configured rules.\<close>

definition found_ok :: "run_lib \<Rightarrow> json \<Rightarrow> bool" where
  "found_ok lib evaluated \<longleftrightarrow> list_all (finding_ok (rl_config lib)) (array_of (vget evaluated ''findings''))"

lemma refused_end_ok:
  assumes "refused_end so config now q (r, w')" "sent_out now k st ds w q"
  shows "file_ok (ww_state w') \<and> ww_paged w' = ww_paged (ps_world q) \<and> ww_heartbeat w' = ww_heartbeat (ps_world q)"
proof -
  obtain reason ls s e where save: "save_watch_state so (failed_state config now reason ls (ps_state q)) ((ps_world q)\<lparr>ww_out := s\<rparr>) = (e, w')"
    using assms(1) by (auto simp: refused_end_def)
  have ok: "pass_ok q" using assms(2) by (simp add: sent_out_def)
  then have "kept_state (failed_state config now reason ls (ps_state q))"
    by (auto simp: pass_ok_def kept_state_def failed_state_def Let_def)
  from save_keeps [OF save this] ok show ?thesis by (simp add: world_kept_def pass_ok_def)
qed

lemma settled_end_ok:
  assumes "settled_end so config now current vp recovered (JObj sm) q (r, w')" "sent_out now k st ds w q" "streaks_ok sm"
    and "\<forall>d \<in> set vp. dedupe_key (vidx d ''finding'') \<noteq> None" "array_of (vget recovered ''vp'') = map JStr gs"
  shows "file_ok (ww_state w') \<and> ww_paged w' = ww_paged (ps_world q)"
proof -
  obtain a b where fin: "leaves {''delivery_failure''} (ps_state q) a" "settled_state config now current vp recovered (JObj sm) a = Some b"
    "ww_paged w' = ww_paged (ps_world q)" "ww_state w' = ww_state (ps_world q) \<or> ww_state w' = State_Text (sorted_keys (JObj b))"
    using assms(1) by (auto simp: settled_end_def)
  have ok: "kept_state (ps_state q)" "file_ok (ww_state (ps_world q))" using assms(2) by (simp_all add: sent_out_def pass_ok_def)
  have "kept_state a" using ok(1) fin(1) by (simp add: kept_state_def leaves_def)
  from settled_state_ok [OF this assms(4) refl assms(3,5), of config now current] have "kept_state b" using fin(2) by auto
  then show ?thesis using fin(3,4) ok(2) kept_sorted [of b]
    by (auto simp: file_ok_def sorted_object simp del: sorted_keys.simps(1))
qed

lemma pass_goes_end:
  assumes "pass_goes lib so config now evaluated st problem w st1 streaks ds k q (r, w')" "found_ok lib evaluated"
  shows "file_ok (ww_state w') \<and> ww_paged w' = ww_paged w @ replicate k now"
proof -
  note g = assms(1) [unfolded pass_goes_def]
  have sent: "sent_out now k st1 ds w q" using g by blast
  have keyed: "dedupe_key item \<noteq> None" if "item \<in> set (array_of (vget evaluated ''findings''))" for item
    using assms(2) that by (fastforce simp: found_ok_def list_all_iff elim: finding_okE)
  have "\<forall>d \<in> set (filter (\<lambda>d. \<not> is_group d) (decided_no ''vp'' ds)). dedupe_key (vidx d ''finding'') \<noteq> None"
    using g decision_shape(2) keyed by (fastforce simp: decided_no_def vidx_def)
  moreover have "array_of (vget (recoveries (JObj st1) fs) ''vp'') = map JStr (gone ''last_alerted'' (current_keys fs) (object_entries (jget st1 ''alerts'')))" for fs
    by (simp add: recoveries_def json_strs_def)
  ultimately have "file_ok (ww_state w') \<and> ww_paged w' = ww_paged (ps_world q)"
    using g refused_end_ok [OF _ sent] settled_end_ok [OF _ sent] by blast
  then show ?thesis using sent by (simp add: sent_out_def)
qed

lemma run_valid:
  assumes "validate_config (rl_config lib) config0 = (Some (Inr ()), config)"
  shows "run lib so config0 now dry evaluate w = (case as_str (vget config ''state_path'') of
      None \<Rightarrow> (Some (Inl ''state_path must be a string''), w)
    | Some path \<Rightarrow> (case load_watch_state (rl_expand lib path) (ww_state w) of
        (st, problem) \<Rightarrow> pass lib so config now dry (evaluate config now) st problem w))"
  unfolding run_def assms by simp

text \<open>
  C8: a pass never panics. With a configuration that passed the validation and whose caps fit \<^verbatim>\<open>i64\<close>, a
  state file that is missing, unreadable or of the shape passes write, and findings of the
  configured rules, a pass returns whatever its senders answer; and the file it leaves is again
  of that shape, so that no later pass panics either.
\<close>

theorem passes_never_panic:
  assumes "validate_config (rl_config lib) config0 = (Some (Inr ()), config)" "caps_fit (rl_config lib) config"
    and "file_ok (ww_state w)" "found_ok lib (evaluate config now)"
  shows "\<exists>r w'. run lib so config0 now dry evaluate w = (Some r, w') \<and> file_ok (ww_state w')"
proof (cases "as_str (vget config ''state_path'')")
  case None
  then show ?thesis using assms(3) by (simp add: run_valid [OF assms(1)])
next
  case (Some path)
  obtain st problem where load: "load_watch_state (rl_expand lib path) (ww_state w) = (st, problem)" by fastforce
  note kept = kept_loaded [OF assms(3) load]
  have run: "run lib so config0 now dry evaluate w = pass lib so config now dry (evaluate config now) st problem w"
    by (simp add: run_valid [OF assms(1)] Some load)
  show ?thesis
  proof (cases "is_live config dry")
    case True
    from live_pass_goes [OF assms(1,2) kept assms(3) assms(4) [unfolded found_ok_def] True, of so now problem]
    obtain st1 streaks ds k q r w' where "pass lib so config now dry (evaluate config now) st problem w = (Some r, w')"
      "pass_goes lib so config now (evaluate config now) st problem w st1 streaks ds k q (r, w')" by blast
    then show ?thesis using pass_goes_end assms(4) run by fastforce
  next
    case False
    obtain m ds where "advance_streaks config (JObj st) (array_of (vget (evaluate config now) ''findings'')) now = Some (JObj m)"
      "watch_plan config (array_of (vget (evaluate config now) ''findings'')) (JObj st) (JObj m) now
        (blocked_reason problem (array_of (vget (evaluate config now) ''errors''))) = Some ds"
      using validated_plan_total [OF assms(1,2) kept_state_ok [OF kept] assms(4) [unfolded found_ok_def]] by blast
    then show ?thesis using False assms(3) by (simp add: run pass_def Let_def)
  qed
qed

section \<open>Pages of an hour\<close>

definition stamps :: "json_map \<Rightarrow> time list" where
  "stamps st = map (\<lambda>x. number (Some x)) (array_of (jget st ''owner_page_times''))"

text \<open>How many of the times are in the hour that ends at \<open>u\<close>, and how many after its start.\<close>

definition in_hour :: "time \<Rightarrow> time list \<Rightarrow> nat" where
  "in_hour u ts = length (filter (\<lambda>t. u - 3600 < t \<and> t \<le> u) ts)"

definition since_hour :: "time \<Rightarrow> time list \<Rightarrow> nat" where
  "since_hour u ts = length (filter (\<lambda>t. u - 3600 < t) ts)"

lemma in_hour_append: "in_hour u (xs @ ys) = in_hour u xs + in_hour u ys" "since_hour u (xs @ ys) = since_hour u xs + since_hour u ys"
  by (simp_all add: in_hour_def since_hour_def)

lemma hour_replicate: "in_hour u (replicate k t) = (if u - 3600 < t \<and> t \<le> u then k else 0)"
  "since_hour u (replicate k t) = (if u - 3600 < t then k else 0)"
  by (simp_all add: in_hour_def since_hour_def)

lemma in_hour_le: "in_hour u ts \<le> since_hour u ts"
  unfolding in_hour_def since_hour_def by (induction ts) auto

lemma since_hour_mono: "t \<le> u \<Longrightarrow> since_hour u ts \<le> since_hour t ts"
  unfolding since_hour_def by (induction ts) auto

lemma since_hour_past: "\<forall>x \<in> set ts. x \<le> t \<Longrightarrow> since_hour t ts = in_hour t ts"
  unfolding in_hour_def since_hour_def by (intro arg_cong [of _ _ length] filter_cong) auto

lemma since_hour_filter: "t \<le> u \<Longrightarrow> since_hour u (filter (\<lambda>x. t - 3600 < x) ts) = since_hour u ts"
  unfolding since_hour_def by (induction ts) auto

lemma stamps_sorted: "kept_state st \<Longrightarrow> stamps (sorted_map st) = stamps st"
  by (auto simp: stamps_def kept_state_def number_def)

lemma page_limit:
  assumes "watch_plan config findings (JObj st) streaks now blocked = Some ds" "blocked \<noteq> Some ''no''"
    and "json_i64 (vget (owner_of config) ''max_pages_per_hour'') = Some max_pages"
  shows "int (length (decided_no ''owner'' ds)) \<le> max 0 (max_pages - int (since_hour now (stamps st)))"
proof -
  obtain c recent cap where p: "plan_items c findings 0 (cap - recent) = Some ds" "pc_blocked c = blocked"
    "recent_pages (JObj st) now = Some recent" "json_i64 (vget (owner_of config) ''max_pages_per_hour'') = Some cap"
    by (rule watch_plan_items [OF assms(1)])
  have "decided_no ''owner'' ds = filter pages ds"
    by (auto simp: decided_no_def vidx_def intro!: filter_cong split: option.splits)
  moreover have "int (length (filter pages ds)) \<le> max 0 (cap - recent)"
    using plan_items_limits [OF p(1)] p(2) assms(2) by simp
  moreover have "recent = int (since_hour now (stamps st))"
    using p(3) by (auto simp: recent_pages_def since_hour_def stamps_def array_of_def as_array_def [of None] filter_map o_def bind_eq_Some_conv split: option.splits if_splits)
  ultimately show ?thesis using p(4) assms(3) by simp
qed

lemma failed_stamps: "kept_state st \<Longrightarrow> stamps (failed_state config now reason ls st) = stamps st \<and> kept_state (failed_state config now reason ls st)"
  by (auto simp: stamps_def failed_state_def Let_def kept_state_def)

text \<open>The times in the file after a pass that could save it.\<close>

lemma pass_goes_stamps:
  assumes "pass_goes lib so config now evaluated st problem w st1 streaks ds k q (r, w')" "found_ok lib evaluated"
    and saves: "isl r \<Longrightarrow> \<forall>s. so_save_error so s = None"
  shows "\<exists>st'. ww_state w' = State_Text (JObj st') \<and> kept_state st'
    \<and> (\<forall>u \<ge> now. since_hour u (stamps st') = since_hour u (stamps st) + since_hour u (replicate k now))"
proof -
  note g = assms(1) [unfolded pass_goes_def]
  have sent: "sent_out now k st1 ds w q" using g by blast
  have q: "stamps (ps_state q) = stamps st @ replicate k now" "kept_state (ps_state q)"
    using g sent by (auto simp: sent_out_def stamps_def pass_ok_def leaves_def number_def as_f64_def)
  show ?thesis
  proof (cases "refused_end so config now q (r, w')")
    case True
    then obtain reason ls s e report where
      save: "save_watch_state so (failed_state config now reason ls (ps_state q)) ((ps_world q)\<lparr>ww_out := s\<rparr>) = (e, w')"
      and r: "r = (case e of Some e \<Rightarrow> Inl e | None \<Rightarrow> Inr report)"
      by (auto simp: refused_end_def)
    have "e = None" using save r saves by (auto simp: save_watch_state_def split: option.splits)
    with save have save: "save_watch_state so (failed_state config now reason ls (ps_state q)) ((ps_world q)\<lparr>ww_out := s\<rparr>) = (None, w')"
      by simp
    then have "ww_state w' = State_Text (JObj (sorted_map (failed_state config now reason ls (ps_state q))))"
      by (auto simp: save_watch_state_def sorted_object simp del: sorted_keys.simps(1) split: option.splits)
    then show ?thesis using failed_stamps [OF q(2)] kept_sorted stamps_sorted q(1) by (auto simp: in_hour_append)
  next
    case False
    let ?fs = "array_of (vget evaluated ''findings'')"
    let ?vp = "filter (\<lambda>d. \<not> is_group d) (decided_no ''vp'' ds)"
    have "settled_end so config now (set (List.map_filter dedupe_key ?fs)) ?vp (recoveries (JObj st1) ?fs) (JObj streaks) q (r, w')"
      using g False by blast
    then obtain a b where fin: "leaves {''delivery_failure''} (ps_state q) a"
      "settled_state config now (set (List.map_filter dedupe_key ?fs)) ?vp (recoveries (JObj st1) ?fs) (JObj streaks) a = Some b"
      "ww_state w' = State_Text (sorted_keys (JObj b))"
      using saves by (auto simp: settled_end_def split: option.splits)
    have keyed: "dedupe_key item \<noteq> None" if "item \<in> set ?fs" for item
      using assms(2) that by (fastforce simp: found_ok_def list_all_iff elim: finding_okE)
    have vp: "\<forall>d \<in> set ?vp. dedupe_key (vidx d ''finding'') \<noteq> None"
      using g decision_shape(2) keyed by (fastforce simp: decided_no_def vidx_def)
    have gs: "array_of (vget (recoveries (JObj st1) ?fs) ''vp'') = map JStr (gone ''last_alerted'' (current_keys ?fs) (object_entries (jget st1 ''alerts'')))"
      by (simp add: recoveries_def json_strs_def)
    have a: "kept_state a" "stamps a = stamps (ps_state q)" using q(2) fin(1) by (simp_all add: kept_state_def leaves_def stamps_def)
    have "streaks_ok streaks" using g by blast
    from settled_state_ok [OF a(1) vp refl this gs, of config now "set (List.map_filter dedupe_key ?fs)"] fin(2)
    have b: "kept_state b" "stamps b = filter (\<lambda>t. now - 3600 < t) (stamps a)" by (auto simp: stamps_def filter_map o_def)
    have "since_hour u (stamps (sorted_map b)) = since_hour u (stamps st) + since_hour u (replicate k now)" if "now \<le> u" for u
      using that by (simp add: stamps_sorted [OF b(1)] b(2) since_hour_filter a(2) q(1) in_hour_append)
    then show ?thesis using fin(3) kept_sorted [OF b(1)] by (auto simp: sorted_object simp del: sorted_keys.simps(1))
  qed
qed

text \<open>
  Passes one after another, dry or live; between them the senders' state may change. At the start
  no page was posted. A pass that ends in an error is one of them when the state file can be
  saved; a pass that posted a page and could not save the state is not, since it forgets the page.
\<close>

inductive watch_runs :: "run_lib \<Rightarrow> 's senders \<Rightarrow> json \<Rightarrow> 's watch_world \<Rightarrow> time \<Rightarrow> bool" for lib so config0 where
  watch_start: "ww_paged w = [] \<Longrightarrow> file_ok (ww_state w) \<Longrightarrow> watch_runs lib so config0 w t"
| watch_pass: "watch_runs lib so config0 w t \<Longrightarrow> t \<le> now \<Longrightarrow> found_ok lib (evaluate (fst (migrate_config (rl_config lib) config0)) now) \<Longrightarrow>
    run lib so config0 now dry evaluate w = (Some r, w') \<Longrightarrow> (isl r \<Longrightarrow> \<forall>s. so_save_error so s = None) \<Longrightarrow>
    watch_runs lib so config0 w' now"
| watch_others: "watch_runs lib so config0 w t \<Longrightarrow> watch_runs lib so config0 (w\<lparr>ww_out := s\<rparr>) t"

definition hours_kept :: "int \<Rightarrow> 's watch_world \<Rightarrow> time \<Rightarrow> bool" where
  "hours_kept cap w t \<longleftrightarrow> file_ok (ww_state w) \<and> (\<forall>x \<in> set (ww_paged w). x \<le> t) \<and> (\<forall>u. int (in_hour u (ww_paged w)) \<le> cap)
     \<and> (\<forall>p. \<forall>u \<ge> t. since_hour u (ww_paged w) \<le> since_hour u (stamps (fst (load_watch_state p (ww_state w)))))"

lemma dry_run_keeps:
  assumes "run lib so config0 now dry evaluate w = (Some r, w')"
    "validate_config (rl_config lib) config0 = (Some (Inr ()), config)"
    "\<not> is_live config dry \<or> as_str (vget config ''state_path'') = None"
  shows "w' = w"
  using assms(1,3) by (auto simp: run_valid [OF assms(2)] pass_def Let_def split: option.splits prod.splits)

lemma live_run_any:
  assumes "run lib so config0 now dry evaluate w = (Some r, w')" "is_live config dry" "as_str (vget config ''state_path'') \<noteq> None"
    and "validate_config (rl_config lib) config0 = (Some (Inr ()), config)" "caps_fit (rl_config lib) config"
    and "file_ok (ww_state w)" "found_ok lib (evaluate config now)"
  obtains path st problem st1 streaks ds k q where "load_watch_state path (ww_state w) = (st, problem)" "kept_state st"
    "pass_goes lib so config now (evaluate config now) st problem w st1 streaks ds k q (r, w')"
proof -
  obtain path where path: "as_str (vget config ''state_path'') = Some path" using assms(3) by blast
  obtain st problem where load: "load_watch_state (rl_expand lib path) (ww_state w) = (st, problem)" by fastforce
  note kept = kept_loaded [OF assms(6) load]
  from live_pass_goes [OF assms(4,5) kept assms(6) assms(7) [unfolded found_ok_def] assms(2), of so now problem]
  obtain st1 streaks ds k q r1 w1 where p: "pass lib so config now dry (evaluate config now) st problem w = (Some r1, w1)"
    "pass_goes lib so config now (evaluate config now) st problem w st1 streaks ds k q (r1, w1)" by blast
  then have "r1 = r" "w1 = w'" using assms(1) by (simp_all add: run_valid [OF assms(4)] path load)
  then show ?thesis using that [OF load kept] p(2) by blast
qed

lemma live_run:
  assumes "run lib so config0 now dry evaluate w = (Some (Inr report), w')" "is_live config dry"
    and "validate_config (rl_config lib) config0 = (Some (Inr ()), config)" "caps_fit (rl_config lib) config"
    and "file_ok (ww_state w)" "found_ok lib (evaluate config now)"
  obtains path st problem st1 streaks ds k q where "load_watch_state path (ww_state w) = (st, problem)" "kept_state st"
    "pass_goes lib so config now (evaluate config now) st problem w st1 streaks ds k q (Inr report, w')"
proof -
  have "as_str (vget config ''state_path'') \<noteq> None"
    using assms(1) by (auto simp: run_valid [OF assms(3)] split: option.splits)
  then show ?thesis using live_run_any [OF assms(1,2) _ assms(3-6)] that by blast
qed

lemma hours_kept_pass:
  assumes "hours_kept cap w t" "t \<le> now" "run lib so config0 now dry evaluate w = (Some r, w')" "0 \<le> cap"
    and "validate_config (rl_config lib) config0 = (Some (Inr ()), config)" "caps_fit (rl_config lib) config"
    and "found_ok lib (evaluate config now)" "json_i64 (vget (owner_of config) ''max_pages_per_hour'') = Some cap"
    and saves: "isl r \<Longrightarrow> \<forall>s. so_save_error so s = None"
  shows "hours_kept cap w' now"
proof (cases "is_live config dry \<and> as_str (vget config ''state_path'') \<noteq> None")
  case False
  then have "w' = w" using dry_run_keeps [OF assms(3,5)] by blast
  then show ?thesis using assms(1,2) by (auto simp: hours_kept_def)
next
  case True
  have ok: "file_ok (ww_state w)" using assms(1) by (simp add: hours_kept_def)
  obtain path st problem st1 streaks ds k q where load: "load_watch_state path (ww_state w) = (st, problem)" "kept_state st"
    and goes: "pass_goes lib so config now (evaluate config now) st problem w st1 streaks ds k q (r, w')"
    using True by (auto intro: live_run_any [OF assms(3) _ _ assms(5,6) ok assms(7)])
  have fin: "file_ok (ww_state w')" "ww_paged w' = ww_paged w @ replicate k now"
    using pass_goes_end [OF goes assms(7)] by blast+
  obtain st' where st': "ww_state w' = State_Text (JObj st')" "kept_state st'"
    "\<forall>u \<ge> now. since_hour u (stamps st') = since_hour u (stamps st) + since_hour u (replicate k now)"
    using pass_goes_stamps [OF goes assms(7) saves] by blast
  have old: "\<forall>x \<in> set (ww_paged w). x \<le> now" "\<And>u. int (in_hour u (ww_paged w)) \<le> cap"
    "\<And>u. t \<le> u \<Longrightarrow> since_hour u (ww_paged w) \<le> since_hour u (stamps st)"
    using assms(1,2) load(1) unfolding hours_kept_def by (force, blast, metis fst_conv)
  have "leaves {''owner_pages''} st st1" and sent: "sent_out now k st1 ds w q"
    and plan: "watch_plan config (array_of (vget (evaluate config now) ''findings'')) (JObj st1) (JObj streaks) now
        (blocked_reason problem (array_of (vget (evaluate config now) ''errors''))) = Some ds"
    using goes by (simp_all add: pass_goes_def)
  then have "stamps st1 = stamps st" by (simp add: stamps_def leaves_def)
  moreover have "blocked_reason problem errors \<noteq> Some ''no''" for errors by (simp add: blocked_reason_def)
  ultimately have "int k \<le> max 0 (cap - int (since_hour now (stamps st)))"
    using page_limit [OF plan _ assms(8)] sent unfolding sent_out_def by force
  then have now_hour: "int (since_hour now (ww_paged w)) + int k \<le> cap"
    using old(1) old(2) [of now] old(3) [OF assms(2)] since_hour_past [of "ww_paged w" now] assms(4) by auto
  have "int (in_hour u (ww_paged w')) \<le> cap" for u
  proof (cases "now \<le> u")
    case True
    then have "in_hour u (ww_paged w') \<le> since_hour now (ww_paged w) + k"
      using in_hour_le [of u "ww_paged w"] since_hour_mono [OF True, of "ww_paged w"]
      by (simp add: fin(2) in_hour_append hour_replicate)
    then show ?thesis using now_hour by linarith
  next
    case False
    then show ?thesis using old(2) [of u] by (simp add: fin(2) in_hour_append hour_replicate)
  qed
  moreover have "since_hour u (ww_paged w') \<le> since_hour u (stamps (fst (load_watch_state p (ww_state w'))))" if "now \<le> u" for p u
    using st' old(3) [of u] that assms(2) by (simp add: load_watch_state_def kept_filled fin(2) in_hour_append)
  ultimately show ?thesis using fin old(1) by (auto simp: hours_kept_def)
qed

text \<open>
  C7: the owner is not flooded. However many passes run, whatever they find and whatever the mail,
  the owner's channel, the heartbeat and the superusers answer, as long as the passes can save
  their state the owner's channel accepted at most \<^verbatim>\<open>max_pages_per_hour\<close> pages in any hour. A
  page posted by a pass that cannot save is forgotten and not bounded.
\<close>

theorem owner_is_not_flooded:
  assumes "watch_runs lib so config0 w t"
    and "validate_config (rl_config lib) config0 = (Some (Inr ()), config)" "caps_fit (rl_config lib) config"
    and "json_i64 (vget (owner_of config) ''max_pages_per_hour'') = Some cap"
  shows "int (in_hour u (ww_paged w)) \<le> cap"
proof -
  have cap: "0 \<le> cap"
    using typed_top(5) [OF validated(1) [OF assms(2)]] assms(4) by (auto simp: json_i64_def split: if_splits)
  have "hours_kept cap w t"
    using assms(1)
  proof induction
    case (watch_pass w t now evaluate dry r w')
    note found = watch_pass.hyps(3) [unfolded validated(2) [OF assms(2), symmetric]]
    show ?case
      by (rule hours_kept_pass [OF watch_pass.IH watch_pass.hyps(2,4) cap assms(2,3) found assms(4) watch_pass.hyps(5)])
  qed (use cap in \<open>auto simp: hours_kept_def in_hour_def since_hour_def\<close>)
  then show ?thesis by (simp add: hours_kept_def)
qed

section \<open>An example\<close>

definition demo_run_lib :: run_lib where
  "demo_run_lib = \<lparr>rl_config = demo_config_lib,
     rl_report = \<lparr>rp_text = (\<lambda>_. []), rp_scientific = (\<lambda>_. [])\<rparr>,
     rl_expand = (\<lambda>s. s), rl_tenth = (\<lambda>_. []), rl_repr = (\<lambda>_. []), rl_carried = None\<rparr>"

definition demo_senders :: "send_error option \<Rightarrow> unit senders" where
  "demo_senders refusal = \<lparr>so_send = (\<lambda>_ _ _ s. (refusal, s)), so_post = (\<lambda>_ s. (Inr 1, s)), so_desk_channel = (\<lambda>_. Inr ''vp''),
     so_confirmed_through = (\<lambda>_. Inr None), so_superusers = (\<lambda>_ _. Inr JNull), so_save_error = (\<lambda>_. None), so_beat_error = (\<lambda>_. None)\<rparr>"

definition demo_watch_world :: "unit watch_world" where
  "demo_watch_world = \<lparr>ww_state = State_Text (JObj empty_state), ww_heartbeat = None, ww_paged = [], ww_out = ()\<rparr>"

definition demo_found :: "json \<Rightarrow> time \<Rightarrow> json" where
  "demo_found config now = JObj [(''findings'', JArr [demo_disk]), (''errors'', JArr []), (''skipped'', JArr [])]"

definition demo_run :: "send_error option \<Rightarrow> json \<Rightarrow> (string + json_map) option \<times> unit watch_world" where
  "demo_run refusal config = run demo_run_lib (demo_senders refusal) config 100 False demo_found demo_watch_world"

lemma demo_config_part: "rl_config demo_run_lib = demo_config_lib"
  by (simp add: demo_run_lib_def)

lemma demo_watch_world_ok: "file_ok (ww_state demo_watch_world)"
  by (simp add: demo_watch_world_def file_ok_def kept_empty)

lemma demo_found_ok: "found_ok demo_run_lib (demo_found config now)"
  using demo_finding by (simp add: found_ok_def demo_found_def demo_config_part array_of_def as_array_def)

lemma demo_paged:
  obtains report w where "demo_run None (demo_config 3) = (Some (Inr report), w)" "ww_paged w = [100]"
proof -
  have "case demo_run None (demo_config 3) of (Some (Inr report), w) \<Rightarrow> ww_paged w = [100] | _ \<Rightarrow> False" by code_simp
  then show ?thesis using that by (auto split: prod.splits option.splits sum.splits)
qed

theorem passes_never_panic_witness:
  "validate_config demo_config_lib (demo_config 3) = (Some (Inr ()), demo_config 3)
   \<and> (\<exists>r w. demo_run None (demo_config 3) = (Some r, w) \<and> file_ok (ww_state w))"
  using demo_valid passes_never_panic [of demo_run_lib "demo_config 3" "demo_config 3" demo_watch_world demo_found 100 "demo_senders None" False, unfolded demo_config_part,
      OF demo_valid demo_caps demo_watch_world_ok demo_found_ok]
  unfolding demo_run_def by blast

theorem owner_is_not_flooded_witness:
  "\<exists>w. watch_runs demo_run_lib (demo_senders None) (demo_config 3) w 100 \<and> ww_paged w = [100] \<and> int (in_hour 100 (ww_paged w)) \<le> 1"
proof -
  obtain report w where w: "demo_run None (demo_config 3) = (Some (Inr report), w)" "ww_paged w = [100]" by (rule demo_paged)
  have "watch_runs demo_run_lib (demo_senders None) (demo_config 3) demo_watch_world 0"
    using demo_watch_world_ok by (intro watch_start) (simp_all add: demo_watch_world_def)
  from watch_pass [OF this _ demo_found_ok w(1) [unfolded demo_run_def]]
  have runs: "watch_runs demo_run_lib (demo_senders None) (demo_config 3) w 100" by simp
  have cap: "json_i64 (vget (owner_of (demo_config 3)) ''max_pages_per_hour'') = Some 1" by code_simp
  show ?thesis
    using runs w(2) owner_is_not_flooded [OF runs, unfolded demo_config_part, OF demo_valid demo_caps cap] by blast
qed

end
