(* ===== verification/Watchdog_Digest.thy ===== *)
theory Watchdog_Digest
  imports Watchdog_Run_Effects
begin

text \<open>
  The digest of a watchdog pass: what a pass that sent it, or failed to, leaves in the state, the
  heartbeat and the report, and what a digest that is refused time after time costs.
\<close>

section \<open>What the digest decides\<close>

definition loaded :: "'s watch_world \<Rightarrow> json_map" where
  "loaded w = fst (load_watch_state [] (ww_state w))"

lemma load_is_loaded: "load_watch_state path (ww_state w) = (st, problem) \<Longrightarrow> st = loaded w"
  by (cases "ww_state w") (auto simp: loaded_def load_watch_state_def split: json.splits)

definition reported :: "json_map \<Rightarrow> json list" where
  "reported report = array_of (jget report ''decisions'')"

lemma reported_decision:
  assumes "list_all2 (redecided_to ''vp'' UNIV OO redecided_to ''owner'' I) ds ds'" "d' \<in> set ds'"
  obtains d where "d \<in> set ds" "vidx d' ''finding'' = vidx d ''finding''"
    "vidx d' ''vp'' = vidx d ''vp'' \<or> vidx d' ''vp'' = JStr ''transport-error''"
    "vidx d' ''owner'' = vidx d ''owner'' \<or> vidx d' ''owner'' = JStr ''transport-error'' \<and> vidx d ''finding'' \<in> I"
proof -
  obtain i where i: "i < length ds'" "d' = ds' ! i" using assms(2) by (metis in_set_conv_nth)
  then have "i < length ds" "(redecided_to ''vp'' UNIV OO redecided_to ''owner'' I) (ds ! i) d'"
    using assms(1) by (auto simp: list_all2_conv_all_nth)
  then obtain e where e: "redecided_to ''vp'' UNIV (ds ! i) e" "redecided_to ''owner'' I e d'" by blast
  have f: "vget e ''finding'' = vget (ds ! i) ''finding''" "vget d' ''finding'' = vget e ''finding''"
    by (rule redecided_to_finding [OF _ e(1)], simp) (rule redecided_to_finding [OF _ e(2)], simp)
  have "vget d' ''vp'' = vget e ''vp''" "vget e ''owner'' = vget (ds ! i) ''owner''"
    "vget e ''vp'' = vget (ds ! i) ''vp'' \<or> vget e ''vp'' = Some (JStr ''transport-error'')"
    "vget d' ''owner'' = vget e ''owner'' \<or> vidx e ''finding'' \<in> I \<and> vget d' ''owner'' = Some (JStr ''transport-error'')"
    using e(1) [unfolded redecided_to_def, rule_format, of "''vp''"] e(1) [unfolded redecided_to_def, rule_format, of "''owner''"]
      e(2) [unfolded redecided_to_def, rule_format, of "''vp''"] e(2) [unfolded redecided_to_def, rule_format, of "''owner''"]
    by (blast, blast, blast, blast)
  then show ?thesis
    using f by (intro that [of "ds ! i"]) (auto simp: vidx_def \<open>i < length ds\<close>)
qed

lemma decision_reported:
  assumes "list_all2 (redecided_to ''vp'' UNIV OO redecided_to ''owner'' I) ds ds'" "d \<in> set ds"
  obtains d' where "d' \<in> set ds'" "vidx d' ''finding'' = vidx d ''finding''"
proof -
  obtain d' e where d': "d' \<in> set ds'" "redecided_to ''vp'' UNIV d e" "redecided_to ''owner'' I e d'"
    using assms by (force simp: list_all2_conv_all_nth in_set_conv_nth)
  have "vget e ''finding'' = vget d ''finding''" "vget d' ''finding'' = vget e ''finding''"
    by (rule redecided_to_finding [OF _ d'(2)], simp) (rule redecided_to_finding [OF _ d'(3)], simp)
  with that d'(1) show ?thesis by (simp add: vidx_def)
qed

lemma current_dedupe: "finding_ok lib item \<Longrightarrow> dedupe_key item = Some k \<Longrightarrow> item \<in> set fs \<Longrightarrow> k \<in> current_keys fs"
  by (auto simp: current_keys_def str_field_def dedupe_key_def bind_eq_Some_conv intro: rev_image_eqI [of item])

lemma alert_time_sorted:
  assumes "kept_state st"
  shows "alert_time (sorted_map st) key = map_option sorted_keys (alert_time st key)"
proof -
  obtain m where "jget st ''alerts'' = Some (JObj m)" using assms by (auto simp: kept_state_def)
  then show ?thesis
    by (cases "jget m key") (simp_all add: alert_time_def as_object_def sorted_object del: sorted_keys.simps(1))
qed

lemma failed_state_fields:
  "alert_time (failed_state config now reason ls st) key = alert_time st key"
  "jget (failed_state config now reason ls st) ''streaks'' = jget st ''streaks''"
  "\<exists>failure. jget (failed_state config now reason ls st) ''delivery_failure'' = Some failure
     \<and> vget failure ''reason'' = Some (JStr reason) \<and> vget failure ''at'' = Some (JReal now)"
  by (simp_all add: alert_time_def failed_state_def Let_def)

lemma refused_accounts:
  assumes "refused_end so config now q (Inr report, w')" "sent_out now k st1 ds w q" "leaves {''owner_pages''} st st1"
  shows "\<exists>st' reason failure. ww_state w' = State_Text (JObj st') \<and> ww_heartbeat w' = ww_heartbeat w
    \<and> jget report ''delivery_error'' = Some (JStr reason) \<and> jget st' ''delivery_failure'' = Some failure
    \<and> vget failure ''reason'' = Some (JStr reason) \<and> vget failure ''at'' = Some (JReal now)
    \<and> jget st' ''streaks'' = map_option sorted_keys (jget st ''streaks'')
    \<and> (\<forall>key. key \<notin> group_keys ds \<longrightarrow> alert_time st' key = map_option sorted_keys (alert_time st key))
    \<and> reported report = array_of (jget (ps_report q) ''decisions'')"
proof -
  obtain reason ls s where save:
    "save_watch_state so (failed_state config now reason ls (ps_state q)) ((ps_world q)\<lparr>ww_out := s\<rparr>) = (None, w')"
    "jget report ''delivery_error'' = Some (JStr reason)" "jget report ''decisions'' = jget (ps_report q) ''decisions''"
    using assms(1) by (auto simp: refused_end_def split: option.splits)
  let ?st = "failed_state config now reason ls (ps_state q)"
  have sent: "kept_state (ps_state q)" "ww_heartbeat (ps_world q) = ww_heartbeat w"
    "leaves {''superuser_deliveries'', ''alerts'', ''owner_pages'', ''owner_page_times''} st1 (ps_state q)"
    "\<And>key. key \<notin> group_keys ds \<Longrightarrow> alert_time (ps_state q) key = alert_time st1 key"
    using assms(2) unfolding sent_out_def pass_ok_def by blast+
  have st': "ww_state w' = State_Text (JObj (sorted_map ?st))" "ww_heartbeat w' = ww_heartbeat (ps_world q)"
    using save(1) by (auto simp: save_watch_state_def sorted_object simp del: sorted_keys.simps(1) split: option.splits)
  have "kept_state ?st" using failed_stamps sent(1) by blast
  note alert = alert_time_sorted [OF this]
  have streaks: "jget (ps_state q) ''streaks'' = jget st ''streaks''"
    using leavesD [OF sent(3), of "''streaks''"] leavesD [OF assms(3), of "''streaks''"] by simp
  have alerts: "alert_time st1 key = alert_time st key" for key
    using leavesD [OF assms(3), of "''alerts''"] by (simp add: alert_time_def)
  obtain failure where f: "jget ?st ''delivery_failure'' = Some failure" "vget failure ''reason'' = Some (JStr reason)" "vget failure ''at'' = Some (JReal now)"
    using failed_state_fields(3) by blast
  show ?thesis
  proof (intro exI conjI allI impI)
    show "ww_state w' = State_Text (JObj (sorted_map ?st))" by (fact st'(1))
    show "jget (sorted_map ?st) ''delivery_failure'' = Some (sorted_keys failure)" using f(1) by simp
    show "alert_time (sorted_map ?st) key = map_option sorted_keys (alert_time st key)" if "key \<notin> group_keys ds" for key
      by (simp add: alert failed_state_fields(1) sent(4) [OF that] alerts)
  qed (use st'(2) sent(2) save(2,3) f(2,3) streaks in \<open>simp_all add: failed_state_fields(2) reported_def\<close>)
qed

lemma settled_accounts:
  assumes "settled_end so config now current vp recovered (JObj sm) q (Inr report, w')" "sent_out now k st1 ds w q" "streaks_ok sm"
    and "\<forall>d \<in> set vp. dedupe_key (vidx d ''finding'') \<noteq> None" "array_of (vget recovered ''vp'') = map JStr gs"
  shows "\<exists>st' beat. ww_state w' = State_Text (JObj st') \<and> ww_heartbeat w' = Some beat \<and> vget beat ''at'' = Some (JReal now)
    \<and> jget report ''delivery_error'' = Some JNull \<and> reported report = array_of (jget (ps_report q) ''decisions'')
    \<and> (\<forall>d k. d \<in> set vp \<longrightarrow> dedupe_key (vidx d ''finding'') = Some k \<longrightarrow> k \<in> current \<longrightarrow> k \<notin> set gs \<longrightarrow>
         alert_time st' k = Some (JReal now))"
proof -
  obtain a b where fin: "leaves {''delivery_failure''} (ps_state q) a" "settled_state config now current vp recovered (JObj sm) a = Some b"
    "ww_state w' = State_Text (sorted_keys (JObj b))"
    "ww_heartbeat w' = Some (JObj [(''schema'', JInt 1), (''cadence_minutes'', JReal (number (vget config ''cadence_minutes''))), (''at'', JReal now)])"
    "jget report ''delivery_error'' = jget (ps_report q) ''delivery_error''" "jget report ''decisions'' = jget (ps_report q) ''decisions''"
    using assms(1) by (auto simp: settled_end_def split: option.splits)
  have sent: "kept_state (ps_state q)" "jget (ps_report q) ''delivery_error'' = Some JNull"
    using assms(2) unfolding sent_out_def pass_ok_def by blast+
  have "kept_state a" using sent(1) fin(1) by (simp add: kept_state_def leaves_def)
  from settled_state_ok [OF this assms(4) refl assms(3,5), of config now current] fin(2)
  have b: "kept_state b" "\<And>d k. d \<in> set vp \<Longrightarrow> dedupe_key (vidx d ''finding'') = Some k \<Longrightarrow> k \<in> current \<Longrightarrow> k \<notin> set gs \<Longrightarrow>
      alert_time b k = Some (JReal now)" by auto
  show ?thesis
  proof (intro exI conjI allI impI)
    show "ww_state w' = State_Text (JObj (sorted_map b))" using fin(3) by (simp only: sorted_object)
    show "ww_heartbeat w' = Some (JObj [(''schema'', JInt 1), (''cadence_minutes'', JReal (number (vget config ''cadence_minutes''))), (''at'', JReal now)])"
      by (fact fin(4))
    show "alert_time (sorted_map b) k = Some (JReal now)"
      if "d \<in> set vp" "dedupe_key (vidx d ''finding'') = Some k" "k \<in> current" "k \<notin> set gs" for d k
      by (simp add: alert_time_sorted [OF b(1)] b(2) [OF that])
  qed (use fin(5,6) sent(2) in \<open>simp_all add: reported_def\<close>)
qed

text \<open>The groups and the alerts of a plan, read back from the report.\<close>

lemma group_reported:
  assumes "list_all2 (redecided_to ''vp'' UNIV OO redecided_to ''owner'' I) ds ds'"
    and "\<forall>d \<in> set ds'. is_group d \<longrightarrow> dedupe_key (vidx d ''finding'') \<noteq> Some key"
  shows "key \<notin> group_keys ds"
proof
  assume "key \<in> group_keys ds"
  then obtain d where d: "d \<in> set ds" "is_group d" "dedupe_key (vidx d ''finding'') = Some key" by (auto simp: group_keys_def)
  obtain d' where "d' \<in> set ds'" "vidx d' ''finding'' = vidx d ''finding''" by (rule decision_reported [OF assms(1) d(1)])
  then show False using assms(2) d(2,3) by (auto simp: is_group_def)
qed

lemma alert_reported:
  assumes "list_all2 (redecided_to ''vp'' UNIV OO redecided_to ''owner'' I) ds ds'"
    and "\<And>d. d \<in> set ds \<Longrightarrow> \<exists>item. vget d ''finding'' = Some item \<and> item \<in> set fs \<and> finding_ok lib item"
    and d': "d' \<in> set ds'" "vidx d' ''vp'' = JStr ''no''" "\<not> is_group d'" "dedupe_key (vidx d' ''finding'') = Some key"
  shows "(\<exists>d \<in> set (filter (\<lambda>d. \<not> is_group d) (decided_no ''vp'' ds)). dedupe_key (vidx d ''finding'') = Some key)
     \<and> key \<in> set (List.map_filter dedupe_key fs) \<and> key \<notin> set (gone stamp (current_keys fs) m)"
proof -
  obtain d where d: "d \<in> set ds" "vidx d' ''finding'' = vidx d ''finding''"
    "vidx d' ''vp'' = vidx d ''vp'' \<or> vidx d' ''vp'' = JStr ''transport-error''"
    by (rule reported_decision [OF assms(1) d'(1)])
  obtain item where item: "vget d ''finding'' = Some item" "item \<in> set fs" "finding_ok lib item"
    using assms(2) [OF d(1)] by blast
  then have key: "dedupe_key item = Some key" using d(2) d'(4) by (simp add: vidx_def)
  have "d \<in> set (filter (\<lambda>d. \<not> is_group d) (decided_no ''vp'' ds))" using d d'(2,3) by (auto simp: decided_no_def is_group_def)
  moreover have "key \<in> set (List.map_filter dedupe_key fs)" using item(2) key by (force simp: map_filter_def)
  moreover have "key \<notin> set (gone stamp (current_keys fs) m)" using current_dedupe [OF item(3) key item(2)] by (auto simp: gone_def)
  ultimately show ?thesis using d(2) d'(4) by auto
qed

text \<open>
  C9: a pass accounts for its digest. When the digest was refused the report says why, the heartbeat is not
  refreshed, the failure is in the state, and no alert but those of the starvation group is
  marked as told, so that a later pass sends them again. Otherwise the heartbeat is refreshed and
  every alert of the digest is marked with the time of the pass.
\<close>

theorem digest_is_accounted_for:
  assumes "run lib so config0 now dry evaluate w = (Some (Inr report), w')" "is_live config dry"
    and "validate_config (rl_config lib) config0 = (Some (Inr ()), config)" "caps_fit (rl_config lib) config"
    and "file_ok (ww_state w)" "found_ok lib (evaluate config now)"
  shows "\<exists>st'. ww_state w' = State_Text (JObj st') \<and>
    (if jget report ''delivery_error'' = Some JNull
     then (\<exists>beat. ww_heartbeat w' = Some beat \<and> vget beat ''at'' = Some (JReal now))
       \<and> (\<forall>d key. d \<in> set (reported report) \<longrightarrow> vidx d ''vp'' = JStr ''no'' \<longrightarrow> \<not> is_group d \<longrightarrow>
            dedupe_key (vidx d ''finding'') = Some key \<longrightarrow> alert_time st' key = Some (JReal now))
     else ww_heartbeat w' = ww_heartbeat w
       \<and> (\<exists>reason failure. jget report ''delivery_error'' = Some (JStr reason) \<and> jget st' ''delivery_failure'' = Some failure
            \<and> vget failure ''reason'' = Some (JStr reason) \<and> vget failure ''at'' = Some (JReal now))
       \<and> jget st' ''streaks'' = map_option sorted_keys (jget (loaded w) ''streaks'')
       \<and> (\<forall>key. (\<forall>d \<in> set (reported report). is_group d \<longrightarrow> dedupe_key (vidx d ''finding'') \<noteq> Some key) \<longrightarrow>
            alert_time st' key = map_option sorted_keys (alert_time (loaded w) key)))"
proof -
  obtain path st problem st1 streaks ds k q where load: "load_watch_state path (ww_state w) = (st, problem)"
    and goes: "pass_goes lib so config now (evaluate config now) st problem w st1 streaks ds k q (Inr report, w')"
    by (rule live_run [OF assms])
  note st = load_is_loaded [OF load]
  note g = goes [unfolded pass_goes_def]
  let ?fs = "array_of (vget (evaluate config now) ''findings'')"
  let ?vp = "filter (\<lambda>d. \<not> is_group d) (decided_no ''vp'' ds)"
  have sent: "sent_out now k st1 ds w q" and kept: "leaves {''owner_pages''} st st1" using g by blast+
  have decided: "\<exists>item. vget d ''finding'' = Some item \<and> item \<in> set ?fs \<and> finding_ok (rl_config lib) item" if "d \<in> set ds" for d
    using g decision_shape(2) that assms(6) by (fastforce simp: found_ok_def list_all_iff)
  have rel: "list_all2 (redecided_to ''vp'' UNIV OO redecided_to ''owner'' (page_findings ds)) ds (array_of (jget (ps_report q) ''decisions''))"
    using sent by (simp add: sent_out_def)
  from g consider (refused) "refused_end so config now q (Inr report, w')"
    | (settled) "settled_end so config now (set (List.map_filter dedupe_key ?fs)) ?vp (recoveries (JObj st1) ?fs) (JObj streaks) q (Inr report, w')"
    by blast
  then show ?thesis
  proof cases
    case refused
    obtain st' reason failure where r: "ww_state w' = State_Text (JObj st')" "ww_heartbeat w' = ww_heartbeat w"
      "jget report ''delivery_error'' = Some (JStr reason)" "jget st' ''delivery_failure'' = Some failure"
      "vget failure ''reason'' = Some (JStr reason)" "vget failure ''at'' = Some (JReal now)"
      "jget st' ''streaks'' = map_option sorted_keys (jget st ''streaks'')"
      "\<forall>key. key \<notin> group_keys ds \<longrightarrow> alert_time st' key = map_option sorted_keys (alert_time st key)"
      "reported report = array_of (jget (ps_report q) ''decisions'')"
      using refused_accounts [OF refused sent kept] by blast
    note group_reported [OF rel [folded r(9)]]
    then show ?thesis using r st by auto
  next
    case settled
    let ?gs = "gone ''last_alerted'' (current_keys ?fs) (object_entries (jget st1 ''alerts''))"
    have vp: "\<forall>d \<in> set ?vp. dedupe_key (vidx d ''finding'') \<noteq> None"
      using decided by (fastforce simp: decided_no_def vidx_def elim: finding_okE)
    have gs: "array_of (vget (recoveries (JObj st1) ?fs) ''vp'') = map JStr ?gs" by (simp add: recoveries_def json_strs_def)
    have sm: "streaks_ok streaks" using g by blast
    obtain st' beat where r: "ww_state w' = State_Text (JObj st')" "ww_heartbeat w' = Some beat" "vget beat ''at'' = Some (JReal now)"
      "jget report ''delivery_error'' = Some JNull" "reported report = array_of (jget (ps_report q) ''decisions'')"
      "\<forall>d k. d \<in> set ?vp \<longrightarrow> dedupe_key (vidx d ''finding'') = Some k \<longrightarrow> k \<in> set (List.map_filter dedupe_key ?fs) \<longrightarrow> k \<notin> set ?gs \<longrightarrow>
         alert_time st' k = Some (JReal now)"
      using settled_accounts [OF settled sent sm vp gs] by blast
    note alert_reported [OF rel [folded r(5)] decided, of _ _ "''last_alerted''" "object_entries (jget st1 ''alerts'')"]
    then have "alert_time st' key = Some (JReal now)"
      if "d' \<in> set (reported report)" "vidx d' ''vp'' = JStr ''no''" "\<not> is_group d'" "dedupe_key (vidx d' ''finding'') = Some key" for d' key
      using that r(6) by blast
    then show ?thesis using r by auto
  qed
qed

theorem digest_is_accounted_for_witness:
  "\<exists>report w st. demo_run None (demo_config 3) = (Some (Inr report), w) \<and> ww_state w = State_Text (JObj st)
     \<and> ww_heartbeat w \<noteq> None \<and> alert_time st ''host.disk_full|/'' = Some (JReal 100)"
proof -
  have "case demo_run None (demo_config 3) of (Some (Inr report), w) \<Rightarrow> jget report ''delivery_error'' = Some JNull
      \<and> (\<exists>d \<in> set (reported report). vidx d ''vp'' = JStr ''no'' \<and> \<not> is_group d \<and> dedupe_key (vidx d ''finding'') = Some ''host.disk_full|/'')
    | _ \<Rightarrow> False" by code_simp
  then obtain report w d where w: "demo_run None (demo_config 3) = (Some (Inr report), w)" "jget report ''delivery_error'' = Some JNull"
    and d: "d \<in> set (reported report)" "vidx d ''vp'' = JStr ''no''" "\<not> is_group d" "dedupe_key (vidx d ''finding'') = Some ''host.disk_full|/''"
    by (auto split: prod.splits option.splits sum.splits)
  have "is_live (demo_config 3) False" by code_simp
  from digest_is_accounted_for [OF w(1) [unfolded demo_run_def] this, unfolded demo_config_part, OF demo_valid demo_caps demo_watch_world_ok demo_found_ok]
  obtain st beat where "ww_state w = State_Text (JObj st)" "ww_heartbeat w = Some beat" "alert_time st ''host.disk_full|/'' = Some (JReal 100)"
    unfolding if_P [OF w(2)] using d by blast
  then show ?thesis using w(1) by auto
qed

section \<open>What a refused digest costs\<close>

lemma planned_owner:
  assumes "watch_plan config findings state streaks now blocked = Some ds" "blocked \<noteq> Some ''transport-error''" "d \<in> set ds"
  shows "vidx d ''owner'' \<noteq> JStr ''transport-error''"
proof -
  obtain c recent max_pages where p: "plan_items c findings 0 (max_pages - recent) = Some ds" "pc_blocked c = blocked"
    by (rule watch_plan_items [OF assms(1)])
  obtain item n b where "decided c item n b d"
    using plan_items_limits [OF p(1)] assms(3) by (fastforce simp: list_all2_conv_all_nth in_set_conv_nth)
  then obtain key cls sev r m b owner where d: "vget d ''owner'' = Some (json_opt_str owner)"
    "owner = None \<or> (\<exists>x. owner = Some x \<and> owner_reason c key cls sev r m b = Some x)"
    unfolding decided_def by (fastforce split: if_splits)
  have "owner_reason c key cls sev r m b \<noteq> Some ''transport-error''"
    using assms(2) p(2) by (auto simp: owner_reason_def bind_eq_Some_conv non_empty_str_def split: if_splits option.splits)
  then show ?thesis using d by (auto simp: vidx_def json_opt_str_def)
qed

definition streak_of :: "json_map \<Rightarrow> string \<Rightarrow> json option" where
  "streak_of st key = jget (object_entries (jget st ''streaks'')) key"

lemma advance_all_new:
  assumes "advance_all spacing now old items new = Some m" "jget old key = None"
    and "jget new key = None \<or> jget new key = Some (streak_entry 1 now)"
  shows "jget m key = None \<or> jget m key = Some (streak_entry 1 now)"
  using assms
proof (induction items arbitrary: new)
  case (Cons item items)
  then obtain k entry where step: "next_streak spacing now (jget old k) = Some entry"
    "advance_all spacing now old items (jinsert k entry new) = Some m"
    by (auto simp: bind_eq_Some_conv)
  have "jget (jinsert k entry new) key = None \<or> jget (jinsert k entry new) key = Some (streak_entry 1 now)"
    using Cons.prems(2,3) step(1) by (auto simp: next_streak_def)
  then show ?case using Cons.IH [OF step(2) Cons.prems(2)] by blast
qed simp

lemma advance_streaks_new:
  assumes "advance_streaks config (JObj st) findings now = Some (JObj m)" "kept_state st" "streak_of st key = None"
  shows "jget m key = None \<or> jget m key = Some (streak_entry 1 now)"
proof -
  obtain old where old: "jget st ''streaks'' = Some (JObj old)" using assms(2) by (auto simp: kept_state_def)
  then obtain spacing where "advance_all spacing now old findings [] = Some m"
    using assms(1) by (auto simp: advance_streaks_def as_object_def bind_eq_Some_conv)
  then show ?thesis
    by (rule advance_all_new) (use assms(3) old in \<open>simp_all add: streak_of_def object_entries_def as_object_def\<close>)
qed

text \<open>A finding that must hold longer than one run does not page while it has no streak.\<close>

lemma new_finding_holds:
  assumes "watch_plan config findings (JObj st) (JObj m) now blocked = Some ds" "blocked \<noteq> Some ''no''" "d \<in> set ds"
    and "jget m key = None \<or> jget m key = Some (streak_entry 1 now)" "dedupe_key (vidx d ''finding'') = Some key"
    and "as_str (vget (vidx d ''finding'') ''rule'') = Some rule" "json_i64 (vget (rule_of config rule) ''must_hold_runs'') = Some h" "1 < h"
  shows "vidx d ''owner'' \<noteq> JStr ''no''"
proof
  assume no: "vidx d ''owner'' = JStr ''no''"
  obtain c recent max_pages where p: "plan_items c findings 0 (max_pages - recent) = Some ds"
    "pc_config c = config" "pc_blocked c = blocked" "JObj m = JObj (pc_streaks c)"
    by (rule watch_plan_items [OF assms(1)])
  obtain item n b where "decided c item n b d"
    using plan_items_limits [OF p(1)] assms(3) by (fastforce simp: list_all2_conv_all_nth in_set_conv_nth)
  then obtain key' r s cls sev streak n' vp owner where x: "dedupe_key item = Some key'" "as_str (vget item ''rule'') = Some r"
    "streak = (case Option.bind (jget (pc_streaks c) key') (\<lambda>entry. vget entry ''count'') of Some n \<Rightarrow> n | None \<Rightarrow> JInt 1)"
    "json_i64 (Some streak) = Some n'"
    "(if s \<noteq> source_self \<and> cls \<in> set owner_classes \<and> r \<in> set owner_eligible_rules
        then map_option Some (owner_reason c key' cls (severity_rank sev) r n' b) else Some None) = Some owner"
    "d = decision item vp owner streak"
    unfolding decided_def by (elim exE conjE) (rule that)
  have m: "m = pc_streaks c" using p(4) by simp
  have d: "owner = Some ''no'' \<Longrightarrow> owner_reason c key' cls (severity_rank sev) r n' b = Some ''no''"
    "vget d ''finding'' = Some item" "vget d ''owner'' = Some (json_opt_str owner)"
    using x(5) by (simp_all add: x(6) split: if_splits)
  have item: "vidx d ''finding'' = item" using d(2) by (simp add: vidx_def)
  have keys: "key' = key" "r = rule" using assms(5,6) x(1,2) by (simp_all add: item)
  have one: "n' = 1" using assms(4) x(3,4) by (auto simp: keys m [symmetric] streak_entry_def json_i64_def)
  have "owner = Some ''no''" using no d(3) by (cases owner) (auto simp: vidx_def json_opt_str_def)
  from owner_no(6) [OF d(1) [OF this]] p(3) assms(2) obtain hold where "must_hold c r = Some hold" "hold \<le> n'" by blast
  then show False using assms(7,8) one keys by (simp add: must_hold_def p(2))
qed

text \<open>Passes one after another whose digests are all refused, and the reports they return.\<close>

inductive refused_runs :: "run_lib \<Rightarrow> 's senders \<Rightarrow> json \<Rightarrow> 's watch_world \<Rightarrow> json_map list \<Rightarrow> 's watch_world \<Rightarrow> bool" for lib so config0 w where
  no_pass: "refused_runs lib so config0 w [] w"
| refused_pass: "refused_runs lib so config0 w reports w' \<Longrightarrow> found_ok lib (evaluate (fst (migrate_config (rl_config lib) config0)) now) \<Longrightarrow>
    run lib so config0 now dry evaluate w' = (Some (Inr report), w'') \<Longrightarrow> jget report ''delivery_error'' \<noteq> Some JNull \<Longrightarrow>
    refused_runs lib so config0 w (reports @ [report]) w''"
| others_between: "refused_runs lib so config0 w reports w' \<Longrightarrow> refused_runs lib so config0 w reports (w'\<lparr>ww_out := s\<rparr>)"

lemma refused_is_live:
  assumes "run lib so config0 now dry evaluate w = (Some (Inr report), w')" "jget report ''delivery_error'' \<noteq> Some JNull"
    and "validate_config (rl_config lib) config0 = (Some (Inr ()), config)"
  shows "is_live config dry"
proof (rule ccontr)
  assume dead: "\<not> is_live config dry"
  have "jget (first_report lib config False dry now fs skipped ds recovered problems st) ''delivery_error'' = Some JNull" for fs skipped ds recovered problems st
    by (simp add: first_report_def)
  then show False using assms(1,2) dead by (auto simp: run_valid [OF assms(3)] pass_def Let_def split: option.splits prod.splits)
qed

definition not_paged :: "json \<Rightarrow> string \<Rightarrow> json_map \<Rightarrow> bool" where
  "not_paged config key report \<longleftrightarrow> (\<forall>d \<in> set (reported report). \<forall>rule h.
     dedupe_key (vidx d ''finding'') = Some key \<longrightarrow> as_str (vget (vidx d ''finding'') ''rule'') = Some rule \<longrightarrow>
     json_i64 (vget (rule_of config rule) ''must_hold_runs'') = Some h \<longrightarrow> 1 < h \<longrightarrow>
     vidx d ''owner'' \<noteq> JStr ''no'' \<and> vidx d ''owner'' \<noteq> JStr ''transport-error'')"

lemma refused_pass_is_silent:
  assumes "run lib so config0 now dry evaluate w = (Some (Inr report), w')" "jget report ''delivery_error'' \<noteq> Some JNull"
    and "validate_config (rl_config lib) config0 = (Some (Inr ()), config)" "caps_fit (rl_config lib) config"
    and "file_ok (ww_state w)" "found_ok lib (evaluate config now)" "streak_of (loaded w) key = None"
  shows "not_paged config key report \<and> file_ok (ww_state w') \<and> streak_of (loaded w') key = None"
proof -
  obtain path st problem st1 streaks ds k q where load: "load_watch_state path (ww_state w) = (st, problem)" "kept_state st"
    and goes: "pass_goes lib so config now (evaluate config now) st problem w st1 streaks ds k q (Inr report, w')"
    by (rule live_run [OF assms(1) refused_is_live [OF assms(1-3)] assms(3-6)])
  note st = load_is_loaded [OF load(1)]
  note g = goes [unfolded pass_goes_def]
  let ?fs = "array_of (vget (evaluate config now) ''findings'')"
  have sent: "sent_out now k st1 ds w q" and kept: "leaves {''owner_pages''} st st1" and kept1: "kept_state st1"
    and adv: "advance_streaks config (JObj st1) ?fs now = Some (JObj streaks)"
    and plan: "watch_plan config ?fs (JObj st1) (JObj streaks) now (blocked_reason problem (array_of (vget (evaluate config now) ''errors''))) = Some ds"
    using g by blast+
  have refused: "refused_end so config now q (Inr report, w')"
  proof (rule ccontr)
    assume "\<not> refused_end so config now q (Inr report, w')"
    then have "jget report ''delivery_error'' = jget (ps_report q) ''delivery_error''"
      using g by (auto simp: settled_end_def split: option.splits)
    then show False using sent assms(2) by (simp add: sent_out_def)
  qed
  obtain st' where r: "ww_state w' = State_Text (JObj st')" "jget st' ''streaks'' = map_option sorted_keys (jget st ''streaks'')"
    "reported report = array_of (jget (ps_report q) ''decisions'')"
    using refused_accounts [OF refused sent kept] by blast
  have ok': "file_ok (ww_state w')" using pass_goes_end [OF goes assms(6)] by blast
  then have "kept_state st'" using r(1) by (simp add: file_ok_def)
  then have "loaded w' = st'" using r(1) by (simp add: loaded_def load_watch_state_def kept_filled)
  moreover obtain old where old: "jget st ''streaks'' = Some (JObj old)" using load(2) by (auto simp: kept_state_def)
  ultimately have silent': "streak_of (loaded w') key = None"
    using assms(7) r(2) st
    by (simp add: streak_of_def object_entries_def as_object_def sorted_object del: sorted_keys.simps(1))
  have "streak_of st1 key = None" using leavesD [OF kept, of "''streaks''"] assms(7) st by (simp add: streak_of_def)
  note new = advance_streaks_new [OF adv kept1 this]
  have blocked: "blocked_reason problem errors \<noteq> Some ''no''" for errors by (simp add: blocked_reason_def)
  have rel: "list_all2 (redecided_to ''vp'' UNIV OO redecided_to ''owner'' (page_findings ds)) ds (reported report)"
    using sent r(3) by (simp add: sent_out_def)
  have "vidx d' ''owner'' \<noteq> JStr ''no'' \<and> vidx d' ''owner'' \<noteq> JStr ''transport-error''"
    if d': "d' \<in> set (reported report)" "dedupe_key (vidx d' ''finding'') = Some key" "as_str (vget (vidx d' ''finding'') ''rule'') = Some rule"
      "json_i64 (vget (rule_of config rule) ''must_hold_runs'') = Some h" "1 < h" for d' rule h
  proof -
    obtain d where d: "d \<in> set ds" "vidx d' ''finding'' = vidx d ''finding''"
      "vidx d' ''owner'' = vidx d ''owner'' \<or> vidx d' ''owner'' = JStr ''transport-error'' \<and> vidx d ''finding'' \<in> page_findings ds"
      by (rule reported_decision [OF rel d'(1)])
    have held: "vidx e ''owner'' \<noteq> JStr ''no''" if "e \<in> set ds" "vidx e ''finding'' = vidx d ''finding''" for e
      using new_finding_holds [OF plan blocked that(1) new _ _ d'(4,5)] d'(2,3) that(2) d(2) by simp
    then have "vidx d ''finding'' \<notin> page_findings ds" by (auto simp: page_findings_def decided_no_def)
    moreover have "vidx d ''owner'' \<noteq> JStr ''transport-error''" by (rule planned_owner [OF plan _ d(1)]) (simp add: blocked_reason_def)
    ultimately show ?thesis using held [OF d(1) refl] d(3) by auto
  qed
  then have "not_paged config key report" by (auto simp: not_paged_def)
  with ok' silent' show ?thesis by blast
qed

text \<open>
  C10: refused digests silence the owner. While the digest of every pass is refused, no streak is
  saved, so a finding that had no streak and must hold for more than one run is never paged to the
  owner, however long it holds.
\<close>

theorem refused_digests_silence_the_owner:
  assumes "refused_runs lib so config0 w reports w'"
    and "validate_config (rl_config lib) config0 = (Some (Inr ()), config)" "caps_fit (rl_config lib) config"
    and "file_ok (ww_state w)" "streak_of (loaded w) key = None"
  shows "\<forall>report \<in> set reports. not_paged config key report"
proof -
  have "(\<forall>report \<in> set reports. not_paged config key report) \<and> file_ok (ww_state w') \<and> streak_of (loaded w') key = None"
    using assms(1)
  proof induction
    case (refused_pass reports w' evaluate now dry report w'')
    then have ok: "file_ok (ww_state w')" "streak_of (loaded w') key = None" by auto
    have "found_ok lib (evaluate config now)" using refused_pass.hyps(2) validated(2) [OF assms(2)] by metis
    from refused_pass_is_silent [OF refused_pass.hyps(3,4) assms(2,3) ok(1) this ok(2)] refused_pass.IH show ?case by auto
  qed (use assms(4,5) in \<open>auto simp: loaded_def\<close>)
  then show ?thesis by blast
qed

text \<open>The example with a rule that must hold for two runs.\<close>

definition slow_config :: json where
  "slow_config = (case demo_config 3 of
       JObj m \<Rightarrow> JObj (jinsert ''rules'' (JObj (map (\<lambda>(r, v).
         (r, case v of JObj c \<Rightarrow> JObj (jinsert ''must_hold_runs'' (JInt 2) c) | _ \<Rightarrow> v)) demo_rules)) m)
     | v \<Rightarrow> v)"

lemma slow_valid: "validate_config demo_config_lib slow_config = (Some (Inr ()), slow_config)"
  by code_simp

lemma slow_caps: "caps_fit demo_config_lib slow_config"
  by code_simp

theorem refused_digests_silence_the_owner_witness:
  "\<exists>report w. refused_runs demo_run_lib (demo_senders (Some \<lparr>se_kind = [], se_message = ''down''\<rparr>)) slow_config demo_watch_world [report] w
     \<and> map (\<lambda>d. (dedupe_key (vidx d ''finding''), vidx d ''owner'')) (reported report) = [(Some ''host.disk_full|/'', JStr ''hold'')]
     \<and> not_paged slow_config ''host.disk_full|/'' report"
proof -
  let ?down = "Some \<lparr>se_kind = [], se_message = ''down''\<rparr>"
  have "case demo_run ?down slow_config of (Some (Inr report), w) \<Rightarrow> jget report ''delivery_error'' \<noteq> Some JNull
      \<and> map (\<lambda>d. (dedupe_key (vidx d ''finding''), vidx d ''owner'')) (reported report) = [(Some ''host.disk_full|/'', JStr ''hold'')]
    | _ \<Rightarrow> False" by code_simp
  then obtain report w where w: "demo_run ?down slow_config = (Some (Inr report), w)" "jget report ''delivery_error'' \<noteq> Some JNull"
    "map (\<lambda>d. (dedupe_key (vidx d ''finding''), vidx d ''owner'')) (reported report) = [(Some ''host.disk_full|/'', JStr ''hold'')]"
    by (auto split: prod.splits option.splits sum.splits)
  from refused_pass [OF no_pass demo_found_ok w(1) [unfolded demo_run_def] w(2)]
  have runs: "refused_runs demo_run_lib (demo_senders ?down) slow_config demo_watch_world [report] w" by simp
  have "streak_of (loaded demo_watch_world) ''host.disk_full|/'' = None" by code_simp
  from refused_digests_silence_the_owner [OF runs, unfolded demo_config_part, OF slow_valid slow_caps demo_watch_world_ok this]
  show ?thesis using runs w(3) by auto
qed

end
