(* ===== verification/Spec2Isabelle.thy ===== *)
theory Spec2Isabelle
  imports Claim_Effects Edit_Effects Advance_Effects Mail_Outcomes Delivery_Retries Next_Job_Runtime
    Tick_Effects Watchdog_Digest
begin

text \<open>
  The coordination core of Dunking Sheep: a daemon that keeps a board of tasks for a flock of
  terminal panes, each running an agent. All of it is the Rust library crate
  \<^verbatim>\<open>src/rust/crates/ds-core\<close>; file names below are under its \<^verbatim>\<open>src/\<close>.

  The program's parts and how they interact. Tasks live in one SQLite file with one writer, so
  every operation is one transaction: here a function from the store to a result and the store
  after. Panes file, assign, edit and complete tasks; a task may depend on others and is
  unblocked when they are done and landed; panes claim tasks under leases that a reaper
  returns to the queue; when a lane goes free one transaction completes its task, asks a
  planner for the next, claims it and journals the handoff, and a delivery worker records its
  progress on that journal; an allocator assigns offered tasks to registered idle workers and
  keeps reviewers away from their own work; a standby queue holds assignments any lane can take.
  Panes send each other mail, with files attached, through a second SQLite file and a directory
  of blobs; a reader that crashed recovers the batch it had taken. The delivery worker types one
  line into the lane of a handoff under a gate, a typing guard and a receipt, and a restart
  settles what it finds half sent. A timer fills idle lanes from the board and the standby
  queue. A watchdog turns findings into alerts and, within tight limits, pages of the owner.

  Which theory models what:

  \<^item> \<^verbatim>\<open>Prelude\<close>: errors (\<^verbatim>\<open>error.rs\<close>), text and JSON; \<^verbatim>\<open>Tables\<close>: SQL tables as
    lists of rows, with the locale \<open>keyed_table\<close>; \<^verbatim>\<open>Json_Text\<close>: how JSON values are read.
  \<^item> \<^verbatim>\<open>Task_Store\<close>, \<^verbatim>\<open>Dependencies\<close>, \<^verbatim>\<open>Lifecycle\<close>, \<^verbatim>\<open>Task_Edit\<close>
    (\<^verbatim>\<open>tasks/mod.rs\<close>): rows, validators and order; dependency state, views and unblocking;
    status changes, completion, landing, verdicts and notes; filing, assigning, editing, deleting.
  \<^item> \<^verbatim>\<open>Claims\<close> (\<^verbatim>\<open>tasks/claim.rs\<close>) and \<^verbatim>\<open>Claim_Batch\<close>
    (\<^verbatim>\<open>tasks/claim_batch.rs\<close>): the claim rule, the atomic claim, heartbeats, releases, the reaper.
  \<^item> \<^verbatim>\<open>Next_Job\<close> (\<^verbatim>\<open>tasks/next_job.rs\<close>): the journal of handoffs and its
    compare-and-swap update; \<^verbatim>\<open>Advance\<close> (\<^verbatim>\<open>tasks/advance.rs\<close>): the completion-and-claim
    transaction with the planner closure of \<^verbatim>\<open>tasks/next_job_runtime.rs\<close>.
  \<^item> \<^verbatim>\<open>Dispatch\<close> (\<^verbatim>\<open>dispatch.rs\<close>): the pure planners; \<^verbatim>\<open>Standby\<close>
    (\<^verbatim>\<open>dispatch/queue.rs\<close>): the standby queue.
  \<^item> \<^verbatim>\<open>Allocation\<close> (\<^verbatim>\<open>tasks/allocator.rs\<close>): workers, offers, reviews and the
    allocation pass over a desk, which is the store and its allocation tables.
  \<^item> \<^verbatim>\<open>Mailbox\<close> (\<^verbatim>\<open>inbox.rs\<close>): the rows of the mail database, the names of
    mailboxes and the readers; \<^verbatim>\<open>Mail_Store\<close> (\<^verbatim>\<open>inbox_store.rs\<close>,
    \<^verbatim>\<open>inbox_store/retired.rs\<close>): sending, reading, receipts, acknowledging, retention,
    attachments.
  \<^item> \<^verbatim>\<open>Program\<close>: durable steps, a process that may stop between any two of them and others
    that act meanwhile. \<^verbatim>\<open>Dispatch_Gate\<close> (the gate and the materialisation of a handoff),
    \<^verbatim>\<open>Delivery\<close> (the guarded send of \<^verbatim>\<open>flock/sends.rs\<close>, the delivery of a handoff, the
    binding and observing of turns) and \<^verbatim>\<open>Next_Job_Runtime\<close> (advancing a lane, recovery) are
    programs of it, all of \<^verbatim>\<open>tasks/next_job_runtime.rs\<close>.
  \<^item> \<^verbatim>\<open>Standby_Tick\<close> (\<^verbatim>\<open>dispatch/tick.rs\<close>): the tick that fills idle lanes, and its state file.
  \<^item> \<^verbatim>\<open>Watchdog_Config\<close> (\<^verbatim>\<open>watchdog/config.rs\<close>): the schema, its checks and the migration;
    \<^verbatim>\<open>Watchdog_Planner\<close> (\<^verbatim>\<open>watchdog/planner.rs\<close>, \<^verbatim>\<open>watchdog/mod.rs\<close>,
    \<^verbatim>\<open>watchdog/state.rs\<close>): findings, streaks, cooldowns and the plan of a run;
    \<^verbatim>\<open>Watchdog_Report\<close> (\<^verbatim>\<open>watchdog/report.rs\<close>): the text of its messages;
    \<^verbatim>\<open>Watchdog_Run\<close> (\<^verbatim>\<open>watchdog/run.rs\<close>): one pass, from the validation to the heartbeat,
    over senders with a state of their own.

  What the lemmas show. \<^verbatim>\<open>Store_Invariant\<close> states when a store is well formed and how one
  may evolve; \<^verbatim>\<open>Task_Machine\<close> puts the operations together as one step relation and proves
  what holds in every reachable store, over the locales \<open>store_op\<close> and \<open>atomic_op\<close>, which every
  operation interprets. \<^verbatim>\<open>Dependency_Effects\<close>, \<^verbatim>\<open>Lifecycle_Effects\<close>,
  \<^verbatim>\<open>Claim_Effects\<close>, \<^verbatim>\<open>Edit_Effects\<close>, \<^verbatim>\<open>Next_Job_Effects\<close>,
  \<^verbatim>\<open>Allocation_Effects\<close> and \<^verbatim>\<open>Advance_Effects\<close> show what each operation does:
  its effect on every branch, what it leaves alone, who it refuses. \<^verbatim>\<open>Next_Job_Effects\<close> also
  gives the journal an abstract view, a keyed list, which the reader of the events refines.
  \<^verbatim>\<open>Advance_Effects\<close> widens the step relation by the hand-over and the allocator.
  \<^verbatim>\<open>Mail_Machine\<close> makes the inbox a machine of its own and shows that every command rewrites
  rows in place, appends messages or deletes them; \<^verbatim>\<open>Mail_Effects\<close> rests on it for the
  stamps of a message, for who may take unread mail and for the replay of a delivered batch;
  \<^verbatim>\<open>Mail_Outcomes\<close> shows what an acknowledgement settles and that attachments come back.
  \<^verbatim>\<open>Delivery_View\<close> reduces the world to what one handoff sees of it and \<^verbatim>\<open>Delivery_Line\<close> says
  which steps a delivery may take there, in the manner of a guarantee that every program keeps;
  \<^verbatim>\<open>Delivery_Effects\<close> concludes, for a process that may stop anywhere while others leave the
  handoff and its receipt alone, that a line is typed at most once and that what is reported
  sent was typed; \<^verbatim>\<open>Delivery_Retries\<close> that the tries of a lane that may be given work run out,
  and that without the receipt the promise of one line does not hold. \<^verbatim>\<open>Tick_Effects\<close> accounts for the items a
  tick gives and the history it writes. \<^verbatim>\<open>Watchdog_Checks\<close> reads the validated schema as typing
  facts and shows that the migration keeps the policy of a file; \<^verbatim>\<open>Watchdog_Effects\<close> types the
  state; \<^verbatim>\<open>Watchdog_Plan_Effects\<close> shows that a plan never panics, keeps its limits, pages the
  owner only with a warrant and does not repeat itself. \<^verbatim>\<open>Watchdog_Run_State\<close> gives the shape of
  the state file, \<^verbatim>\<open>Watchdog_Run_Steps\<close> shows that every step of a pass is total on it and which
  fields it may write; \<^verbatim>\<open>Watchdog_Run_Effects\<close> puts the steps together: a pass never panics, and
  passes that can save their state never flood the owner; \<^verbatim>\<open>Watchdog_Digest\<close> shows what an accepted and a refused digest
  leave behind.

  Idealisations. A string is its UTF-8 bytes. Seconds (\<^verbatim>\<open>f64\<close>) are real numbers, so rounding
  and NaN are left out. Counters in SQLite and attempts are integers without a bound, except
  where the code narrows them: the \<^verbatim>\<open>i64\<close> of a parsed pull request, the \<^verbatim>\<open>i32\<close> exponent
  of the delivery backoff. The clock is read once per operation. Every loop of the code that is
  modelled runs over a finite list and is a recursion on it, so no fuel is used. Randomness (the
  hex of a message id), the text serde prints for a JSON value, the two reads of the operator
  allowlist, SHA-256, the files of the machine and Unicode's digit class are arguments. In the
  machine of the inbox a send is one step; that its files are stored before its rows is written
  out where it matters. The terminal is a record of what its calls answer. Reading a receipt,
  writing one and the worker that holds the terminal fail where the world says so, and what the
  world says may change between two steps (\<open>os_status_error\<close>, \<open>os_notify_error\<close>,
  \<open>os_worker_error\<close>). The history of the typed lines, each with its pane and text, is kept beside
  the world (\<open>wd_typed\<close>) for the proofs alone, as are the times of the pages the owner's channel
  accepted (\<open>ww_paged\<close>). The lock of a lane lets one of its programs run at a time. The errors of
  the standby queue's database are an argument of the tick (\<open>queue_faults\<close>), a function of the
  sender's state. The senders of a watchdog pass are
  functions of a state the passes share, which may change between them. A Rust panic is the value
  \<open>None\<close>. Numbers of JSON are integers of any size or reals; floats that overflow and NaN are left
  out. The state file of the tick is what was read from it and the error its next write meets.

  Not modelled. The SQLite connection, the writer thread and the migrations; raw JSON block
  reasons; observers other than the notices they are given; statistics and reports. Submitting a
  review under a new revision reopens a finished task without a status event, which breaks the
  account the event log gives, so it is modelled but is not a step of the machine for which that
  account is proved. The guarded allocation, which only adds locks and a timeout to the pass; the
  raw adapters of the standby queue and of the inbox, and the table of all mailboxes; the
  outbox and the confirmation ladder of \<^verbatim>\<open>flock/sends.rs\<close>; the rules of the watchdog, which read
  databases and process tables: a pass takes their findings as an argument; the order of the keys
  of a state file in memory, which a removal changes and saving sorts; roles and policies; terminals, the
  server, its wire protocol and the front ends, which are I/O around this core.
\<close>

end
